(* ===== verification/Prelude.thy ===== *)
theory Prelude
  imports Complex_Main
begin

text \<open>
  Shared vocabulary of the development.

  \<^item> Python exceptions are values of \<open>py_error\<close>; a call that may raise returns
    \<open>'a res\<close> (\<open>Inl\<close> the exception). A call that mutates state before it raises
    returns the state beside the result.
  \<^item> A Python \<open>dict\<close> (or \<open>UserDict\<close>, \<open>OrderedDict\<close>) is an association list in
    insertion order. Its key comparison is the key's \<open>__eq__\<close>/\<open>__hash__\<close>, given
    by a function \<open>f\<close> that maps a key to what it is compared by: \<open>kget\<close>, \<open>kset\<close>
    and \<open>kdel\<close> take it as an argument, \<open>dget\<close>, \<open>dset\<close> and \<open>ddel\<close> compare keys
    structurally. The locale \<open>dict_store\<close> states the laws a client of such a store
    relies on.
  \<^item> An \<open>OrderedSet\<close> is a list without repetitions (\<open>oset_add\<close>).
  \<^item> Number formatting (\<open>%d\<close>, \<open>%x\<close>, \<open>%05d\<close>) is \<open>nat_dec\<close>, \<open>nat_hex\<close>,
    \<open>zpad\<close>, with the facts that make the program's device names and addresses unique.
  \<^item> Python floats are rationals: arithmetic is exact.
\<close>

named_theorems dict_simps \<open>lookup and key facts of dictionary operations\<close>
named_theorems fmt_simps \<open>formatting of numbers\<close>

section \<open>Exceptions\<close>

datatype py_error =
    KeyError | AttributeError | TypeError | ValueError | IndexError | StopIteration
  | NotImplementedError | RuntimeError | OverflowError | ZeroDivisionError
  | UnknownConnection | InterfaceUnknown
  | IOError | ConfigError | ConfigNotSet | ConfigMalformed | ConfigOptionNotSupported
  | NoMoreSubnetsAvailable | SubnetNoMoreIps
  | NoMovementDirector | AlreadyStartedError | AlreadyPerformedShutdownError
  | CalledProcessError | NetworkBackendBridgedError | NetworkBackendUnknown
  | SimulationStateAlreadyStarted | SimulationStateStartFailed | RecursionError
  | Timeout | UnicodeDecodeError | REPLTimeout | REPLUnexpectedResult | QemuMonitorSnapshotLoadError
  | InvalidImage | QemuBootWaitTimeout | VDESWitchHiccup | NetworkBridgeNotExisting | ZMQError | ZeroMQException | AlreadyRunning | SystemExit | Unsupported

type_synonym 'a res = "py_error + 'a"

definition rbind :: "'a res \<Rightarrow> ('a \<Rightarrow> 'b res) \<Rightarrow> 'b res" where
  "rbind r k = (case r of Inl e \<Rightarrow> Inl e | Inr x \<Rightarrow> k x)"

lemma rbind_simps [simp]: "rbind (Inl e) k = Inl e" "rbind (Inr x) k = k x"
  by (simp_all add: rbind_def)

lemma rbind_Inr_iff: "rbind r k = Inr y \<longleftrightarrow> (\<exists>x. r = Inr x \<and> k x = Inr y)"
  by (cases r) simp_all

text \<open>\<open>[f(x) for x in xs]\<close> where \<open>f\<close> may raise: stops at the first exception.\<close>

fun rmap :: "('a \<Rightarrow> 'b res) \<Rightarrow> 'a list \<Rightarrow> 'b list res" where
  "rmap f [] = Inr []"
| "rmap f (x # xs) = rbind (f x) (\<lambda>y. rbind (rmap f xs) (\<lambda>ys. Inr (y # ys)))"

lemma rmap_Inr_length: "rmap f xs = Inr ys \<Longrightarrow> length ys = length xs"
  by (induction xs arbitrary: ys) (auto simp: rbind_Inr_iff)

lemma rmap_Inr_nth: "rmap f xs = Inr ys \<Longrightarrow> i < length xs \<Longrightarrow> f (xs ! i) = Inr (ys ! i)"
  by (induction xs arbitrary: ys i) (auto simp: rbind_Inr_iff nth_Cons split: nat.splits)

section \<open>Dictionaries\<close>

type_synonym ('k, 'v) dict = "('k \<times> 'v) list"

fun kget :: "('k \<Rightarrow> 'e) \<Rightarrow> ('k, 'v) dict \<Rightarrow> 'k \<Rightarrow> 'v option" where
  "kget f [] k = None"
| "kget f ((k', w) # d) k = (if f k' = f k then Some w else kget f d k)"

fun kset :: "('k \<Rightarrow> 'e) \<Rightarrow> ('k, 'v) dict \<Rightarrow> 'k \<Rightarrow> 'v \<Rightarrow> ('k, 'v) dict" where
  "kset f [] k v = [(k, v)]"
| "kset f ((k', w) # d) k v = (if f k' = f k then (k', v) # d else (k', w) # kset f d k v)"

fun kdel :: "('k \<Rightarrow> 'e) \<Rightarrow> ('k, 'v) dict \<Rightarrow> 'k \<Rightarrow> ('k, 'v) dict" where
  "kdel f [] k = []"
| "kdel f ((k', w) # d) k = (if f k' = f k then d else (k', w) # kdel f d k)"

abbreviation kmem :: "('k \<Rightarrow> 'e) \<Rightarrow> ('k, 'v) dict \<Rightarrow> 'k \<Rightarrow> bool" where
  "kmem f d k \<equiv> kget f d k \<noteq> None"

abbreviation dget :: "('k, 'v) dict \<Rightarrow> 'k \<Rightarrow> 'v option" where
  "dget \<equiv> kget (\<lambda>k. k)"

abbreviation dset :: "('k, 'v) dict \<Rightarrow> 'k \<Rightarrow> 'v \<Rightarrow> ('k, 'v) dict" where
  "dset \<equiv> kset (\<lambda>k. k)"

abbreviation ddel :: "('k, 'v) dict \<Rightarrow> 'k \<Rightarrow> ('k, 'v) dict" where
  "ddel \<equiv> kdel (\<lambda>k. k)"

abbreviation dmem :: "('k, 'v) dict \<Rightarrow> 'k \<Rightarrow> bool" where
  "dmem d k \<equiv> dget d k \<noteq> None"

text \<open>No two entries have keys that compare equal: the invariant of every dict.\<close>

definition kwf :: "('k \<Rightarrow> 'e) \<Rightarrow> ('k, 'v) dict \<Rightarrow> bool" where
  "kwf f d \<longleftrightarrow> distinct (map (\<lambda>kv. f (fst kv)) d)"

abbreviation dwf :: "('k, 'v) dict \<Rightarrow> bool" where
  "dwf \<equiv> kwf (\<lambda>k. k)"

lemma kwf_Nil [simp]: "kwf f []"
  by (simp add: kwf_def)

lemma kwf_Cons: "kwf f ((k, v) # d) \<longleftrightarrow> kget f d k = None \<and> kwf f d"
proof -
  have "kget f d k = None \<longleftrightarrow> f k \<notin> (\<lambda>kv. f (fst kv)) ` set d"
    by (induction f d k rule: kget.induct) auto
  then show ?thesis by (auto simp: kwf_def)
qed

lemma kget_cong_key: "f k = f k' \<Longrightarrow> kget f d k = kget f d k'"
  by (induction d) auto

lemma kget_kset [dict_simps]:
  "kget f (kset f d k v) k' = (if f k = f k' then Some v else kget f d k')"
  by (induction f d k v rule: kset.induct) auto

lemma kget_kdel [dict_simps]:
  "kwf f d \<Longrightarrow> kget f (kdel f d k) k' = (if f k = f k' then None else kget f d k')"
proof (induction f d k rule: kdel.induct)
  case (1 f k)
  then show ?case by simp
next
  case (2 f k1 w d k)
  from 2(2) have none: "kget f d k1 = None" and wf: "kwf f d"
    by (simp_all add: kwf_Cons)
  then have "f k1 = f k \<Longrightarrow> f k = f k' \<Longrightarrow> kget f d k' = None"
    using kget_cong_key [of f k1 k' d] by simp
  with 2(1) [OF _ wf] show ?case by auto
qed

lemma kwf_kset [simp, intro]: "kwf f d \<Longrightarrow> kwf f (kset f d k v)"
proof (induction f d k v rule: kset.induct)
  case (1 f k v)
  then show ?case by (simp add: kwf_Cons)
next
  case (2 f k1 w d k v)
  then show ?case by (auto simp: kwf_Cons kget_kset)
qed

lemma kwf_kdel [simp, intro]: "kwf f d \<Longrightarrow> kwf f (kdel f d k)"
proof (induction f d k rule: kdel.induct)
  case (1 f k)
  then show ?case by simp
next
  case (2 f k1 w d k)
  then show ?case by (auto simp: kwf_Cons kget_kdel)
qed

lemma kdel_notmem: "kget f d k = None \<Longrightarrow> kdel f d k = d"
  by (induction f d k rule: kdel.induct) (auto split: if_splits)

lemma length_kdel: "kget f d k \<noteq> None \<Longrightarrow> length (kdel f d k) = length d - 1"
proof (induction f d k rule: kdel.induct)
  case (1 f k)
  then show ?case by simp
next
  case (2 f k1 w d k)
  show ?case
  proof (cases "f k1 = f k")
    case False
    with 2 have "length (kdel f d k) = length d - 1" and "d \<noteq> []" by auto
    with False show ?thesis by (cases d) auto
  qed simp
qed

lemma length_kset: "length (kset f d k v) = (if kget f d k = None then Suc (length d) else length d)"
  by (induction f d k v rule: kset.induct) auto

lemma kget_None_iff: "kget f d k = None \<longleftrightarrow> f k \<notin> (\<lambda>kv. f (fst kv)) ` set d"
  by (induction f d k rule: kget.induct) auto

lemma kget_SomeD: "kget f d k = Some v \<Longrightarrow> \<exists>k'. (k', v) \<in> set d \<and> f k' = f k"
  by (induction f d k rule: kget.induct) (auto split: if_splits)

lemma kget_of_mem: "kwf f d \<Longrightarrow> (k, v) \<in> set d \<Longrightarrow> kget f d k = Some v"
proof (induction d)
  case (Cons kv d)
  obtain k1 w where kv: "kv = (k1, w)" by force
  from Cons.prems have "kget f d k1 = None" "kwf f d" by (simp_all add: kv kwf_Cons)
  with Cons show ?case by (auto simp: kv kget_None_iff image_iff)
qed simp

lemma set_kset: "set (kset f d k v) \<subseteq> set d \<union> {(k', v) | k'. f k' = f k}"
  by (induction f d k v rule: kset.induct) auto

lemma fst_set_kset: "fst ` set (kset f d k v) \<subseteq> insert k (fst ` set d)"
  by (induction f d k v rule: kset.induct) auto

lemma snd_set_kset: "snd ` set (kset f d k v) \<subseteq> insert v (snd ` set d)"
  by (induction f d k v rule: kset.induct) auto

lemma set_kdel: "set (kdel f d k) \<subseteq> set d"
  by (induction f d k rule: kdel.induct) auto

lemma ball_values_kset:
  "\<forall>x \<in> snd ` set d. P x \<Longrightarrow> P v \<Longrightarrow> \<forall>x \<in> snd ` set (kset f d k v). P x"
  using snd_set_kset [of f d k v] by blast

lemma ball_values_kdel: "\<forall>x \<in> snd ` set d. P x \<Longrightarrow> \<forall>x \<in> snd ` set (kdel f d k). P x"
  using set_kdel [of f d k] by blast

lemma kset_kset [simp]: "kset f (kset f d k v) k w = kset f d k w"
  by (induction f d k v rule: kset.induct) auto

lemma kset_same: "kget f d k = Some v \<Longrightarrow> kset f d k v = d"
  by (induction f d k rule: kget.induct) (auto split: if_splits)

lemma keys_kset_mem: "kget f d k \<noteq> None \<Longrightarrow> map fst (kset f d k v) = map fst d"
  by (induction f d k v rule: kset.induct) auto

lemma kset_not_Nil [simp]: "kset f d k v \<noteq> []"
  by (induction f d k v rule: kset.induct) auto

lemma dget_SomeD: "dget d k = Some v \<Longrightarrow> (k, v) \<in> set d"
  using kget_SomeD [of "\<lambda>k. k" d k v] by simp

lemma dget_None_iff: "dget d k = None \<longleftrightarrow> k \<notin> fst ` set d"
  using kget_None_iff [of "\<lambda>k. k" d k] by simp

lemma dget_of_mem: "dwf d \<Longrightarrow> (k, v) \<in> set d \<Longrightarrow> dget d k = Some v"
  by (rule kget_of_mem)

lemma keys_dset: "set (map fst (dset d k v)) = insert k (set (map fst d))"
  by (induction "\<lambda>k::'a. k" d k v rule: kset.induct) auto

text \<open>
  The contract of a dictionary as its clients use it: what a lookup returns after a store
  and after a removal, and that both keep the invariant. \<open>same\<close> is the key comparison.
\<close>

locale dict_store =
  fixes lookup :: "'d \<Rightarrow> 'k \<Rightarrow> 'v option"
    and store :: "'d \<Rightarrow> 'k \<Rightarrow> 'v \<Rightarrow> 'd"
    and remove :: "'d \<Rightarrow> 'k \<Rightarrow> 'd"
    and same :: "'k \<Rightarrow> 'k \<Rightarrow> bool"
    and inv :: "'d \<Rightarrow> bool"
  assumes lookup_store: "inv d \<Longrightarrow> lookup (store d k v) k' = (if same k k' then Some v else lookup d k')"
    and lookup_remove: "inv d \<Longrightarrow> lookup (remove d k) k' = (if same k k' then None else lookup d k')"
    and inv_store: "inv d \<Longrightarrow> inv (store d k v)"
    and inv_remove: "inv d \<Longrightarrow> inv (remove d k)"
    and same_refl: "same k k"
    and same_sym: "same k k' \<Longrightarrow> same k' k"
    and same_trans: "same k k' \<Longrightarrow> same k' k'' \<Longrightarrow> same k k''"
begin

lemma lookup_stored: "inv d \<Longrightarrow> lookup (store d k v) k = Some v"
  by (simp add: lookup_store same_refl)

lemma lookup_removed: "inv d \<Longrightarrow> lookup (remove d k) k = None"
  by (simp add: lookup_remove same_refl)

lemma last_store_wins:
  "inv d \<Longrightarrow> same k k' \<Longrightarrow> lookup (store (store d k v) k' v') x = lookup (store d k' v') x"
  by (auto simp: lookup_store inv_store dest: same_sym intro: same_trans)

lemma store_then_remove:
  "inv d \<Longrightarrow> lookup (remove (store d k v) k) x = lookup (remove d k) x"
  by (simp add: lookup_store lookup_remove inv_store)

lemma store_remove_other:
  "inv d \<Longrightarrow> \<not> same k k' \<Longrightarrow> lookup (store (remove d k) k' v) x = lookup (remove (store d k' v) k) x"
  by (auto simp: lookup_store lookup_remove inv_store inv_remove dest: same_sym intro: same_trans)

end

interpretation plain_dict: dict_store dget dset ddel "(=)" dwf
  by unfold_locales (auto simp: dict_simps)

text \<open>\<open>d[k]\<close> of a builtin dict: \<open>KeyError\<close> when the key is missing.\<close>

definition getitem :: "('k, 'v) dict \<Rightarrow> 'k \<Rightarrow> 'v res" where
  "getitem d k = (case dget d k of None \<Rightarrow> Inl KeyError | Some v \<Rightarrow> Inr v)"

text \<open>\<open>dict(items)\<close> and a dict comprehension: later items overwrite earlier ones.\<close>

definition dict_of :: "('k \<times> 'v) list \<Rightarrow> ('k, 'v) dict" where
  "dict_of kvs = fold (\<lambda>(k, v) d. dset d k v) kvs []"

text \<open>\<open>d.update(e)\<close>\<close>

definition dupdate :: "('k, 'v) dict \<Rightarrow> ('k, 'v) dict \<Rightarrow> ('k, 'v) dict" where
  "dupdate d e = fold (\<lambda>(k, v) d. dset d k v) e d"

lemma dwf_fold_dset: "dwf d \<Longrightarrow> dwf (fold (\<lambda>(k, v) d. dset d k v) e d)"
  by (induction e arbitrary: d) auto

lemma dwf_dict_of [simp, intro]: "dwf (dict_of kvs)"
  by (simp add: dict_of_def dwf_fold_dset)

lemma dwf_dupdate [simp, intro]: "dwf d \<Longrightarrow> dwf (dupdate d e)"
  by (simp add: dupdate_def dwf_fold_dset)

lemma dget_fold_dset:
  "dwf e \<Longrightarrow> dget (fold (\<lambda>(k, v) d. dset d k v) e d) k =
     (case dget e k of None \<Rightarrow> dget d k | Some v \<Rightarrow> Some v)"
proof (induction e arbitrary: d)
  case (Cons kv e)
  obtain k1 w where kv: "kv = (k1, w)" by force
  with Cons show ?case by (auto simp: kwf_Cons kget_kset split: option.splits)
qed simp

lemma dget_dupdate [dict_simps]:
  "dwf e \<Longrightarrow> dget (dupdate d e) k = (case dget e k of None \<Rightarrow> dget d k | Some v \<Rightarrow> Some v)"
  by (simp add: dupdate_def dget_fold_dset)

section \<open>Ordered sets\<close>

definition oset_add :: "'a list \<Rightarrow> 'a \<Rightarrow> 'a list" where
  "oset_add s x = (if x \<in> set s then s else s @ [x])"

definition oset_of :: "'a list \<Rightarrow> 'a list" where
  "oset_of xs = foldl oset_add [] xs"

lemma set_oset_add [simp]: "set (oset_add s x) = insert x (set s)"
  by (auto simp: oset_add_def)

lemma distinct_oset_add [simp, intro]: "distinct s \<Longrightarrow> distinct (oset_add s x)"
  by (simp add: oset_add_def)

lemma foldl_oset_add:
  "set (foldl oset_add s xs) = set s \<union> set xs \<and> (distinct s \<longrightarrow> distinct (foldl oset_add s xs))"
  by (induction xs arbitrary: s) auto

lemma set_oset_of [simp]: "set (oset_of xs) = set xs"
  and distinct_oset_of [simp, intro]: "distinct (oset_of xs)"
  using foldl_oset_add [of "[]" xs] by (simp_all add: oset_of_def)

section \<open>Number formatting\<close>

fun base_digits :: "nat \<Rightarrow> nat \<Rightarrow> nat list" where
  "base_digits b n = (if b < 2 \<or> n < b then [n] else base_digits b (n div b) @ [n mod b])"

declare base_digits.simps [simp del]

definition digit_char :: "nat \<Rightarrow> char" where
  "digit_char d = (if d < 10 then char_of (48 + d) else char_of (87 + d))"

definition nat_dec :: "nat \<Rightarrow> string" where
  "nat_dec n = map digit_char (base_digits 10 n)"

definition nat_hex :: "nat \<Rightarrow> string" where
  "nat_hex n = map digit_char (base_digits 16 n)"

definition int_dec :: "int \<Rightarrow> string" where
  "int_dec i = (if i < 0 then CHR ''-'' # nat_dec (nat (- i)) else nat_dec (nat i))"

text \<open>\<open>%0<w>d\<close>: pad with zeros on the left to the width, longer strings are unchanged.\<close>

definition zpad :: "nat \<Rightarrow> string \<Rightarrow> string" where
  "zpad w s = replicate (w - length s) CHR ''0'' @ s"

definition digits_value :: "nat \<Rightarrow> nat list \<Rightarrow> nat" where
  "digits_value b ds = foldl (\<lambda>a d. a * b + d) 0 ds"

lemma digits_value_base_digits: "2 \<le> b \<Longrightarrow> digits_value b (base_digits b n) = n"
proof (induction b n rule: base_digits.induct)
  case (1 b n)
  then show ?case
    by (cases "n < b") (simp_all add: base_digits.simps [of b n] digits_value_def)
qed

lemma base_digits_small: "2 \<le> b \<Longrightarrow> d \<in> set (base_digits b n) \<Longrightarrow> d < b"
proof (induction b n rule: base_digits.induct)
  case (1 b n)
  then show ?case
    by (cases "n < b") (auto simp: base_digits.simps [of b n])
qed

lemma digits_value_zeros: "digits_value b (replicate k 0 @ ds) = digits_value b ds"
  by (induction k) (simp_all add: digits_value_def)

lemma digit_char_inj: "d < 16 \<Longrightarrow> e < 16 \<Longrightarrow> digit_char d = digit_char e \<Longrightarrow> d = e"
proof -
  assume d: "d < 16" and e: "e < 16" and eq: "digit_char d = digit_char e"
  have "of_char (digit_char x) = (if x < 10 then 48 + x else 87 + x)" if "x < 16" for x :: nat
    using that by (simp add: digit_char_def of_char_of)
  with d e have "(if d < 10 then 48 + d else 87 + d) = (if e < 10 then 48 + e else 87 + e)"
    using eq by metis
  then show "d = e" using d e by (auto split: if_splits)
qed

lemma map_digit_char_inj:
  assumes "map digit_char xs = map digit_char ys"
    and "\<forall>x \<in> set xs. x < 16" and "\<forall>y \<in> set ys. y < 16"
  shows "xs = ys"
  using assms
proof (induction xs arbitrary: ys)
  case (Cons x xs)
  from Cons.prems(1) obtain y ys' where ys: "ys = y # ys'"
    and c: "digit_char x = digit_char y" and t: "map digit_char xs = map digit_char ys'"
    by auto
  from c Cons.prems(2,3) ys have "x = y" by (auto intro: digit_char_inj)
  with Cons.IH [OF t] Cons.prems(2,3) ys show ?case by simp
qed simp

lemma map_digit_char_zpad:
  "zpad w (map digit_char ds) = map digit_char (replicate (w - length ds) 0 @ ds)"
proof -
  have "digit_char 0 = CHR ''0''" by (simp add: digit_char_def) code_simp
  then show ?thesis by (simp add: zpad_def)
qed

lemma zpad_digits_inj:
  assumes b: "2 \<le> b" "b \<le> 16"
    and eq: "zpad w (map digit_char (base_digits b m)) = zpad w (map digit_char (base_digits b n))"
  shows "m = n"
proof -
  have small: "\<forall>d \<in> set (replicate k 0 @ base_digits b x). d < 16" for k x
    using base_digits_small [OF b(1)] b by fastforce
  have "replicate (w - length (base_digits b m)) 0 @ base_digits b m =
        replicate (w - length (base_digits b n)) 0 @ base_digits b n"
    by (rule map_digit_char_inj) (use eq small in \<open>simp_all add: map_digit_char_zpad\<close>)
  then have "digits_value b (base_digits b m) = digits_value b (base_digits b n)"
    by (metis digits_value_zeros)
  then show ?thesis by (simp add: digits_value_base_digits b)
qed

lemma zpad_0 [simp]: "zpad 0 s = s"
  by (simp add: zpad_def)

lemma nat_dec_inj: "nat_dec m = nat_dec n \<Longrightarrow> m = n"
  using zpad_digits_inj [of 10 0 m n] by (simp add: nat_dec_def)

lemma nat_hex_inj: "nat_hex m = nat_hex n \<Longrightarrow> m = n"
  using zpad_digits_inj [of 16 0 m n] by (simp add: nat_hex_def)

lemma zpad_dec_inj: "zpad w (nat_dec m) = zpad w (nat_dec n) \<Longrightarrow> m = n"
  using zpad_digits_inj [of 10 w m n] by (simp add: nat_dec_def)

lemma zpad_hex_inj: "zpad w (nat_hex m) = zpad w (nat_hex n) \<Longrightarrow> m = n"
  using zpad_digits_inj [of 16 w m n] by (simp add: nat_hex_def)

lemma length_base_digits: "2 \<le> b \<Longrightarrow> 0 < k \<Longrightarrow> n < b ^ k \<Longrightarrow> length (base_digits b n) \<le> k"
proof (induction b n arbitrary: k rule: base_digits.induct)
  case (1 b n)
  show ?case
  proof (cases "n < b")
    case False
    with 1(4) have "k \<noteq> 1" by auto
    with 1(3) obtain k' where k: "k = Suc k'" "0 < k'" by (cases k) auto
    with 1(4) have "n div b < b ^ k'"
      using less_mult_imp_div_less [of n "b ^ k'" b] by (simp add: mult.commute)
    with 1 False k show ?thesis by (simp add: base_digits.simps [of b n])
  qed (use 1 in \<open>simp add: base_digits.simps [of b n]\<close>)
qed

lemma length_zpad [fmt_simps]: "length s \<le> w \<Longrightarrow> length (zpad w s) = w"
  by (simp add: zpad_def)

lemma digits_not_special:
  "2 \<le> b \<Longrightarrow> b \<le> 16 \<Longrightarrow> c \<in> set (map digit_char (base_digits b n)) \<Longrightarrow> c \<notin> set ''_,-:./ ''"
proof -
  assume b: "2 \<le> b" "b \<le> 16" and c: "c \<in> set (map digit_char (base_digits b n))"
  then obtain d where d: "d \<in> set (base_digits b n)" "c = digit_char d" by auto
  with b base_digits_small have "d < 16" by fastforce
  then have "d \<in> set [0..<16]" by simp
  then have "digit_char d \<notin> set ''_,-:./ ''"
    by (simp add: upt_rec digit_char_def) (elim disjE; simp add: char_of_def)
  with d show ?thesis by simp
qed

text \<open>Splitting a formatted string at its first separator is unambiguous.\<close>

lemma split_at_sep:
  assumes "xs @ c # xs' = ys @ c # ys'" and "c \<notin> set xs" and "c \<notin> set ys"
  shows "xs = ys \<and> xs' = ys'"
  using assms
proof (induction xs arbitrary: ys)
  case Nil
  then show ?case by (cases ys) auto
next
  case (Cons x xs)
  then show ?case by (cases ys) auto
qed

lemma nat_dec_no_minus: "CHR ''-'' # s \<noteq> nat_dec n"
proof
  assume "CHR ''-'' # s = nat_dec n"
  then have "CHR ''-'' \<in> set (nat_dec n)" by (metis list.set_intros(1))
  then show False using digits_not_special [of 10 "CHR ''-''" n] by (simp add: nat_dec_def)
qed

lemma nat_dec_chars: "c \<in> set (nat_dec n) \<Longrightarrow> 48 \<le> (of_char c :: nat) \<and> (of_char c :: nat) \<le> 57"
  using base_digits_small [of 10 _ n] by (fastforce simp: nat_dec_def digit_char_def)

lemma int_dec_chars: "c \<in> set (int_dec i) \<Longrightarrow> c = CHR ''-'' \<or> 48 \<le> (of_char c :: nat) \<and> (of_char c :: nat) \<le> 57"
  using nat_dec_chars [of c] by (auto simp: int_dec_def split: if_splits)

lemma int_dec_inj: "int_dec i = int_dec j \<Longrightarrow> i = j"
  using nat_dec_no_minus nat_dec_no_minus [symmetric]
  by (auto simp: int_dec_def split: if_splits dest!: nat_dec_inj)

section \<open>Lists\<close>

text \<open>Python's \<open>xs[i]\<close> for a non-negative index.\<close>

definition pyindex :: "'a list \<Rightarrow> nat \<Rightarrow> 'a res" where
  "pyindex xs i = (if i < length xs then Inr (xs ! i) else Inl IndexError)"

text \<open>\<open>sep.join(xs)\<close>\<close>

fun pyjoin :: "string \<Rightarrow> string list \<Rightarrow> string" where
  "pyjoin sep [] = []"
| "pyjoin sep [x] = x"
| "pyjoin sep (x # y # xs) = x @ sep @ pyjoin sep (y # xs)"

text \<open>
  \<open>sorted(xs)\<close>: a stable sort that only calls \<open>__lt__\<close>, written as an insertion
  sort that places each element after every element it is not less than. For a strict
  weak order every stable sort returns this list.
\<close>

fun pyinsort :: "('a \<Rightarrow> 'a \<Rightarrow> bool) \<Rightarrow> 'a \<Rightarrow> 'a list \<Rightarrow> 'a list" where
  "pyinsort lt x [] = [x]"
| "pyinsort lt x (y # ys) = (if lt x y then x # y # ys else y # pyinsort lt x ys)"

definition pysorted :: "('a \<Rightarrow> 'a \<Rightarrow> bool) \<Rightarrow> 'a list \<Rightarrow> 'a list" where
  "pysorted lt xs = foldl (\<lambda>acc x. pyinsort lt x acc) [] xs"

lemma set_pyinsort [simp]: "set (pyinsort lt x xs) = insert x (set xs)"
  by (induction xs) auto

lemma length_pyinsort [simp]: "length (pyinsort lt x xs) = Suc (length xs)"
  by (induction xs) auto

lemma foldl_pyinsort:
  "set (foldl (\<lambda>acc x. pyinsort lt x acc) acc xs) = set acc \<union> set xs \<and>
   length (foldl (\<lambda>acc x. pyinsort lt x acc) acc xs) = length acc + length xs"
  by (induction xs arbitrary: acc) auto

lemma set_pysorted [simp]: "set (pysorted lt xs) = set xs"
  and length_pysorted [simp]: "length (pysorted lt xs) = length xs"
  using foldl_pyinsort [of lt "[]" xs] by (simp_all add: pysorted_def)

lemma sorted_pyinsort:
  fixes g :: "'a \<Rightarrow> 'b :: linorder"
  assumes "\<And>a b. lt a b \<Longrightarrow> g a \<le> g b" and "\<And>a b. \<not> lt a b \<Longrightarrow> g b \<le> g a"
  shows "sorted (map g xs) \<Longrightarrow> sorted (map g (pyinsort lt x xs))"
proof (induction xs)
  case (Cons y ys)
  show ?case
  proof (cases "lt x y")
    case True
    then have "g x \<le> g y" by (rule assms)
    with Cons.prems True show ?thesis by (auto intro: order_trans)
  next
    case False
    then have "g y \<le> g x" by (rule assms)
    with Cons False show ?thesis by simp
  qed
qed simp

lemma sorted_pysorted:
  fixes g :: "'a \<Rightarrow> 'b :: linorder"
  assumes "\<And>a b. lt a b \<Longrightarrow> g a \<le> g b" and "\<And>a b. \<not> lt a b \<Longrightarrow> g b \<le> g a"
  shows "sorted (map g (pysorted lt xs))"
proof -
  have "sorted (map g acc) \<Longrightarrow> sorted (map g (foldl (\<lambda>acc x. pyinsort lt x acc) acc xs))" for acc
    by (induction xs arbitrary: acc) (simp_all add: sorted_pyinsort assms)
  then show ?thesis by (simp add: pysorted_def)
qed

section \<open>Rounding\<close>

text \<open>\<open>round(x)\<close>: to the nearest integer, ties to even.\<close>

definition py_round :: "rat \<Rightarrow> int" where
  "py_round x =
     (let f = \<lfloor>x\<rfloor>; r = x - of_int f
      in if r < 1/2 then f else if r > 1/2 then f + 1 else if even f then f else f + 1)"

lemma py_round_of_int [simp]: "py_round (of_int i) = i"
  by (simp add: py_round_def)

lemma py_round_numeral [simp]: "py_round (numeral n) = numeral n" "py_round 0 = 0" "py_round 1 = 1"
  by (simp_all add: py_round_def)

lemma py_round_nonneg: "0 \<le> x \<Longrightarrow> 0 \<le> py_round x"
  by (auto simp: py_round_def Let_def)

text \<open>\<open>'%.2f' % x\<close>\<close>

definition fmt_2f :: "rat \<Rightarrow> string" where
  "fmt_2f x =
     (let n = nat (py_round (\<bar>x\<bar> * 100))
      in (if x < 0 then ''-'' else []) @ nat_dec (n div 100) @ ''.'' @ zpad 2 (nat_dec (n mod 100)))"

end
