(* ===== verification/Interfaces.thy ===== *)
theory Interfaces
  imports Prelude
begin

text \<open>
  Network interfaces: \<open>model/network/interface/Interface.py\<close> (the interface classes,
  their equality and order, MAC addresses), \<open>Interfaces.py\<close> (the collection, its
  factories and filters), the generic collection \<open>model/Objects.py\<close>, the filters of
  \<open>model/network/backends/InterfaceFilter.py\<close> and the identifiers of
  \<open>model/emulation/InterfaceDependentID.py\<close>.
\<close>

section \<open>Interface classes\<close>

datatype iface_type = HubWiFi | Management | AP | Mesh | ADHoc | Bluetooth | WifiDirect

fun node_class :: "iface_type \<Rightarrow> nat" where
  "node_class HubWiFi = 6"
| "node_class Management = 10"
| "node_class AP = 1"
| "node_class Mesh = 2"
| "node_class ADHoc = 3"
| "node_class Bluetooth = 4"
| "node_class WifiDirect = 5"

fun node_class_name :: "iface_type \<Rightarrow> string" where
  "node_class_name HubWiFi = ''hubwifi''"
| "node_class_name Management = ''management''"
| "node_class_name AP = ''ap''"
| "node_class_name Mesh = ''mesh''"
| "node_class_name ADHoc = ''adhoc''"
| "node_class_name Bluetooth = ''bluetooth''"
| "node_class_name WifiDirect = ''wifidirect''"

definition INTERFACE_ALL_CLASSES_TYPES :: "iface_type list" where
  "INTERFACE_ALL_CLASSES_TYPES = [AP, Mesh, ADHoc, Bluetooth, WifiDirect, HubWiFi, Management]"

definition INTERFACE_NORMAL_CLASSES_TYPES :: "iface_type list" where
  "INTERFACE_NORMAL_CLASSES_TYPES = [HubWiFi, AP, Mesh, ADHoc, Bluetooth]"

definition INTERFACE_NAME_TYPE_MAPPING :: "(string, iface_type) dict" where
  "INTERFACE_NAME_TYPE_MAPPING = dict_of (map (\<lambda>t. (node_class_name t, t)) INTERFACE_ALL_CLASSES_TYPES)"

record interface =
  if_type :: iface_type
  nr_host_interface :: nat

definition interface_init :: "iface_type \<Rightarrow> int \<Rightarrow> interface res" where
  "interface_init t nr = (if nr \<ge> 1 then Inr \<lparr>if_type = t, nr_host_interface = nat nr\<rparr> else Inl ValueError)"

definition interface_str :: "interface \<Rightarrow> string" where
  "interface_str i = node_class_name (if_type i) @ ''_'' @ nat_dec (nr_host_interface i)"

definition eq__comp_attrs :: "interface \<Rightarrow> nat \<times> nat" where
  "eq__comp_attrs i = (node_class (if_type i), nr_host_interface i)"

definition interface_eq :: "interface \<Rightarrow> interface \<Rightarrow> bool" where
  "interface_eq i j \<longleftrightarrow> eq__comp_attrs i = eq__comp_attrs j"

definition interface_lt :: "interface \<Rightarrow> interface \<Rightarrow> bool" where
  "interface_lt i j =
     (if node_class (if_type i) < node_class (if_type j) then True
      else if node_class (if_type i) = node_class (if_type j)
      then nr_host_interface i \<le> nr_host_interface j
      else False)"

definition is_same_interface_type :: "interface \<Rightarrow> interface \<Rightarrow> bool" where
  "is_same_interface_type i j \<longleftrightarrow> node_class (if_type i) = node_class (if_type j)"

definition is_management_interface :: "interface \<Rightarrow> bool" where
  "is_management_interface i \<longleftrightarrow> if_type i = Management"

definition is_hubwifi_interface :: "interface \<Rightarrow> bool" where
  "is_hubwifi_interface i \<longleftrightarrow> if_type i = HubWiFi"

text \<open>\<open>s[a:b]\<close> for \<open>0 <= a <= b\<close>\<close>

definition slice :: "nat \<Rightarrow> nat \<Rightarrow> 'a list \<Rightarrow> 'a list" where
  "slice a b s = take (b - a) (drop a s)"

definition get_mac :: "interface \<Rightarrow> nat \<Rightarrow> string" where
  "get_mac i node_id =
     (let nc = zpad 2 (nat_hex (node_class (if_type i)));
          nr_iface = zpad 2 (nat_hex (nr_host_interface i));
          nid = zpad 8 (nat_hex node_id)
      in nc @ '':'' @ nr_iface @ '':'' @ slice 0 2 nid @ '':'' @ slice 2 4 nid @ '':'' @
         slice 4 6 nid @ '':'' @ slice 6 8 nid)"

section \<open>Collections of interfaces\<close>

definition filter_type :: "('a \<Rightarrow> bool) \<Rightarrow> 'a list \<Rightarrow> 'a list" where
  "filter_type fun xs = filter fun xs"

definition filter_mgmt :: "interface list \<Rightarrow> interface list" where
  "filter_mgmt ifs = filter_type (\<lambda>i. if_type i = Management) ifs"

definition filter_hub_wifi :: "interface list \<Rightarrow> interface list" where
  "filter_hub_wifi ifs = filter_type (\<lambda>i. if_type i = HubWiFi) ifs"

definition filter_normal_interfaces :: "interface list \<Rightarrow> interface list" where
  "filter_normal_interfaces ifs = filter_type (\<lambda>i. if_type i \<in> set INTERFACE_NORMAL_CLASSES_TYPES) ifs"

definition iter_node_classes :: "interface list \<Rightarrow> nat list" where
  "iter_node_classes ifs = map (\<lambda>i. node_class (if_type i)) ifs"

definition iter_node_classes_names :: "interface list \<Rightarrow> string list" where
  "iter_node_classes_names ifs = map (\<lambda>i. node_class_name (if_type i)) ifs"

definition ascii_lower :: "string \<Rightarrow> string" where
  "ascii_lower s = map (\<lambda>c. let n = of_char c :: nat in if 65 \<le> n \<and> n \<le> 90 then char_of (n + 32) else c) s"

definition interface_name_to_type :: "string \<Rightarrow> iface_type res" where
  "interface_name_to_type nm =
     (case dget INTERFACE_NAME_TYPE_MAPPING (ascii_lower nm) of
        None \<Rightarrow> Inl InterfaceUnknown
      | Some t \<Rightarrow> Inr t)"

text \<open>
  \<open>Interfaces.factory\<close>: \<open>counter\<close> is the \<open>defaultdict(lambda: 1)\<close> of the next number
  per type.
\<close>

definition counter_get :: "(iface_type, nat) dict \<Rightarrow> iface_type \<Rightarrow> nat" where
  "counter_get c t = (case dget c t of None \<Rightarrow> 1 | Some n \<Rightarrow> n)"

fun factory_loop :: "(iface_type, nat) dict \<Rightarrow> iface_type list \<Rightarrow> interface list" where
  "factory_loop c [] = []"
| "factory_loop c (t # ts) =
     \<lparr>if_type = t, nr_host_interface = counter_get c t\<rparr> #
     factory_loop (dset c t (counter_get c t + 1)) ts"

definition interfaces_factory :: "iface_type list \<Rightarrow> interface list" where
  "interfaces_factory ts = factory_loop [] ts"

definition factory_from_interface_names :: "string list \<Rightarrow> interface list res" where
  "factory_from_interface_names nms =
     (if nms = [] then Inr []
      else rbind (rmap interface_name_to_type nms) (\<lambda>ts. Inr (interfaces_factory ts)))"

section \<open>Interface filters\<close>

text \<open>
  The generators of \<open>InterfaceFilter\<close>. \<open>EqualInterfaceNumbers\<close> indexes the second
  node's list with the first node's length, so it raises after the pairs it could yield:
  the result is the pairs yielded and the exception, if any.
\<close>

definition equal_interface_numbers :: "interface list \<Rightarrow> interface list \<Rightarrow> (interface \<times> interface) list \<times> py_error option" where
  "equal_interface_numbers ifs_x ifs_y =
     (let xs = filter_normal_interfaces ifs_x; ys = filter_normal_interfaces ifs_y
      in (zip xs ys, if length xs \<le> length ys then None else Some IndexError))"

definition all_interfaces :: "interface list \<Rightarrow> interface list \<Rightarrow> (interface \<times> interface) list" where
  "all_interfaces ifs_x ifs_y =
     List.product (filter_normal_interfaces ifs_x) (filter_normal_interfaces ifs_y)"

section \<open>Identifiers\<close>

definition get_interface_class_dependent_id :: "string \<Rightarrow> nat \<Rightarrow> nat \<Rightarrow> string" where
  "get_interface_class_dependent_id ident cls nr = ident @ ''_'' @ nat_dec cls @ ''_'' @ nat_dec nr"

section \<open>Properties\<close>

lemma node_class_inj: "node_class t = node_class u \<Longrightarrow> t = u"
  by (cases t; cases u) simp_all

lemma node_class_less_256: "node_class t < 256"
  by (cases t) simp_all

lemma interface_eq_iff: "interface_eq i j \<longleftrightarrow> i = j"
  by (auto simp: interface_eq_def eq__comp_attrs_def dest: node_class_inj)

lemma counter_get_dset:
  "counter_get (dset c t n) u = (if t = u then n else counter_get c u)"
  by (simp add: counter_get_def dict_simps)

lemma factory_loop_low:
  "i \<in> set (factory_loop c ts) \<Longrightarrow> counter_get c (if_type i) \<le> nr_host_interface i"
proof (induction c ts rule: factory_loop.induct)
  case (2 c t ts)
  show ?case
  proof (cases "i \<in> set (factory_loop (dset c t (counter_get c t + 1)) ts)")
    case True
    then show ?thesis using 2(1) by (fastforce simp: counter_get_dset split: if_splits)
  qed (use 2(2) in auto)
qed simp

lemma distinct_factory_loop: "distinct (factory_loop c ts)"
proof (induction c ts rule: factory_loop.induct)
  case (2 c t ts)
  then show ?case
    using factory_loop_low [of _ "dset c t (counter_get c t + 1)" ts]
    by (fastforce simp: counter_get_dset)
qed simp

lemma types_factory_loop: "map if_type (factory_loop c ts) = ts"
  by (induction c ts rule: factory_loop.induct) simp_all

text \<open>\<open>Interfaces.factory\<close> creates one interface per requested type, in the requested
  order, all pairwise different under the interfaces' equality, each numbered from 1.
\<close>

theorem factory_distinct:
  "map if_type (interfaces_factory ts) = ts \<and> distinct (interfaces_factory ts) \<and>
   map nr_host_interface (interfaces_factory ts) =
     map (\<lambda>k. Suc (count_list (take k ts) (ts ! k))) [0..<length ts]"
proof -
  have "k < length ts \<Longrightarrow>
      nr_host_interface (factory_loop c ts ! k) = counter_get c (ts ! k) + count_list (take k ts) (ts ! k)"
    for c k
  proof (induction c ts arbitrary: k rule: factory_loop.induct)
    case (2 c t ts)
    then show ?case by (cases k) (auto simp: counter_get_dset)
  qed simp
  moreover have "length (factory_loop c ts) = length ts" for c
    using types_factory_loop [of c ts] by (metis length_map)
  ultimately show ?thesis
    by (auto simp: interfaces_factory_def counter_get_def distinct_factory_loop types_factory_loop
        intro: nth_equalityI)
qed

text \<open>
  The class's \<open>__lt__\<close> compares the host interface numbers with \<open><=\<close>, so it is not
  irreflexive; on different interfaces it is the lexicographic order on class and number.
\<close>

lemma interface_lt_iff:
  "i \<noteq> j \<Longrightarrow> interface_lt i j \<longleftrightarrow>
     node_class (if_type i) < node_class (if_type j) \<or>
     if_type i = if_type j \<and> nr_host_interface i < nr_host_interface j"
  by (cases i; cases j) (auto simp: interface_lt_def dest: node_class_inj)

lemma length_hex2: "n < 256 \<Longrightarrow> length (zpad 2 (nat_hex n)) = 2"
  using length_base_digits [of 16 2 n] by (simp add: nat_hex_def length_zpad)

lemma length_hex8: "n < 2 ^ 32 \<Longrightarrow> length (zpad 8 (nat_hex n)) = 8"
  using length_base_digits [of 16 8 n] by (simp add: nat_hex_def length_zpad)

lemma slices_of_8:
  "length s = 8 \<Longrightarrow> s = slice 0 2 s @ slice 2 4 s @ slice 4 6 s @ slice 6 8 s"
  by (simp add: slice_def drop_take take_add [symmetric] append_assoc [symmetric] del: append_assoc)

text \<open>MAC addresses identify the node and the interface: for node ids below \<open>2^32\<close> and
  interface numbers below 256 two equal addresses come from the same interface of the
  same node.
\<close>

theorem get_mac_inj:
  assumes "nr_host_interface i < 256" "nr_host_interface j < 256" "m < 2 ^ 32" "n < 2 ^ 32"
    and eq: "get_mac i m = get_mac j n"
  shows "i = j \<and> m = n"
proof -
  let ?u = "zpad 8 (nat_hex m)" and ?v = "zpad 8 (nat_hex n)"
  have len: "length ?u = 8" "length ?v = 8"
    using assms length_hex8 by simp_all
  have sl: "length (slice a (a + 2) s) = 2" if "length s = 8" "a \<le> 6" for a and s :: string
    using that by (simp add: slice_def)
  note parts = sl [OF len(1), of 0] sl [OF len(2), of 0] sl [OF len(1), of 2] sl [OF len(2), of 2]
    sl [OF len(1), of 4] sl [OF len(2), of 4] sl [OF len(1), of 6] sl [OF len(2), of 6]
  from eq have nc: "zpad 2 (nat_hex (node_class (if_type i))) = zpad 2 (nat_hex (node_class (if_type j)))"
    and nr: "zpad 2 (nat_hex (nr_host_interface i)) = zpad 2 (nat_hex (nr_host_interface j))"
    and s: "slice 0 2 ?u = slice 0 2 ?v" "slice 2 4 ?u = slice 2 4 ?v"
      "slice 4 6 ?u = slice 4 6 ?v" "slice 6 8 ?u = slice 6 8 ?v"
    using length_hex2 [OF node_class_less_256] length_hex2 [OF assms(1)] length_hex2 [OF assms(2)] parts
    by (simp_all add: get_mac_def Let_def)
  have "?u = ?v" using slices_of_8 [OF len(1)] slices_of_8 [OF len(2)] s by simp
  with nc nr show ?thesis
    by (auto dest!: zpad_hex_inj node_class_inj)
qed

theorem get_mac_inj_witness:
  "get_mac \<lparr>if_type = Mesh, nr_host_interface = 1\<rparr> 256 = get_mac \<lparr>if_type = Mesh, nr_host_interface = 1\<rparr> 256 \<and>
   (256::nat) = 256"
  using get_mac_inj [of "\<lparr>if_type = Mesh, nr_host_interface = 1\<rparr>" "\<lparr>if_type = Mesh, nr_host_interface = 1\<rparr>" 256 256]
  by simp

lemma node_class_name_inj: "node_class_name t = node_class_name u \<Longrightarrow> t = u"
  by (cases t; cases u) simp_all

lemma mapping_lookup: "dget INTERFACE_NAME_TYPE_MAPPING s = Some t \<longleftrightarrow> node_class_name t = s"
  by (cases t) (auto simp: INTERFACE_NAME_TYPE_MAPPING_def INTERFACE_ALL_CLASSES_TYPES_def dict_of_def)

text \<open>\<open>interface_name_to_type\<close> inverts \<open>node_class_name\<close> up to case: it returns a class
  exactly for that class's name, and \<open>InterfaceUnknown\<close> exactly for the names no class has.
\<close>

theorem interface_name_roundtrip:
  "(interface_name_to_type nm = Inr t \<longleftrightarrow> node_class_name t = ascii_lower nm) \<and>
   (interface_name_to_type nm = Inl e \<longleftrightarrow> e = InterfaceUnknown \<and> (\<nexists>u. node_class_name u = ascii_lower nm))"
proof (cases "dget INTERFACE_NAME_TYPE_MAPPING (ascii_lower nm)")
  case None
  then show ?thesis
    using mapping_lookup by (auto simp: interface_name_to_type_def) (metis option.distinct(1))+
next
  case (Some u)
  then have u: "node_class_name u = ascii_lower nm" by (simp add: mapping_lookup)
  from Some have "interface_name_to_type nm = Inr u" by (simp add: interface_name_to_type_def)
  with u show ?thesis using node_class_name_inj [of u t] by auto
qed

end
