(* ===== verification/Nodes.thy ===== *)
theory Nodes
  imports Interfaces
begin

text \<open>
  Nodes: \<open>model/emulation/nodes\<close> (\<open>EmulationNode\<close>, \<open>EmulationNodes\<close> and the virtual
  nodes), the interfaces a node's network backend gives it
  (\<open>EmulationNodeNetworkBackend.__init__\<close> and its multi-device variant), the
  start/shutdown life cycle of \<open>StartableObject\<close> and the registry of objects that
  are reset with a scenario (\<open>SimulationStateGarbageCollector\<close>).

  A node compares equal to another one by its name (the set name, else the decimal id) and
  is sorted by its id; the node stores of \<open>Connection_Store\<close> use both.
\<close>

section \<open>Nodes\<close>

datatype node_kind = RealNode | CentralNode | ManagementNode

record emulation_node =
  en_id :: int
  en_name :: "string option"
  en_kind :: node_kind
  en_interfaces :: "interface list"

text \<open>The id argument of the constructors: the classes pass integers and strings.\<close>

datatype py_id = PyInt int | PyStr string

text \<open>\<open>EmulationNode.name\<close>: \<open>self._name or str(self.id)\<close>.\<close>

definition node_name :: "emulation_node \<Rightarrow> string" where
  "node_name n = (case en_name n of
     Some (c # cs) \<Rightarrow> c # cs
   | _ \<Rightarrow> int_dec (en_id n))"

definition set_node_name :: "string option \<Rightarrow> emulation_node \<Rightarrow> emulation_node" where
  "set_node_name nm n = n\<lparr>en_name := nm\<rparr>"

definition node_eq :: "emulation_node \<Rightarrow> emulation_node \<Rightarrow> bool" where
  "node_eq x y \<longleftrightarrow> node_name x = node_name y"

definition node_lt :: "emulation_node \<Rightarrow> emulation_node \<Rightarrow> bool" where
  "node_lt x y \<longleftrightarrow> en_id x < en_id y"

text \<open>
  \<open>EmulationNodeNetworkBackend.__init__\<close>: the default interface, the management
  interface, and the in-place sort that puts the management interface last. The list is the
  node's own interface list, so the node sees the same interfaces.
\<close>

definition network_mixin_interfaces :: "interface list option \<Rightarrow> bool \<Rightarrow> interface list" where
  "network_mixin_interfaces interfaces management_switch =
     (let ifs = (case interfaces of None \<Rightarrow> interfaces_factory [Mesh] | Some i \<Rightarrow> i);
          ifs = (if management_switch then ifs @ [interfaces_factory [Management] ! 0] else ifs)
      in pysorted interface_lt ifs)"

text \<open>
  \<open>EmulationNodeNetworkBackendBridgedMultiDevice.adjust_interfaces_to_number_of_links\<close>:
  \<open>conns\<close> is \<open>get_all_connections()\<close>, a defaultdict from node id to the set of its peers.
\<close>

definition adjust_interfaces_to_number_of_links ::
  "(int, int list) dict \<Rightarrow> int \<Rightarrow> interface list \<Rightarrow> interface list" where
  "adjust_interfaces_to_number_of_links conns nid interfaces =
     interfaces_factory (concat (map (\<lambda>i.
       if if_type i \<noteq> HubWiFi \<and> if_type i \<noteq> Management
       then map (\<lambda>_. if_type i) (case dget conns nid of None \<Rightarrow> [] | Some peers \<Rightarrow> peers)
       else [if_type i]) interfaces))"

text \<open>\<open>EmulationNode.__init__\<close>: the network backend is created first, then the id is checked.\<close>

definition emulation_node_init ::
  "node_kind \<Rightarrow> py_id \<Rightarrow> interface list \<Rightarrow> bool \<Rightarrow> emulation_node res" where
  "emulation_node_init kind node_id interfaces management_switch =
     (let ifs = network_mixin_interfaces (Some interfaces) management_switch
      in case node_id of
           PyInt i \<Rightarrow> Inr \<lparr>en_id = i, en_name = None, en_kind = kind, en_interfaces = ifs\<rparr>
         | PyStr _ \<Rightarrow> Inl ValueError)"

definition MANAGEMENT_NODE_ID :: int where "MANAGEMENT_NODE_ID = 2 ^ 63 - 1"

definition management_node_init :: "py_id option \<Rightarrow> bool \<Rightarrow> emulation_node res" where
  "management_node_init nid management_switch =
     emulation_node_init ManagementNode (case nid of None \<Rightarrow> PyInt MANAGEMENT_NODE_ID | Some i \<Rightarrow> i)
       (interfaces_factory [Management]) management_switch"

text \<open>
  \<open>CentralNode\<close>: the class counts its instances (\<open>cnt_instances\<close>) and derives ids
  from the count; the count only grows when the constructor succeeds.
\<close>

definition gen_bridge_node_id :: "int \<Rightarrow> int" where
  "gen_bridge_node_id cnt_instances = MANAGEMENT_NODE_ID - cnt_instances - 1"

definition central_node_init :: "int \<Rightarrow> py_id option \<Rightarrow> bool \<Rightarrow> emulation_node res \<times> int" where
  "central_node_init cnt_instances nid management_switch =
     (let i = (case nid of None \<Rightarrow> PyInt (gen_bridge_node_id cnt_instances) | Some i \<Rightarrow> i)
      in case emulation_node_init CentralNode i (interfaces_factory [HubWiFi]) management_switch of
           Inl e \<Rightarrow> (Inl e, cnt_instances)
         | Inr n \<Rightarrow> (Inr n, cnt_instances + 1))"

text \<open>\<open>VirtualNode.__init__\<close>: \<open>self.interface = self.network_mixin.interfaces[0]\<close>.\<close>

definition virtual_node_interface :: "emulation_node \<Rightarrow> interface res" where
  "virtual_node_interface n = pyindex (en_interfaces n) 0"

text \<open>\<open>CentralBridgeNode.__init__\<close>: the id is formatted with \<open>'br_cn_%s'\<close>.\<close>

definition central_bridge_node_init :: "int \<Rightarrow> string \<Rightarrow> bool \<Rightarrow> emulation_node res \<times> int" where
  "central_bridge_node_init cnt_instances nid management_switch =
     central_node_init cnt_instances (Some (PyStr (''br_cn_'' @ nid))) management_switch"

text \<open>\<open>CentralNode\<close>, \<open>ManagementNode\<close> are the subclasses of \<open>VirtualNode\<close>.\<close>

definition is_virtual_node :: "emulation_node \<Rightarrow> bool" where
  "is_virtual_node n \<longleftrightarrow> en_kind n \<noteq> RealNode"

definition is_central_node :: "emulation_node \<Rightarrow> bool" where
  "is_central_node n \<longleftrightarrow> en_kind n = CentralNode"

definition is_management_node :: "emulation_node \<Rightarrow> bool" where
  "is_management_node n \<longleftrightarrow> en_kind n = ManagementNode"

definition is_central_node_interface :: "interface \<Rightarrow> bool" where
  "is_central_node_interface i \<longleftrightarrow> if_type i = HubWiFi"

record connection_info =
  is_remote_conn :: bool
  is_central :: bool
  is_mgmt :: bool

text \<open>\<open>init_connection_info\<close> of the virtual nodes; the base class raises.\<close>

definition init_connection_info :: "emulation_node \<Rightarrow> connection_info res" where
  "init_connection_info n = (case en_kind n of
     CentralNode \<Rightarrow> Inr \<lparr>is_remote_conn = False, is_central = True, is_mgmt = False\<rparr>
   | ManagementNode \<Rightarrow> Inr \<lparr>is_remote_conn = False, is_central = False, is_mgmt = True\<rparr>
   | RealNode \<Rightarrow> Inl AttributeError)"

section \<open>Collections of nodes\<close>

definition filter_real_emulation_nodes :: "emulation_node list \<Rightarrow> emulation_node list" where
  "filter_real_emulation_nodes ns = filter_type (\<lambda>n. \<not> is_virtual_node n) ns"

definition filter_central_nodes :: "emulation_node list \<Rightarrow> emulation_node list" where
  "filter_central_nodes ns = filter_type is_central_node ns"

definition filter_mgmt_nodes :: "emulation_node list \<Rightarrow> emulation_node list" where
  "filter_mgmt_nodes ns = filter_type is_management_node ns"

definition nodes_sorted :: "emulation_node list \<Rightarrow> emulation_node list" where
  "nodes_sorted ns = pysorted node_lt ns"

text \<open>
  \<open>sort_by_locality\<close>: \<open>among\<close> is \<open>SimulationManager.is_connection_among_servers\<close>,
  \<open>local\<close> is \<open>SimulationManager.is_local_node\<close>.
\<close>

definition sort_by_locality ::
  "(emulation_node \<Rightarrow> emulation_node \<Rightarrow> bool) \<Rightarrow> (int \<Rightarrow> bool) \<Rightarrow> emulation_node list \<Rightarrow> emulation_node list res" where
  "sort_by_locality among local ns = (case ns of
     [x, y] \<Rightarrow> Inr (if among x y then (if local (en_id x) then [x, y] else [y, x]) else ns)
   | _ \<Rightarrow> Inl ValueError)"

section \<open>Start and shutdown\<close>

record startable =
  started :: bool
  shutdown_completed :: bool

definition startable_init :: startable where
  "startable_init = \<lparr>started = False, shutdown_completed = False\<rparr>"

text \<open>\<open>body\<close> is the outcome of the subclass's \<open>_start\<close> or \<open>_shutdown\<close>.\<close>

definition start :: "unit res \<Rightarrow> startable \<Rightarrow> unit res \<times> startable" where
  "start body s =
     (if started s then (Inl AlreadyStartedError, s)
      else case body of
             Inl e \<Rightarrow> (Inl e, s)
           | Inr _ \<Rightarrow> (Inr (), s\<lparr>shutdown_completed := False, started := True\<rparr>))"

definition shutdown :: "unit res \<Rightarrow> startable \<Rightarrow> unit res \<times> startable" where
  "shutdown body s =
     (if shutdown_completed s then (Inl AlreadyPerformedShutdownError, s)
      else case body of
             Inl e \<Rightarrow> (Inl e, s)
           | Inr _ \<Rightarrow> (Inr (), s\<lparr>shutdown_completed := True, started := False\<rparr>))"

datatype life_call = Start "unit res" | Shutdown "unit res"

text \<open>A life: the calls on an object, each with its outcome, newest first.\<close>

inductive life :: "startable \<Rightarrow> (life_call \<times> unit res) list \<Rightarrow> bool" where
  life_init: "life startable_init []"
| life_start: "life s tr \<Longrightarrow> start body s = (r, s') \<Longrightarrow> life s' ((Start body, r) # tr)"
| life_shutdown: "life s tr \<Longrightarrow> shutdown body s = (r, s') \<Longrightarrow> life s' ((Shutdown body, r) # tr)"

code_pred life .

text \<open>The calls that took effect, newest first.\<close>

definition effective :: "(life_call \<times> unit res) list \<Rightarrow> life_call list" where
  "effective tr = map fst (filter (\<lambda>cr. snd cr = Inr ()) tr)"

fun is_start :: "life_call \<Rightarrow> bool" where
  "is_start (Start _) = True"
| "is_start (Shutdown _) = False"

section \<open>Objects reset with a scenario\<close>

record 'o gc_state =
  gc_singletons :: "'o list"
  gc_objects :: "'o list"

definition add_singleton :: "'o \<Rightarrow> 'o gc_state \<Rightarrow> 'o gc_state" where
  "add_singleton c g = (if c \<in> set (gc_singletons g) then g
                        else g\<lparr>gc_singletons := gc_singletons g @ [c]\<rparr>)"

definition add_tmp_object :: "'o \<Rightarrow> 'o gc_state \<Rightarrow> 'o gc_state" where
  "add_tmp_object o' g = g\<lparr>gc_objects := gc_objects g @ [o']\<rparr>"

text \<open>
  \<open>reset_simulation_scenario_state\<close>: calls \<open>reset\<close> on every object, then on every
  singleton, over the state of the program; a raising \<open>reset\<close> is logged and the loop goes
  on with the state it left. Returns the order of the calls too.
\<close>

definition reset_all ::
  "('o \<Rightarrow> 's \<Rightarrow> unit res \<times> 's) \<Rightarrow> 'o gc_state \<Rightarrow> 's \<Rightarrow> 'o list \<times> 'o gc_state \<times> 's" where
  "reset_all reset g s =
     (let order = gc_objects g @ gc_singletons g
      in (order, g\<lparr>gc_objects := []\<rparr>, foldl (\<lambda>st x. snd (reset x st)) s order))"

section \<open>Lemmas\<close>

lemma node_eq_equivalence: "node_eq x x" "node_eq x y \<Longrightarrow> node_eq y x"
  "node_eq x y \<Longrightarrow> node_eq y z \<Longrightarrow> node_eq x z"
  by (simp_all add: node_eq_def)

lemma nodes_sorted_pair: "nodes_sorted [x, y] = (if en_id y < en_id x then [y, x] else [x, y])"
  by (simp add: nodes_sorted_def pysorted_def node_lt_def)

lemma interface_lt_key:
  "interface_lt i j \<Longrightarrow> (node_class (if_type i)) \<le> node_class (if_type j)"
  "\<not> interface_lt i j \<Longrightarrow> (node_class (if_type j)) \<le> node_class (if_type i)"
  by (auto simp: interface_lt_def split: if_splits)

inductive_cases life_ConsE: "life s (c # tr)"

lemma life_started_iff:
  "life s tr \<Longrightarrow> (started s \<longleftrightarrow> (\<exists>c cs. effective tr = c # cs \<and> is_start c)) \<and>
     (shutdown_completed s \<longleftrightarrow> (\<exists>c cs. effective tr = c # cs \<and> \<not> is_start c))"
  by (induction rule: life.induct)
    (auto simp: effective_def startable_init_def start_def shutdown_def split: if_splits sum.splits)


lemma sorted_mixin:
  "sorted (map (\<lambda>i. node_class (if_type i)) (network_mixin_interfaces ifs mgmt))"
  unfolding network_mixin_interfaces_def Let_def
  by (rule sorted_pysorted) (auto dest: interface_lt_key)

lemma interfaces_factory_single: "interfaces_factory [t] = [\<lparr>if_type = t, nr_host_interface = 1\<rparr>]"
  by (simp add: interfaces_factory_def counter_get_def)

lemma set_mixin:
  "set (network_mixin_interfaces (Some ifs) mgmt) =
     set ifs \<union> (if mgmt then {\<lparr>if_type = Management, nr_host_interface = 1\<rparr>} else {})"
  by (auto simp: network_mixin_interfaces_def interfaces_factory_single)

lemma length_mixin:
  "length (network_mixin_interfaces (Some ifs) mgmt) = length ifs + (if mgmt then 1 else 0)"
  by (simp add: network_mixin_interfaces_def)

lemma node_class_management_greatest: "10 \<le> node_class t \<Longrightarrow> t = Management"
  by (cases t) auto

text \<open>Central nodes count down from the management node's id; a bridged central node,
  whose id is formatted to a string, is never created.\<close>

lemma central_node_ids:
  "fst (central_node_init c None m) =
     Inr \<lparr>en_id = MANAGEMENT_NODE_ID - c - 1, en_name = None, en_kind = CentralNode,
          en_interfaces = network_mixin_interfaces (Some (interfaces_factory [HubWiFi])) m\<rparr>
   \<and> snd (central_node_init c None m) = c + 1
   \<and> central_bridge_node_init c nid m = (Inl ValueError, c)"
  by (simp add: central_node_init_def emulation_node_init_def gen_bridge_node_id_def
      central_bridge_node_init_def)

section \<open>Properties\<close>

text \<open>A started management switch adds exactly one interface to a node and the node's
  last interface is a management interface, whatever interfaces were asked for.\<close>

theorem management_interface_last:
  assumes "management_switch"
  shows "network_mixin_interfaces (Some ifs) management_switch \<noteq> []
    \<and> if_type (last (network_mixin_interfaces (Some ifs) management_switch)) = Management
    \<and> length (network_mixin_interfaces (Some ifs) management_switch) = Suc (length ifs)
    \<and> set (network_mixin_interfaces (Some ifs) management_switch)
        = insert \<lparr>if_type = Management, nr_host_interface = 1\<rparr> (set ifs)"
proof -
  let ?ifs = "network_mixin_interfaces (Some ifs) management_switch"
  have ne: "?ifs \<noteq> []" using assms length_mixin [of ifs True] by auto
  obtain k where k: "k < length ?ifs" "if_type (?ifs ! k) = Management"
    using assms set_mixin [of ifs True] by (metis UnI2 in_set_conv_nth insertI1 interface.select_convs(1))
  have "node_class (if_type (?ifs ! k)) \<le> node_class (if_type (?ifs ! (length ?ifs - 1)))"
    using sorted_nth_mono [OF sorted_mixin, of k "length ?ifs - 1" "Some ifs" management_switch] k ne
    by simp
  with k have "if_type (?ifs ! (length ?ifs - 1)) = Management"
    by (auto dest: node_class_management_greatest)
  with assms ne show ?thesis by (simp add: last_conv_nth set_mixin length_mixin)
qed

theorem management_interface_last_witness:
  "if_type (last (network_mixin_interfaces (Some (interfaces_factory [Management, HubWiFi])) True)) = Management"
  using management_interface_last [of True "interfaces_factory [Management, HubWiFi]"] by simp

text \<open>In every sequence of start and shutdown calls on an object, whatever the calls'
  bodies do, the calls that take effect alternate between start and shutdown; a start is
  refused with \<open>AlreadyStartedError\<close> exactly while the last effective call is a start, and a
  shutdown with \<open>AlreadyPerformedShutdownError\<close> exactly while it is a shutdown.\<close>

theorem life_alternates:
  assumes "life s tr"
  shows "successively (\<lambda>a b. is_start a \<noteq> is_start b) (effective tr)
    \<and> (start (Inr ()) s = (Inl AlreadyStartedError, s) \<longleftrightarrow> (\<exists>c cs. effective tr = c # cs \<and> is_start c))
    \<and> (shutdown (Inr ()) s = (Inl AlreadyPerformedShutdownError, s)
        \<longleftrightarrow> (\<exists>c cs. effective tr = c # cs \<and> \<not> is_start c))"
proof -
  have "successively (\<lambda>a b. is_start a \<noteq> is_start b) (effective tr)"
    using assms
  proof (induction rule: life.induct)
    case (life_start s tr body r s')
    with life_started_iff [of s tr] show ?case
      by (cases "effective tr") (auto simp: effective_def start_def split: if_splits sum.splits)
  next
    case (life_shutdown s tr body r s')
    with life_started_iff [of s tr] show ?case
      by (cases "effective tr") (auto simp: effective_def shutdown_def split: if_splits sum.splits)
  qed (simp add: effective_def)
  with life_started_iff [OF assms] show ?thesis by (auto simp: start_def shutdown_def)
qed

theorem life_alternates_witness:
  "successively (\<lambda>a b. is_start a \<noteq> is_start b)
     (effective [(Shutdown (Inr ()), Inr ()), (Start (Inr ()), Inl AlreadyStartedError), (Start (Inr ()), Inr ())])"
proof -
  let ?s = "\<lparr>started = True, shutdown_completed = False\<rparr>"
  have "life ?s [(Start (Inr ()), Inr ())]"
    by (rule life_start [OF life_init]) (simp add: start_def startable_init_def)
  then have "life ?s [(Start (Inr ()), Inl AlreadyStartedError), (Start (Inr ()), Inr ())]"
    by (rule life_start) (simp add: start_def)
  then have "life \<lparr>started = False, shutdown_completed = True\<rparr>
      [(Shutdown (Inr ()), Inr ()), (Start (Inr ()), Inl AlreadyStartedError), (Start (Inr ()), Inr ())]"
    by (rule life_shutdown) (simp add: shutdown_def)
  from life_alternates [OF this] show ?thesis by simp
qed

end
