(* ===== verification/Link_Quality.thy ===== *)
theory Link_Quality
  imports Prelude
begin

text \<open>
  Link quality models: \<open>model/network/linkqualitymodels\<close>. A model maps the (rounded)
  distance of two nodes to whether they are connected and to the link quality dict that
  the backend turns into traffic shaping commands. The constructor searches the first
  distance that is not connected (\<open>precalculate\<close>).

  The locale \<open>link_quality_model\<close> states what the rest of the program relies on: links
  only get worse with the distance and break at some distance. It is interpreted for the
  three models of the repository.
\<close>

section \<open>Data\<close>

datatype lq_val = LqNone | LqNum rat | LqStr string

type_synonym link_quality = "(string, lq_val) dict"

definition LINK_QUALITY_KEY_LOSS :: string where "LINK_QUALITY_KEY_LOSS = ''loss''"
definition LINK_QUALITY_KEY_BANDWIDTH :: string where "LINK_QUALITY_KEY_BANDWIDTH = ''bandwidth''"
definition LINK_QUALITY_VAL_LOSS_NONE :: lq_val where "LINK_QUALITY_VAL_LOSS_NONE = LqNum 0"
definition LINK_QUALITY_VAL_BANDWIDTH_UNLIMITED :: lq_val where
  "LINK_QUALITY_VAL_BANDWIDTH_UNLIMITED = LqNone"

definition VAL_DISTANCE_ZERO :: int where "VAL_DISTANCE_ZERO = 0"
definition VAL_DISTANCE_UNLIMITED :: int where "VAL_DISTANCE_UNLIMITED = 2 ^ 63 - 1"

text \<open>Truth value of a dict value, as in \<open>if opt:\<close>.\<close>

fun lq_truthy :: "lq_val \<Rightarrow> bool" where
  "lq_truthy LqNone = False"
| "lq_truthy (LqNum r) = (r \<noteq> 0)"
| "lq_truthy (LqStr s) = (s \<noteq> [])"

section \<open>The models\<close>

text \<open>\<open>LinkQualityModelRange._distance_2_link_quality\<close>\<close>

definition range_link_quality :: "int \<Rightarrow> (bool \<times> link_quality option) res" where
  "range_link_quality distance =
     Inr (if 0 \<le> distance \<and> distance < 30
          then (True, Some (dset [] LINK_QUALITY_KEY_LOSS (LqNum 0)))
          else (False, None))"

definition NETEM_KEYS :: "string list" where
  "NETEM_KEYS = [''limit'', ''delay'', ''loss'', ''corrupt'', ''duplicate'', ''reorder'', ''rate'']"

definition netem_defaults :: link_quality where
  "netem_defaults = map (\<lambda>k. (k, LqNone))
     [''loss'', ''limit'', ''delay'', ''corrupt'', ''duplicate'', ''reorder'', ''rate'']"

definition MAX_BANDWIDTH :: rat where "MAX_BANDWIDTH = 54000"

text \<open>\<open>scenario_config.get_link_bandwidth() or self.MAX_BANDWIDTH\<close>\<close>

definition max_bandwidth :: "rat option \<Rightarrow> rat" where
  "max_bandwidth cfg = (case cfg of None \<Rightarrow> MAX_BANDWIDTH | Some b \<Rightarrow> if b = 0 then MAX_BANDWIDTH else b)"

definition delay_cmd :: "rat \<Rightarrow> string" where
  "delay_cmd delay_const = fmt_2f delay_const @ ''ms '' @ fmt_2f (delay_const / 10) @ ''ms 25%''"

text \<open>\<open>LinkQualityModelWiFiLinear._distance_2_link_quality\<close>\<close>

definition wifi_linear_link_quality :: "rat option \<Rightarrow> int \<Rightarrow> (bool \<times> link_quality option) res" where
  "wifi_linear_link_quality cfg distance =
     (let dist = of_int distance + 1 :: rat; mb = max_bandwidth cfg
      in Inr (if dist \<ge> 0 then
           let dist2 = dist / 2;
               bandwidth = (if dist2 > 1 then mb / dist2 else mb);
               delay_const = (if dist2 > 1 then (dist2 - 1) * 2 else 0);
               lq = dset (dset netem_defaults LINK_QUALITY_KEY_BANDWIDTH (LqNum bandwidth))
                      ''delay'' (LqStr (delay_cmd delay_const))
           in (bandwidth \<ge> 1000, Some lq)
         else (False, Some netem_defaults)))"

text \<open>
  \<open>LinkQualityModelWiFiExponential._distance_2_link_quality\<close>. The divisor is a Python
  integer that is converted to a float by the division: \<open>OverflowError\<close> from \<open>2^1024\<close> on.
\<close>

definition wifi_exponential_link_quality :: "rat option \<Rightarrow> int \<Rightarrow> (bool \<times> link_quality option) res" where
  "wifi_exponential_link_quality cfg distance =
     (let mb = max_bandwidth cfg
      in if distance \<ge> 0 then
           let k = nat distance div 4
           in if k \<ge> 1024 then Inl OverflowError
              else let divisor = 2 ^ k :: rat;
                       bandwidth = (if distance \<ge> 1 then mb / divisor else mb);
                       lq = dset (dset netem_defaults LINK_QUALITY_KEY_BANDWIDTH (LqNum bandwidth))
                              ''delay'' (LqStr (delay_cmd divisor))
                   in Inr (bandwidth \<ge> 1000, Some lq)
         else Inr (False, Some netem_defaults))"

text \<open>\<open>LinkQualityModel.distance_2_link_quality\<close>: the models are asked for whole distances.\<close>

definition distance_2_link_quality ::
  "(int \<Rightarrow> (bool \<times> link_quality option) res) \<Rightarrow> rat \<Rightarrow> (bool \<times> link_quality option) res" where
  "distance_2_link_quality model distance = model (py_round distance)"

text \<open>\<open>get_initial_link_quality\<close> with the constructor's defaults for \<open>bandwidth\<close> and \<open>loss\<close>.\<close>

definition get_initial_link_quality :: "lq_val option \<Rightarrow> lq_val option \<Rightarrow> bool \<times> link_quality" where
  "get_initial_link_quality bandwidth loss =
     (False, [(LINK_QUALITY_KEY_BANDWIDTH, (case bandwidth of None \<Rightarrow> LINK_QUALITY_VAL_BANDWIDTH_UNLIMITED | Some b \<Rightarrow> b)),
              (LINK_QUALITY_KEY_LOSS, (case loss of None \<Rightarrow> LINK_QUALITY_VAL_LOSS_NONE | Some l \<Rightarrow> l))])"

text \<open>
  \<open>precalculate\<close>: \<open>for distance in range(0, sys.maxsize)\<close>, stop at the first distance
  that is not connected; \<open>RuntimeError\<close> when the loop ends without one.
\<close>

function precalculate_loop ::
  "(int \<Rightarrow> (bool \<times> link_quality option) res) \<Rightarrow> int \<Rightarrow> int \<Rightarrow> int res" where
  "precalculate_loop model distance stop =
     (if distance < stop then
        rbind (distance_2_link_quality model (of_int distance)) (\<lambda>(connected, _).
          if connected then precalculate_loop model (distance + 1) stop else Inr distance)
      else Inl RuntimeError)"
  by pat_completeness auto
termination
  by (relation "measure (\<lambda>(model, distance, stop). nat (stop - distance))") auto

declare precalculate_loop.simps [simp del]

definition precalculate :: "(int \<Rightarrow> (bool \<times> link_quality option) res) \<Rightarrow> int res" where
  "precalculate model = precalculate_loop model 0 VAL_DISTANCE_UNLIMITED"

section \<open>The contract of a model\<close>

definition connected_at :: "(int \<Rightarrow> (bool \<times> link_quality option) res) \<Rightarrow> int \<Rightarrow> bool" where
  "connected_at model d = (case model d of Inr (c, _) \<Rightarrow> c | Inl _ \<Rightarrow> False)"

locale link_quality_model =
  fixes model :: "int \<Rightarrow> (bool \<times> link_quality option) res" and reach :: int
  assumes reach_nonneg: "0 \<le> reach"
    and reach_bounded: "reach < VAL_DISTANCE_UNLIMITED"
    and breaks: "\<exists>lq. model reach = Inr (False, lq)"
    and connected_below: "0 \<le> d \<Longrightarrow> d < reach \<Longrightarrow> connected_at model d"
    and disconnected_above: "reach \<le> d \<Longrightarrow> \<not> connected_at model d"
begin

lemma model_below: "0 \<le> d \<Longrightarrow> d < reach \<Longrightarrow> \<exists>lq. model d = Inr (True, lq)"
  using connected_below [of d] by (auto simp: connected_at_def split: sum.splits prod.splits)

lemma precalculate_loop_finds:
  "0 \<le> d \<Longrightarrow> d \<le> reach \<Longrightarrow> precalculate_loop model d VAL_DISTANCE_UNLIMITED = Inr reach"
proof (induction "nat (reach - d)" arbitrary: d)
  case 0
  with breaks reach_bounded show ?case
    by (auto simp: precalculate_loop.simps [of model d] distance_2_link_quality_def)
next
  case (Suc n)
  then have "d < reach" by simp
  with Suc.prems model_below obtain lq where "model d = Inr (True, lq)" by auto
  moreover have "precalculate_loop model (d + 1) VAL_DISTANCE_UNLIMITED = Inr reach"
    using Suc \<open>d < reach\<close> by simp
  ultimately show ?case using \<open>d < reach\<close> reach_bounded
    by (simp add: precalculate_loop.simps [of model d] distance_2_link_quality_def)
qed

lemma precalculate_reach: "precalculate model = Inr reach"
  using precalculate_loop_finds [of 0] reach_nonneg by (simp add: precalculate_def)

lemma connected_iff: "0 \<le> d \<Longrightarrow> connected_at model d \<longleftrightarrow> d < reach"
  using connected_below [of d] disconnected_above [of d] by linarith

end

text \<open>
  The distance matrix stores \<open>UNLIMITED_DISTANCE = -1\<close> for nodes out of range: a model
  that honours it is not connected at a negative distance.
\<close>

locale link_quality_model_unlimited = link_quality_model +
  assumes disconnected_negative: "d < 0 \<Longrightarrow> \<not> connected_at model d"
begin

lemma connected_iff_range: "connected_at model d \<longleftrightarrow> 0 \<le> d \<and> d < reach"
  using connected_iff [of d] disconnected_negative [of d] by linarith

end

interpretation range_model: link_quality_model_unlimited range_link_quality 30
proof unfold_locales
  show "\<exists>lq. range_link_quality 30 = Inr (False, lq)" by (simp add: range_link_quality_def)
qed (simp_all add: range_link_quality_def connected_at_def VAL_DISTANCE_UNLIMITED_def)

lemma max_bandwidth_None [simp]: "max_bandwidth None = 54000"
  by (simp add: max_bandwidth_def MAX_BANDWIDTH_def)

lemma linear_connected:
  assumes "0 \<le> d"
  shows "connected_at (wifi_linear_link_quality cfg) d \<longleftrightarrow>
     (if d \<le> 1 then 1000 \<le> max_bandwidth cfg else 500 * (of_int d + 1) \<le> max_bandwidth cfg)"
proof -
  have "(1 :: rat) < of_int d \<longleftrightarrow> 1 < d" by (metis of_int_1 of_int_less_iff)
  moreover have "(0 :: rat) \<le> of_int d" using assms by simp
  ultimately show ?thesis
    by (auto simp: connected_at_def wifi_linear_link_quality_def Let_def field_simps)
qed

lemma linear_unlimited_connected:
  "connected_at (wifi_linear_link_quality cfg) (-1) \<longleftrightarrow> 1000 \<le> max_bandwidth cfg"
  by (simp add: connected_at_def wifi_linear_link_quality_def Let_def)

interpretation linear_model: link_quality_model "wifi_linear_link_quality None" 108
proof unfold_locales
  show "\<exists>lq. wifi_linear_link_quality None 108 = Inr (False, lq)"
    by (simp add: wifi_linear_link_quality_def Let_def)
  fix d :: int
  have *: "(500 * (of_int d + 1) \<le> (54000 :: rat)) \<longleftrightarrow> d \<le> 107" for d :: int
  proof -
    have "500 * (of_int d + 1) \<le> (54000 :: rat) \<longleftrightarrow> of_int d \<le> (107 :: rat)" by auto
    also have "\<dots> \<longleftrightarrow> d \<le> 107" by (metis of_int_le_iff of_int_numeral)
    finally show ?thesis .
  qed
  show "0 \<le> d \<Longrightarrow> d < 108 \<Longrightarrow> connected_at (wifi_linear_link_quality None) d"
    by (simp add: linear_connected *)
  show "108 \<le> d \<Longrightarrow> \<not> connected_at (wifi_linear_link_quality None) d"
    by (simp add: linear_connected *)
qed (simp_all add: VAL_DISTANCE_UNLIMITED_def)


lemma exponential_connected:
  assumes "0 \<le> d"
  shows "connected_at (wifi_exponential_link_quality None) d \<longleftrightarrow> nat d div 4 \<le> 5"
proof (cases "nat d div 4 < 1024")
  case True
  have "2 ^ k \<le> (54 :: rat) \<longleftrightarrow> k \<le> 5" for k :: nat
  proof
    assume "2 ^ k \<le> (54 :: rat)"
    moreover have "\<not> k \<le> 5 \<Longrightarrow> (2 :: rat) ^ 6 \<le> 2 ^ k" by (rule power_increasing) auto
    ultimately show "k \<le> 5" by (rule_tac ccontr) auto
  next
    assume "k \<le> 5"
    then have "(2 :: rat) ^ k \<le> 2 ^ 5" by (rule power_increasing) auto
    then show "2 ^ k \<le> (54 :: rat)" by simp
  qed
  moreover have "\<not> 1 \<le> d \<Longrightarrow> nat d div 4 = 0" using assms by simp
  ultimately show ?thesis using assms True
    by (auto simp: connected_at_def wifi_exponential_link_quality_def Let_def field_simps)
qed (use assms in \<open>simp add: connected_at_def wifi_exponential_link_quality_def Let_def\<close>)

lemma nat_div4_le5: "0 \<le> d \<Longrightarrow> nat d div 4 \<le> 5 \<longleftrightarrow> d < 24"
  by linarith

interpretation exponential_model: link_quality_model_unlimited "wifi_exponential_link_quality None" 24
proof unfold_locales
  show "\<exists>lq. wifi_exponential_link_quality None 24 = Inr (False, lq)"
    by (simp add: wifi_exponential_link_quality_def Let_def)
  fix d :: int
  show "0 \<le> d \<Longrightarrow> d < 24 \<Longrightarrow> connected_at (wifi_exponential_link_quality None) d"
    by (simp add: exponential_connected nat_div4_le5)
  show "24 \<le> d \<Longrightarrow> \<not> connected_at (wifi_exponential_link_quality None) d"
    by (simp add: exponential_connected nat_div4_le5)
  show "d < 0 \<Longrightarrow> \<not> connected_at (wifi_exponential_link_quality None) d"
    by (simp add: connected_at_def wifi_exponential_link_quality_def Let_def)
qed (simp_all add: VAL_DISTANCE_UNLIMITED_def)

section \<open>Properties\<close>

text \<open>C36: The constructor search \<open>precalculate\<close> of each of the three models ends: the
  maximum connected distance is 30 for the range model, 108 for the linear and 24 for the
  exponential WiFi model (with the default bandwidth), and at every distance from zero on
  a model is connected exactly below that distance.\<close>

theorem max_connected_distance:
  "precalculate range_link_quality = Inr 30
   \<and> precalculate (wifi_linear_link_quality None) = Inr 108
   \<and> precalculate (wifi_exponential_link_quality None) = Inr 24
   \<and> (\<forall>d. (connected_at range_link_quality (int d) \<longleftrightarrow> d < 30)
          \<and> (connected_at (wifi_linear_link_quality None) (int d) \<longleftrightarrow> d < 108)
          \<and> (connected_at (wifi_exponential_link_quality None) (int d) \<longleftrightarrow> d < 24))"
  using range_model.precalculate_reach linear_model.precalculate_reach
    exponential_model.precalculate_reach
  by (simp add: range_model.connected_iff linear_model.connected_iff exponential_model.connected_iff)

text \<open>At the distance -1, by which the distance matrix says that two nodes are out of
  range, the range model and the exponential WiFi model are not connected, while the linear
  WiFi model is, with the full bandwidth and no delay.\<close>

theorem unlimited_distance_connection:
  "distance_2_link_quality range_link_quality (-1) = Inr (False, None)
   \<and> distance_2_link_quality (wifi_exponential_link_quality None) (-1) = Inr (False, Some netem_defaults)
   \<and> (\<exists>lq. distance_2_link_quality (wifi_linear_link_quality None) (-1) = Inr (True, Some lq)
          \<and> dget lq LINK_QUALITY_KEY_BANDWIDTH = Some (LqNum MAX_BANDWIDTH)
          \<and> dget lq ''delay'' = Some (LqStr ''0.00ms 0.00ms 25%''))"
proof -
  have "py_round (- 1) = - 1" using py_round_of_int [of "-1"] by simp
  moreover have "delay_cmd 0 = ''0.00ms 0.00ms 25%''"
    by (simp add: delay_cmd_def fmt_2f_def) code_simp
  ultimately show ?thesis
    by (simp add: distance_2_link_quality_def range_link_quality_def wifi_exponential_link_quality_def
        wifi_linear_link_quality_def Let_def MAX_BANDWIDTH_def dict_simps LINK_QUALITY_KEY_BANDWIDTH_def)
qed

end
