(* ===== verification/Connection_Store.thy ===== *)
theory Connection_Store
  imports Nodes Link_Quality
begin

text \<open>
  The connection store: \<open>model/network/connections\<close>. A \<open>ConnectionStore\<close> holds two
  \<open>NodeConnectionStore\<close>s, one for the active and one for the inactive connections; each
  maps a sorted pair of nodes to a \<open>NICConnectionStore\<close>, which maps a pair of interfaces
  to the \<open>ConnectionDetails\<close> object. The details are mutated in place and moved between
  the two stores, so they live in a heap and the stores hold references.

  Both stores are \<open>TupleUserDict\<close>s: they are interpretations of \<open>dict_store\<close>, and the
  lemmas on the operations use their laws.
\<close>

section \<open>Data\<close>

type_synonym nic_store = "(interface list, nat) dict"
type_synonym node_store = "(emulation_node list, nic_store) dict"

record 'c connection_details =
  cd_connection :: 'c
  cd_link_quality :: "link_quality option"

datatype conn_key = KEY_CONN_ACTIVE | KEY_CONN_NOT_ACTIVE

record 'c connection_store =
  cs_heap :: "'c connection_details list"
  cs_active :: node_store
  cs_not_active :: node_store

text \<open>\<open>TupleUserDict\<close>: a dict whose keys go through \<open>_get_key\<close> first.\<close>

definition tud_get :: "('a \<times> 'a \<Rightarrow> 'k) \<Rightarrow> ('k \<Rightarrow> 'e) \<Rightarrow> ('k, 'v) dict \<Rightarrow> 'a \<times> 'a \<Rightarrow> 'v option" where
  "tud_get gk f d item = kget f d (gk item)"

definition tud_set :: "('a \<times> 'a \<Rightarrow> 'k) \<Rightarrow> ('k \<Rightarrow> 'e) \<Rightarrow> ('k, 'v) dict \<Rightarrow> 'a \<times> 'a \<Rightarrow> 'v \<Rightarrow> ('k, 'v) dict" where
  "tud_set gk f d key item = kset f d (gk key) item"

definition tud_del :: "('a \<times> 'a \<Rightarrow> 'k) \<Rightarrow> ('k \<Rightarrow> 'e) \<Rightarrow> ('k, 'v) dict \<Rightarrow> 'a \<times> 'a \<Rightarrow> ('k, 'v) dict" where
  "tud_del gk f d key = kdel f d (gk key)"

text \<open>\<open>NodeConnectionStore._get_key\<close>: the two nodes, sorted by id; compared by their names.\<close>

definition node_get_key :: "emulation_node \<times> emulation_node \<Rightarrow> emulation_node list" where
  "node_get_key xy = nodes_sorted [fst xy, snd xy]"

definition node_key_eq :: "emulation_node list \<Rightarrow> string list" where
  "node_key_eq = map node_name"

text \<open>\<open>NICConnectionStore._get_key\<close>: the two interfaces in the order given.\<close>

definition nic_get_key :: "interface \<times> interface \<Rightarrow> interface list" where
  "nic_get_key ij = [fst ij, snd ij]"

definition nic_key_eq :: "interface list \<Rightarrow> (nat \<times> nat) list" where
  "nic_key_eq = map eq__comp_attrs"

abbreviation node_get :: "node_store \<Rightarrow> emulation_node \<times> emulation_node \<Rightarrow> nic_store option" where
  "node_get \<equiv> tud_get node_get_key node_key_eq"

abbreviation node_set :: "node_store \<Rightarrow> emulation_node \<times> emulation_node \<Rightarrow> nic_store \<Rightarrow> node_store" where
  "node_set \<equiv> tud_set node_get_key node_key_eq"

abbreviation node_del :: "node_store \<Rightarrow> emulation_node \<times> emulation_node \<Rightarrow> node_store" where
  "node_del \<equiv> tud_del node_get_key node_key_eq"

abbreviation nic_get :: "nic_store \<Rightarrow> interface \<times> interface \<Rightarrow> nat option" where
  "nic_get \<equiv> tud_get nic_get_key nic_key_eq"

abbreviation nic_set :: "nic_store \<Rightarrow> interface \<times> interface \<Rightarrow> nat \<Rightarrow> nic_store" where
  "nic_set \<equiv> tud_set nic_get_key nic_key_eq"

abbreviation nic_del :: "nic_store \<Rightarrow> interface \<times> interface \<Rightarrow> nic_store" where
  "nic_del \<equiv> tud_del nic_get_key nic_key_eq"

section \<open>Operations\<close>

definition connection_store_init :: "'c connection_store" where
  "connection_store_init = \<lparr>cs_heap = [], cs_active = [], cs_not_active = []\<rparr>"

definition get_active_node_connection_store :: "'c connection_store \<Rightarrow> node_store" where
  "get_active_node_connection_store st = cs_active st"

definition get_inactive_node_connection_store :: "'c connection_store \<Rightarrow> node_store" where
  "get_inactive_node_connection_store st = cs_not_active st"

definition get_connections_explicit :: "'c connection_store \<Rightarrow> bool \<Rightarrow> node_store" where
  "get_connections_explicit st active =
     (if active then get_active_node_connection_store st else get_inactive_node_connection_store st)"

text \<open>Assignment through the store object \<open>self[KEY_CONN_...]\<close>.\<close>

definition set_node_store :: "bool \<Rightarrow> node_store \<Rightarrow> 'c connection_store \<Rightarrow> 'c connection_store" where
  "set_node_store active ns st =
     (if active then st\<lparr>cs_active := ns\<rparr> else st\<lparr>cs_not_active := ns\<rparr>)"

definition add_connection ::
  "'c connection_store \<Rightarrow> emulation_node \<Rightarrow> emulation_node \<Rightarrow> interface \<Rightarrow> interface \<Rightarrow> 'c \<Rightarrow> bool
   \<Rightarrow> link_quality option \<Rightarrow> 'c connection_store" where
  "add_connection st nx ny ix iy connection active lq =
     (let conns = (case node_get (get_connections_explicit st active) (nx, ny) of
                     None \<Rightarrow> [] | Some c \<Rightarrow> c);
          ref = length (cs_heap st);
          st = st\<lparr>cs_heap := cs_heap st @ [\<lparr>cd_connection = connection, cd_link_quality = lq\<rparr>]\<rparr>
      in set_node_store active
           (node_set (get_connections_explicit st active) (nx, ny) (nic_set conns (ix, iy) ref)) st)"

definition get_connections_for_nodes_implicit ::
  "'c connection_store \<Rightarrow> emulation_node \<Rightarrow> emulation_node \<Rightarrow> interface \<Rightarrow> interface \<Rightarrow> (conn_key \<times> nic_store) option" where
  "get_connections_for_nodes_implicit st nx ny ix iy =
     (case node_get (get_active_node_connection_store st) (nx, ny) of
        Some nic \<Rightarrow> (if nic_get nic (ix, iy) \<noteq> None then Some (KEY_CONN_ACTIVE, nic)
                    else (case node_get (get_inactive_node_connection_store st) (nx, ny) of
                            Some nic' \<Rightarrow> if nic_get nic' (ix, iy) \<noteq> None
                                         then Some (KEY_CONN_NOT_ACTIVE, nic') else None
                          | None \<Rightarrow> None))
      | None \<Rightarrow> (case node_get (get_inactive_node_connection_store st) (nx, ny) of
                   Some nic' \<Rightarrow> if nic_get nic' (ix, iy) \<noteq> None
                                then Some (KEY_CONN_NOT_ACTIVE, nic') else None
                 | None \<Rightarrow> None))"

text \<open>
  The body of the \<open>try\<close> block of \<open>change_connection_state\<close>: delete from the store
  \<open>from\<close>, then insert into the other one; a \<open>KeyError\<close> ends the block, with what was
  done so far.
\<close>

definition move_connection ::
  "bool \<Rightarrow> 'c connection_store \<Rightarrow> emulation_node \<times> emulation_node \<Rightarrow> interface \<times> interface \<Rightarrow> nat \<Rightarrow> 'c connection_store" where
  "move_connection from_active st node_key iface_key details =
     (case node_get (get_connections_explicit st from_active) node_key of
        None \<Rightarrow> st
      | Some nic \<Rightarrow>
          if nic_get nic iface_key = None then st
          else
            let nic = nic_del nic iface_key;
                src = node_set (get_connections_explicit st from_active) node_key nic;
                src = (if length nic = 0 then node_del src node_key else src);
                st = set_node_store from_active src st
            in (case node_get (get_connections_explicit st (\<not> from_active)) node_key of
                 None \<Rightarrow> st
               | Some dst \<Rightarrow>
                   set_node_store (\<not> from_active)
                     (node_set (get_connections_explicit st (\<not> from_active)) node_key
                        (nic_set dst iface_key details)) st))"

definition change_connection_state ::
  "'c connection_store \<Rightarrow> emulation_node \<Rightarrow> emulation_node \<Rightarrow> interface \<Rightarrow> interface \<Rightarrow> bool
   \<Rightarrow> bool res \<times> 'c connection_store" where
  "change_connection_state st nx ny ix iy now_active =
     (case get_connections_for_nodes_implicit st nx ny ix iy of
        None \<Rightarrow> (Inl AttributeError, st)
      | Some (key, nic) \<Rightarrow>
          (let was_active = (key = KEY_CONN_ACTIVE)
           in (case nic of
                [] \<Rightarrow> (Inl IndexError, st)
              | (_, details) # _ \<Rightarrow>
                  if was_active \<noteq> now_active
                  then (Inr True, move_connection was_active st (nx, ny) (ix, iy) details)
                  else (Inr False, st))))"

definition get_link_quality ::
  "'c connection_store \<Rightarrow> emulation_node \<Rightarrow> emulation_node \<Rightarrow> interface \<Rightarrow> interface \<Rightarrow> 'c connection_details res" where
  "get_link_quality st nx ny ix iy =
     (case get_connections_for_nodes_implicit st nx ny ix iy of
        None \<Rightarrow> Inl TypeError
      | Some (_, nic) \<Rightarrow> (case nic_get nic (ix, iy) of
            None \<Rightarrow> Inl KeyError
          | Some ref \<Rightarrow> Inr (cs_heap st ! ref)))"

definition update_link_quality ::
  "'c connection_store \<Rightarrow> emulation_node \<Rightarrow> emulation_node \<Rightarrow> interface \<Rightarrow> interface \<Rightarrow> link_quality option
   \<Rightarrow> conn_key res \<times> 'c connection_store" where
  "update_link_quality st nx ny ix iy lq =
     (case get_connections_for_nodes_implicit st nx ny ix iy of
        None \<Rightarrow> (Inl UnknownConnection, st)
      | Some (key, nic) \<Rightarrow> (case nic_get nic (ix, iy) of
            None \<Rightarrow> (Inl KeyError, st)
          | Some ref \<Rightarrow> (Inr key, st\<lparr>cs_heap := (cs_heap st)[ref := (cs_heap st ! ref)\<lparr>cd_link_quality := lq\<rparr>]\<rparr>)))"

section \<open>Views\<close>

definition iter_connections :: "'c connection_store \<Rightarrow> (emulation_node list \<times> interface list) list" where
  "iter_connections st =
     concat (map (\<lambda>(emu_nodes, nic). map (\<lambda>ifaces. (emu_nodes, ifaces)) (map fst nic))
       (get_active_node_connection_store st))"

definition get_active_interfaces_per_connection ::
  "'c connection_store \<Rightarrow> (emulation_node list, interface list list) dict" where
  "get_active_interfaces_per_connection st =
     fold (\<lambda>(key, vals) res. if vals \<noteq> [] then kset node_key_eq res key (map fst vals) else res)
       (get_active_node_connection_store st) []"

text \<open>\<open>defaultdict(set)\<close> of nodes; a set of nodes is a list without equal names.\<close>

definition node_set_add :: "emulation_node list \<Rightarrow> emulation_node \<Rightarrow> emulation_node list" where
  "node_set_add s n = (if node_name n \<in> node_name ` set s then s else s @ [n])"

definition get_connections_per_node ::
  "'c connection_store \<Rightarrow> bool \<Rightarrow> (emulation_node, emulation_node list) dict" where
  "get_connections_per_node st active =
     fold (\<lambda>(key, _) topo. case key of
             [x, y] \<Rightarrow> kset node_name topo x
                        (node_set_add (case kget node_name topo x of None \<Rightarrow> [] | Some s \<Rightarrow> s) y)
           | _ \<Rightarrow> topo)
       (get_connections_explicit st active) []"

datatype lq_matrix_val = LqDict "link_quality option" | LqItem lq_val
  | LqIfaces "interface list" "link_quality option"

definition get_val ::
  "'c connection_store \<Rightarrow> bool \<Rightarrow> string option \<Rightarrow> emulation_node list \<Rightarrow> interface list \<Rightarrow> lq_matrix_val res" where
  "get_val st include_interfaces key emu_nodes ifaces =
     rbind (pyindex emu_nodes 0) (\<lambda>nx. rbind (pyindex emu_nodes 1) (\<lambda>ny.
     rbind (pyindex ifaces 0) (\<lambda>ix. rbind (pyindex ifaces 1) (\<lambda>iy.
     rbind (get_link_quality st nx ny ix iy) (\<lambda>details.
       let lq = cd_link_quality details
       in rbind (case key of
                   Some (c # cs) \<Rightarrow> (case lq of
                       None \<Rightarrow> Inl TypeError
                     | Some d \<Rightarrow> rbind (getitem d (c # cs)) (\<lambda>v. Inr (LqItem v)))
                 | _ \<Rightarrow> Inr (LqDict lq))
            (\<lambda>res. Inr (if include_interfaces then LqIfaces ifaces lq else res)))))))"

fun lq_matrix_loop ::
  "'c connection_store \<Rightarrow> bool \<Rightarrow> string option \<Rightarrow> (emulation_node list \<times> interface list) list
   \<Rightarrow> (emulation_node list, lq_matrix_val) dict \<Rightarrow> (emulation_node list, lq_matrix_val) dict res" where
  "lq_matrix_loop st inc key [] d = Inr d"
| "lq_matrix_loop st inc key ((ns, ifs) # rest) d =
     rbind (get_val st inc key ns ifs) (\<lambda>v. lq_matrix_loop st inc key rest (kset node_key_eq d ns v))"

definition get_link_quality_matrix ::
  "'c connection_store \<Rightarrow> bool \<Rightarrow> string option \<Rightarrow> (emulation_node list, lq_matrix_val) dict res" where
  "get_link_quality_matrix st include_interfaces key =
     lq_matrix_loop st include_interfaces key (iter_connections st) []"

text \<open>\<open>NodeDictMixin.to_ids\<close>\<close>

definition to_ids :: "(emulation_node list, 'v) dict \<Rightarrow> (int \<times> int, 'v) dict res" where
  "to_ids d = rbind (rmap (\<lambda>(key, v). case key of [x, y] \<Rightarrow> Inr ((en_id x, en_id y), v) | _ \<Rightarrow> Inl ValueError) d)
     (\<lambda>kvs. Inr (dict_of kvs))"


section \<open>The stores are dictionaries\<close>

definition same_nodes :: "emulation_node \<times> emulation_node \<Rightarrow> emulation_node \<times> emulation_node \<Rightarrow> bool" where
  "same_nodes k k' \<longleftrightarrow> node_key_eq (node_get_key k) = node_key_eq (node_get_key k')"

lemma nic_key_iff: "nic_key_eq (nic_get_key k) = nic_key_eq (nic_get_key k') \<longleftrightarrow> k = k'"
  by (cases k; cases k') (simp add: nic_key_eq_def nic_get_key_def
      interface_eq_iff [unfolded interface_eq_def])

interpretation node_dict: dict_store node_get node_set node_del same_nodes "kwf node_key_eq"
  by unfold_locales (auto simp: tud_get_def tud_set_def tud_del_def same_nodes_def dict_simps)

interpretation nic_dict: dict_store nic_get nic_set nic_del "(=)" "kwf nic_key_eq"
  by unfold_locales (auto simp: tud_get_def tud_set_def tud_del_def nic_key_iff dict_simps)

lemma tud_get_Nil [simp]: "tud_get gk f [] k = None"
  by (simp add: tud_get_def)

lemma node_get_cong: "same_nodes k k' \<Longrightarrow> node_get d k = node_get d k'"
  by (auto simp: same_nodes_def tud_get_def intro: kget_cong_key)

text \<open>Nodes with the same id have the same name unless a name was set by hand.\<close>

lemma same_nodes_swap:
  "(en_id x = en_id y \<longrightarrow> node_name x = node_name y) \<Longrightarrow> same_nodes (x, y) (y, x)"
  by (auto simp: same_nodes_def node_key_eq_def node_get_key_def nodes_sorted_pair)

section \<open>The reference behind a connection\<close>

definition ref_at ::
  "'c connection_store \<Rightarrow> bool \<Rightarrow> emulation_node \<times> emulation_node \<Rightarrow> interface \<times> interface \<Rightarrow> nat option" where
  "ref_at st active nk ik =
     (case node_get (get_connections_explicit st active) nk of None \<Rightarrow> None | Some nic \<Rightarrow> nic_get nic ik)"

definition nic_store_wf :: "nat \<Rightarrow> nic_store \<Rightarrow> bool" where
  "nic_store_wf n nic \<longleftrightarrow> nic \<noteq> [] \<and> kwf nic_key_eq nic \<and> (\<forall>r \<in> snd ` set nic. r < n)"

definition node_store_wf :: "nat \<Rightarrow> node_store \<Rightarrow> bool" where
  "node_store_wf n ns \<longleftrightarrow> kwf node_key_eq ns \<and> (\<forall>nic \<in> snd ` set ns. nic_store_wf n nic)"

definition cs_wf :: "'c connection_store \<Rightarrow> bool" where
  "cs_wf st \<longleftrightarrow> node_store_wf (length (cs_heap st)) (cs_active st)
                \<and> node_store_wf (length (cs_heap st)) (cs_not_active st)"

lemma explicit_simps [simp]:
  "get_connections_explicit (set_node_store a ns st) a' = (if a = a' then ns else get_connections_explicit st a')"
  "get_connections_explicit (st\<lparr>cs_heap := h\<rparr>) a = get_connections_explicit st a"
  "cs_heap (set_node_store a ns st) = cs_heap st"
  by (simp_all add: get_connections_explicit_def set_node_store_def
      get_active_node_connection_store_def get_inactive_node_connection_store_def)

lemma cs_wf_explicit:
  "cs_wf st \<longleftrightarrow> (\<forall>a. node_store_wf (length (cs_heap st)) (get_connections_explicit st a))"
  by (auto simp: cs_wf_def get_connections_explicit_def get_active_node_connection_store_def
      get_inactive_node_connection_store_def split: if_splits)

lemma nic_store_wf_mono: "nic_store_wf n nic \<Longrightarrow> n \<le> m \<Longrightarrow> nic_store_wf m nic"
  by (auto simp: nic_store_wf_def)

lemma node_store_wf_mono: "node_store_wf n ns \<Longrightarrow> n \<le> m \<Longrightarrow> node_store_wf m ns"
  by (auto simp: node_store_wf_def intro: nic_store_wf_mono)

lemma nic_wf_set: "kwf nic_key_eq nic \<Longrightarrow> (\<forall>r \<in> snd ` set nic. r < n) \<Longrightarrow> r < n \<Longrightarrow> nic_store_wf n (nic_set nic ik r)"
  unfolding nic_store_wf_def tud_set_def by (intro conjI kwf_kset kset_not_Nil ball_values_kset; assumption)

lemma nic_wf_update: "nic_store_wf n nic \<Longrightarrow> r < n \<Longrightarrow> nic_store_wf n (nic_set nic ik r)"
  by (rule nic_wf_set) (simp_all add: nic_store_wf_def)

lemma nic_wf_del: "nic_store_wf n nic \<Longrightarrow> nic_del nic ik \<noteq> [] \<Longrightarrow> nic_store_wf n (nic_del nic ik)"
  unfolding nic_store_wf_def tud_del_def by (elim conjE, intro conjI kwf_kdel ball_values_kdel; assumption)

lemma node_wf_set: "node_store_wf n ns \<Longrightarrow> nic_store_wf n nic \<Longrightarrow> node_store_wf n (node_set ns nk nic)"
  unfolding node_store_wf_def tud_set_def by (elim conjE, intro conjI kwf_kset ball_values_kset; assumption)

lemma node_wf_del: "node_store_wf n ns \<Longrightarrow> node_store_wf n (node_del ns nk)"
  unfolding node_store_wf_def tud_del_def by (elim conjE, intro conjI kwf_kdel ball_values_kdel; assumption)

lemma node_del_set: "node_del (node_set ns nk nic) nk = node_del ns nk"
  unfolding tud_del_def tud_set_def
  by (induction node_key_eq ns "node_get_key nk" nic rule: kset.induct) auto

lemma node_wf_get: "node_store_wf n ns \<Longrightarrow> node_get ns nk = Some nic \<Longrightarrow> nic_store_wf n nic"
  by (auto simp: node_store_wf_def tud_get_def dest!: kget_SomeD)

lemma cs_wf_node: "cs_wf st \<Longrightarrow> kwf node_key_eq (get_connections_explicit st a)"
  by (simp add: cs_wf_explicit node_store_wf_def)

lemma cs_wf_nic: "cs_wf st \<Longrightarrow> node_get (get_connections_explicit st a) nk = Some nic \<Longrightarrow> kwf nic_key_eq nic"
  by (metis cs_wf_explicit node_wf_get nic_store_wf_def)


lemma ref_at_bound: "cs_wf st \<Longrightarrow> ref_at st a nk ik = Some r \<Longrightarrow> r < length (cs_heap st)"
proof -
  assume wf: "cs_wf st" and "ref_at st a nk ik = Some r"
  then obtain nic where nic: "node_get (get_connections_explicit st a) nk = Some nic" "nic_get nic ik = Some r"
    by (auto simp: ref_at_def split: option.splits)
  moreover from nic(2) have "r \<in> snd ` set nic" by (force simp: tud_get_def dest: kget_SomeD)
  moreover have "nic_store_wf (length (cs_heap st)) nic"
    using wf nic(1) node_wf_get unfolding cs_wf_explicit by blast
  ultimately show ?thesis unfolding nic_store_wf_def by blast
qed

lemma ref_at_fresh: "cs_wf st \<Longrightarrow> ref_at st a nk ik = Some (length (cs_heap st)) \<Longrightarrow> False"
  using ref_at_bound by blast

lemma ref_at_cong: "same_nodes nk nk' \<Longrightarrow> ref_at st a nk ik = ref_at st a nk' ik"
  by (simp add: ref_at_def node_get_cong)

lemma heap_add:
  "cs_heap (add_connection st nx ny ix iy c a lq) = cs_heap st @ [\<lparr>cd_connection = c, cd_link_quality = lq\<rparr>]"
  by (simp add: add_connection_def Let_def)

lemma ref_at_add:
  assumes "cs_wf st"
  shows "ref_at (add_connection st nx ny ix iy c a lq) a' nk ik =
     (if a' = a \<and> same_nodes (nx, ny) nk \<and> ik = (ix, iy) then Some (length (cs_heap st)) else ref_at st a' nk ik)"
proof (cases "a' = a \<and> same_nodes (nx, ny) nk")
  case True
  then have nk: "node_get (get_connections_explicit st a) nk = node_get (get_connections_explicit st a) (nx, ny)"
    using node_get_cong by metis
  show ?thesis
  proof (cases "node_get (get_connections_explicit st a) (nx, ny)")
    case None
    with True nk assms show ?thesis
      by (auto simp: ref_at_def add_connection_def Let_def node_dict.lookup_store nic_dict.lookup_store
          cs_wf_node)
  next
    case (Some nic)
    with True nk assms show ?thesis
      by (auto simp: ref_at_def add_connection_def Let_def node_dict.lookup_store nic_dict.lookup_store
          cs_wf_node cs_wf_nic)
  qed
next
  case False
  with assms show ?thesis
    by (auto simp: ref_at_def add_connection_def Let_def node_dict.lookup_store cs_wf_node)
qed

lemma cs_wf_add: "cs_wf st \<Longrightarrow> cs_wf (add_connection st nx ny ix iy c a lq)"
proof -
  assume wf: "cs_wf st"
  let ?n = "Suc (length (cs_heap st))"
  let ?conns = "case node_get (get_connections_explicit st a) (nx, ny) of None \<Rightarrow> [] | Some c \<Rightarrow> c"
  have stores: "node_store_wf ?n (get_connections_explicit st b)" for b
    using wf node_store_wf_mono by (metis cs_wf_explicit le_Suc_eq order_refl)
  have "kwf nic_key_eq ?conns \<and> (\<forall>r \<in> snd ` set ?conns. r < ?n)"
    using node_wf_get [OF stores, of a "(nx, ny)"] by (cases "node_get (get_connections_explicit st a) (nx, ny)")
      (simp_all add: nic_store_wf_def)
  then have "nic_store_wf ?n (nic_set ?conns (ix, iy) (length (cs_heap st)))"
    using nic_wf_set by (metis lessI)
  then show ?thesis using stores
    by (auto simp: cs_wf_explicit add_connection_def Let_def intro: node_wf_set)
qed

lemma explicit_move:
  assumes "node_get (get_connections_explicit st a) nk = Some nic" "nic_get nic ik \<noteq> None"
  shows "get_connections_explicit (move_connection a st nk ik d) a =
      (if nic_del nic ik = [] then node_del (get_connections_explicit st a) nk
       else node_set (get_connections_explicit st a) nk (nic_del nic ik))"
    and "get_connections_explicit (move_connection a st nk ik d) (\<not> a) =
      (case node_get (get_connections_explicit st (\<not> a)) nk of
         None \<Rightarrow> get_connections_explicit st (\<not> a)
       | Some dst \<Rightarrow> node_set (get_connections_explicit st (\<not> a)) nk (nic_set dst ik d))"
  using assms by (auto simp: move_connection_def Let_def node_del_set split: option.splits)

lemma move_source:
  assumes wf: "cs_wf st" and nic: "node_get (get_connections_explicit st a) nk = Some nic" "nic_get nic ik \<noteq> None"
  shows "node_get (get_connections_explicit (move_connection a st nk ik d) a) nk' =
    (if same_nodes nk nk' then if nic_del nic ik = [] then None else Some (nic_del nic ik)
     else node_get (get_connections_explicit st a) nk')"
  using assms
  by (simp add: explicit_move node_dict.lookup_store node_dict.lookup_remove cs_wf_node)

lemma move_target:
  assumes wf: "cs_wf st" and nic: "node_get (get_connections_explicit st a) nk = Some nic" "nic_get nic ik \<noteq> None"
  shows "node_get (get_connections_explicit (move_connection a st nk ik d) (\<not> a)) nk' =
    (case node_get (get_connections_explicit st (\<not> a)) nk of
       None \<Rightarrow> node_get (get_connections_explicit st (\<not> a)) nk'
     | Some dst \<Rightarrow> if same_nodes nk nk' then Some (nic_set dst ik d)
                    else node_get (get_connections_explicit st (\<not> a)) nk')"
  using assms
  by (simp add: explicit_move node_dict.lookup_store cs_wf_node split: option.splits)

lemma ref_atE:
  assumes "ref_at st a nk ik = Some r"
  obtains nic where "node_get (get_connections_explicit st a) nk = Some nic" "nic_get nic ik = Some r"
  using assms by (auto simp: ref_at_def split: option.splits)

lemma ref_at_move_source:
  assumes wf: "cs_wf st" and r: "ref_at st a nk ik = Some r"
  shows "ref_at (move_connection a st nk ik d) a nk' ik' =
    (if same_nodes nk nk' \<and> ik' = ik then None else ref_at st a nk' ik')"
proof -
  from r obtain nic where nic: "node_get (get_connections_explicit st a) nk = Some nic" "nic_get nic ik = Some r"
    by (rule ref_atE)
  have wfn: "kwf nic_key_eq nic" using wf nic cs_wf_nic by blast
  have "nic_get (nic_del nic ik) ik' = (if ik = ik' then None else nic_get nic ik')"
    by (rule nic_dict.lookup_remove [OF wfn])
  then show ?thesis
    using nic move_source [OF wf nic(1), of ik d nk'] node_get_cong [of nk nk']
    by (auto simp: ref_at_def)
qed

lemma ref_at_move_target:
  assumes wf: "cs_wf st" and r: "ref_at st a nk ik = Some r"
  shows "ref_at (move_connection a st nk ik d) (\<not> a) nk' ik' =
    (if same_nodes nk nk' \<and> ik' = ik \<and> node_get (get_connections_explicit st (\<not> a)) nk \<noteq> None
     then Some d else ref_at st (\<not> a) nk' ik')"
proof -
  from r obtain nic where nic: "node_get (get_connections_explicit st a) nk = Some nic" "nic_get nic ik = Some r"
    by (rule ref_atE)
  show ?thesis
    using nic(2) move_target [OF wf nic(1), of ik d nk'] node_get_cong [of nk nk'] cs_wf_nic [OF wf, of "\<not> a" nk]
    by (auto simp: ref_at_def nic_dict.lookup_store split: option.splits)
qed

lemma heap_move [simp]: "cs_heap (move_connection a st nk ik d) = cs_heap st"
  by (auto simp: move_connection_def Let_def split: option.splits)

lemma cs_wf_move:
  assumes wf: "cs_wf st" and d: "d < length (cs_heap st)"
  shows "cs_wf (move_connection a st nk ik d)"
proof (cases "ref_at st a nk ik")
  case None
  with wf show ?thesis by (auto simp: ref_at_def move_connection_def split: option.splits)
next
  case (Some r)
  let ?n = "length (cs_heap st)"
  from Some obtain nic where nic: "node_get (get_connections_explicit st a) nk = Some nic" "nic_get nic ik = Some r"
    by (rule ref_atE)
  have stores: "node_store_wf ?n (get_connections_explicit st b)" for b
    using wf by (simp add: cs_wf_explicit)
  have nicwf: "nic_store_wf ?n dst" if "node_get (get_connections_explicit st b) nk = Some dst" for b dst
    using node_wf_get [OF stores that] .
  have "nic_del nic ik \<noteq> [] \<Longrightarrow> node_store_wf ?n (node_set (get_connections_explicit st a) nk (nic_del nic ik))"
    using nic_wf_del [OF nicwf [OF nic(1)]] node_wf_set [OF stores] by blast
  moreover have "node_store_wf ?n (node_set (get_connections_explicit st (\<not> a)) nk (nic_set dst ik d))"
    if "node_get (get_connections_explicit st (\<not> a)) nk = Some dst" for dst
    by (intro node_wf_set [OF stores] nic_wf_update [OF nicwf [OF that]] d)
  ultimately have "node_store_wf ?n (get_connections_explicit (move_connection a st nk ik d) a)"
    and "node_store_wf ?n (get_connections_explicit (move_connection a st nk ik d) (\<not> a))"
    using nic(2) stores node_wf_del [OF stores]
    by (simp_all add: explicit_move [OF nic(1)] split: option.splits)
  then have "node_store_wf ?n (get_connections_explicit (move_connection a st nk ik d) b)" for b
    by (cases a; cases b) simp_all
  then show ?thesis by (simp add: cs_wf_explicit)
qed


section \<open>The operations through the references\<close>

lemmas explicit_defs = get_connections_explicit_def get_active_node_connection_store_def
  get_inactive_node_connection_store_def

lemma implicit_ref:
  "get_connections_for_nodes_implicit st nx ny ix iy =
     (if ref_at st True (nx, ny) (ix, iy) \<noteq> None
      then map_option (Pair KEY_CONN_ACTIVE) (node_get (cs_active st) (nx, ny))
      else if ref_at st False (nx, ny) (ix, iy) \<noteq> None
      then map_option (Pair KEY_CONN_NOT_ACTIVE) (node_get (cs_not_active st) (nx, ny))
      else None)"
  by (auto simp: get_connections_for_nodes_implicit_def ref_at_def explicit_defs split: option.splits)

lemma get_link_quality_ref:
  "get_link_quality st nx ny ix iy =
     (case ref_at st True (nx, ny) (ix, iy) of
        Some r \<Rightarrow> Inr (cs_heap st ! r)
      | None \<Rightarrow> (case ref_at st False (nx, ny) (ix, iy) of
            Some r \<Rightarrow> Inr (cs_heap st ! r) | None \<Rightarrow> Inl TypeError))"
  by (auto simp: get_link_quality_def implicit_ref ref_at_def explicit_defs split: option.splits)

lemma update_link_quality_ref:
  "update_link_quality st nx ny ix iy lq =
     (case ref_at st True (nx, ny) (ix, iy) of
        Some r \<Rightarrow> (Inr KEY_CONN_ACTIVE, st\<lparr>cs_heap := (cs_heap st)[r := (cs_heap st ! r)\<lparr>cd_link_quality := lq\<rparr>]\<rparr>)
      | None \<Rightarrow> (case ref_at st False (nx, ny) (ix, iy) of
            Some r \<Rightarrow> (Inr KEY_CONN_NOT_ACTIVE, st\<lparr>cs_heap := (cs_heap st)[r := (cs_heap st ! r)\<lparr>cd_link_quality := lq\<rparr>]\<rparr>)
          | None \<Rightarrow> (Inl UnknownConnection, st)))"
  by (auto simp: update_link_quality_def implicit_ref ref_at_def explicit_defs split: option.splits)

lemma ref_at_heap [simp]: "ref_at (st\<lparr>cs_heap := h\<rparr>) = ref_at st"
  by (simp add: ref_at_def fun_eq_iff)

lemma change_cases:
  assumes "cs_wf st"
  obtains (unknown) "ref_at st True (nx, ny) (ix, iy) = None" "ref_at st False (nx, ny) (ix, iy) = None"
      "change_connection_state st nx ny ix iy now = (Inl AttributeError, st)"
    | (known) a r d nic where "a = (ref_at st True (nx, ny) (ix, iy) \<noteq> None)"
      "ref_at st a (nx, ny) (ix, iy) = Some r" "d < length (cs_heap st)"
      "node_get (get_connections_explicit st a) (nx, ny) = Some nic" "d = snd (hd nic)"
      "change_connection_state st nx ny ix iy now =
         (if a \<noteq> now then (Inr True, move_connection a st (nx, ny) (ix, iy) d) else (Inr False, st))"
proof (cases "\<exists>a. ref_at st a (nx, ny) (ix, iy) \<noteq> None")
  case False
  then have "ref_at st a (nx, ny) (ix, iy) = None" for a by blast
  then show ?thesis by (intro unknown) (simp_all add: change_connection_state_def implicit_ref)
next
  case True
  define a where "a = (ref_at st True (nx, ny) (ix, iy) \<noteq> None)"
  from True obtain b r' where "ref_at st b (nx, ny) (ix, iy) = Some r'" by blast
  then have "\<exists>r. ref_at st a (nx, ny) (ix, iy) = Some r"
    by (cases "ref_at st True (nx, ny) (ix, iy)"; cases b) (simp_all add: a_def)
  then obtain r where r: "ref_at st a (nx, ny) (ix, iy) = Some r" by blast
  then obtain nic where nic: "node_get (get_connections_explicit st a) (nx, ny) = Some nic" by (rule ref_atE)
  with assms have "nic_store_wf (length (cs_heap st)) nic"
    using node_wf_get unfolding cs_wf_explicit by blast
  then obtain k d rest where hd: "nic = (k, d) # rest" "d < length (cs_heap st)"
    by (cases nic) (auto simp: nic_store_wf_def)
  have "get_connections_for_nodes_implicit st nx ny ix iy =
      Some (if a then KEY_CONN_ACTIVE else KEY_CONN_NOT_ACTIVE, nic)"
    using r nic by (cases a) (auto simp: a_def implicit_ref explicit_defs)
  then show ?thesis
    using r nic hd by (intro known [of a r d nic]) (auto simp: a_def change_connection_state_def)
qed

lemma cs_wf_change: "cs_wf st \<Longrightarrow> cs_wf (snd (change_connection_state st nx ny ix iy now))"
proof -
  assume wf: "cs_wf st"
  then show ?thesis
  proof (cases rule: change_cases [of st nx ny ix iy now])
    case (known a r d nic)
    have "cs_wf (move_connection a st (nx, ny) (ix, iy) d)" by (rule cs_wf_move [OF wf known(3)])
    with wf show ?thesis unfolding known(6) by (cases a; cases now) simp_all
  qed (use wf in simp)
qed

lemma cs_wf_update: "cs_wf st \<Longrightarrow> cs_wf (snd (update_link_quality st nx ny ix iy lq))"
  by (auto simp: update_link_quality_ref cs_wf_explicit split: option.splits)

lemma cs_wf_init: "cs_wf connection_store_init"
  by (simp add: cs_wf_def connection_store_init_def node_store_wf_def)

section \<open>The store as the network manager uses it\<close>

text \<open>
  \<open>NetworkManager.after_link_initial_start\<close> is the only caller of \<open>add_connection\<close>
  and adds to the active connections; \<open>link_up\<close>/\<open>link_down\<close> change the state and
  \<open>after_link_quality_adjustment\<close> updates the link quality.
\<close>

inductive cs_reachable :: "'c connection_store \<Rightarrow> bool" where
  reach_init: "cs_reachable connection_store_init"
| reach_add: "cs_reachable st \<Longrightarrow> cs_reachable (add_connection st nx ny ix iy c True lq)"
| reach_change: "cs_reachable st \<Longrightarrow> cs_reachable (snd (change_connection_state st nx ny ix iy now))"
| reach_update: "cs_reachable st \<Longrightarrow> cs_reachable (snd (update_link_quality st nx ny ix iy lq))"

lemma reachable_wf: "cs_reachable st \<Longrightarrow> cs_wf st"
  by (induction rule: cs_reachable.induct)
    (simp_all add: cs_wf_init cs_wf_add cs_wf_change cs_wf_update)

lemma not_active_change:
  "cs_wf st \<Longrightarrow> cs_not_active st = [] \<Longrightarrow> cs_not_active (snd (change_connection_state st nx ny ix iy now)) = []"
proof (erule change_cases [of st nx ny ix iy now], simp)
  fix a r d nic
  assume empty: "cs_not_active st = []" and r: "ref_at st a (nx, ny) (ix, iy) = Some r"
    and nic: "node_get (get_connections_explicit st a) (nx, ny) = Some nic"
    and ch: "change_connection_state st nx ny ix iy now =
      (if a \<noteq> now then (Inr True, move_connection a st (nx, ny) (ix, iy) d) else (Inr False, st))"
  from empty r have "a" by (cases a) (auto simp: ref_at_def explicit_defs)
  moreover from r nic have "nic_get nic (ix, iy) \<noteq> None" by (auto simp: ref_at_def)
  ultimately have "get_connections_explicit (move_connection True st (nx, ny) (ix, iy) d) False = []"
    using explicit_move(2) [of st True "(nx, ny)" nic "(ix, iy)" d] nic empty by (simp add: explicit_defs)
  with ch \<open>a\<close> empty show "cs_not_active (snd (change_connection_state st nx ny ix iy now)) = []"
    by (simp add: explicit_defs)
qed

lemma reachable_not_active: "cs_reachable st \<Longrightarrow> cs_not_active st = []"
proof (induction rule: cs_reachable.induct)
  case (reach_change st nx ny ix iy now)
  then show ?case using not_active_change reachable_wf by blast
qed (auto simp: connection_store_init_def add_connection_def Let_def set_node_store_def
    update_link_quality_ref split: option.splits)

lemma ref_at_False_reachable: "cs_reachable st \<Longrightarrow> ref_at st False nk ik = None"
  by (simp add: ref_at_def explicit_defs reachable_not_active)

lemma ref_at_change:
  assumes "cs_reachable st"
  shows "ref_at (snd (change_connection_state st nx ny ix iy now)) True nk ik =
    (if \<not> now \<and> same_nodes (nx, ny) nk \<and> ik = (ix, iy) then None else ref_at st True nk ik)"
  using reachable_wf [OF assms]
proof (cases rule: change_cases [of st nx ny ix iy now])
  case unknown
  then show ?thesis using ref_at_cong [of "(nx, ny)" nk st True "(ix, iy)"] by auto
next
  case (known a r d nic)
  then have "a" using ref_at_False_reachable [OF assms, of "(nx, ny)" "(ix, iy)"] by (cases a) auto
  with known show ?thesis
    using ref_at_move_source [OF reachable_wf [OF assms], of True "(nx, ny)" "(ix, iy)"] by auto
qed

lemma reachable_refs_inj:
  "cs_reachable st \<Longrightarrow> ref_at st True nk ik = Some r \<Longrightarrow> ref_at st True nk' ik' = Some r \<Longrightarrow>
   same_nodes nk nk' \<and> ik = ik'"
proof (induction arbitrary: nk ik nk' ik' r rule: cs_reachable.induct)
  case reach_init
  then show ?case by (simp add: ref_at_def connection_store_init_def explicit_defs)
next
  case (reach_add st nx ny ix iy c lq)
  then show ?case
    using node_dict.same_sym [of "(nx, ny)"] node_dict.same_trans [of nk "(nx, ny)" nk']
    by (auto simp: ref_at_add reachable_wf split: if_splits dest: ref_at_fresh [OF reachable_wf])
next
  case (reach_change st nx ny ix iy now)
  then show ?case by (auto simp: ref_at_change split: if_splits)
next
  case (reach_update st nx ny ix iy lq)
  then show ?case by (auto simp: update_link_quality_ref split: option.splits)
qed


section \<open>Properties\<close>

text \<open>C6: The connection store's well-formedness (no two entries with equal keys, no empty
  interface store, every details reference allocated) holds initially and is preserved by
  adding a connection, changing its state and updating its link quality, on every branch.\<close>

theorem connection_store_invariant:
  fixes st :: "'c connection_store"
  shows "cs_wf (connection_store_init :: 'c connection_store)
   \<and> (cs_wf st \<longrightarrow> cs_wf (add_connection st nx ny ix iy c active lq)
        \<and> cs_wf (snd (change_connection_state st nx ny ix iy now))
        \<and> cs_wf (snd (update_link_quality st nx ny ix iy lq)))"
  by (simp add: cs_wf_init cs_wf_add cs_wf_change cs_wf_update)

definition ex_node :: "int \<Rightarrow> emulation_node" where
  "ex_node i = \<lparr>en_id = i, en_name = None, en_kind = RealNode, en_interfaces = []\<rparr>"

definition ex_mesh :: "nat \<Rightarrow> interface" where
  "ex_mesh k = \<lparr>if_type = Mesh, nr_host_interface = k\<rparr>"

definition ex_store :: "nat connection_store" where
  "ex_store = add_connection connection_store_init (ex_node 1) (ex_node 2) (ex_mesh 1) (ex_mesh 2) 7 True None"

theorem connection_store_invariant_witness:
  "cs_wf (snd (change_connection_state ex_store (ex_node 2) (ex_node 1) (ex_mesh 1) (ex_mesh 2) False))"
proof -
  have "cs_wf ex_store"
    using connection_store_invariant [where 'c = nat] unfolding ex_store_def by blast
  then show ?thesis using connection_store_invariant [where 'c = nat] by blast
qed

text \<open>C8: After a connection is added it is found with the details it was added with, from
  both directions of the node pair, and the link quality of every other connection of the
  store (another node pair or another interface pair) is unchanged.\<close>

theorem add_connection_lookup:
  assumes "cs_wf st" and "en_id nx = en_id ny \<longrightarrow> node_name nx = node_name ny"
    and "active \<or> ref_at st True (nx, ny) (ix, iy) = None"
    and other: "\<not> same_nodes (nx, ny) (x, y) \<or> (i, j) \<noteq> (ix, iy)"
  shows "get_link_quality (add_connection st nx ny ix iy c active lq) nx ny ix iy
           = Inr \<lparr>cd_connection = c, cd_link_quality = lq\<rparr>
    \<and> get_link_quality (add_connection st nx ny ix iy c active lq) ny nx ix iy
           = Inr \<lparr>cd_connection = c, cd_link_quality = lq\<rparr>
    \<and> get_link_quality (add_connection st nx ny ix iy c active lq) x y i j = get_link_quality st x y i j"
proof -
  let ?st = "add_connection st nx ny ix iy c active lq"
  have swap: "same_nodes (nx, ny) (ny, nx)" using assms(2) by (rule same_nodes_swap)
  have new: "get_link_quality ?st nx ny ix iy = Inr \<lparr>cd_connection = c, cd_link_quality = lq\<rparr>"
    using assms by (auto simp: get_link_quality_ref ref_at_add node_dict.same_refl heap_add split: option.splits)
  moreover have "get_link_quality ?st ny nx ix iy = get_link_quality ?st nx ny ix iy"
    unfolding get_link_quality_ref ref_at_cong [OF swap] ..
  moreover have "ref_at ?st a (x, y) (i, j) = ref_at st a (x, y) (i, j)" for a
    using other assms(1) by (auto simp: ref_at_add)
  then have "get_link_quality ?st x y i j = get_link_quality st x y i j"
    using ref_at_bound [OF assms(1)]
    by (auto simp: get_link_quality_ref heap_add nth_append split: option.splits)
  ultimately show ?thesis by simp
qed

theorem add_connection_lookup_witness:
  "get_link_quality ex_store (ex_node 2) (ex_node 1) (ex_mesh 1) (ex_mesh 2)
     = Inr \<lparr>cd_connection = 7, cd_link_quality = None\<rparr>
   \<and> get_link_quality ex_store (ex_node 2) (ex_node 1) (ex_mesh 2) (ex_mesh 1) = Inl TypeError"
proof -
  have "get_link_quality (connection_store_init :: nat connection_store) x y i j = Inl TypeError" for x y i j
    by (simp add: get_link_quality_ref ref_at_def connection_store_init_def explicit_defs)
  then show ?thesis
    using add_connection_lookup [of connection_store_init "ex_node 1" "ex_node 2" True "ex_mesh 1" "ex_mesh 2"
        "ex_node 2" "ex_node 1" "ex_mesh 2" "ex_mesh 1" "7 :: nat" None]
    unfolding ex_store_def by (simp add: cs_wf_init) (simp add: ex_node_def ex_mesh_def)
qed

text \<open>C1: In every state the network manager can bring the store into, the inactive
  store is empty and no two connections share a details object. Taking a known connection
  down reports success and removes the connection: it is unknown afterwards, so bringing it
  up again raises \<open>AttributeError\<close> (not \<open>UnknownConnection\<close>), and every other connection
  is kept.\<close>

theorem link_down_forgets_connection:
  assumes "cs_reachable st"
    and "get_link_quality st nx ny ix iy = Inr details"
  defines "st' \<equiv> snd (change_connection_state st nx ny ix iy False)"
  shows "fst (change_connection_state st nx ny ix iy False) = Inr True
    \<and> cs_not_active st' = []
    \<and> get_link_quality st' nx ny ix iy = Inl TypeError
    \<and> change_connection_state st' nx ny ix iy True = (Inl AttributeError, st')
    \<and> (\<not> same_nodes (nx, ny) (x, y) \<or> (i, j) \<noteq> (ix, iy) \<longrightarrow>
         get_link_quality st' x y i j = get_link_quality st x y i j)"
proof -
  have reach: "cs_reachable st'" unfolding st'_def by (rule reach_change [OF assms(1)])
  have none: "ref_at st' True (nx, ny) (ix, iy) = None"
    by (simp add: st'_def ref_at_change [OF assms(1)] node_dict.same_refl)
  have "\<exists>r. ref_at st True (nx, ny) (ix, iy) = Some r"
    using assms(2) ref_at_False_reachable [OF assms(1)]
    by (auto simp: get_link_quality_ref split: option.splits)
  then have "fst (change_connection_state st nx ny ix iy False) = Inr True"
    using change_cases [OF reachable_wf [OF assms(1)], of nx ny ix iy False] by (metis fst_conv option.distinct(1))
  moreover have "change_connection_state st' nx ny ix iy True = (Inl AttributeError, st')"
    using none ref_at_False_reachable [OF reach] by (simp add: change_connection_state_def implicit_ref)
  moreover have "cs_heap st' = cs_heap st"
    using reachable_wf [OF assms(1)] unfolding st'_def
    by (cases rule: change_cases [of st nx ny ix iy False]) simp_all
  moreover have "\<not> same_nodes (nx, ny) (x, y) \<or> (i, j) \<noteq> (ix, iy) \<Longrightarrow>
      ref_at st' True (x, y) (i, j) = ref_at st True (x, y) (i, j)"
    by (auto simp: st'_def ref_at_change [OF assms(1)])
  ultimately show ?thesis
    using none
    by (auto simp: get_link_quality_ref reachable_not_active [OF reach] ref_at_False_reachable [OF reach]
        ref_at_False_reachable [OF assms(1)] split: option.split)
qed

theorem link_down_forgets_connection_witness:
  "fst (change_connection_state ex_store (ex_node 1) (ex_node 2) (ex_mesh 1) (ex_mesh 2) False) = Inr True
   \<and> get_link_quality (snd (change_connection_state ex_store (ex_node 1) (ex_node 2) (ex_mesh 1) (ex_mesh 2) False))
       (ex_node 1) (ex_node 2) (ex_mesh 1) (ex_mesh 2) = Inl TypeError"
proof -
  have "cs_reachable ex_store" unfolding ex_store_def by (rule reach_add [OF reach_init])
  moreover have "get_link_quality ex_store (ex_node 1) (ex_node 2) (ex_mesh 1) (ex_mesh 2)
      = Inr \<lparr>cd_connection = 7, cd_link_quality = None\<rparr>"
    unfolding ex_store_def ex_node_def ex_mesh_def by code_simp
  ultimately show ?thesis using link_down_forgets_connection by blast
qed

text \<open>C3: Updating the link quality of a known connection in a reachable state changes
  exactly that connection's link quality and keeps its backend connection; for an unknown
  connection \<open>UnknownConnection\<close> is raised and the store is unchanged.\<close>

theorem update_link_quality_frame:
  fixes nx ny :: emulation_node and ix iy :: interface and lq :: "link_quality option"
  assumes "cs_reachable st"
  defines "st' \<equiv> snd (update_link_quality st nx ny ix iy lq)"
  shows "(case get_link_quality st nx ny ix iy of
            Inl _ \<Rightarrow> update_link_quality st nx ny ix iy lq = (Inl UnknownConnection, st)
          | Inr details \<Rightarrow> fst (update_link_quality st nx ny ix iy lq) = Inr KEY_CONN_ACTIVE
              \<and> get_link_quality st' nx ny ix iy = Inr (details\<lparr>cd_link_quality := lq\<rparr>))
    \<and> (\<not> same_nodes (nx, ny) (x, y) \<or> (i, j) \<noteq> (ix, iy) \<longrightarrow>
         get_link_quality st' x y i j = get_link_quality st x y i j)"
proof (cases "ref_at st True (nx, ny) (ix, iy)")
  case None
  then show ?thesis using ref_at_False_reachable [OF assms(1)]
    by (auto simp: st'_def get_link_quality_ref update_link_quality_ref)
next
  case (Some r)
  have "ref_at st True (x, y) (i, j) \<noteq> Some r" if "\<not> same_nodes (nx, ny) (x, y) \<or> (i, j) \<noteq> (ix, iy)"
    using reachable_refs_inj [OF assms(1) Some] that by blast
  moreover have "r < length (cs_heap st)" using ref_at_bound [OF reachable_wf [OF assms(1)] Some] .
  ultimately show ?thesis using Some ref_at_False_reachable [OF assms(1)]
    by (auto simp: st'_def get_link_quality_ref update_link_quality_ref nth_list_update split: option.splits)
qed

theorem update_link_quality_frame_witness:
  "fst (update_link_quality ex_store (ex_node 1) (ex_node 2) (ex_mesh 1) (ex_mesh 2) (Some [])) = Inr KEY_CONN_ACTIVE"
proof -
  have "cs_reachable ex_store" unfolding ex_store_def by (rule reach_add [OF reach_init])
  moreover have "get_link_quality ex_store (ex_node 1) (ex_node 2) (ex_mesh 1) (ex_mesh 2)
      = Inr \<lparr>cd_connection = 7, cd_link_quality = None\<rparr>"
    unfolding ex_store_def ex_node_def ex_mesh_def by code_simp
  ultimately show ?thesis
    using update_link_quality_frame [of ex_store "ex_node 1" "ex_node 2" "ex_mesh 1" "ex_mesh 2"] by simp
qed

end
