(* ===== verification/Event_System.thy ===== *)
theory Event_System
  imports Prelude
begin

text \<open>
  The event system: \<open>model/events\<close>. It keeps, per node and event, a progress between 0 and 1,
  from which the command line interface computes averages. Reading a missing entry creates
  it, so the getters return the state too. The lock of \<open>update_event\<close> makes each update one
  step; \<open>event_init\<close> is a context manager, modelled as a function of its body.
\<close>

section \<open>Progress of a node\<close>

type_synonym progress_store = "(string, rat) dict"

definition eps_getitem :: "progress_store \<Rightarrow> string \<Rightarrow> rat \<times> progress_store" where
  "eps_getitem d item = (case dget d item of Some p \<Rightarrow> (p, d) | None \<Rightarrow> (0, dset d item 0))"

definition eps_get_average_progress :: "progress_store \<Rightarrow> rat" where
  "eps_get_average_progress d =
     (if length d > 0 then sum_list (map snd d) / of_nat (length d) else 0)"

section \<open>The event system\<close>

record event_system =
  es_data :: "(int, progress_store) dict"
  es_events :: "string list"
  es_ready :: bool

definition EVENT_TOTAL_PROGRESS :: string where "EVENT_TOTAL_PROGRESS = ''total_progress''"

definition es_reset :: "event_system \<Rightarrow> event_system" where
  "es_reset _ = \<lparr>es_data = [], es_events = [], es_ready = False\<rparr>"

definition es_init :: "(event_system \<Rightarrow> event_system) \<Rightarrow> string list \<Rightarrow> event_system" where
  "es_init reset events =
     (let st = reset \<lparr>es_data = [], es_events = [], es_ready = False\<rparr>
      in st\<lparr>es_events := es_events st @ events\<rparr>)"

definition STATIC_EVENTS :: "string list" where
  "STATIC_EVENTS = [''vm_boot'', ''vm_shell_ready'', ''vm_shell_pre_network_commands'']"

definition my_event_system_reset :: "event_system \<Rightarrow> event_system" where
  "my_event_system_reset st = (let st = es_reset st in st\<lparr>es_events := es_events st @ STATIC_EVENTS\<rparr>)"

definition my_event_system_init :: event_system where
  "my_event_system_init = es_init my_event_system_reset STATIC_EVENTS"

definition es_getitem :: "event_system \<Rightarrow> int \<Rightarrow> progress_store \<times> event_system" where
  "es_getitem st nid = (case dget (es_data st) nid of
      Some d \<Rightarrow> (d, st)
    | None \<Rightarrow> ([], st\<lparr>es_data := dset (es_data st) nid []\<rparr>))"

text \<open>The object \<open>self[node_id]\<close> is mutated in place.\<close>

definition es_put :: "event_system \<Rightarrow> int \<Rightarrow> progress_store \<Rightarrow> event_system" where
  "es_put st nid d = st\<lparr>es_data := dset (es_data st) nid d\<rparr>"

section \<open>Updates\<close>

datatype ids_arg = NoIds | Ids "int list" | NotAList

definition update_node :: "string \<Rightarrow> rat \<Rightarrow> bool \<Rightarrow> int \<Rightarrow> event_system \<Rightarrow> rat res \<times> event_system" where
  "update_node event progress add nid st =
     (let (new_progress, st) =
            (if add then
               let (d, st1) = es_getitem st nid; (old, d') = eps_getitem d event
               in (progress + old, es_put st1 nid d')
             else (progress, st))
      in if new_progress > 1 then (Inl ValueError, st)
         else let (d, st) = es_getitem st nid
              in (Inr new_progress, es_put st nid (dset d event new_progress)))"

fun update_nodes :: "string \<Rightarrow> rat \<Rightarrow> bool \<Rightarrow> int list \<Rightarrow> event_system \<Rightarrow> rat list res \<times> event_system" where
  "update_nodes event progress add [] st = (Inr [], st)"
| "update_nodes event progress add (nid # nids) st =
     (case update_node event progress add nid st of
        (Inl e, st) \<Rightarrow> (Inl e, st)
      | (Inr p, st) \<Rightarrow> (case update_nodes event progress add nids st of
            (Inl e, st) \<Rightarrow> (Inl e, st)
          | (Inr ps, st) \<Rightarrow> (Inr (p # ps), st)))"

definition update_event ::
  "string \<Rightarrow> rat \<Rightarrow> bool \<Rightarrow> ids_arg \<Rightarrow> bool option \<Rightarrow> event_system \<Rightarrow> rat list res \<times> event_system" where
  "update_event event progress add node_ids all_nodes st =
     (if node_ids = NotAList then (Inl ValueError, st)
      else if node_ids = NoIds \<and> all_nodes = None then (Inl ValueError, st)
      else update_nodes event progress add
             (case node_ids of Ids ids \<Rightarrow> ids | _ \<Rightarrow> map fst (es_data st)) st)"

text \<open>\<open>Event\<close>: \<open>init\<close>, \<open>update\<close>, \<open>finish\<close> and their \<open>_all\<close> variants.\<close>

definition event_update :: "string \<Rightarrow> int list \<Rightarrow> rat \<Rightarrow> bool \<Rightarrow> event_system \<Rightarrow> unit res \<times> event_system" where
  "event_update event node_ids progress add st =
     (case update_event event progress add (Ids node_ids) (Some False) st of
        (Inl e, st) \<Rightarrow> (Inl e, st) | (Inr _, st) \<Rightarrow> (Inr (), st))"

definition event_update_all :: "string \<Rightarrow> rat \<Rightarrow> bool \<Rightarrow> event_system \<Rightarrow> unit res \<times> event_system" where
  "event_update_all event progress add st =
     (case update_event event progress add NoIds (Some True) st of
        (Inl e, st) \<Rightarrow> (Inl e, st) | (Inr _, st) \<Rightarrow> (Inr (), st))"

definition event_start :: "string \<Rightarrow> int list \<Rightarrow> event_system \<Rightarrow> unit res \<times> event_system" where
  "event_start event node_ids st = event_update event node_ids 0 False st"

definition event_finish :: "string \<Rightarrow> int list \<Rightarrow> event_system \<Rightarrow> unit res \<times> event_system" where
  "event_finish event node_ids st = event_update event node_ids 1 False st"

text \<open>
  \<open>with es.event_init(name, init_ids, finish_ids) as event: body\<close>. An exception of the
  body is thrown at the \<open>yield\<close> and leaves the generator: \<open>finish\<close> is skipped.
\<close>

definition event_init ::
  "string \<Rightarrow> int list option \<Rightarrow> int list option \<Rightarrow> (event_system \<Rightarrow> unit res \<times> event_system)
   \<Rightarrow> event_system \<Rightarrow> unit res \<times> event_system" where
  "event_init event init_ids finish_ids body st =
     (case event_start event (case init_ids of None \<Rightarrow> map fst (es_data st) | Some ids \<Rightarrow> ids) st of
        (Inl e, st) \<Rightarrow> (Inl e, st)
      | (Inr _, st) \<Rightarrow> (case body st of
            (Inl e, st) \<Rightarrow> (Inl e, st)
          | (Inr _, st) \<Rightarrow>
              event_finish event (case finish_ids of None \<Rightarrow> map fst (es_data st) | Some ids \<Rightarrow> ids) st))"

definition event_no_init_finish ::
  "string \<Rightarrow> (event_system \<Rightarrow> unit res \<times> event_system) \<Rightarrow> event_system \<Rightarrow> unit res \<times> event_system" where
  "event_no_init_finish event body st = event_init event (Some []) (Some []) body st"

definition event_no_init ::
  "string \<Rightarrow> int list option \<Rightarrow> (event_system \<Rightarrow> unit res \<times> event_system) \<Rightarrow> event_system \<Rightarrow> unit res \<times> event_system" where
  "event_no_init event finish_ids body st = event_init event (Some []) finish_ids body st"

fun update_seq :: "(string \<times> int) list \<Rightarrow> event_system \<Rightarrow> unit res \<times> event_system" where
  "update_seq [] st = (Inr (), st)"
| "update_seq ((event, nid) # rest) st =
     (case update_event event 0 False (Ids [nid]) (Some False) st of
        (Inl e, st) \<Rightarrow> (Inl e, st) | (Inr _, st) \<Rightarrow> update_seq rest st)"

definition init_events :: "string list \<Rightarrow> event_system \<Rightarrow> unit res \<times> event_system" where
  "init_events events st =
     update_seq (concat (map (\<lambda>nid. map (\<lambda>e. (e, nid)) events) (map fst (es_data st)))) st"

definition init_events_for_node :: "int \<Rightarrow> event_system \<Rightarrow> unit res \<times> event_system" where
  "init_events_for_node nid st = update_seq (map (\<lambda>e. (e, nid)) (es_events st)) st"

section \<open>Statistics\<close>

definition get_events :: "event_system \<Rightarrow> string list" where
  "get_events st = es_events st"

definition get_all_events :: "event_system \<Rightarrow> string list" where
  "get_all_events st = foldl oset_add [EVENT_TOTAL_PROGRESS] (get_events st)"

definition get_sum_progress_event :: "string \<Rightarrow> event_system \<Rightarrow> rat \<times> event_system" where
  "get_sum_progress_event event st =
     (sum_list (map (\<lambda>(n, d). fst (eps_getitem d event)) (es_data st)),
      st\<lparr>es_data := map (\<lambda>(n, d). (n, snd (eps_getitem d event))) (es_data st)\<rparr>)"

definition average_progress_event :: "string \<Rightarrow> event_system \<Rightarrow> rat \<times> event_system" where
  "average_progress_event event st =
     (let (sum_progress, st') = get_sum_progress_event event st
      in (if length (es_data st) > 0 then sum_progress / of_nat (length (es_data st)) else 0, st'))"

text \<open>
  The sum over the events of \<open>get_average_complete_progress\<close>. An event named like the total
  progress would call \<open>get_average_complete_progress\<close> again without end (\<open>RecursionError\<close>,
  a \<open>RuntimeError\<close>).
\<close>

fun average_events :: "string list \<Rightarrow> event_system \<Rightarrow> rat list res \<times> event_system" where
  "average_events [] st = (Inr [], st)"
| "average_events (e # es) st =
     (if e = EVENT_TOTAL_PROGRESS then (Inl RuntimeError, st)
      else let (p, st) = average_progress_event e st
           in (case average_events es st of
                 (Inl e, st) \<Rightarrow> (Inl e, st) | (Inr ps, st) \<Rightarrow> (Inr (p # ps), st)))"

definition get_average_complete_progress :: "event_system \<Rightarrow> rat res \<times> event_system" where
  "get_average_complete_progress st =
     (let cnt_events = length (get_events st)
      in if cnt_events > 0
         then (case average_events (get_events st) st of
                 (Inl e, st) \<Rightarrow> (Inl e, st)
               | (Inr ps, st) \<Rightarrow> (Inr (sum_list ps / of_nat cnt_events), st))
         else (Inr 0, st))"

definition get_average_progress :: "string option \<Rightarrow> event_system \<Rightarrow> rat res \<times> event_system" where
  "get_average_progress event st = (case event of
      None \<Rightarrow> (Inr (if length (es_data st) > 0
                    then sum_list (map (\<lambda>(n, d). eps_get_average_progress d) (es_data st)) / of_nat (length (es_data st))
                    else 0), st)
    | Some e \<Rightarrow> if e = EVENT_TOTAL_PROGRESS then get_average_complete_progress st
                else (let (p, st) = average_progress_event e st in (Inr p, st)))"

fun progress_list :: "string list \<Rightarrow> event_system \<Rightarrow> (string \<times> rat) list res \<times> event_system" where
  "progress_list [] st = (Inr [], st)"
| "progress_list (e # es) st =
     (case get_average_progress (Some e) st of
        (Inl err, st) \<Rightarrow> (Inl err, st)
      | (Inr p, st) \<Rightarrow> (case progress_list es st of
            (Inl err, st) \<Rightarrow> (Inl err, st) | (Inr ps, st) \<Rightarrow> (Inr ((e, p) # ps), st)))"

text \<open>\<open>get_progress\<close> blocks (\<open>None\<close>) until the system is ready.\<close>

definition get_progress :: "bool \<Rightarrow> event_system \<Rightarrow> ((string \<times> rat) list res \<times> event_system) option" where
  "get_progress asc st =
     (if es_ready st then
        Some (progress_list (if asc then get_all_events st else rev (get_all_events st)) st)
      else None)"


section \<open>The invariant\<close>

definition unit_interval :: "rat \<Rightarrow> bool" where
  "unit_interval p \<longleftrightarrow> 0 \<le> p \<and> p \<le> 1"

definition store_ok :: "progress_store \<Rightarrow> bool" where
  "store_ok d \<longleftrightarrow> dwf d \<and> (\<forall>p \<in> snd ` set d. unit_interval p)"

definition data_ok :: "(int, progress_store) dict \<Rightarrow> bool" where
  "data_ok data \<longleftrightarrow> dwf data \<and> (\<forall>d \<in> snd ` set data. store_ok d)"

definition es_ok :: "event_system \<Rightarrow> bool" where
  "es_ok st \<longleftrightarrow> data_ok (es_data st)"

lemma unit_interval_01 [simp]: "unit_interval 0" "unit_interval 1"
  by (simp_all add: unit_interval_def)

lemma store_ok_Nil [simp]: "store_ok []"
  by (simp add: store_ok_def)

lemma store_ok_set: "store_ok d \<Longrightarrow> unit_interval p \<Longrightarrow> store_ok (dset d e p)"
  unfolding store_ok_def by (elim conjE, intro conjI kwf_kset ball_values_kset; assumption)

lemma store_ok_get: "store_ok d \<Longrightarrow> dget d e = Some p \<Longrightarrow> unit_interval p"
  unfolding store_ok_def using kget_SomeD [of "\<lambda>k. k" d e p] by force

lemma eps_getitem_ok: "store_ok d \<Longrightarrow> unit_interval (fst (eps_getitem d e)) \<and> store_ok (snd (eps_getitem d e))"
  by (auto simp: eps_getitem_def store_ok_set store_ok_get split: option.splits)

lemma data_ok_set: "data_ok data \<Longrightarrow> store_ok d \<Longrightarrow> data_ok (dset data nid d)"
  unfolding data_ok_def by (elim conjE, intro conjI kwf_kset ball_values_kset; assumption)

lemma es_ok_put: "es_ok st \<Longrightarrow> store_ok d \<Longrightarrow> es_ok (es_put st nid d)"
  by (simp add: es_ok_def es_put_def data_ok_set)

lemma es_ok_get: "es_ok st \<Longrightarrow> dget (es_data st) nid = Some d \<Longrightarrow> store_ok d"
  unfolding es_ok_def data_ok_def using kget_SomeD [of "\<lambda>k. k" "es_data st" nid d] by force

lemma es_getitem_ok: "es_ok st \<Longrightarrow> store_ok (fst (es_getitem st nid)) \<and> es_ok (snd (es_getitem st nid))"
  using es_ok_put [of st "[]" nid]
  by (auto simp: es_getitem_def es_put_def es_ok_get split: option.splits)

lemma es_ok_update_node:
  assumes "es_ok st" "0 \<le> progress"
  shows "es_ok (snd (update_node event progress add nid st))"
proof (cases add)
  case False
  with assms show ?thesis
    using es_getitem_ok [of st nid]
    by (auto simp: update_node_def unit_interval_def split: prod.split intro!: es_ok_put store_ok_set)
next
  case True
  obtain d st1 where g: "es_getitem st nid = (d, st1)" by force
  obtain old d' where e: "eps_getitem d event = (old, d')" by force
  let ?st = "es_put st1 nid d'"
  obtain d2 st2 where g2: "es_getitem ?st nid = (d2, st2)" by force
  have ok: "store_ok d" "es_ok st1" using es_getitem_ok [OF assms(1), of nid] g by simp_all
  then have old: "unit_interval old" "store_ok d'" using eps_getitem_ok [of d event] e by simp_all
  with ok have st: "es_ok ?st" by (simp add: es_ok_put)
  then have "store_ok d2" "es_ok st2" using es_getitem_ok [of ?st nid] g2 by simp_all
  moreover have "0 \<le> progress + old" using old assms(2) by (simp add: unit_interval_def)
  ultimately have "\<not> progress + old > 1 \<Longrightarrow> es_ok (es_put st2 nid (dset d2 event (progress + old)))"
    by (simp add: es_ok_put store_ok_set unit_interval_def)
  with True g e g2 st show ?thesis by (simp add: update_node_def)
qed

lemma es_ok_update_nodes: "es_ok st \<Longrightarrow> 0 \<le> progress \<Longrightarrow> es_ok (snd (update_nodes event progress add ids st))"
proof (induction event progress add ids st rule: update_nodes.induct)
  case (2 event progress add nid nids st)
  obtain r st1 where u: "update_node event progress add nid st = (r, st1)" by force
  with es_ok_update_node 2 have ok: "es_ok st1" by (metis snd_conv)
  show ?case
  proof (cases r)
    case (Inr p)
    with 2 u ok have "es_ok (snd (update_nodes event progress add nids st1))" by simp
    with u Inr show ?thesis by (auto split: prod.splits sum.splits)
  qed (use u ok in simp)
qed simp

lemma es_ok_update: "es_ok st \<Longrightarrow> 0 \<le> progress \<Longrightarrow> es_ok (snd (update_event event progress add ids all_nodes st))"
  by (simp add: update_event_def es_ok_update_nodes)

lemma es_ok_sum: "es_ok st \<Longrightarrow> es_ok (snd (get_sum_progress_event e st))"
  using eps_getitem_ok
  by (auto simp: es_ok_def data_ok_def get_sum_progress_event_def kwf_def comp_def case_prod_unfold)

lemma sum_list_unit:
  "(\<And>x. x \<in> set xs \<Longrightarrow> unit_interval (f x)) \<Longrightarrow> 0 \<le> sum_list (map f xs) \<and> sum_list (map f xs) \<le> of_nat (length xs)"
  by (induction xs) (auto simp: unit_interval_def intro: add_mono)

lemma average_unit: "0 \<le> s \<Longrightarrow> s \<le> of_nat n \<Longrightarrow> unit_interval (if 0 < n then s / of_nat n else 0)"
  by (simp add: unit_interval_def divide_le_eq_1)

lemma average_event_unit:
  assumes "es_ok st"
  shows "unit_interval (fst (average_progress_event e st)) \<and> es_ok (snd (average_progress_event e st))"
proof -
  have "unit_interval (case nd of (n, d) \<Rightarrow> fst (eps_getitem d e))" if "nd \<in> set (es_data st)" for nd
    using that assms eps_getitem_ok by (force simp: es_ok_def data_ok_def split: prod.split)
  then have "unit_interval (fst (average_progress_event e st))"
    unfolding average_progress_event_def get_sum_progress_event_def split_beta Let_def fst_conv
    using average_unit sum_list_unit by (metis (no_types, lifting))
  then show ?thesis using es_ok_sum [OF assms, of e] by (simp add: average_progress_event_def split_beta)
qed


lemma average_events_unit:
  "es_ok st \<Longrightarrow> es_ok (snd (average_events es st)) \<and>
     (\<forall>ps. fst (average_events es st) = Inr ps \<longrightarrow> length ps = length es \<and> (\<forall>p \<in> set ps. unit_interval p))"
proof (induction es arbitrary: st)
  case (Cons e es)
  have "es_ok (snd (average_progress_event e st))" "unit_interval (fst (average_progress_event e st))"
    using average_event_unit [OF Cons.prems] by simp_all
  with Cons.IH [of "snd (average_progress_event e st)"] show ?case
    by (cases "e = EVENT_TOTAL_PROGRESS") (auto simp: Cons.prems split_beta split: prod.splits sum.splits)
qed simp

lemma complete_unit:
  assumes "es_ok st"
  shows "es_ok (snd (get_average_complete_progress st)) \<and>
    (\<forall>p. fst (get_average_complete_progress st) = Inr p \<longrightarrow> unit_interval p)"
proof (cases "get_events st = []")
  case True
  then show ?thesis using assms by (simp add: get_average_complete_progress_def)
next
  case False
  obtain r st1 where r: "average_events (get_events st) st = (r, st1)" by force
  with average_events_unit [OF assms, of "get_events st"] have st1: "es_ok st1"
    and ps: "r = Inr ps \<Longrightarrow> length ps = length (get_events st) \<and> (\<forall>p \<in> set ps. unit_interval p)" for ps
    by simp_all
  show ?thesis
  proof (cases r)
    case (Inr ps)
    with ps sum_list_unit [of ps "\<lambda>p. p"]
    have "unit_interval (sum_list ps / of_nat (length (get_events st)))"
      using average_unit [of "sum_list ps" "length ps"] False by simp
    with False r Inr st1 show ?thesis by (simp add: get_average_complete_progress_def)
  qed (use False r st1 in \<open>simp add: get_average_complete_progress_def\<close>)
qed

lemma get_average_unit:
  assumes "es_ok st"
  shows "es_ok (snd (get_average_progress (Some e) st)) \<and>
    (\<forall>p. fst (get_average_progress (Some e) st) = Inr p \<longrightarrow> unit_interval p)"
  using complete_unit [OF assms] average_event_unit [OF assms, of e]
  by (simp add: get_average_progress_def split_beta)

lemma progress_list_unit:
  "es_ok st \<Longrightarrow> es_ok (snd (progress_list es st)) \<and>
     (\<forall>ps. fst (progress_list es st) = Inr ps \<longrightarrow> map fst ps = es \<and> (\<forall>p \<in> snd ` set ps. unit_interval p))"
proof (induction es arbitrary: st)
  case (Cons e es)
  obtain r st1 where r: "get_average_progress (Some e) st = (r, st1)" by force
  with get_average_unit [OF Cons.prems, of e] have ok: "es_ok st1" "\<And>p. r = Inr p \<Longrightarrow> unit_interval p"
    by simp_all
  obtain r2 st2 where r2: "progress_list es st1 = (r2, st2)" by force
  show ?case using ok Cons.IH [OF ok(1)] by (cases r; cases r2) (auto simp: r r2)
qed simp


section \<open>Effect of an update\<close>

definition progress_of :: "event_system \<Rightarrow> int \<Rightarrow> string \<Rightarrow> rat" where
  "progress_of st nid e = fst (eps_getitem (fst (es_getitem st nid)) e)"

lemma update_node_plain:
  "p \<le> 1 \<Longrightarrow> update_node event p False nid st =
     (Inr p, es_put st nid (dset (fst (es_getitem st nid)) event p))"
  by (simp add: update_node_def es_getitem_def es_put_def split: option.splits)

lemma progress_of_put:
  "progress_of (es_put st nid (dset (fst (es_getitem st nid)) event p)) n e =
     (if n = nid \<and> e = event then p else progress_of st n e)"
  by (auto simp: progress_of_def es_put_def es_getitem_def eps_getitem_def dict_simps split: option.splits)

lemma update_nodes_Cons_plain:
  "p \<le> 1 \<Longrightarrow> update_nodes event p False (nid # nids) st =
     map_prod (map_sum id (Cons p)) id
       (update_nodes event p False nids (es_put st nid (dset (fst (es_getitem st nid)) event p)))"
  by (simp add: update_node_plain split: prod.splits sum.splits)

lemma update_nodes_plain:
  "p \<le> 1 \<Longrightarrow> fst (update_nodes event p False ids st) = Inr (map (\<lambda>_. p) ids)
    \<and> (\<forall>n e. progress_of (snd (update_nodes event p False ids st)) n e =
         (if n \<in> set ids \<and> e = event then p else progress_of st n e))"
  by (induction ids arbitrary: st)
    (simp_all add: update_nodes_Cons_plain progress_of_put del: update_nodes.simps(2))

lemma update_nodes_keys:
  "p \<le> 1 \<Longrightarrow> set ids \<subseteq> set (map fst (es_data st)) \<Longrightarrow>
     map fst (es_data (snd (update_nodes event p False ids st))) = map fst (es_data st)"
proof (induction ids arbitrary: st)
  case (Cons nid ids)
  let ?st = "es_put st nid (dset (fst (es_getitem st nid)) event p)"
  have keys: "map fst (es_data ?st) = map fst (es_data st)"
    using Cons.prems(2) unfolding es_put_def by (simp add: keys_kset_mem kget_None_iff)
  moreover have "set ids \<subseteq> set (map fst (es_data ?st))" unfolding keys using Cons.prems(2) by simp
  ultimately show ?case using Cons.IH [OF Cons.prems(1), of ?st] Cons.prems(1)
    by (simp add: update_nodes_Cons_plain del: update_nodes.simps(2))
qed simp

lemma update_nodes_error:
  "update_nodes event p add ids st = (Inl e, st') \<Longrightarrow>
   \<exists>pre nid post ps st1. ids = pre @ nid # post
     \<and> update_nodes event p add pre st = (Inr ps, st1) \<and> update_node event p add nid st1 = (Inl e, st')"
proof (induction ids arbitrary: st)
  case (Cons nid ids)
  obtain r st1 where u: "update_node event p add nid st = (r, st1)" by force
  show ?case
  proof (cases r)
    case (Inl err)
    with u Cons.prems have "ids = ids \<and> update_nodes event p add [] st = (Inr [], st) \<and>
        update_node event p add nid st = (Inl e, st')" by simp
    then show ?thesis by (metis append_Nil)
  next
    case (Inr q)
    with u Cons.prems have "update_nodes event p add ids st1 = (Inl e, st')"
      by (auto split: prod.splits sum.splits)
    with Cons.IH obtain pre n post ps st2 where "ids = pre @ n # post"
      "update_nodes event p add pre st1 = (Inr ps, st2)" "update_node event p add n st2 = (Inl e, st')"
      by blast
    moreover from this(2) u Inr have "update_nodes event p add (nid # pre) st = (Inr (q # ps), st2)" by simp
    ultimately show ?thesis by (metis append_Cons)
  qed
qed simp

lemma average_all_one:
  assumes ok: "es_ok st" and ne: "es_data st \<noteq> []"
    and one: "\<forall>n \<in> set (map fst (es_data st)). progress_of st n e = 1"
  shows "fst (average_progress_event e st) = 1"
proof -
  have "fst (eps_getitem d e) = 1" if "(n, d) \<in> set (es_data st)" for n d
  proof -
    have "dget (es_data st) n = Some d" using ok that by (simp add: es_ok_def data_ok_def kget_of_mem)
    moreover have "progress_of st n e = 1" using one that by force
    ultimately show ?thesis by (simp add: progress_of_def es_getitem_def)
  qed
  then have "map (\<lambda>(n, d). fst (eps_getitem d e)) (es_data st) = map (\<lambda>_. 1) (es_data st)" by auto
  then show ?thesis using ne
    by (simp add: average_progress_event_def get_sum_progress_event_def map_replicate_const
        sum_list_replicate)
qed

text \<open>The constructor registers the static events twice, a reset once.\<close>

lemma static_events_registered:
  "es_events my_event_system_init = STATIC_EVENTS @ STATIC_EVENTS"
  "es_events (my_event_system_reset st) = STATIC_EVENTS"
  by (simp_all add: my_event_system_init_def es_init_def my_event_system_reset_def es_reset_def)

section \<open>Properties\<close>

inductive es_reachable :: "event_system \<Rightarrow> bool" where
  es_start: "es_reachable my_event_system_init"
| es_update: "es_reachable st \<Longrightarrow> 0 \<le> p \<Longrightarrow> es_reachable (snd (update_event e p add ids all_nodes st))"
| es_progress: "es_reachable st \<Longrightarrow> get_progress asc st = Some (r, st') \<Longrightarrow> es_reachable st'"
| es_register: "es_reachable st \<Longrightarrow> es_reachable (st\<lparr>es_events := es_events st @ es\<rparr>)"
| es_set_ready: "es_reachable st \<Longrightarrow> es_reachable (st\<lparr>es_ready := True\<rparr>)"
| es_do_reset: "es_reachable st \<Longrightarrow> es_reachable (my_event_system_reset st)"

lemma es_reachable_ok: "es_reachable st \<Longrightarrow> es_ok st"
proof (induction rule: es_reachable.induct)
  case (es_update st p e add ids all_nodes)
  then show ?case by (simp add: es_ok_update)
next
  case (es_progress st asc r st')
  then show ?case using progress_list_unit
    by (metis get_progress_def option.inject option.distinct(1) snd_conv)
qed (simp_all add: my_event_system_init_def es_init_def my_event_system_reset_def es_reset_def Let_def
    es_ok_def data_ok_def)

text \<open>C33: Whatever sequence of updates (with non-negative progress, successful or refused),
  progress queries, event registrations and resets is performed, every progress value that is
  reported, per event and in total, lies between 0 and 1, and the report lists the total
  progress and then every registered event once.\<close>

theorem reported_progress_bounds:
  assumes "es_reachable st" and "get_progress True st = Some (Inr ps, st')"
  shows "map fst ps = get_all_events st \<and> distinct (map fst ps) \<and> hd (map fst ps) = EVENT_TOTAL_PROGRESS
    \<and> (\<forall>e p. (e, p) \<in> set ps \<longrightarrow> 0 \<le> p \<and> p \<le> 1)"
proof -
  have "progress_list (get_all_events st) st = (Inr ps, st')"
    using assms(2) by (simp add: get_progress_def split: if_splits)
  with progress_list_unit [OF es_reachable_ok [OF assms(1)], of "get_all_events st"]
  have "map fst ps = get_all_events st" "\<forall>p \<in> snd ` set ps. unit_interval p" by simp_all
  moreover have "distinct (get_all_events st)"
    using foldl_oset_add [of "[EVENT_TOTAL_PROGRESS]" "get_events st"] by (simp add: get_all_events_def)
  moreover have "hd (foldl oset_add (x # xs) ys) = x" for x xs and ys :: "string list"
    by (induction ys arbitrary: xs) (simp_all add: oset_add_def)
  ultimately show ?thesis by (force simp: get_all_events_def unit_interval_def)
qed

theorem reported_progress_bounds_witness:
  "\<exists>ps st'. get_progress True (snd (update_event ''vm_boot'' (1/2) False (Ids [1]) (Some False)
       (my_event_system_init\<lparr>es_ready := True\<rparr>))) = Some (Inr ps, st')
     \<and> (\<forall>e p. (e, p) \<in> set ps \<longrightarrow> 0 \<le> p \<and> p \<le> 1)"
proof -
  let ?st = "snd (update_event ''vm_boot'' (1/2) False (Ids [1]) (Some False) (my_event_system_init\<lparr>es_ready := True\<rparr>))"
  have "es_reachable ?st" by (intro es_update es_set_ready es_start) simp
  moreover have "case get_progress True ?st of Some (Inr ps, _) \<Rightarrow> True | _ \<Rightarrow> False"
    by code_simp
  then obtain ps st' where "get_progress True ?st = Some (Inr ps, st')"
    by (auto split: option.splits prod.splits sum.splits)
  ultimately show ?thesis using reported_progress_bounds by blast
qed

text \<open>When the body of an \<open>event_init\<close> block returns, the block returns and the event
  is complete: every node known at the end has progress 1 and the average progress of the
  event is 1. When the body raises, its exception leaves the block and nothing is finished:
  the state is the one the body left.\<close>

theorem event_init_completes:
  assumes "es_ok (snd (body st1))" and "event \<noteq> EVENT_TOTAL_PROGRESS"
    and start: "event_start event (case init_ids of None \<Rightarrow> map fst (es_data st) | Some ids \<Rightarrow> ids) st = (Inr (), st1)"
  shows "case body st1 of
      (Inl e, st2) \<Rightarrow> event_init event init_ids None body st = (Inl e, st2)
    | (Inr _, st2) \<Rightarrow> \<exists>st3. event_init event init_ids None body st = (Inr (), st3)
        \<and> map fst (es_data st3) = map fst (es_data st2)
        \<and> (\<forall>n e. progress_of st3 n e = (if n \<in> fst ` set (es_data st2) \<and> e = event then 1 else progress_of st2 n e))
        \<and> (es_data st2 \<noteq> [] \<longrightarrow> fst (get_average_progress (Some event) st3) = Inr 1)"
proof (cases "body st1")
  case (Pair r st2)
  show ?thesis
  proof (cases r)
    case (Inl e)
    then show ?thesis using Pair start by (simp add: event_init_def)
  next
    case (Inr u)
    let ?ids = "map fst (es_data st2)"
    obtain r3 st3 where u3: "update_nodes event 1 False ?ids st2 = (r3, st3)" by force
    with update_nodes_plain [of 1 event ?ids st2] update_nodes_keys [of 1 ?ids st2 event]
    have eff: "r3 = Inr (map (\<lambda>_. 1) ?ids)" "map fst (es_data st3) = ?ids"
      "\<forall>n e. progress_of st3 n e = (if n \<in> set ?ids \<and> e = event then 1 else progress_of st2 n e)"
      by simp_all
    have "es_ok st3" using es_ok_update_nodes [of st2 1 event False ?ids] assms(1) Pair u3 by simp
    then have "es_data st2 \<noteq> [] \<Longrightarrow> fst (average_progress_event event st3) = 1"
      using eff by (intro average_all_one) auto
    moreover have "event_init event init_ids None body st = (Inr (), st3)"
      using Pair Inr start u3 eff(1)
      by (simp add: event_init_def event_finish_def event_update_def update_event_def)
    ultimately show ?thesis using Pair Inr eff assms(2) by (simp add: get_average_progress_def split_beta)
  qed
qed

theorem event_init_completes_witness:
  "fst (get_average_progress (Some ''vm_boot'')
      (snd (event_init ''vm_boot'' (Some [1, 2]) None (event_update ''vm_boot'' [1] (1/2) False) my_event_system_init)))
     = Inr 1"
proof -
  let ?st1 = "snd (event_start ''vm_boot'' [1, 2] my_event_system_init)"
  let ?body = "event_update ''vm_boot'' [1] (1/2) False"
  have ok: "es_ok (snd (?body ?st1))" unfolding es_ok_def data_ok_def store_ok_def unit_interval_def kwf_def
    by code_simp
  have "event_start ''vm_boot'' [1, 2] my_event_system_init = (Inr (), ?st1)" by code_simp
  moreover have "fst (?body ?st1) = Inr ()" "es_data (snd (?body ?st1)) \<noteq> []" by code_simp+
  ultimately show ?thesis
    using event_init_completes [where body = ?body and ?st1.0 = ?st1 and event = "''vm_boot''"
        and init_ids = "Some [1, 2]" and st = my_event_system_init] ok
    by (cases "?body ?st1") (auto simp: EVENT_TOTAL_PROGRESS_def)
qed

text \<open>An update that is refused is not atomic: the nodes before the refused one in
  the list keep their new progress, the ones after it are not touched, and the refusal is a
  \<open>ValueError\<close>.\<close>

theorem refused_update_prefix:
  assumes "update_event event p add (Ids ids) all_nodes st = (Inl e, st')"
  shows "e = ValueError \<and> (\<exists>pre nid post ps st1. ids = pre @ nid # post
     \<and> update_event event p add (Ids pre) all_nodes st = (Inr ps, st1)
     \<and> (\<forall>n x. progress_of st' n x = progress_of st1 n x))"
proof -
  from assms have "update_nodes event p add ids st = (Inl e, st')" by (simp add: update_event_def)
  from update_nodes_error [OF this] obtain pre nid post ps st1 where split: "ids = pre @ nid # post"
    and pre: "update_nodes event p add pre st = (Inr ps, st1)"
    and err: "update_node event p add nid st1 = (Inl e, st')" by blast
  from err have "e = ValueError \<and> (\<forall>n x. progress_of st' n x = progress_of st1 n x)"
    by (auto simp: update_node_def progress_of_def es_getitem_def eps_getitem_def es_put_def dict_simps Let_def
        split: if_splits option.splits)
  with split pre show ?thesis unfolding update_event_def by auto
qed

theorem refused_update_prefix_witness:
  "\<exists>st'. update_event ''e'' (3/4) True (Ids [1, 2, 2]) (Some False) my_event_system_init = (Inl ValueError, st')
     \<and> (\<exists>pre nid post ps st1. [1, 2, 2] = pre @ nid # post
          \<and> update_event ''e'' (3/4) True (Ids pre) (Some False) my_event_system_init = (Inr ps, st1)
          \<and> (\<forall>n x. progress_of st' n x = progress_of st1 n x))"
proof -
  let ?u = "update_event ''e'' (3/4) True (Ids [1, 2, 2]) (Some False) my_event_system_init"
  have "fst ?u = Inl ValueError" by code_simp
  then have "?u = (Inl ValueError, snd ?u)" by (metis prod.collapse)
  with refused_update_prefix [OF this] show ?thesis by blast
qed

end
