(* ===== verification/Shell_Serializer.thy ===== *)
theory Shell_Serializer
  imports Prelude
begin

text \<open>
  The shell command serializer: \<open>management/serialization/ShellCommandSerializer.py\<close>.
  The network backends collect shell commands under a group and an event; the serializer
  drops duplicates of a command within an event and runs groups and events in their declared
  order, whatever the order of insertion. Running a command is an effect: the model returns
  the calls of \<open>run_shell\<close> as a trace, with the outcome of each call as a parameter.
\<close>

section \<open>The commands of one event\<close>

type_synonym shell_arg = "string \<times> string \<times> string list"

record command_store =
  cst_name :: string
  shell_command_args :: "shell_arg list"
  uniq_shell_commands :: "string list"

definition command_store_init :: "string \<Rightarrow> command_store" where
  "command_store_init name = \<lparr>cst_name = name, shell_command_args = [], uniq_shell_commands = []\<rparr>"

definition command_store_reset :: "command_store \<Rightarrow> command_store" where
  "command_store_reset cs = cs\<lparr>shell_command_args := [], uniq_shell_commands := []\<rparr>"

definition get_shell_commands :: "command_store \<Rightarrow> string list" where
  "get_shell_commands cs = map (\<lambda>(_, cmd, _). cmd) (shell_command_args cs)"

definition cs_add_command :: "string \<Rightarrow> string \<Rightarrow> string list \<Rightarrow> command_store \<Rightarrow> command_store" where
  "cs_add_command cid cmd prefixes cs =
     (if cmd \<notin> set (uniq_shell_commands cs)
      then cs\<lparr>uniq_shell_commands := oset_add (uniq_shell_commands cs) cmd,
              shell_command_args := oset_add (shell_command_args cs) (cid, cmd, prefixes)\<rparr>
      else cs)"

text \<open>
  \<open>chunkIt\<close>: \<open>seq[int(last):int(last + avg)]\<close> while \<open>last < len(seq)\<close>. The loop is
  only entered with a non-empty sequence, where \<open>avg\<close> is positive.
\<close>

function chunk_loop :: "'a list \<Rightarrow> rat \<Rightarrow> rat \<Rightarrow> 'a list list" where
  "chunk_loop seq avg pos =
     (if pos < of_nat (length seq) \<and> avg > 0
      then take (nat \<lfloor>pos + avg\<rfloor> - nat \<lfloor>pos\<rfloor>) (drop (nat \<lfloor>pos\<rfloor>) seq) # chunk_loop seq avg (pos + avg)
      else [])"
  by pat_completeness auto
termination
proof (relation "measure (\<lambda>(seq, avg, pos). nat \<lceil>(of_nat (length seq) - pos) / avg\<rceil>)")
  fix seq :: "'a list" and avg pos :: rat
  assume a: "pos < of_nat (length seq) \<and> avg > 0"
  let ?x = "(of_nat (length seq) - pos) / avg"
  have "(of_nat (length seq) - (pos + avg)) / avg = ?x - 1" using a by (simp add: field_simps)
  moreover have "0 < \<lceil>?x\<rceil>" using a by simp
  ultimately show "((seq, avg, pos + avg), seq, avg, pos)
      \<in> measure (\<lambda>(seq, avg, pos). nat \<lceil>(of_nat (length seq) - pos) / avg\<rceil>)"
    by simp
qed simp

declare chunk_loop.simps [simp del]

definition chunkIt :: "'a list \<Rightarrow> nat \<Rightarrow> 'a list list" where
  "chunkIt seq num = chunk_loop seq (of_nat (length seq) / of_nat num) 0"

definition MAX_ARG_STR_LEN :: nat where "MAX_ARG_STR_LEN = 131072"

definition get_one_shell_call_commands :: "command_store \<Rightarrow> string list" where
  "get_one_shell_call_commands cs =
     (let shell_commands = get_shell_commands cs;
          len = length (pyjoin ''; '' shell_commands) + 8;
          cnt_cmds = nat \<lceil>of_nat len / of_nat MAX_ARG_STR_LEN :: rat\<rceil>
      in map (\<lambda>chunk. ''sh -c '' @ [CHR 0x27] @ pyjoin ''; '' chunk @ [CHR 0x27])
           (chunkIt shell_commands cnt_cmds))"

text \<open>
  \<open>CommandStore.run_commands\<close>. The three execution modes are what the scenario config
  answers. A raising \<open>run_shell\<close> stops the sequential modes; in the parallel mode the
  result of \<open>executor.map\<close> is dropped, so every command is run and no exception is seen.
  The trace of the parallel mode is in the order of submission.
\<close>

datatype exec_mode = OneShellCall | Parallel | Sequential

fun run_sequence :: "(shell_arg \<Rightarrow> unit res) \<Rightarrow> shell_arg list \<Rightarrow> unit res \<times> shell_arg list" where
  "run_sequence run_shell [] = (Inr (), [])"
| "run_sequence run_shell (a # as) =
     (case run_shell a of
        Inl e \<Rightarrow> (Inl e, [a])
      | Inr _ \<Rightarrow> (let (r, tr) = run_sequence run_shell as in (r, a # tr)))"

definition cs_run_commands ::
  "(shell_arg \<Rightarrow> unit res) \<Rightarrow> exec_mode \<Rightarrow> command_store \<Rightarrow> unit res \<times> shell_arg list" where
  "cs_run_commands run_shell mode cs = (case shell_command_args cs of
      [] \<Rightarrow> (Inr (), [])
    | (cid, _, prefixes) # _ \<Rightarrow> (case mode of
        OneShellCall \<Rightarrow> run_sequence run_shell (map (\<lambda>cmd. (cid, cmd, prefixes)) (get_one_shell_call_commands cs))
      | Parallel \<Rightarrow> (Inr (), shell_command_args cs)
      | Sequential \<Rightarrow> run_sequence run_shell (shell_command_args cs)))"

section \<open>Groups and events\<close>

type_synonym event_mapping = "(string, command_store) dict"

record serializer =
  group_mapping :: "(string, event_mapping) dict"
  group_order :: "string list"

definition serializer_init :: serializer where
  "serializer_init = \<lparr>group_mapping = [], group_order = []\<rparr>"

text \<open>The \<open>__getitem__\<close> of the mappings create the default on a missing key.\<close>

definition events_getitem :: "event_mapping \<Rightarrow> string \<Rightarrow> command_store \<times> event_mapping" where
  "events_getitem m key = (case dget m key of
      Some cs \<Rightarrow> (cs, m)
    | None \<Rightarrow> (command_store_init key, dset m key (command_store_init key)))"

definition groups_getitem :: "(string, event_mapping) dict \<Rightarrow> string \<Rightarrow> event_mapping \<times> (string, event_mapping) dict" where
  "groups_getitem m key = (case dget m key of
      Some em \<Rightarrow> (em, m)
    | None \<Rightarrow> ([], dset m key []))"

definition add_command ::
  "string \<Rightarrow> string \<Rightarrow> string \<Rightarrow> string \<Rightarrow> string list \<Rightarrow> serializer \<Rightarrow> serializer" where
  "add_command grp event cid cmd prefixes s =
     (let (em, gm) = groups_getitem (group_mapping s) grp;
          (cs, em) = events_getitem em event
      in s\<lparr>group_mapping := dset gm grp (dset em event (cs_add_command cid cmd prefixes cs))\<rparr>)"

definition add_group :: "string \<Rightarrow> serializer \<Rightarrow> serializer" where
  "add_group grp s = s\<lparr>group_order := oset_add (group_order s) grp\<rparr>"

definition set_group_order :: "string list \<Rightarrow> serializer \<Rightarrow> serializer" where
  "set_group_order groups s = s\<lparr>group_order := oset_of groups\<rparr>"

definition touch_event :: "string \<Rightarrow> string \<Rightarrow> serializer \<Rightarrow> serializer" where
  "touch_event grp event s =
     (let (em, gm) = groups_getitem (group_mapping s) grp
      in s\<lparr>group_mapping := dset gm grp (snd (events_getitem em event))\<rparr>)"

definition set_event_order :: "string \<Rightarrow> string list \<Rightarrow> serializer \<Rightarrow> serializer" where
  "set_event_order grp event_order s = fold (touch_event grp) event_order s"

text \<open>\<open>get_event_order\<close> reads an attribute the class does not have.\<close>

definition get_event_order :: "string \<Rightarrow> serializer \<Rightarrow> string list res" where
  "get_event_order grp s = Inl AttributeError"

definition get_commands_event :: "string \<Rightarrow> string \<Rightarrow> serializer \<Rightarrow> string list \<times> serializer" where
  "get_commands_event grp event s =
     (let (em, gm) = groups_getitem (group_mapping s) grp; (cs, em) = events_getitem em event
      in (get_shell_commands cs, s\<lparr>group_mapping := dset gm grp em\<rparr>))"

fun all_commands_loop :: "string list \<Rightarrow> (string, event_mapping) dict \<Rightarrow> string list \<times> (string, event_mapping) dict" where
  "all_commands_loop [] gm = ([], gm)"
| "all_commands_loop (g # gs) gm =
     (let (em, gm) = groups_getitem gm g; (rest, gm) = all_commands_loop gs gm
      in (concat (map (\<lambda>(_, cs). get_shell_commands cs) em) @ rest, gm))"

definition get_all_commands :: "serializer \<Rightarrow> string list \<times> serializer" where
  "get_all_commands s =
     (let (cmds, gm) = all_commands_loop (group_order s) (group_mapping s)
      in (cmds, s\<lparr>group_mapping := gm\<rparr>))"

text \<open>
  \<open>run_commands\<close>: the \<open>events_order\<close> argument is a list in the documentation and a
  string in the single device backend, where \<open>in\<close> is the substring test.
\<close>

datatype order_arg = OrderNone | OrderList "string list" | OrderStr string

fun is_substring :: "string \<Rightarrow> string \<Rightarrow> bool" where
  "is_substring s [] = (s = [])"
| "is_substring s (c # cs) = (take (length s) (c # cs) = s \<or> is_substring s cs)"

definition in_order :: "string \<Rightarrow> order_arg \<Rightarrow> string list \<Rightarrow> bool" where
  "in_order g order groups = (case order of
      OrderNone \<Rightarrow> g \<in> set groups | OrderList gs \<Rightarrow> g \<in> set gs | OrderStr t \<Rightarrow> is_substring g t)"

fun run_events :: "(shell_arg \<Rightarrow> unit res) \<Rightarrow> exec_mode \<Rightarrow> event_mapping \<Rightarrow> unit res \<times> shell_arg list" where
  "run_events run_shell mode [] = (Inr (), [])"
| "run_events run_shell mode ((_, cs) # em) =
     (case cs_run_commands run_shell mode cs of
        (Inl e, tr) \<Rightarrow> (Inl e, tr)
      | (Inr _, tr) \<Rightarrow> (let (r, tr') = run_events run_shell mode em in (r, tr @ tr')))"

fun run_groups ::
  "(shell_arg \<Rightarrow> unit res) \<Rightarrow> exec_mode \<Rightarrow> string list \<Rightarrow> (string, event_mapping) dict
   \<Rightarrow> unit res \<times> shell_arg list \<times> (string, event_mapping) dict" where
  "run_groups run_shell mode [] gm = (Inr (), [], gm)"
| "run_groups run_shell mode (g # gs) gm =
     (let (em, gm) = groups_getitem gm g
      in case run_events run_shell mode em of
           (Inl e, tr) \<Rightarrow> (Inl e, tr, gm)
         | (Inr _, tr) \<Rightarrow> (let (r, tr', gm) = run_groups run_shell mode gs gm in (r, tr @ tr', gm)))"

definition run_commands ::
  "(shell_arg \<Rightarrow> unit res) \<Rightarrow> exec_mode \<Rightarrow> order_arg \<Rightarrow> serializer \<Rightarrow> unit res \<times> shell_arg list \<times> serializer" where
  "run_commands run_shell mode events_order s =
     (let (r, tr, gm) = run_groups run_shell mode
            (filter (\<lambda>g. in_order g events_order (group_order s)) (group_order s)) (group_mapping s)
      in (r, tr, s\<lparr>group_mapping := gm\<rparr>))"

text \<open>\<open>get_verbose_info\<close>\<close>

definition newline :: string where "newline = [CHR 0x0A]"

definition verbose_event :: "string \<Rightarrow> string \<Rightarrow> command_store \<Rightarrow> string" where
  "verbose_event grp event cs =
     newline @ ''#Parallelizable commands for: '' @ grp @ '', '' @ event @ '':'' @ newline
     @ pyjoin newline (get_shell_commands cs) @ newline"

fun verbose_loop :: "string list \<Rightarrow> (string, event_mapping) dict \<Rightarrow> string \<times> (string, event_mapping) dict" where
  "verbose_loop [] gm = ([], gm)"
| "verbose_loop (g # gs) gm =
     (let (em, gm) = groups_getitem gm g; (rest, gm) = verbose_loop gs gm
      in (concat (map (\<lambda>(e, cs). verbose_event g e cs) em) @ rest, gm))"

definition get_verbose_info :: "serializer \<Rightarrow> string \<times> serializer" where
  "get_verbose_info s =
     (let (txt, gm) = verbose_loop (group_order s) (group_mapping s)
      in (''#Shell commands for network provisioning: '' @ txt, s\<lparr>group_mapping := gm\<rparr>))"


section \<open>Chunks\<close>

lemma floor_mono_nat: "0 \<le> (x :: rat) \<Longrightarrow> 0 < y \<Longrightarrow> nat \<lfloor>x\<rfloor> \<le> nat \<lfloor>x + y\<rfloor>"
  by (rule nat_mono, rule floor_mono) simp

lemma concat_chunk_loop: "0 < avg \<Longrightarrow> 0 \<le> pos \<Longrightarrow> concat (chunk_loop seq avg pos) = drop (nat \<lfloor>pos\<rfloor>) seq"
proof (induction seq avg pos rule: chunk_loop.induct)
  case (1 seq avg pos)
  show ?case
  proof (cases "pos < of_nat (length seq)")
    case True
    let ?i = "nat \<lfloor>pos\<rfloor>" and ?j = "nat \<lfloor>pos + avg\<rfloor>"
    have "?i \<le> ?j" using 1 by (intro floor_mono_nat) simp_all
    then have "take (?j - ?i) (drop ?i seq) @ drop ?j seq = drop ?i seq"
      by (metis append_take_drop_id drop_drop le_add_diff_inverse2)
    with 1 True show ?thesis by (simp add: chunk_loop.simps [of seq avg pos])
  next
    case False
    then have "length seq \<le> nat \<lfloor>pos\<rfloor>" by (simp add: le_nat_iff le_floor_iff)
    with False show ?thesis by (simp add: chunk_loop.simps [of seq avg pos])
  qed
qed

lemma length_chunk_loop:
  "0 < avg \<Longrightarrow> length (chunk_loop seq avg pos) = nat \<lceil>(of_nat (length seq) - pos) / avg\<rceil>"
proof (induction seq avg pos rule: chunk_loop.induct)
  case (1 seq avg pos)
  let ?x = "(of_nat (length seq) - pos) / avg"
  show ?case
  proof (cases "pos < of_nat (length seq)")
    case True
    have "(of_nat (length seq) - (pos + avg)) / avg = ?x - 1" using 1 by (simp add: field_simps)
    moreover have "0 < \<lceil>?x\<rceil>" using True 1 by simp
    then have "Suc (nat (\<lceil>?x\<rceil> - 1)) = nat \<lceil>?x\<rceil>" by linarith
    ultimately show ?thesis using 1 True by (simp add: chunk_loop.simps [of seq avg pos])
  next
    case False
    then have "?x \<le> 0" using 1 by (simp add: divide_nonpos_pos)
    then have "\<lceil>?x\<rceil> \<le> 0" by (simp add: ceiling_le_iff)
    with False show ?thesis by (simp add: chunk_loop.simps [of seq avg pos])
  qed
qed

lemma chunkIt_Nil: "chunkIt [] num = []"
  by (simp add: chunkIt_def chunk_loop.simps)

section \<open>Lookups\<close>

definition event_store :: "serializer \<Rightarrow> string \<Rightarrow> string \<Rightarrow> command_store" where
  "event_store s g e = fst (events_getitem (fst (groups_getitem (group_mapping s) g)) e)"

definition event_names :: "serializer \<Rightarrow> string \<Rightarrow> string list" where
  "event_names s g = map fst (fst (groups_getitem (group_mapping s) g))"

definition event_commands :: "serializer \<Rightarrow> string \<Rightarrow> string \<Rightarrow> string list" where
  "event_commands s g e = fst (get_commands_event g e s)"

definition uniq_ok :: "command_store \<Rightarrow> bool" where
  "uniq_ok cs \<longleftrightarrow> set (uniq_shell_commands cs) = set (get_shell_commands cs)"

definition serializer_wf :: "serializer \<Rightarrow> bool" where
  "serializer_wf s \<longleftrightarrow> (\<forall>g. dwf (fst (groups_getitem (group_mapping s) g)))
     \<and> (\<forall>g e. uniq_ok (event_store s g e))"

text \<open>One call of \<open>add_command\<close> as data.\<close>

type_synonym add_call = "string \<times> string \<times> string \<times> string \<times> string list"

definition do_add :: "add_call \<Rightarrow> serializer \<Rightarrow> serializer" where
  "do_add c s = (case c of (g, e, cid, cmd, prefixes) \<Rightarrow> add_command g e cid cmd prefixes s)"

definition added :: "add_call list \<Rightarrow> string \<Rightarrow> string \<Rightarrow> string list" where
  "added calls g e = map (\<lambda>(_, _, _, cmd, _). cmd) (filter (\<lambda>(g', e', _). g' = g \<and> e' = e) calls)"

definition configure :: "string list \<Rightarrow> (string \<times> string list) list \<Rightarrow> serializer" where
  "configure groups orders =
     fold (\<lambda>(g, es). set_event_order g es) orders (set_group_order groups serializer_init)"

lemma event_commands_store: "event_commands s g e = get_shell_commands (event_store s g e)"
  by (simp add: event_commands_def get_commands_event_def event_store_def split: prod.split)

lemma groups_getitem_set [simp]:
  "fst (groups_getitem (dset gm g em) g') = (if g = g' then em else fst (groups_getitem gm g'))"
  "fst (groups_getitem (snd (groups_getitem gm g)) g') = fst (groups_getitem gm g')"
  by (auto simp: groups_getitem_def dict_simps split: option.splits)

lemma events_getitem_set [simp]:
  "fst (events_getitem (dset em e cs) e') = (if e = e' then cs else fst (events_getitem em e'))"
  "fst (events_getitem (snd (events_getitem em e)) e') = fst (events_getitem em e')"
  by (auto simp: events_getitem_def dict_simps split: option.splits)

lemma keys_dset_oset: "map fst (dset d k v) = oset_add (map fst d) k"
proof (induction d)
  case (Cons kv d)
  then show ?case by (cases kv) (auto simp: oset_add_def simp del: set_map)
qed (simp add: oset_add_def)

lemma keys_events_getitem: "map fst (snd (events_getitem em e)) = oset_add (map fst em) e"
proof (cases "dget em e")
  case (Some cs)
  then have "e \<in> set (map fst em)" using kget_None_iff [of "\<lambda>k. k" em e] by simp
  with Some show ?thesis by (simp add: events_getitem_def oset_add_def)
qed (simp add: events_getitem_def keys_dset_oset)

lemma oset_add_idem [simp]: "oset_add (oset_add xs x) x = oset_add xs x"
  by (simp add: oset_add_def)

lemma event_store_add:
  "event_store (add_command g e cid cmd ps s) g' e' =
     (if g = g' \<and> e = e' then cs_add_command cid cmd ps (event_store s g e) else event_store s g' e')"
  by (auto simp: event_store_def add_command_def split_beta)

lemma event_names_add:
  "event_names (add_command g e cid cmd ps s) g' =
     (if g = g' then oset_add (event_names s g) e else event_names s g')"
  by (auto simp: event_names_def add_command_def split_beta keys_dset_oset keys_events_getitem)

lemma event_names_touch:
  "event_names (touch_event g e s) g' = (if g = g' then oset_add (event_names s g) e else event_names s g')"
  by (auto simp: event_names_def touch_event_def split_beta keys_events_getitem)

lemma event_store_touch: "event_store (touch_event g e s) g' e' = event_store s g' e'"
  by (auto simp: event_store_def touch_event_def split_beta)

lemma group_order_add [simp]: "group_order (add_command g e cid cmd ps s) = group_order s"
  "group_order (touch_event g e s) = group_order s"
  by (simp_all add: add_command_def touch_event_def split_beta)

lemma dwf_events_getitem: "dwf em \<Longrightarrow> dwf (snd (events_getitem em e))"
  by (auto simp: events_getitem_def split: option.splits)

lemma commands_add:
  "uniq_ok cs \<Longrightarrow> get_shell_commands (cs_add_command cid cmd ps cs) = oset_add (get_shell_commands cs) cmd
     \<and> uniq_ok (cs_add_command cid cmd ps cs)"
  by (auto simp: uniq_ok_def cs_add_command_def get_shell_commands_def oset_add_def image_iff split: prod.splits)

lemma wf_add: "serializer_wf s \<Longrightarrow> serializer_wf (add_command g e cid cmd ps s)"
  unfolding serializer_wf_def event_store_add
  by (auto simp: add_command_def split_beta dwf_events_getitem commands_add)

lemma wf_touch: "serializer_wf s \<Longrightarrow> serializer_wf (touch_event g e s)"
  unfolding serializer_wf_def event_store_touch
  by (auto simp: touch_event_def split_beta dwf_events_getitem)


lemma fold_do_add:
  assumes "serializer_wf s"
  shows "serializer_wf (fold do_add calls s)
    \<and> group_order (fold do_add calls s) = group_order s
    \<and> (\<forall>g e. event_commands (fold do_add calls s) g e = foldl oset_add (event_commands s g e) (added calls g e))
    \<and> (\<forall>g. event_names (fold do_add calls s) g =
         foldl oset_add (event_names s g) (map (\<lambda>(_, e, _). e) (filter (\<lambda>(g', _). g' = g) calls)))"
  using assms
proof (induction calls arbitrary: s)
  case (Cons c calls)
  obtain g e cid cmd ps where c: "c = (g, e, cid, cmd, ps)" by (cases c)
  let ?s = "add_command g e cid cmd ps s"
  have "uniq_ok (event_store s g e)" using Cons.prems by (simp add: serializer_wf_def)
  then have "event_commands ?s g' e' =
      (if g = g' \<and> e = e' then oset_add (event_commands s g e) cmd else event_commands s g' e')" for g' e'
    by (auto simp: event_commands_store event_store_add commands_add)
  with Cons.IH [OF wf_add [OF Cons.prems, of g e cid cmd ps]] show ?case
    by (simp add: c do_add_def added_def event_names_add)
qed (simp add: added_def)

lemma fold_touch:
  "event_names (fold (touch_event g) es s) g' = (if g = g' then foldl oset_add (event_names s g) es else event_names s g')
   \<and> (\<forall>g' e'. event_store (fold (touch_event g) es s) g' e' = event_store s g' e')
   \<and> group_order (fold (touch_event g) es s) = group_order s
   \<and> (serializer_wf s \<longrightarrow> serializer_wf (fold (touch_event g) es s))"
  by (induction es arbitrary: s) (auto simp: event_names_touch event_store_touch wf_touch)

lemma configure_state:
  "serializer_wf (configure groups orders)
   \<and> group_order (configure groups orders) = oset_of groups
   \<and> (\<forall>g e. event_commands (configure groups orders) g e = [])
   \<and> (\<forall>g. event_names (configure groups orders) g =
        oset_of (concat (map snd (filter (\<lambda>(g', _). g' = g) orders))))"
proof -
  have "serializer_wf s \<Longrightarrow> serializer_wf (fold (\<lambda>(g, es). set_event_order g es) orders s)
     \<and> group_order (fold (\<lambda>(g, es). set_event_order g es) orders s) = group_order s
     \<and> (\<forall>g e. event_store (fold (\<lambda>(g, es). set_event_order g es) orders s) g e = event_store s g e)
     \<and> (\<forall>g. event_names (fold (\<lambda>(g, es). set_event_order g es) orders s) g =
        foldl oset_add (event_names s g) (concat (map snd (filter (\<lambda>(g', _). g' = g) orders))))" for s
    by (induction orders arbitrary: s) (auto simp: set_event_order_def fold_touch)
  moreover have "event_store (set_group_order groups serializer_init) g e = command_store_init e"
    "event_names (set_group_order groups serializer_init) g = []" for g e
    by (simp_all add: set_group_order_def serializer_init_def event_store_def event_names_def groups_getitem_def
        events_getitem_def)
  moreover have "serializer_wf (set_group_order groups serializer_init)"
    by (simp add: serializer_wf_def set_group_order_def serializer_init_def event_store_def groups_getitem_def
        events_getitem_def uniq_ok_def command_store_init_def get_shell_commands_def)
  ultimately show ?thesis
    by (simp add: configure_def event_commands_store oset_of_def set_group_order_def
        command_store_init_def get_shell_commands_def)
qed

lemma all_commands_loop_eq:
  "fst (all_commands_loop gs gm) =
     concat (map (\<lambda>g. concat (map (\<lambda>(_, cs). get_shell_commands cs) (fst (groups_getitem gm g)))) gs)"
  by (induction gs arbitrary: gm) (simp_all add: split_beta)

lemma map_items: "dwf em \<Longrightarrow> map (\<lambda>(_, cs). f cs) em = map (\<lambda>e. f (fst (events_getitem em e))) (map fst em)"
  by (auto simp: events_getitem_def kget_of_mem)

lemma get_all_commands_eq:
  "serializer_wf s \<Longrightarrow> fst (get_all_commands s) =
     concat (map (\<lambda>g. concat (map (event_commands s g) (event_names s g))) (group_order s))"
proof -
  assume wf: "serializer_wf s"
  then have "map (\<lambda>(_, cs). get_shell_commands cs) (fst (groups_getitem (group_mapping s) g)) =
      map (event_commands s g) (event_names s g)" for g
    unfolding event_names_def event_commands_store [abs_def] event_store_def
    by (intro map_items) (simp add: serializer_wf_def)
  then show ?thesis by (simp add: get_all_commands_def split_beta all_commands_loop_eq)
qed

lemma foldl_oset_add_subset: "set ys \<subseteq> set xs \<Longrightarrow> foldl oset_add xs ys = xs"
  by (induction ys) (auto simp: oset_add_def)

section \<open>Running\<close>

lemma run_sequence_ok: "(\<And>a. run_shell a = Inr ()) \<Longrightarrow> run_sequence run_shell as = (Inr (), as)"
  by (induction as) auto

lemma cs_run_ok:
  "(\<And>a. run_shell a = Inr ()) \<Longrightarrow> mode \<noteq> OneShellCall \<Longrightarrow>
     cs_run_commands run_shell mode cs = (Inr (), shell_command_args cs)"
  by (cases mode) (auto simp: cs_run_commands_def run_sequence_ok split: list.splits)

lemma run_events_ok:
  "(\<And>a. run_shell a = Inr ()) \<Longrightarrow> mode \<noteq> OneShellCall \<Longrightarrow>
     run_events run_shell mode em = (Inr (), concat (map (\<lambda>(_, cs). shell_command_args cs) em))"
  by (induction em) (auto simp: cs_run_ok split: prod.split)

lemma run_groups_ok:
  "(\<And>a. run_shell a = Inr ()) \<Longrightarrow> mode \<noteq> OneShellCall \<Longrightarrow>
     fst (run_groups run_shell mode gs gm) = Inr () \<and>
     fst (snd (run_groups run_shell mode gs gm)) =
       concat (map (\<lambda>g. concat (map (\<lambda>(_, cs). shell_command_args cs) (fst (groups_getitem gm g)))) gs)"
  by (induction gs arbitrary: gm) (simp_all add: split_beta run_events_ok)


section \<open>Properties\<close>

text \<open>C9: After the group order and the event orders are set and commands are added in any
  order, the command list of the serializer is grouped by the declared group order, within a
  group by the declared event order (events that were not declared follow in the order of
  their first command), and within an event it holds every added command exactly once, in
  the order of its first insertion.\<close>

theorem commands_in_declared_order:
  "fst (get_all_commands (fold do_add calls (configure groups orders))) =
     concat (map (\<lambda>g. concat (map (\<lambda>e. oset_of (added calls g e))
         (oset_of (concat (map snd (filter (\<lambda>(g', _). g' = g) orders))
                   @ map (\<lambda>(_, e, _). e) (filter (\<lambda>(g', _). g' = g) calls)))))
       (oset_of groups))"
proof -
  let ?s = "fold do_add calls (configure groups orders)"
  note conf = configure_state [of groups orders]
  from conf have wf: "serializer_wf (configure groups orders)" by blast
  note adds = fold_do_add [OF wf, of calls]
  have "event_commands ?s g e = oset_of (added calls g e)" for g e
    using conf adds by (simp add: oset_of_def)
  moreover have "event_names ?s g = oset_of (concat (map snd (filter (\<lambda>(g', _). g' = g) orders))
      @ map (\<lambda>(_, e, _). e) (filter (\<lambda>(g', _). g' = g) calls))" for g
    using conf adds by (simp add: oset_of_def)
  ultimately show ?thesis using conf adds by (simp add: get_all_commands_eq cong: map_cong)
qed


definition ex_serializer :: serializer where
  "ex_serializer = fold do_add
     [(''conn'', ''up'', ''1'', ''b'', []), (''bridge'', ''add'', ''1'', ''a'', []), (''bridge'', ''add'', ''2'', ''a'', [])]
     (configure [''bridge'', ''conn''] [(''bridge'', [''add'']), (''conn'', [''up''])])"


text \<open>Splitting a command list into shell calls loses and reorders nothing: the chunks
  concatenate to the list and there are exactly as many chunks as asked for.\<close>

theorem chunkIt_partition:
  assumes "0 < num" and "seq \<noteq> []"
  shows "concat (chunkIt seq num) = seq \<and> length (chunkIt seq num) = num"
proof -
  have avg: "0 < (of_nat (length seq) / of_nat num :: rat)" using assms by simp
  have "(of_nat (length seq) - 0) / (of_nat (length seq) / of_nat num) = (of_nat num :: rat)"
    using assms by simp
  then have "length (chunkIt seq num) = num" unfolding chunkIt_def length_chunk_loop [OF avg] by simp
  then show ?thesis using concat_chunk_loop [OF avg, of 0 seq] by (simp add: chunkIt_def)
qed

theorem chunkIt_partition_witness: "concat (chunkIt [1 :: nat, 2, 3, 4, 5] 2) = [1, 2, 3, 4, 5]"
  using chunkIt_partition [of 2 "[1 :: nat, 2, 3, 4, 5]"] by simp

end
