(* ===== verification/Dict_Util.thy ===== *)
theory Dict_Util
  imports Prelude
begin

text \<open>
  Dictionary helpers and the distance matrix: \<open>util/DictUtil.py\<close> and
  \<open>model/network/topology\<close>'s \<open>DistanceMatrix.py\<close>, and the nested values
  (\<open>json\<close>) that configuration files are read into. The distance matrix is the
  interface between the movement models, the coordinator and the network backends.
\<close>

section \<open>Fully staffed matrices\<close>

text \<open>A Python \<open>set\<close> is a list without repetitions.\<close>

definition ddget_set :: "('k, 'a list) dict \<Rightarrow> 'k \<Rightarrow> 'a list" where
  "ddget_set d k = (case dget d k of None \<Rightarrow> [] | Some s \<Rightarrow> s)"

definition to_fully_staffed_matrix :: "('a, 'a list) dict \<Rightarrow> ('a, 'a list) dict" where
  "to_fully_staffed_matrix d =
     fold (\<lambda>(k, vals) fs. fold (\<lambda>v fs. dset fs v (oset_add (ddget_set fs v) k)) vals fs) d
       (fold (\<lambda>(k, vals) fs. dset fs k (oset_of vals)) d [])"

text \<open>
  \<open>to_fully_staffed_matrix_3\<close> stores into the dict it iterates over: a new key makes the
  iterator raise \<open>RuntimeError\<close>; a known key changes what later iterations read.
\<close>

function staffed3_loop :: "nat \<Rightarrow> ('a, 'a) dict \<Rightarrow> ('a, 'a) dict res" where
  "staffed3_loop i d =
     (if i < length d then
        let (key, val) = d ! i; d' = dset d val key
        in if length d' \<noteq> length d then Inl RuntimeError else staffed3_loop (Suc i) d'
      else Inr d)"
  by pat_completeness auto
termination
  by (relation "measure (\<lambda>(i, d). length d - i)") auto

declare staffed3_loop.simps [simp del]

definition to_fully_staffed_matrix_3 :: "('a, 'a) dict \<Rightarrow> ('a, 'a) dict res" where
  "to_fully_staffed_matrix_3 d = staffed3_loop 0 d"

text \<open>
  \<open>to_fully_staffed_matrix_2\<close>: keys and values are pairs (two nodes, two interfaces), as
  lists; \<open>f\<close> is the key comparison.
\<close>

definition to_fully_staffed_matrix_2 ::
  "('k list \<Rightarrow> 'e) \<Rightarrow> ('k list, 'v list list) dict \<Rightarrow> ('k list, 'v list list) dict" where
  "to_fully_staffed_matrix_2 f d =
     fold (\<lambda>(k, vals) fs. kset f (kset f fs k vals) (rev k) (map rev vals)) d []"

section \<open>Merging\<close>

text \<open>
  \<open>list_merge_values\<close>: the values are list objects, which are extended in place and
  shared. \<open>heap\<close> holds the lists, the dicts hold references. \<open>d.copy()\<close> copies the
  references only.
\<close>

definition list_merge_values ::
  "bool \<Rightarrow> 'v list list \<Rightarrow> ('k, nat) dict \<Rightarrow> ('k, nat) dict \<Rightarrow> 'v list list \<times> ('k, nat) dict \<times> ('k, nat) dict" where
  "list_merge_values in_place heap d d2 =
     (let (heap, d3) = fold (\<lambda>(key, val) (heap, d3). case dget d3 key of
             None \<Rightarrow> (heap, dset d3 key val)
           | Some r \<Rightarrow> (heap[r := heap ! r @ heap ! val], d3)) d2 (heap, d)
      in (heap, if in_place then d3 else d, d3))"

definition contents :: "'v list list \<Rightarrow> ('k, nat) dict \<Rightarrow> 'k \<Rightarrow> 'v list option" where
  "contents heap d k = map_option ((!) heap) (dget d k)"

text \<open>The same merge on dicts of list values, where no list is shared.\<close>

definition merge_lists :: "('k \<Rightarrow> 'e) \<Rightarrow> ('k, 'v list) dict \<Rightarrow> ('k, 'v list) dict \<Rightarrow> ('k, 'v list) dict" where
  "merge_lists f d d2 =
     fold (\<lambda>(key, val) d3. case kget f d3 key of None \<Rightarrow> kset f d3 key val | Some v \<Rightarrow> kset f d3 key (v @ val)) d2 d"

datatype json = JNull | JBool bool | JInt int | JFloat rat | JStr string
  | JList "json list" | JObj "(string \<times> json) list"

function merge_recursive_in_place :: "json \<Rightarrow> json \<Rightarrow> json" where
  "merge_recursive_in_place d d2 =
     (case d2 of
        JNull \<Rightarrow> d
      | JObj o2 \<Rightarrow> (case d of
          JObj o1 \<Rightarrow> JObj (map (\<lambda>(k, v). (k, case dget o2 k of
                        None \<Rightarrow> v | Some v2 \<Rightarrow> merge_recursive_in_place v v2)) o1)
        | _ \<Rightarrow> d2)
      | _ \<Rightarrow> d2)"
  by pat_completeness auto
termination
proof (relation "measure (\<lambda>(d, d2). size d)", simp, clarsimp)
  fix o1 :: "(string \<times> json) list" and k v
  assume "(k, v) \<in> set o1"
  then show "size v < Suc (size_list (size_prod (\<lambda>_. 0) size) o1)"
    by (induction o1) auto
qed

declare merge_recursive_in_place.simps [simp del]

section \<open>The distance matrix\<close>

type_synonym distance_matrix = "(int \<times> int, rat) dict"

definition UNLIMITED_DISTANCE :: rat where "UNLIMITED_DISTANCE = -1"

definition dm_get_key :: "int \<Rightarrow> int \<Rightarrow> int \<times> int" where
  "dm_get_key x y = (x, y)"

definition set_distance :: "int \<Rightarrow> int \<Rightarrow> rat \<Rightarrow> distance_matrix \<Rightarrow> distance_matrix" where
  "set_distance x y distance m = dset m (dm_get_key x y) distance"

definition set_unlimited_distance :: "int \<Rightarrow> int \<Rightarrow> distance_matrix \<Rightarrow> distance_matrix" where
  "set_unlimited_distance x y m = set_distance x y UNLIMITED_DISTANCE m"

text \<open>\<open>get_distance\<close> calls \<open>self.get_key((x, y))\<close>: one argument for two parameters.\<close>

definition get_distance :: "int \<Rightarrow> int \<Rightarrow> distance_matrix \<Rightarrow> rat res" where
  "get_distance x y m = Inl TypeError"

definition filter_empty :: "distance_matrix \<Rightarrow> distance_matrix" where
  "filter_empty m = dict_of (filter (\<lambda>x. snd x \<ge> 0) m)"

definition transform_distance_matrix :: "distance_matrix \<Rightarrow> (int, (int \<times> rat) list) dict" where
  "transform_distance_matrix m =
     fold (\<lambda>((x, y), distance) res. dset res x (ddget_set res x @ [(y, distance)])) m []"

text \<open>The keys have passed through JSON as strings and are read back by \<open>int(x)\<close>.\<close>

definition detransform_distance_matrix :: "(int, (int \<times> rat) list) dict \<Rightarrow> distance_matrix" where
  "detransform_distance_matrix m =
     fold (\<lambda>(x, entries) res. fold (\<lambda>(y, distance) res. dset res (x, y) distance) entries res) m []"

section \<open>Lemmas\<close>

lemma ddget_dset: "ddget_set (dset d k v) k' = (if k = k' then v else ddget_set d k')"
  by (simp add: ddget_set_def dict_simps)

lemma fold_staff_inner:
  "set (ddget_set (fold (\<lambda>v fs. dset fs v (oset_add (ddget_set fs v) k)) vals fs) x) =
     set (ddget_set fs x) \<union> (if x \<in> set vals then {k} else {})"
  by (induction vals arbitrary: fs) (auto simp: ddget_dset)

lemma fold_staff_outer:
  "y \<in> set (ddget_set (fold (\<lambda>(k, vals) fs. fold (\<lambda>v fs. dset fs v (oset_add (ddget_set fs v) k)) vals fs) d fs) x)
   \<longleftrightarrow> y \<in> set (ddget_set fs x) \<or> (\<exists>vals. (y, vals) \<in> set d \<and> x \<in> set vals)"
  by (induction d arbitrary: fs) (auto simp: fold_staff_inner split: if_splits)

lemma fold_copy:
  "dwf d \<Longrightarrow> set (ddget_set (fold (\<lambda>(k, vals) fs. dset fs k (oset_of vals)) d fs) x) =
     (case dget d x of None \<Rightarrow> set (ddget_set fs x) | Some vals \<Rightarrow> set vals)"
proof (induction d arbitrary: fs)
  case (Cons kv d)
  then show ?case by (cases kv) (auto simp: kwf_Cons ddget_dset split: option.splits)
qed simp

lemma ddget_mem: "dwf d \<Longrightarrow> x \<in> set (ddget_set d y) \<longleftrightarrow> (\<exists>vals. (y, vals) \<in> set d \<and> x \<in> set vals)"
proof -
  assume wf: "dwf d"
  show ?thesis
  proof (cases "dget d y")
    case None
    then have "(y, vals) \<notin> set d" for vals by (force simp: dget_None_iff)
    with None show ?thesis by (simp add: ddget_set_def)
  next
    case (Some s)
    then have "(y, s) \<in> set d" by (rule dget_SomeD)
    moreover have "(y, s') \<in> set d \<Longrightarrow> s' = s" for s' using dget_of_mem [OF wf, of y s'] Some by simp
    moreover have "ddget_set d y = s" by (simp add: ddget_set_def Some)
    ultimately show ?thesis by metis
  qed
qed

lemma transform_fold:
  "dwf m \<Longrightarrow> (y, v) \<in> set (ddget_set (fold (\<lambda>((x, y), distance) res. dset res x (ddget_set res x @ [(y, distance)])) m res) x)
   \<longleftrightarrow> (y, v) \<in> set (ddget_set res x) \<or> dget m (x, y) = Some v"
proof (induction m arbitrary: res)
  case (Cons e m)
  obtain a b w where e: "e = ((a, b), w)" by (cases e) auto
  from Cons.prems have "dget m (a, b) = None" "dwf m" by (simp_all add: e kwf_Cons)
  with Cons.IH show ?case by (auto simp: e ddget_dset)
qed simp


lemma transform_mem:
  "dwf m \<Longrightarrow> (y, v) \<in> set (ddget_set (transform_distance_matrix m) x) \<longleftrightarrow> dget m (x, y) = Some v"
  unfolding transform_distance_matrix_def by (subst transform_fold) (simp_all add: ddget_set_def)

lemma dwf_transform: "dwf (transform_distance_matrix m)"
proof -
  have "dwf res \<Longrightarrow> dwf (fold (\<lambda>((x, y), distance) res. dset res x (ddget_set res x @ [(y, distance)])) m res)" for res
    by (induction m arbitrary: res) auto
  then show ?thesis by (simp add: transform_distance_matrix_def)
qed

lemma detransform_inner:
  "dget (fold (\<lambda>(y, distance) res. dset res (x, y) distance) es res) (a, b) =
     (if a = x then (case map_of (rev es) b of None \<Rightarrow> dget res (a, b) | Some v \<Rightarrow> Some v) else dget res (a, b))"
  by (induction es arbitrary: res) (auto simp: dict_simps map_add_def split: option.splits)

lemma detransform_outer:
  "dwf t \<Longrightarrow> dget (fold (\<lambda>(x, entries) res. fold (\<lambda>(y, distance) res. dset res (x, y) distance) entries res) t res) (a, b) =
     (case map_of (rev (ddget_set t a)) b of None \<Rightarrow> dget res (a, b) | Some v \<Rightarrow> Some v)"
proof (induction t arbitrary: res)
  case (Cons e t)
  then show ?case
    by (cases e) (auto simp: kwf_Cons detransform_inner ddget_set_def split: option.splits)
qed (simp add: ddget_set_def)

lemma dwf_detransform: "dwf (detransform_distance_matrix t)"
proof -
  have inner: "dwf res \<Longrightarrow> dwf (fold (\<lambda>(y, distance) res. dset res (x, y) distance) es res)" for x es and res :: distance_matrix
    by (induction es arbitrary: res) auto
  have "dwf res \<Longrightarrow> dwf (fold (\<lambda>(x, entries) res. fold (\<lambda>(y, distance) res. dset res (x, y) distance) entries res) t res)"
    for res :: distance_matrix
    by (induction t arbitrary: res) (auto simp: inner)
  then show ?thesis by (simp add: detransform_distance_matrix_def)
qed

text \<open>A merge into a copy still extends the lists of the original dict.\<close>

lemma list_merge_copy_shares:
  assumes "dget d k = Some r" "r < length heap"
  shows "case list_merge_values False heap d [(k, v)] of
    (heap', d', d3) \<Rightarrow> d' = d \<and> contents heap' d' k = Some (heap ! r @ heap ! v)"
  using assms by (simp add: list_merge_values_def contents_def)

section \<open>Properties\<close>

text \<open>Merging a custom scenario into a scenario recursively keeps exactly the keys of
  the scenario, in their order; a key that both have is merged and every other key keeps its
  value. A value of the custom scenario that is not a dict replaces the old value.\<close>

theorem merge_recursive_keys:
  "\<exists>o3. merge_recursive_in_place (JObj o1) (JObj o2) = JObj o3 \<and> map fst o3 = map fst o1
     \<and> (\<forall>k. dget o3 k = map_option (\<lambda>v. case dget o2 k of None \<Rightarrow> v | Some v2 \<Rightarrow> merge_recursive_in_place v v2) (dget o1 k))
     \<and> merge_recursive_in_place (JObj o1) (JStr s) = JStr s"
proof -
  let ?m = "\<lambda>(k, v). (k, case dget o2 k of None \<Rightarrow> v | Some v2 \<Rightarrow> merge_recursive_in_place v v2)"
  have "merge_recursive_in_place (JObj o1) (JObj o2) = JObj (map ?m o1)"
    by (simp add: merge_recursive_in_place.simps [of "JObj o1"])
  moreover have "dget (map ?m o1) k = map_option (\<lambda>v. case dget o2 k of None \<Rightarrow> v | Some v2 \<Rightarrow> merge_recursive_in_place v v2) (dget o1 k)" for k
    by (induction o1) auto
  moreover have "map fst (map ?m o1) = map fst o1" by (induction o1) auto
  moreover have "merge_recursive_in_place (JObj o1) (JStr s) = JStr s"
    by (simp add: merge_recursive_in_place.simps)
  ultimately show ?thesis by blast
qed

text \<open>The fully staffed connection matrix is the symmetric closure: a node is a peer of
  another one exactly if one of the two listed the other.\<close>

theorem to_fully_staffed_matrix_symmetric:
  assumes "dwf d"
  shows "y \<in> set (ddget_set (to_fully_staffed_matrix d) x)
     \<longleftrightarrow> y \<in> set (ddget_set d x) \<or> x \<in> set (ddget_set d y)"
proof -
  have "set (ddget_set (fold (\<lambda>(k, vals) fs. dset fs k (oset_of vals)) d []) x) = set (ddget_set d x)"
    unfolding fold_copy [OF assms] by (cases "dget d x") (simp_all add: ddget_set_def)
  then show ?thesis
    unfolding to_fully_staffed_matrix_def fold_staff_outer ddget_mem [OF assms, of x y] by simp
qed

theorem to_fully_staffed_matrix_symmetric_witness:
  "(1 :: int) \<in> set (ddget_set (to_fully_staffed_matrix [(1, [2, 3])]) 3)"
  using to_fully_staffed_matrix_symmetric [of "[(1 :: int, [2, 3])]" 1 3] by (simp add: kwf_def ddget_set_def)

lemma detransform_transform:
  assumes "dwf m"
  shows "dget (detransform_distance_matrix (transform_distance_matrix m)) (x, y) = dget m (x, y)"
proof -
  let ?es = "rev (ddget_set (transform_distance_matrix m) x)"
  have "map_of ?es y = dget m (x, y)"
  proof (cases "map_of ?es y")
    case None
    then have "dget m (x, y) \<noteq> Some v" for v
      using transform_mem [OF assms, of y v x] by (auto simp: map_of_eq_None_iff image_iff)
    with None show ?thesis by (cases "dget m (x, y)") auto
  next
    case (Some v)
    then show ?thesis using map_of_SomeD transform_mem [OF assms, of y v x] by fastforce
  qed
  then show ?thesis
    unfolding detransform_distance_matrix_def detransform_outer [OF dwf_transform]
    by (simp split: option.splits)
qed

text \<open>C28: Sending a distance matrix to a server and reading it back keeps every distance:
  the transformation to one list per node and its inverse give a matrix with the same entries.\<close>

theorem distance_matrix_roundtrip:
  assumes "dwf m"
  shows "dwf (detransform_distance_matrix (transform_distance_matrix m))
     \<and> dget (detransform_distance_matrix (transform_distance_matrix m)) (x, y) = dget m (x, y)"
  using dwf_detransform detransform_transform [OF assms] by blast

theorem distance_matrix_roundtrip_witness:
  "dget (detransform_distance_matrix (transform_distance_matrix [((1, 2), 5), ((2, 1), 7), ((1, 3), 9)])) (1, 3) = Some 9"
  using distance_matrix_roundtrip [of "[((1, 2), 5), ((2, 1), 7), ((1, 3), 9)]" 1 3] by (simp add: kwf_def)

end
