(* ===== verification/Node_Distribution.thy ===== *)
theory Node_Distribution
  imports Dict_Util "HOL-Library.Multiset"
begin

text \<open>
  Distribution of the nodes over the servers of a distributed emulation:
  \<open>management/NodeDistributionStrategy.py\<close> and the scores of \<open>ServerScore.py\<close>. The round
  robin loop of \<open>apply_distribution_strategy\<close> has no bound, so the functions return
  \<open>None\<close> where it does not end.
\<close>

section \<open>Assigning nodes\<close>

type_synonym distribution = "(int, int list) dict"

definition server_ids :: "nat \<Rightarrow> int list" where
  "server_ids cnt_servers = map int [1..<Suc cnt_servers]"

text \<open>\<open>node_ids[last_pos:cur_pos]\<close>\<close>

definition pyslice :: "'a list \<Rightarrow> nat \<Rightarrow> nat \<Rightarrow> 'a list" where
  "pyslice xs i j = take (j - i) (drop i xs)"

text \<open>
  The first loop: a server takes its share, in the order of the server ids. \<open>Inl\<close> is the
  early \<open>return\<close>, \<open>Inr\<close> the position after the loop (at its end or its \<open>break\<close>).
\<close>

fun share_loop ::
  "int list \<Rightarrow> (int, nat) dict \<Rightarrow> int list \<Rightarrow> nat \<Rightarrow> nat \<Rightarrow> distribution \<Rightarrow> distribution + (nat \<times> distribution)" where
  "share_loop node_ids shares [] last_pos cur_pos res = Inr (last_pos, res)"
| "share_loop node_ids shares (server_id # servers) last_pos cur_pos res =
     (case dget shares server_id of
        None \<Rightarrow> Inr (last_pos, res)
      | Some share \<Rightarrow>
          let cur_pos = cur_pos + share
          in if last_pos \<ge> length node_ids then Inl res
             else share_loop node_ids shares servers cur_pos cur_pos
                    (dset res server_id (pyslice node_ids last_pos cur_pos)))"

text \<open>One pass of the round robin over the servers.\<close>

fun fair_pass :: "int list \<Rightarrow> int list \<Rightarrow> nat \<Rightarrow> distribution \<Rightarrow> distribution + (nat \<times> distribution)" where
  "fair_pass node_ids [] last_pos res = Inr (last_pos, res)"
| "fair_pass node_ids (server_id # servers) last_pos res =
     (if last_pos \<ge> length node_ids then Inl res
      else fair_pass node_ids servers (Suc last_pos)
             (dset res server_id (ddget_set res server_id @ [node_ids ! last_pos])))"

partial_function (option) fair_loop :: "int list \<Rightarrow> int list \<Rightarrow> nat \<Rightarrow> distribution \<Rightarrow> distribution option" where
  "fair_loop node_ids servers last_pos res =
     (case fair_pass node_ids servers last_pos res of
        Inl res \<Rightarrow> Some res
      | Inr (last_pos, res) \<Rightarrow> fair_loop node_ids servers last_pos res)"

declare fair_loop.simps [code]

definition apply_distribution_strategy ::
  "int list \<Rightarrow> nat \<Rightarrow> (int, nat) dict \<Rightarrow> bool \<Rightarrow> int list option \<Rightarrow> distribution option" where
  "apply_distribution_strategy node_ids cnt_servers shares distribute_remaining_fair remaining_ids =
     (let remaining_ids = (case remaining_ids of None \<Rightarrow> server_ids cnt_servers | Some ids \<Rightarrow> ids);
          res = map (\<lambda>s. (s, [])) (server_ids cnt_servers)
      in case share_loop node_ids shares (server_ids cnt_servers) 0 0 res of
           Inl res \<Rightarrow> Some res
         | Inr (last_pos, res) \<Rightarrow>
             if distribute_remaining_fair then fair_loop node_ids remaining_ids last_pos res else Some res)"

text \<open>
  \<open>NDSEqual\<close>: the shares are keyed by the node ids. The division is evaluated once per node:
  no server and at least one node raise \<open>ZeroDivisionError\<close>.
\<close>

definition nds_equal :: "int list \<Rightarrow> nat \<Rightarrow> distribution res option" where
  "nds_equal node_ids cnt_servers =
     (if node_ids \<noteq> [] \<and> cnt_servers = 0 then Some (Inl ZeroDivisionError)
      else map_option Inr (apply_distribution_strategy node_ids cnt_servers
             (dict_of (map (\<lambda>n. (n, max 1 (length node_ids div cnt_servers))) node_ids)) True None))"

section \<open>Scores\<close>

record server_score =
  score_cpu :: rat
  score_free_mem :: rat

definition get_cpu_score :: "server_score \<Rightarrow> rat" where "get_cpu_score s = score_cpu s"
definition get_free_mem_score :: "server_score \<Rightarrow> rat" where "get_free_mem_score s = score_free_mem s"

text \<open>The servers by descending CPU score; the sort is stable.\<close>

definition cpu_ranking :: "(int, server_score) dict \<Rightarrow> int list" where
  "cpu_ranking scores = map fst (pysorted (\<lambda>a b. get_cpu_score (snd b) < get_cpu_score (snd a)) scores)"

text \<open>
  The \<open>while\<close> loop that decreases the number of nodes until they fit into the free memory,
  which is not negative, so that the loop ends at 0 at the latest.
\<close>

fun fit_ram :: "nat \<Rightarrow> rat \<Rightarrow> nat \<Rightarrow> nat" where
  "fit_ram vm_size free_memory cnt =
     (if of_nat (cnt * vm_size) > free_memory
      then (case cnt of 0 \<Rightarrow> 0 | Suc c \<Rightarrow> fit_ram vm_size free_memory c)
      else cnt)"

declare fit_ram.simps [simp del]

definition score_share :: "(int, server_score) dict \<Rightarrow> nat \<Rightarrow> int list \<Rightarrow> server_score \<Rightarrow> nat" where
  "score_share scores vm_size node_ids s =
     (let sum_bogomips = sum_list (map (\<lambda>(_, x). get_cpu_score x) scores);
          bogomips_perc = get_cpu_score s / sum_bogomips;
          cnt = nat \<lceil>bogomips_perc * of_nat (length node_ids)\<rceil>
      in fit_ram vm_size (get_free_mem_score s) cnt)"

definition nds_score :: "(int, server_score) dict \<Rightarrow> nat \<Rightarrow> int list \<Rightarrow> nat \<Rightarrow> distribution res option" where
  "nds_score scores vm_size node_ids cnt_servers =
     (if scores \<noteq> [] \<and> sum_list (map (\<lambda>(_, x). get_cpu_score x) scores) = 0 then Some (Inl ZeroDivisionError)
      else
        let ranking = cpu_ranking scores;
            shares = dict_of (map (\<lambda>s. (s, case dget scores s of
                        None \<Rightarrow> 0 | Some sc \<Rightarrow> score_share scores vm_size node_ids sc)) ranking)
        in map_option Inr (apply_distribution_strategy node_ids cnt_servers shares True (Some ranking)))"

section \<open>Lemmas\<close>

definition assigned :: "distribution \<Rightarrow> int multiset" where
  "assigned res = mset (concat (map snd res))"

definition servers_of :: "distribution \<Rightarrow> int set" where
  "servers_of res = fst ` set res"

lemma servers_of_dset: "servers_of res \<subseteq> servers_of (dset res k v)"
  using keys_dset [of res k v] by (auto simp: servers_of_def)

lemma ddget_const: "ddget_set (map (\<lambda>s. (s, [])) xs) s = []"
  by (induction xs) (auto simp: ddget_set_def)

lemma assigned_dset:
  "assigned (dset res k v) + mset (ddget_set res k) = assigned res + mset v"
  by (induction res) (auto simp: assigned_def ddget_set_def)

lemma assigned_dset_new: "ddget_set res k = [] \<Longrightarrow> assigned (dset res k v) = assigned res + mset v"
  using assigned_dset [of res k v] by simp

lemma assigned_append: "assigned (dset res k (ddget_set res k @ v)) = assigned res + mset v"
  using assigned_dset [of res k "ddget_set res k @ v"] by (simp add: add.commute add.left_commute)

lemma take_pyslice: "i \<le> j \<Longrightarrow> mset (take i xs) + mset (pyslice xs i j) = mset (take j xs)"
  by (metis le_add_diff_inverse mset_append pyslice_def take_add)

lemma share_loop_spec:
  "assigned res = mset (take last_pos node_ids) \<Longrightarrow> cur_pos = last_pos \<Longrightarrow> distinct servers \<Longrightarrow>
   (\<forall>s \<in> set servers. ddget_set res s = []) \<Longrightarrow>
   (case share_loop node_ids shares servers last_pos cur_pos res of
      Inl r \<Rightarrow> assigned r = mset node_ids \<and> servers_of res \<subseteq> servers_of r
    | Inr (p, r) \<Rightarrow> assigned r = mset (take p node_ids) \<and> servers_of res \<subseteq> servers_of r)"
proof (induction servers arbitrary: last_pos cur_pos res)
  case (Cons s servers)
  show ?case
  proof (cases "dget shares s")
    case (Some share)
    let ?res = "dset res s (pyslice node_ids last_pos (last_pos + share))"
    have "assigned ?res = mset (take (last_pos + share) node_ids)"
      using Cons.prems assigned_dset_new [of res s] take_pyslice [of last_pos "last_pos + share" node_ids] by simp
    moreover note servers_of_dset [of res s]
    moreover have "\<forall>s' \<in> set servers. ddget_set ?res s' = []" using Cons.prems by (auto simp: ddget_dset)
    ultimately show ?thesis
      using Cons.IH [of ?res "last_pos + share" "last_pos + share"] Cons.prems Some
      by (fastforce simp: Let_def split: sum.splits)
  qed (use Cons.prems in simp)
qed simp

lemma fair_pass_spec:
  "assigned res = mset (take last_pos node_ids) \<Longrightarrow>
   (case fair_pass node_ids servers last_pos res of
      Inl r \<Rightarrow> assigned r = mset node_ids \<and> servers_of res \<subseteq> servers_of r
    | Inr (p, r) \<Rightarrow> assigned r = mset (take p node_ids) \<and> servers_of res \<subseteq> servers_of r
         \<and> p = last_pos + length servers)"
proof (induction servers arbitrary: last_pos res)
  case (Cons s servers)
  show ?case
  proof (cases "length node_ids \<le> last_pos")
    case False
    let ?res = "dset res s (ddget_set res s @ [node_ids ! last_pos])"
    have "assigned ?res = mset (take (Suc last_pos) node_ids)"
      using Cons.prems False by (simp add: assigned_append take_Suc_conv_app_nth)
    moreover note servers_of_dset [of res s]
    ultimately show ?thesis using Cons.IH [of ?res "Suc last_pos"] False
      by (fastforce split: sum.splits)
  qed (use Cons.prems in simp)
qed simp

lemma fair_loop_spec:
  "servers \<noteq> [] \<Longrightarrow> assigned res = mset (take last_pos node_ids) \<Longrightarrow>
   \<exists>r. fair_loop node_ids servers last_pos res = Some r \<and> assigned r = mset node_ids \<and> servers_of res \<subseteq> servers_of r"
proof (induction "length node_ids - last_pos" arbitrary: last_pos res rule: less_induct)
  case less
  show ?case
  proof (cases "fair_pass node_ids servers last_pos res")
    case (Inl r)
    then show ?thesis using fair_pass_spec [OF less.prems(2), of servers]
      by (simp add: fair_loop.simps [of node_ids servers last_pos])
  next
    case (Inr pr)
    obtain p r where pr: "pr = (p, r)" by force
    have spec: "assigned r = mset (take p node_ids)" "servers_of res \<subseteq> servers_of r" "p = last_pos + length servers"
      using fair_pass_spec [OF less.prems(2), of servers] Inr pr by simp_all
    have "last_pos < length node_ids"
      using Inr less.prems(1) by (cases servers) (auto split: if_splits)
    then have "length node_ids - p < length node_ids - last_pos" using spec(3) less.prems(1) by (cases servers) auto
    from less.hyps [OF this less.prems(1) spec(1)] show ?thesis using Inr pr spec(2)
      by (auto simp: fair_loop.simps [of node_ids servers last_pos])
  qed
qed

lemma fair_loop_no_server: "fair_loop node_ids [] last_pos res = None"
proof -
  have "fair_loop node_ids servers last_pos res = Some r \<Longrightarrow> servers \<noteq> []" for servers r
    by (rule fair_loop.raw_induct [of "\<lambda>node_ids servers last_pos res r. servers \<noteq> []"])
      (auto split: sum.splits prod.splits)
  then show ?thesis by (metis not_None_eq)
qed

lemma server_ids_simps [simp]: "distinct (server_ids n)" "set (server_ids n) = int ` {1..n}"
  "server_ids n = [] \<longleftrightarrow> n = 0"
  by (auto simp: server_ids_def distinct_map inj_on_def)

lemma apply_spec:
  assumes "fair" and "(case remaining_ids of None \<Rightarrow> server_ids cnt | Some ids \<Rightarrow> ids) \<noteq> []"
  shows "\<exists>r. apply_distribution_strategy node_ids cnt shares fair remaining_ids = Some r
     \<and> assigned r = mset node_ids \<and> int ` {1..cnt} \<subseteq> servers_of r"
proof -
  let ?res = "map (\<lambda>s. (s, [])) (server_ids cnt)"
  have "assigned ?res = mset (take 0 node_ids)" by (simp add: assigned_def comp_def)
  moreover have "\<forall>s \<in> set (server_ids cnt). ddget_set ?res s = []" by (simp add: ddget_const)
  ultimately have spec: "case share_loop node_ids shares (server_ids cnt) 0 0 ?res of
      Inl r \<Rightarrow> assigned r = mset node_ids \<and> servers_of ?res \<subseteq> servers_of r
    | Inr (p, r) \<Rightarrow> assigned r = mset (take p node_ids) \<and> servers_of ?res \<subseteq> servers_of r"
    using share_loop_spec [of ?res 0 node_ids 0 "server_ids cnt" shares] by simp
  have sv: "servers_of ?res = int ` {1..cnt}" unfolding servers_of_def by force
  show ?thesis
  proof (cases "share_loop node_ids shares (server_ids cnt) 0 0 ?res")
    case (Inl r)
    with spec sv show ?thesis by (simp add: apply_distribution_strategy_def)
  next
    case (Inr pr)
    then show ?thesis using spec sv assms fair_loop_spec [OF assms(2), of "snd pr" "fst pr" node_ids]
      by (fastforce simp: apply_distribution_strategy_def)
  qed
qed

lemma fit_ram_spec:
  assumes "0 \<le> free"
  shows "fit_ram vm free cnt \<le> cnt \<and> of_nat (fit_ram vm free cnt * vm) \<le> free
     \<and> (\<forall>k. k \<le> cnt \<longrightarrow> of_nat (k * vm) \<le> free \<longrightarrow> k \<le> fit_ram vm free cnt)"
proof (induction cnt)
  case (Suc cnt)
  show ?case
  proof (cases "of_nat (Suc cnt * vm) > free")
    case True
    then have "fit_ram vm free (Suc cnt) = fit_ram vm free cnt" by (simp add: fit_ram.simps [of vm free "Suc cnt"])
    with Suc True show ?thesis by (metis le_Suc_eq not_le)
  next
    case False
    then have "fit_ram vm free (Suc cnt) = Suc cnt" by (simp add: fit_ram.simps [of vm free "Suc cnt"])
    with False show ?thesis by (metis le_refl not_le)
  qed
qed (use assms in \<open>simp add: fit_ram.simps\<close>)

section \<open>Properties\<close>

text \<open>C11: With at least one server, the distribution of the nodes ends and assigns every
  node to exactly one server, with an entry for every server (also for servers without
  nodes): for the equal scheduler, whatever the node ids are, and for any shares of the
  servers.\<close>

theorem distribution_is_partition:
  assumes "0 < cnt_servers"
  shows "(\<exists>res. nds_equal node_ids cnt_servers = Some (Inr res)
            \<and> mset (concat (map snd res)) = mset node_ids \<and> int ` {1..cnt_servers} \<subseteq> fst ` set res)
    \<and> (\<exists>res. apply_distribution_strategy node_ids cnt_servers shares True None = Some res
            \<and> mset (concat (map snd res)) = mset node_ids \<and> int ` {1..cnt_servers} \<subseteq> fst ` set res)"
  using assms apply_spec [of True cnt_servers None node_ids]
  by (simp add: nds_equal_def assigned_def servers_of_def)

theorem distribution_is_partition_witness:
  "\<exists>res. nds_equal [1, 2, 3, 4, 5] 2 = Some (Inr res) \<and> mset (concat (map snd res)) = {#1, 2, 3, 4, 5#}"
  using distribution_is_partition [of 2 "[1, 2, 3, 4, 5]" "[]"] by auto

text \<open>Without a server the round robin never ends: the equal scheduler does not return
  for an empty node list and raises \<open>ZeroDivisionError\<close> otherwise; the score scheduler does
  not return when there is no score.\<close>

theorem distribution_needs_servers:
  "nds_equal [] 0 = None \<and> nds_equal (n # ns) 0 = Some (Inl ZeroDivisionError)
   \<and> nds_score [] vm_size node_ids cnt_servers = None"
proof -
  have "share_loop node_ids [] servers 0 0 res = Inr (0, res)" for servers res node_ids
    by (cases servers) auto
  then show ?thesis
    by (simp add: nds_equal_def nds_score_def apply_distribution_strategy_def cpu_ranking_def pysorted_def
        dict_of_def fair_loop_no_server server_ids_def)
qed

text \<open>The share of a server under the score scheduler is the largest number of nodes up
  to its rounded-up part of the CPU score whose machines fit into the server's free memory.\<close>

theorem score_share_fits:
  fixes scores :: "(int, server_score) dict" and node_ids :: "int list"
  assumes "0 \<le> get_free_mem_score s"
  defines "limit \<equiv> nat \<lceil>get_cpu_score s / sum_list (map (\<lambda>(_, x). get_cpu_score x) scores) * of_nat (length node_ids)\<rceil>"
  shows "score_share scores vm_size node_ids s \<le> limit
    \<and> of_nat (score_share scores vm_size node_ids s * vm_size) \<le> get_free_mem_score s
    \<and> (\<forall>k. k \<le> limit \<longrightarrow> of_nat (k * vm_size) \<le> get_free_mem_score s \<longrightarrow> k \<le> score_share scores vm_size node_ids s)"
  using fit_ram_spec [OF assms(1), of vm_size limit] by (simp add: score_share_def limit_def)

theorem score_share_fits_witness:
  "of_nat (score_share [(1, \<lparr>score_cpu = 1000, score_free_mem = 256\<rparr>)] 128 [1, 2, 3]
       \<lparr>score_cpu = 1000, score_free_mem = 256\<rparr> * 128) \<le> (256 :: rat)"
  using score_share_fits [where s = "\<lparr>score_cpu = 1000, score_free_mem = 256\<rparr>" and vm_size = 128
      and scores = "[(1, \<lparr>score_cpu = 1000, score_free_mem = 256\<rparr>)]" and node_ids = "[1, 2, 3]"]
  by (simp add: get_free_mem_score_def)

end
