(* ===== verification/Ip_Networks.thy ===== *)
theory Ip_Networks
  imports Prelude
begin

text \<open>
  The parts of Python's \<open>ipaddress\<close> module that the program uses, and the subnet generator
  \<open>get_slash_x\<close> of \<open>util/NetUtil.py\<close>. An address is a natural number below \<open>2 ^ 32\<close>; a
  network is its first address and its prefix length. A generator is the list of what it
  will still yield.
\<close>

section \<open>Networks\<close>

record ipv4_network =
  network_address :: nat
  prefixlen :: nat

definition net_size :: "ipv4_network \<Rightarrow> nat" where
  "net_size n = 2 ^ (32 - prefixlen n)"

definition broadcast_address :: "ipv4_network \<Rightarrow> nat" where
  "broadcast_address n = network_address n + net_size n - 1"

definition netmask :: "ipv4_network \<Rightarrow> nat" where
  "netmask n = 2 ^ 32 - net_size n"

text \<open>\<open>network[n]\<close>\<close>

definition net_getitem :: "ipv4_network \<Rightarrow> int \<Rightarrow> nat res" where
  "net_getitem net n =
     (let network = int (network_address net); broadcast = int (broadcast_address net)
      in if n \<ge> 0 then (if network + n > broadcast then Inl IndexError else Inr (nat (network + n)))
         else (let n = n + 1
               in if broadcast + n < network then Inl IndexError else Inr (nat (broadcast + n))))"

text \<open>\<open>network.subnets()\<close> with the default \<open>prefixlen_diff=1\<close>.\<close>

definition subnets :: "ipv4_network \<Rightarrow> ipv4_network list" where
  "subnets net =
     (if prefixlen net = 32 then [net]
      else let p = Suc (prefixlen net)
           in [\<lparr>network_address = network_address net, prefixlen = p\<rparr>,
               \<lparr>network_address = network_address net + 2 ^ (32 - p), prefixlen = p\<rparr>])"

text \<open>\<open>str(address)\<close>\<close>

definition ipv4_str :: "nat \<Rightarrow> string" where
  "ipv4_str a = pyjoin ''.'' (map nat_dec [a div 2 ^ 24 mod 256, a div 2 ^ 16 mod 256, a div 2 ^ 8 mod 256, a mod 256])"

text \<open>\<open>NetUtil.get_mac\<close> and \<open>NetUtil.get_ip_addr_change_cmd\<close>\<close>

definition netutil_get_mac :: "nat \<Rightarrow> string \<Rightarrow> string" where
  "netutil_get_mac postfix_as_int prefix =
     (let postfix = zpad 4 (nat_hex postfix_as_int)
      in prefix @ '':'' @ take 2 postfix @ '':'' @ take 2 (drop 2 postfix))"

definition get_ip_addr_change_cmd :: "string \<Rightarrow> nat \<Rightarrow> nat \<Rightarrow> bool \<Rightarrow> string" where
  "get_ip_addr_change_cmd dev ip nmask up =
     ''ifconfig '' @ dev @ '' '' @ ipv4_str ip @ '' netmask '' @ ipv4_str nmask @ '' '' @ (if up then ''up'' else '''')"

section \<open>The subnet generator\<close>

text \<open>
  \<open>get_slash_x\<close> descends from a subnet to its halves until the prefix length is reached:
  \<open>slash_sub d\<close> is what it yields for a subnet that is \<open>d\<close> bits shorter. A subnet that is
  already longer than the prefix length is halved without end (\<open>RecursionError\<close>, a
  \<open>RuntimeError\<close>, at the first \<open>next\<close>).
\<close>

fun slash_sub :: "nat \<Rightarrow> ipv4_network \<Rightarrow> ipv4_network list" where
  "slash_sub 0 s = [s]"
| "slash_sub (Suc d) s = concat (map (slash_sub d) (subnets s))"

definition get_slash_x :: "ipv4_network list \<Rightarrow> nat \<Rightarrow> ipv4_network list res" where
  "get_slash_x nets x =
     (if list_ex (\<lambda>s. prefixlen s > x \<or> x > 32) nets then Inl RuntimeError
      else Inr (concat (map (\<lambda>s. slash_sub (x - prefixlen s) s) nets)))"

definition gen_next :: "'a list \<Rightarrow> 'a res \<times> 'a list" where
  "gen_next gen = (case gen of [] \<Rightarrow> (Inl StopIteration, []) | x # xs \<Rightarrow> (Inr x, xs))"

section \<open>Lemmas\<close>

text \<open>A network is aligned: its first address is a multiple of its size.\<close>

definition net_wf :: "ipv4_network \<Rightarrow> bool" where
  "net_wf n \<longleftrightarrow> prefixlen n \<le> 32 \<and> net_size n dvd network_address n \<and> network_address n + net_size n \<le> 2 ^ 32"

definition addresses :: "ipv4_network \<Rightarrow> nat set" where
  "addresses n = {network_address n ..< network_address n + net_size n}"

lemma slash_sub_eq:
  "prefixlen s + d \<le> 32 \<Longrightarrow>
   slash_sub d s = map (\<lambda>k. \<lparr>network_address = network_address s + k * 2 ^ (32 - prefixlen s - d),
                             prefixlen = prefixlen s + d\<rparr>) [0..<2 ^ d]"
proof (induction d arbitrary: s)
  case 0
  then show ?case by (cases s) simp
next
  case (Suc d)
  let ?p = "Suc (prefixlen s)" and ?q = "32 - prefixlen s - Suc d"
  let ?net = "\<lambda>a k. \<lparr>network_address = a + k * 2 ^ ?q, prefixlen = ?p + d\<rparr>"
  have e: "32 - ?p - d = ?q" by simp
  have IH: "slash_sub d \<lparr>network_address = a, prefixlen = ?p\<rparr> = map (?net a) [0..<2 ^ d]" for a
    using Suc.IH [of "\<lparr>network_address = a, prefixlen = ?p\<rparr>"] Suc.prems e by simp
  have half: "(2 :: nat) ^ (32 - ?p) = 2 ^ d * 2 ^ ?q"
    using Suc.prems by (simp add: power_add [symmetric])
  have "map (?net (network_address s + 2 ^ (32 - ?p))) [0..<2 ^ d] =
      map (?net (network_address s)) [2 ^ d..<2 ^ d + 2 ^ d]"
    unfolding half by (rule nth_equalityI) (auto simp: algebra_simps)
  then have "slash_sub (Suc d) s = map (?net (network_address s)) ([0..<2 ^ d] @ [2 ^ d..<2 ^ d + 2 ^ d])"
    using Suc.prems IH by (simp add: subnets_def Let_def)
  also have "[0..<2 ^ d] @ [2 ^ d..<2 ^ d + 2 ^ d] = [0..<2 ^ Suc d]"
    by (metis le_add1 le_add_same_cancel1 mult_2 power_Suc upt_add_eq_append zero_le)
  finally show ?case by simp
qed

lemma getitem_nonneg:
  "0 \<le> n \<Longrightarrow> net_getitem net n =
     (if n < int (net_size net) then Inr (network_address net + nat n) else Inl IndexError)"
proof -
  assume n: "0 \<le> n"
  have "0 < net_size net" by (simp add: net_size_def)
  with n show ?thesis by (auto simp: net_getitem_def broadcast_address_def Let_def)
qed

lemma getitem_addresses:
  "0 \<le> n \<Longrightarrow> net_getitem net n = Inr a \<Longrightarrow> a \<in> addresses net \<and> a = network_address net + nat n"
  by (auto simp: getitem_nonneg addresses_def split: if_splits)

lemma gen_next_Cons [simp]: "gen_next (x # xs) = (Inr x, xs)" "gen_next [] = (Inl StopIteration, [])"
  by (simp_all add: gen_next_def)

definition disjoint_nets :: "ipv4_network list \<Rightarrow> bool" where
  "disjoint_nets nets \<longleftrightarrow> sorted_wrt (\<lambda>a b. addresses a \<inter> addresses b = {}) nets"

lemma disjoint_nets_Cons:
  "disjoint_nets (n # nets) \<longleftrightarrow> (\<forall>m \<in> set nets. addresses n \<inter> addresses m = {}) \<and> disjoint_nets nets"
  by (simp add: disjoint_nets_def)

lemma blocks_disjoint: "i < j \<Longrightarrow> {a + i * b ..< a + i * b + b} \<inter> {a + j * b ..< a + j * b + b} = {}" for i j a b :: nat
proof -
  assume "i < j"
  then have "Suc i * b \<le> j * b" by (intro mult_le_mono1) simp
  then show ?thesis by auto
qed

lemma slash_sub_disjoint:
  assumes "prefixlen s + d \<le> 32"
  shows "disjoint_nets (slash_sub d s)"
proof -
  let ?q = "32 - prefixlen s - d"
  let ?net = "\<lambda>k. \<lparr>network_address = network_address s + k * 2 ^ ?q, prefixlen = prefixlen s + d\<rparr>"
  have "addresses (?net k) = {network_address s + k * 2 ^ ?q ..< network_address s + k * 2 ^ ?q + 2 ^ ?q}" for k
    by (simp add: addresses_def net_size_def diff_diff_left)
  then have "i < j \<Longrightarrow> addresses (?net i) \<inter> addresses (?net j) = {}" for i j
    by (simp only: blocks_disjoint)
  then have "sorted_wrt (\<lambda>i j. addresses (?net i) \<inter> addresses (?net j) = {}) [0..<2 ^ d]"
    by (intro sorted_wrt_mono_rel [OF _ sorted_wrt_upt])
  then show ?thesis by (simp only: disjoint_nets_def slash_sub_eq [OF assms] sorted_wrt_map)
qed

lemma slash_sub_within:
  assumes "prefixlen s + d \<le> 32" and "n \<in> set (slash_sub d s)"
  shows "addresses n \<subseteq> addresses s \<and> prefixlen n = prefixlen s + d"
proof -
  let ?q = "32 - prefixlen s - d"
  from assms obtain k where k: "k < 2 ^ d"
    and n: "n = \<lparr>network_address = network_address s + k * 2 ^ ?q, prefixlen = prefixlen s + d\<rparr>"
    by (auto simp: slash_sub_eq)
  have size: "net_size s = 2 ^ d * 2 ^ ?q"
    using assms(1) by (simp add: net_size_def power_add [symmetric])
  have "Suc k * 2 ^ ?q \<le> 2 ^ d * 2 ^ ?q" using k by (intro mult_le_mono1) simp
  moreover have "net_size n = 2 ^ ?q" by (simp add: n net_size_def diff_diff_left)
  ultimately show ?thesis by (simp add: addresses_def size) (simp add: n)
qed

section \<open>Properties\<close>

text \<open>For a base network and a longer prefix length, the subnet generator over the
  halves of the base network yields exactly \<open>2 ^ (x - p)\<close> subnets of that length, in
  ascending order without gaps, pairwise disjoint and inside the base network.\<close>

theorem get_slash_x_subnets:
  assumes "prefixlen net < x" and "x \<le> 32"
  shows "\<exists>nets. get_slash_x (subnets net) x = Inr nets
     \<and> nets = map (\<lambda>k. \<lparr>network_address = network_address net + k * 2 ^ (32 - x), prefixlen = x\<rparr>) [0..<2 ^ (x - prefixlen net)]
     \<and> disjoint_nets nets \<and> (\<forall>n \<in> set nets. addresses n \<subseteq> addresses net)"
proof -
  let ?d = "x - prefixlen net"
  have d: "prefixlen net + ?d \<le> 32" using assms by simp
  have "get_slash_x (subnets net) x = Inr (slash_sub ?d net)"
  proof -
    obtain e where e: "?d = Suc e" using assms by (metis Suc_diff_Suc)
    have "x - Suc (prefixlen net) = e" using e by simp
    then show ?thesis using assms unfolding e
      by (simp add: get_slash_x_def subnets_def Let_def)
  qed
  moreover have "32 - prefixlen net - ?d = 32 - x" "prefixlen net + ?d = x" using assms by simp_all
  then have "slash_sub ?d net =
      map (\<lambda>k. \<lparr>network_address = network_address net + k * 2 ^ (32 - x), prefixlen = x\<rparr>) [0..<2 ^ ?d]"
    using slash_sub_eq [OF d] by simp
  ultimately show ?thesis using slash_sub_disjoint [OF d] slash_sub_within [OF d] by blast
qed

theorem get_slash_x_subnets_witness:
  "get_slash_x (subnets \<lparr>network_address = 10 * 2 ^ 24, prefixlen = 8\<rparr>) 10 =
     Inr [\<lparr>network_address = 10 * 2 ^ 24, prefixlen = 10\<rparr>, \<lparr>network_address = 10 * 2 ^ 24 + 2 ^ 22, prefixlen = 10\<rparr>,
          \<lparr>network_address = 10 * 2 ^ 24 + 2 * 2 ^ 22, prefixlen = 10\<rparr>, \<lparr>network_address = 10 * 2 ^ 24 + 3 * 2 ^ 22, prefixlen = 10\<rparr>]"
  using get_slash_x_subnets [of "\<lparr>network_address = 10 * 2 ^ 24, prefixlen = 8\<rparr>" 10]
  by (simp add: upt_rec)

end
