(* ===== verification/Network_Configurator.thy ===== *)
theory Network_Configurator
  imports Connection_Store Event_System Dict_Util Ip_Networks
begin

text \<open>
  IP provisioning: \<open>management/network/manager/provisioner\<close>. The P2P configurator gives every
  connection a subnet of its own, the same-subnet configurator every interface. Both produce
  shell commands per node; the base class runs them and the connectivity checks inside event
  blocks of the event system.

  Parameters of the model: \<open>get_interface_index_fun\<close> and \<open>connectivity_checker_fun\<close> (arguments
  of the constructor in the code, too), the locality of nodes (\<open>among\<close>, \<open>local\<close>), and the
  outcome of running commands in a machine (\<open>run\<close>).
\<close>

section \<open>The base class\<close>

type_synonym node_commands = "(emulation_node, string list) dict"

record nc_config =
  nic_prefix :: string
  network_timeout :: rat
  is_connectivity_checks_enabled :: bool
  get_interface_index_fun :: "emulation_node \<Rightarrow> interface \<Rightarrow> nat res"
  connectivity_checker_fun :: "nat \<Rightarrow> rat \<Rightarrow> string"

definition nc_subnet_generator :: "ipv4_network \<Rightarrow> nat \<Rightarrow> ipv4_network list res" where
  "nc_subnet_generator base plen = get_slash_x (subnets base) plen"

definition nc_needs_reconfiguration :: "nat \<Rightarrow> bool" where
  "nc_needs_reconfiguration step_cnt \<longleftrightarrow> step_cnt < 1"

definition get_nic_name :: "nc_config \<Rightarrow> nat \<Rightarrow> string" where
  "get_nic_name cfg idx = nic_prefix cfg @ nat_dec idx"

definition get_active_connections :: "'c connection_store \<Rightarrow> (emulation_node list, interface list list) dict" where
  "get_active_connections st = to_fully_staffed_matrix_2 node_key_eq (get_active_interfaces_per_connection st)"

text \<open>
  \<open>run_emulation_node_commands\<close>: one job per node, by ascending node; the jobs run in a
  pool, each runs the node's commands (\<open>run\<close>) and then adds 1.0 to the node's progress.
  The jobs' state changes are applied in submission order; the pool waits for every job
  and the first failed one (in submission order) raises.
\<close>

definition run_node_job ::
  "(int \<Rightarrow> string \<Rightarrow> unit res) \<Rightarrow> string \<Rightarrow> emulation_node \<times> string list \<Rightarrow> event_system \<Rightarrow> unit res \<times> event_system" where
  "run_node_job run event nc es =
     (let cmds = pyjoin [CHR 0x0A] (snd nc)
      in case (if cmds \<noteq> [] then run (en_id (fst nc)) cmds else Inr ()) of
           Inl e \<Rightarrow> (Inl e, es)
         | Inr _ \<Rightarrow> event_update event [en_id (fst nc)] 1 True es)"

fun run_jobs ::
  "(int \<Rightarrow> string \<Rightarrow> unit res) \<Rightarrow> string \<Rightarrow> (emulation_node \<times> string list) list \<Rightarrow> event_system \<Rightarrow> unit res \<times> event_system" where
  "run_jobs run event [] es = (Inr (), es)"
| "run_jobs run event (nc # ncs) es =
     (case run_node_job run event nc es of
        (Inl e, es) \<Rightarrow> (Inl e, snd (run_jobs run event ncs es))
      | (Inr _, es) \<Rightarrow> run_jobs run event ncs es)"

definition run_emulation_node_commands ::
  "(int \<Rightarrow> string \<Rightarrow> unit res) \<Rightarrow> string \<Rightarrow> node_commands \<Rightarrow> event_system \<Rightarrow> unit res \<times> event_system" where
  "run_emulation_node_commands run event commands es =
     run_jobs run event (pysorted (\<lambda>a b. node_lt (fst a) (fst b)) commands) es"

definition EVENT_NETWORK_SETUP :: string where "EVENT_NETWORK_SETUP = ''network_setup''"
definition EVENT_NETWORK_CHECK :: string where "EVENT_NETWORK_CHECK = ''network_check''"

definition apply_nic_configuration_commands ::
  "(int \<Rightarrow> string \<Rightarrow> unit res) \<Rightarrow> node_commands \<Rightarrow> event_system \<Rightarrow> unit res \<times> event_system" where
  "apply_nic_configuration_commands run commands es =
     event_init EVENT_NETWORK_SETUP None None
       (run_emulation_node_commands run EVENT_NETWORK_SETUP commands) es"

text \<open>
  \<open>apply_nic_check_commands\<close>: with the checks disabled the block calls \<open>ev.finish()\<close>
  without its required argument.
\<close>

definition apply_nic_check_commands ::
  "nc_config \<Rightarrow> (int \<Rightarrow> string \<Rightarrow> unit res) \<Rightarrow> node_commands \<Rightarrow> event_system \<Rightarrow> unit res \<times> event_system" where
  "apply_nic_check_commands cfg run check_commands es =
     (if is_connectivity_checks_enabled cfg then
        event_init EVENT_NETWORK_CHECK None None
          (run_emulation_node_commands run EVENT_NETWORK_CHECK check_commands) es
      else event_init EVENT_NETWORK_CHECK None None (\<lambda>es. (Inl TypeError, es)) es)"

section \<open>Connection based configuration\<close>

definition filter_emulation_nodes :: "emulation_node list \<Rightarrow> bool" where
  "filter_emulation_nodes ns \<longleftrightarrow> length (filter_real_emulation_nodes ns) > 0"

definition filter_interfaces :: "interface list \<Rightarrow> bool" where
  "filter_interfaces ifs \<longleftrightarrow> length (filter_normal_interfaces ifs) > 0"

text \<open>The order of \<open>sorted(connections.items())\<close>: lists of nodes compare lexicographically.\<close>

fun nodes_list_lt :: "emulation_node list \<Rightarrow> emulation_node list \<Rightarrow> bool" where
  "nodes_list_lt [] ys = (ys \<noteq> [])"
| "nodes_list_lt (x # xs) [] = False"
| "nodes_list_lt (x # xs) (y # ys) = (if node_eq x y then nodes_list_lt xs ys else node_lt x y)"

definition merge_commands :: "node_commands \<Rightarrow> node_commands \<Rightarrow> node_commands" where
  "merge_commands = merge_lists node_name"

fun configure_loop ::
  "('s \<Rightarrow> emulation_node list \<Rightarrow> interface list \<Rightarrow> (node_commands \<times> node_commands) res \<times> 's)
   \<Rightarrow> (emulation_node list \<times> interface list) list \<Rightarrow> 's \<Rightarrow> node_commands \<Rightarrow> node_commands
   \<Rightarrow> (node_commands \<times> node_commands) res \<times> 's" where
  "configure_loop configure [] st cmds checks = (Inr (cmds, checks), st)"
| "configure_loop configure ((ns, ifs) # rest) st cmds checks =
     (case configure st ns ifs of
        (Inl e, st) \<Rightarrow> (Inl e, st)
      | (Inr (c, k), st) \<Rightarrow>
          configure_loop configure rest st (merge_commands cmds c) (merge_commands checks k))"

definition configured_connections ::
  "(emulation_node list, interface list list) dict \<Rightarrow> (emulation_node list \<times> interface list) list" where
  "configured_connections connections =
     concat (map (\<lambda>(ns, list_ifs). if filter_emulation_nodes ns
                                    then map (Pair ns) (filter filter_interfaces list_ifs) else [])
       (pysorted (\<lambda>a b. nodes_list_lt (fst a) (fst b)) connections))"

section \<open>The P2P configurator\<close>

record p2p_state =
  p2p_generator :: "ipv4_network list"
  used_subnets :: "(int \<times> int, ipv4_network) dict"
  p2p_check_commands :: node_commands

definition p2p_needs_reconfiguration :: "nat \<Rightarrow> bool" where
  "p2p_needs_reconfiguration step_cnt = True"

definition p2p_get_ip :: "ipv4_network \<Rightarrow> nat \<Rightarrow> nat res" where
  "p2p_get_ip subnet offset = net_getitem subnet (1 + int offset)"

text \<open>\<open>sorted([(node_x, interface_x), (node_y, interface_y)])\<close>: tuples compare lexicographically.\<close>

definition end_point_lt :: "emulation_node \<times> interface \<Rightarrow> emulation_node \<times> interface \<Rightarrow> bool" where
  "end_point_lt a b =
     (if node_eq (fst a) (fst b)
      then (if interface_eq (snd a) (snd b) then False else interface_lt (snd a) (snd b))
      else node_lt (fst a) (fst b))"

definition p2p_key :: "emulation_node \<Rightarrow> emulation_node \<Rightarrow> interface \<Rightarrow> interface \<Rightarrow> int \<times> int" where
  "p2p_key nx ny ix iy =
     (let s = pysorted end_point_lt [(nx, ix), (ny, iy)] in (en_id (fst (s ! 0)), en_id (fst (s ! 1))))"

text \<open>The subnet and the address of a connection's first node.\<close>

definition p2p_allocate ::
  "p2p_state \<Rightarrow> emulation_node \<Rightarrow> emulation_node \<Rightarrow> interface \<Rightarrow> interface \<Rightarrow> (ipv4_network \<times> nat) res \<times> p2p_state" where
  "p2p_allocate st nx ny ix iy =
     (let key = p2p_key nx ny ix iy
      in case dget (used_subnets st) key of
           Some subnet \<Rightarrow> (rbind (p2p_get_ip subnet 1) (\<lambda>ip. Inr (subnet, ip)), st)
         | None \<Rightarrow> (case gen_next (p2p_generator st) of
               (Inl e, gen) \<Rightarrow> (Inl e, st\<lparr>p2p_generator := gen\<rparr>)
             | (Inr subnet, gen) \<Rightarrow>
                 (rbind (p2p_get_ip subnet 0) (\<lambda>ip. Inr (subnet, ip)),
                  st\<lparr>p2p_generator := gen, used_subnets := dset (used_subnets st) key subnet\<rparr>)))"

definition p2p_configure_connection ::
  "nc_config \<Rightarrow> p2p_state \<Rightarrow> emulation_node list \<Rightarrow> interface list \<Rightarrow> (node_commands \<times> node_commands) res \<times> p2p_state" where
  "p2p_configure_connection cfg st ns ifs = (case (ns, ifs) of
      ([nx, ny], [ix, iy]) \<Rightarrow> (case p2p_allocate st nx ny ix iy of
          (Inl e, st) \<Rightarrow> (Inl e, st)
        | (Inr (subnet, ip), st) \<Rightarrow> (case get_interface_index_fun cfg nx ix of
              Inl e \<Rightarrow> (Inl e, st)
            | Inr idx \<Rightarrow>
                (Inr ([(nx, [get_ip_addr_change_cmd (get_nic_name cfg idx) ip (netmask subnet) True])],
                      [(ny, [connectivity_checker_fun cfg ip (network_timeout cfg)])]), st)))
    | _ \<Rightarrow> (Inl ValueError, st))"

definition p2p_get_nic_configuration_commands ::
  "nc_config \<Rightarrow> p2p_state \<Rightarrow> (emulation_node list, interface list list) dict \<Rightarrow> node_commands res \<times> p2p_state" where
  "p2p_get_nic_configuration_commands cfg st connections =
     (let connections = to_fully_staffed_matrix_2 node_key_eq connections
      in case configure_loop (p2p_configure_connection cfg) (configured_connections connections) st [] [] of
           (Inl e, st) \<Rightarrow> (Inl e, st)
         | (Inr (cmds, checks), st) \<Rightarrow>
             (Inr cmds, st\<lparr>p2p_check_commands := merge_commands (p2p_check_commands st) checks\<rparr>))"

section \<open>The same-subnet configurator\<close>

record ss_state =
  ss_generator :: "ipv4_network list"
  ss_subnets :: "(interface, ipv4_network) dict"
  subnet_counter :: "(ipv4_network, nat) dict"
  ss_ips :: "(int \<times> interface, nat) dict"

definition get_key_ip_dict :: "emulation_node \<Rightarrow> interface \<Rightarrow> int \<times> interface" where
  "get_key_ip_dict n i = (en_id n, i)"

definition get_subnet :: "interface \<Rightarrow> ss_state \<Rightarrow> ipv4_network res \<times> ss_state" where
  "get_subnet i st = (case dget (ss_subnets st) i of
      Some subnet \<Rightarrow> (Inr subnet, st)
    | None \<Rightarrow> (case gen_next (ss_generator st) of
          (Inl _, gen) \<Rightarrow> (Inl NoMoreSubnetsAvailable, st\<lparr>ss_generator := gen\<rparr>)
        | (Inr subnet, gen) \<Rightarrow>
            (Inr subnet, st\<lparr>ss_generator := gen, ss_subnets := dset (ss_subnets st) i subnet\<rparr>)))"

definition ss_get_ip :: "ipv4_network \<Rightarrow> int \<Rightarrow> nat res" where
  "ss_get_ip subnet offset = (case net_getitem subnet (1 + offset) of
      Inl IndexError \<Rightarrow> Inl SubnetNoMoreIps | r \<Rightarrow> r)"

text \<open>The address of one interface; \<open>cnt\<close> is the number of the interface in the counter.\<close>

definition ss_address :: "emulation_node \<Rightarrow> interface \<Rightarrow> nat \<Rightarrow> ipv4_network \<Rightarrow> ss_state \<Rightarrow> nat res" where
  "ss_address n i cnt subnet st = (case dget (ss_ips st) (get_key_ip_dict n i) of
      Some ip \<Rightarrow> Inr ip
    | None \<Rightarrow>
        let total = length (filter (\<lambda>j. if_type j = if_type i) (en_interfaces n));
            offset = en_id n * (int total - int cnt + 1)
        in ss_get_ip subnet (offset - 1))"

text \<open>The loop over the normal interfaces; \<open>c\<close> holds the keys of the counter.\<close>

fun ss_configure_loop ::
  "nc_config \<Rightarrow> emulation_node \<Rightarrow> interface list \<Rightarrow> interface list \<Rightarrow> string list \<Rightarrow> ss_state \<Rightarrow> string list res \<times> ss_state" where
  "ss_configure_loop cfg n [] c cmds st = (Inr cmds, st)"
| "ss_configure_loop cfg n (i # ifs) c cmds st =
     (case get_interface_index_fun cfg n i of
        Inl e \<Rightarrow> (Inl e, st)
      | Inr idx \<Rightarrow> (case get_subnet i st of
            (Inl e, st) \<Rightarrow> (Inl e, st)
          | (Inr subnet, st) \<Rightarrow> (case ss_address n i (count_list (c @ [i]) i) subnet st of
                Inl e \<Rightarrow> (Inl e, st)
              | Inr ip \<Rightarrow>
                  ss_configure_loop cfg n ifs (oset_of (c @ [i]))
                    (cmds @ [get_ip_addr_change_cmd (get_nic_name cfg idx) ip (netmask subnet) True])
                    (st\<lparr>subnet_counter := dset (subnet_counter st) subnet
                           (Suc (case dget (subnet_counter st) subnet of None \<Rightarrow> 0 | Some k \<Rightarrow> k)),
                        ss_ips := dset (ss_ips st) (get_key_ip_dict n i) ip\<rparr>))))"

definition ss_configure_connection ::
  "nc_config \<Rightarrow> emulation_node \<Rightarrow> ss_state \<Rightarrow> node_commands res \<times> ss_state" where
  "ss_configure_connection cfg n st =
     (case ss_configure_loop cfg n (filter_normal_interfaces (en_interfaces n)) [] [] st of
        (Inl e, st) \<Rightarrow> (Inl e, st)
      | (Inr cmds, st) \<Rightarrow> (Inr (if cmds = [] then [] else [(n, cmds)]), st))"

fun ss_nodes_loop :: "nc_config \<Rightarrow> emulation_node list \<Rightarrow> node_commands \<Rightarrow> ss_state \<Rightarrow> node_commands res \<times> ss_state" where
  "ss_nodes_loop cfg [] cmds st = (Inr cmds, st)"
| "ss_nodes_loop cfg (n # ns) cmds st =
     (case ss_configure_connection cfg n st of
        (Inl e, st) \<Rightarrow> (Inl e, st)
      | (Inr c, st) \<Rightarrow> ss_nodes_loop cfg ns (merge_commands cmds c) st)"

text \<open>
  \<open>get_nic_configuration_commands\<close> of the connection-less configurator: first all nodes of the
  scenario (\<open>all_nodes\<close>, also the ones of other servers), then the local ones.
\<close>

definition ss_get_nic_configuration_commands ::
  "nc_config \<Rightarrow> emulation_node list \<Rightarrow> emulation_node list \<Rightarrow> ss_state \<Rightarrow> node_commands res \<times> ss_state" where
  "ss_get_nic_configuration_commands cfg all_nodes local_nodes st =
     (case ss_nodes_loop cfg all_nodes [] st of
        (Inl e, st) \<Rightarrow> (Inl e, st)
      | (Inr _, st) \<Rightarrow> (case ss_nodes_loop cfg local_nodes [] st of
            (Inl e, st) \<Rightarrow> (Inl e, st)
          | (Inr cmds, st) \<Rightarrow> (Inr cmds, st)))"

text \<open>
  \<open>get_nic_check_commands\<close>: \<open>break\<close> leaves the loop over the interfaces or over the
  connections; both are kept as the code has them.
\<close>

fun check_ifaces_loop ::
  "nc_config \<Rightarrow> ss_state \<Rightarrow> emulation_node \<Rightarrow> emulation_node \<Rightarrow> interface list list \<Rightarrow> string list \<Rightarrow> string list res" where
  "check_ifaces_loop cfg st nx ny [] cmds = Inr cmds"
| "check_ifaces_loop cfg st nx ny (ifs # rest) cmds =
     (if filter_normal_interfaces ifs = [] then Inr cmds
      else case ifs of
        [ix, iy] \<Rightarrow>
          (let ping = (\<lambda>ip. connectivity_checker_fun cfg ip (network_timeout cfg))
           in if filter_central_nodes [ny] \<noteq> []
              then check_ifaces_loop cfg st nx ny rest (cmds @ map ping (map snd (ss_ips st)))
              else (case dget (ss_ips st) (get_key_ip_dict ny iy) of
                      None \<Rightarrow> Inl KeyError
                    | Some ip \<Rightarrow> check_ifaces_loop cfg st nx ny rest (cmds @ [ping ip])))
      | _ \<Rightarrow> Inl ValueError)"

fun check_conns_loop ::
  "nc_config \<Rightarrow> (emulation_node \<Rightarrow> emulation_node \<Rightarrow> bool) \<Rightarrow> (int \<Rightarrow> bool) \<Rightarrow> ss_state
   \<Rightarrow> (emulation_node list \<times> interface list list) list \<Rightarrow> node_commands \<Rightarrow> node_commands res" where
  "check_conns_loop cfg among local st [] checks = Inr checks"
| "check_conns_loop cfg among local st ((ns, list_ifs) # rest) checks =
     (if filter_real_emulation_nodes ns = [] then Inr checks
      else rbind (sort_by_locality among local ns) (\<lambda>sorted_ns. case sorted_ns of
        [nx, ny] \<Rightarrow> rbind (check_ifaces_loop cfg st nx ny list_ifs []) (\<lambda>cmds.
            check_conns_loop cfg among local st rest
              (if cmds = [] then checks else merge_commands checks [(nx, cmds)]))
      | _ \<Rightarrow> Inl ValueError))"

definition ss_get_nic_check_commands ::
  "nc_config \<Rightarrow> (emulation_node \<Rightarrow> emulation_node \<Rightarrow> bool) \<Rightarrow> (int \<Rightarrow> bool) \<Rightarrow> ss_state
   \<Rightarrow> (emulation_node list, interface list list) dict \<Rightarrow> node_commands res" where
  "ss_get_nic_check_commands cfg among local st connections =
     check_conns_loop cfg among local st connections []"


section \<open>P2P lemmas\<close>

definition p2p_ok :: "p2p_state \<Rightarrow> bool" where
  "p2p_ok st \<longleftrightarrow> dwf (used_subnets st) \<and> disjoint_nets (map snd (used_subnets st) @ p2p_generator st)"

lemma disjoint_nets_append_swap:
  "disjoint_nets (xs @ y # ys) \<Longrightarrow> disjoint_nets ((xs @ [y]) @ ys)"
  by simp

lemma values_dset_new: "dget d k = None \<Longrightarrow> map snd (dset d k v) = map snd d @ [v]"
  by (induction d) (auto split: if_splits)

lemma p2p_ok_allocate: "p2p_ok st \<Longrightarrow> p2p_ok (snd (p2p_allocate st nx ny ix iy))"
  by (cases "p2p_generator st")
    (auto simp: p2p_allocate_def p2p_ok_def Let_def values_dset_new split: option.splits)

lemma disjoint_values:
  assumes "disjoint_nets (map snd d)" "dget d k1 = Some s1" "dget d k2 = Some s2" "k1 \<noteq> k2"
  shows "addresses s1 \<inter> addresses s2 = {}"
  using assms
proof (induction d)
  case (Cons e d)
  obtain k s where e: "e = (k, s)" by force
  have all: "\<forall>m \<in> set (map snd d). addresses s \<inter> addresses m = {}" and rest: "disjoint_nets (map snd d)"
    using Cons.prems(1) by (simp_all add: e disjoint_nets_Cons)
  have "s' \<in> set (map snd d)" if "dget d k' = Some s'" for k' s' using dget_SomeD [OF that] by force
  with all have "dget d k' = Some s' \<Longrightarrow> addresses s \<inter> addresses s' = {}" for k' s' by blast
  with Cons.IH [OF rest] Cons.prems(2-4) show ?case
    by (auto simp: e Int_commute split: if_splits)
qed simp

lemma p2p_key_sym: "en_id nx \<noteq> en_id ny \<Longrightarrow> \<not> node_eq nx ny \<Longrightarrow>
    p2p_key nx ny ix iy = (min (en_id nx) (en_id ny), max (en_id nx) (en_id ny))"
  by (auto simp: p2p_key_def pysorted_def end_point_lt_def node_lt_def Let_def node_eq_def)

lemma used_mono:
  "dget (used_subnets st) k = Some s \<Longrightarrow> dget (used_subnets (snd (p2p_allocate st nx ny ix iy))) k = Some s"
  by (cases "p2p_generator st") (auto simp: p2p_allocate_def Let_def dict_simps split: option.splits)


section \<open>Same-subnet lemmas\<close>

text \<open>\<open>T\<close> is the number of interfaces per interface type that all nodes share.\<close>

definition ss_ok :: "(iface_type \<Rightarrow> nat) \<Rightarrow> ss_state \<Rightarrow> bool" where
  "ss_ok T st \<longleftrightarrow> disjoint_nets (map snd (ss_subnets st) @ ss_generator st)
     \<and> (\<forall>k ip. dget (ss_ips st) k = Some ip \<longrightarrow> 0 \<le> fst k \<and> 0 < T (if_type (snd k))
          \<and> (\<exists>s. dget (ss_subnets st) (snd k) = Some s \<and> ip \<in> addresses s
                \<and> ip = network_address s + nat (fst k * int (T (if_type (snd k))))))"

definition node_fits :: "(iface_type \<Rightarrow> nat) \<Rightarrow> emulation_node \<Rightarrow> bool" where
  "node_fits T n \<longleftrightarrow> 0 \<le> en_id n \<and> distinct (en_interfaces n)
     \<and> (\<forall>i \<in> set (en_interfaces n). T (if_type i) = length (filter (\<lambda>j. if_type j = if_type i) (en_interfaces n)))"

lemma get_subnet_ok:
  assumes "ss_ok T st"
  shows "ss_ok T (snd (get_subnet i st)) \<and> ss_ips (snd (get_subnet i st)) = ss_ips st
    \<and> (\<forall>s. fst (get_subnet i st) = Inr s \<longrightarrow> dget (ss_subnets (snd (get_subnet i st))) i = Some s)"
proof (cases "dget (ss_subnets st) i")
  case (Some s)
  with assms show ?thesis by (simp add: get_subnet_def)
next
  case None
  show ?thesis
  proof (cases "ss_generator st")
    case Nil
    with None assms show ?thesis by (simp add: get_subnet_def ss_ok_def) blast
  next
    case (Cons s gen)
    have "ss_ok T (st\<lparr>ss_generator := gen, ss_subnets := dset (ss_subnets st) i s\<rparr>)"
      using assms None Cons by (auto simp: ss_ok_def values_dset_new dict_simps) (metis option.distinct(1))+
    with None Cons show ?thesis by (simp add: get_subnet_def dict_simps)
  qed
qed

lemma ss_address_eq:
  assumes "0 \<le> en_id n" "dget (ss_ips st) (get_key_ip_dict n i) = None"
    and "T = length (filter (\<lambda>j. if_type j = if_type i) (en_interfaces n))"
  shows "ss_address n i 1 s st =
    (if en_id n * int T < int (net_size s) then Inr (network_address s + nat (en_id n * int T)) else Inl SubnetNoMoreIps)"
  using assms by (simp add: ss_address_def ss_get_ip_def getitem_nonneg Let_def)

lemma ss_store_ok:
  assumes "ss_ok T st" "dget (ss_subnets st) i = Some s" "ss_address n i 1 s st = Inr ip" "node_fits T n"
    and "i \<in> set (en_interfaces n)"
  shows "ss_ok T (st\<lparr>subnet_counter := c, ss_ips := dset (ss_ips st) (get_key_ip_dict n i) ip\<rparr>)"
proof (cases "dget (ss_ips st) (get_key_ip_dict n i)")
  case (Some ip')
  then have "ip' = ip" using assms(3) by (simp add: ss_address_def)
  with Some assms(1) show ?thesis by (simp add: ss_ok_def kset_same) blast
next
  case None
  have T: "0 \<le> en_id n" "T (if_type i) = length (filter (\<lambda>j. if_type j = if_type i) (en_interfaces n))"
    using assms(4,5) by (simp_all add: node_fits_def)
  have pos: "0 < T (if_type i)" unfolding T(2) using assms(5) by (auto simp: filter_empty_conv)
  have eq: "en_id n * int (T (if_type i)) < int (net_size s) \<and> ip = network_address s + nat (en_id n * int (T (if_type i)))"
    using ss_address_eq [OF T(1) None T(2), of s] assms(3) by (auto split: if_splits)
  then have "ip \<in> addresses s" using T(1) by (simp add: addresses_def nat_less_iff)
  with eq pos T(1) assms(1,2) show ?thesis
    by (auto simp: ss_ok_def dict_simps get_key_ip_dict_def)
qed

lemma ss_configure_loop_ok:
  "ss_ok T st \<Longrightarrow> node_fits T n \<Longrightarrow> set ifs \<subseteq> set (en_interfaces n) \<Longrightarrow> distinct ifs \<Longrightarrow> set c \<inter> set ifs = {} \<Longrightarrow>
   ss_ok T (snd (ss_configure_loop cfg n ifs c cmds st))"
proof (induction ifs arbitrary: c cmds st)
  case (Cons i ifs)
  have cnt: "count_list (c @ [i]) i = 1" using Cons.prems by (simp add: count_list_0_iff)
  have disj: "set (oset_of (c @ [i])) \<inter> set ifs = {}" using Cons.prems by auto
  obtain r st1 where g: "get_subnet i st = (r, st1)" by force
  note sub = get_subnet_ok [OF Cons.prems(1), of i, unfolded g snd_conv fst_conv]
  show ?case
  proof (cases "get_interface_index_fun cfg n i")
    case idx: (Inr idx)
    show ?thesis
    proof (cases r)
      case (Inr s)
      show ?thesis
      proof (cases "ss_address n i 1 s st1")
        case ip: (Inr ip)
        have "ss_ok T (st1\<lparr>subnet_counter := x, ss_ips := dset (ss_ips st1) (get_key_ip_dict n i) ip\<rparr>)" for x
          using sub Inr ip Cons.prems by (intro ss_store_ok [where s = s]) auto
        then show ?thesis using Cons.IH disj Cons.prems idx g Inr ip cnt by simp
      qed (use idx g Inr cnt sub in simp)
    qed (use idx g sub in simp)
  qed (use Cons.prems in simp)
qed simp

lemma ss_configure_ok:
  "ss_ok T st \<Longrightarrow> node_fits T n \<Longrightarrow> ss_ok T (snd (ss_configure_connection cfg n st))"
proof -
  assume "ss_ok T st" "node_fits T n"
  then have "ss_ok T (snd (ss_configure_loop cfg n (filter_normal_interfaces (en_interfaces n)) [] [] st))"
    by (intro ss_configure_loop_ok)
      (auto simp: filter_normal_interfaces_def filter_type_def node_fits_def)
  then show ?thesis by (auto simp: ss_configure_connection_def split: prod.splits sum.splits)
qed

lemma ss_nodes_loop_ok:
  "ss_ok T st \<Longrightarrow> \<forall>n \<in> set ns. node_fits T n \<Longrightarrow> ss_ok T (snd (ss_nodes_loop cfg ns cmds st))"
proof (induction ns arbitrary: cmds st)
  case (Cons n ns)
  obtain r st1 where r: "ss_configure_connection cfg n st = (r, st1)" by force
  have "ss_ok T st1" using ss_configure_ok [of T st n cfg] Cons.prems r by simp
  with Cons r show ?case by (cases r) auto
qed simp


text \<open>Nodes with different numbers of interfaces of a type can be given the same address.\<close>

lemma same_subnet_collision:
  assumes "0 \<le> en_id n" "0 \<le> en_id m" "dget (ss_ips st) (get_key_ip_dict n i) = None"
    and "dget (ss_ips st) (get_key_ip_dict m i) = None"
    and "en_id n * int (length (filter (\<lambda>j. if_type j = if_type i) (en_interfaces n)))
       = en_id m * int (length (filter (\<lambda>j. if_type j = if_type i) (en_interfaces m)))"
  shows "ss_address n i 1 s st = ss_address m i 1 s st"
  using assms ss_address_eq [OF assms(1,3) refl] ss_address_eq [OF assms(2,4) refl] by simp

section \<open>Properties\<close>


definition ex_net :: "nat \<Rightarrow> ipv4_network" where
  "ex_net k = \<lparr>network_address = 10 * 2 ^ 24 + 4 * k, prefixlen = 30\<rparr>"

definition ex_p2p :: p2p_state where
  "ex_p2p = \<lparr>p2p_generator = [ex_net 1, ex_net 2], used_subnets = [((1, 3), ex_net 0)], p2p_check_commands = []\<rparr>"


text \<open>When the P2P configurator sees a known connection again (a link that went down
  and came up, or a second interface pair of the same nodes), both nodes are given the same
  address, the second host address of the connection's subnet.\<close>

theorem p2p_reconfiguration_duplicates:
  assumes "dget (used_subnets st) (p2p_key x y ix iy) = Some s" and "prefixlen s \<le> 30"
    and "en_id x \<noteq> en_id y" and "\<not> node_eq x y"
  shows "p2p_allocate st x y ix iy = (Inr (s, network_address s + 2), st)
    \<and> p2p_allocate st y x iy ix = (Inr (s, network_address s + 2), st)"
proof -
  have "2 ^ 2 \<le> net_size s" unfolding net_size_def using assms(2) by (intro power_increasing) auto
  moreover have "p2p_key y x iy ix = p2p_key x y ix iy"
    using assms(3,4) by (simp add: p2p_key_sym node_eq_def min.commute max.commute)
  ultimately show ?thesis using assms(1) by (simp add: p2p_allocate_def p2p_get_ip_def getitem_nonneg)
qed

theorem p2p_reconfiguration_duplicates_witness:
  "fst (p2p_allocate ex_p2p (ex_node 1) (ex_node 3) (ex_mesh 1) (ex_mesh 1))
     = fst (p2p_allocate ex_p2p (ex_node 3) (ex_node 1) (ex_mesh 1) (ex_mesh 1))"
proof -
  have "node_name (ex_node 3) = ''3''" "node_name (ex_node 1) = ''1''"
    unfolding ex_node_def by code_simp+
  then have "\<not> node_eq (ex_node 1) (ex_node 3)" by (simp add: node_eq_def)
  then show ?thesis
    using p2p_reconfiguration_duplicates [of ex_p2p "ex_node 1" "ex_node 3" "ex_mesh 1" "ex_mesh 1" "ex_net 0"]
    by (simp add: ex_p2p_def ex_net_def ex_node_def p2p_key_sym)
qed

text \<open>C21: The same-subnet configurator never gives an address to two interfaces: whatever
  nodes are configured, as long as all nodes have the same number of interfaces of each type,
  two entries of the address table with the same address are the same entry. This holds also
  when the configuration stops with an error.\<close>

theorem same_subnet_unique_ips:
  assumes "disjoint_nets nets" and "\<forall>n \<in> set nodes. node_fits T n"
    and "st = snd (ss_nodes_loop cfg nodes cmds \<lparr>ss_generator = nets, ss_subnets = [], subnet_counter = [], ss_ips = []\<rparr>)"
    and "dget (ss_ips st) k1 = Some ip" and "dget (ss_ips st) k2 = Some ip"
  shows "k1 = k2"
proof -
  have "ss_ok T \<lparr>ss_generator = nets, ss_subnets = [], subnet_counter = [], ss_ips = []\<rparr>"
    using assms(1) by (simp add: ss_ok_def)
  then have ok: "ss_ok T st" unfolding assms(3) using assms(2) by (rule ss_nodes_loop_ok)
  from ok assms(4) obtain s1 where s1: "dget (ss_subnets st) (snd k1) = Some s1" "ip \<in> addresses s1"
    "ip = network_address s1 + nat (fst k1 * int (T (if_type (snd k1))))" "0 \<le> fst k1" "0 < T (if_type (snd k1))"
    unfolding ss_ok_def by blast
  from ok assms(5) obtain s2 where s2: "dget (ss_subnets st) (snd k2) = Some s2" "ip \<in> addresses s2"
    "ip = network_address s2 + nat (fst k2 * int (T (if_type (snd k2))))" "0 \<le> fst k2"
    unfolding ss_ok_def by blast
  have "disjoint_nets (map snd (ss_subnets st))"
    using ok by (simp add: ss_ok_def disjoint_nets_def sorted_wrt_append)
  from disjoint_values [OF this s1(1) s2(1)] have "snd k1 = snd k2" using s1(2) s2(2) by auto
  with s1 s2 have "nat (fst k1 * int (T (if_type (snd k1)))) = nat (fst k2 * int (T (if_type (snd k1))))" by simp
  then have "fst k1 = fst k2" using s1(4,5) s2(4) by (simp add: nat_eq_iff)
  with \<open>snd k1 = snd k2\<close> show ?thesis by (simp add: prod_eq_iff)
qed

text \<open>With the connectivity checks disabled, the check phase always ends in a
  \<open>TypeError\<close>, after the progress of every node was set to 0.\<close>

theorem disabled_checks_raise:
  assumes "\<not> is_connectivity_checks_enabled cfg"
  shows "fst (apply_nic_check_commands cfg run checks es) = Inl TypeError
    \<and> progress_of (snd (apply_nic_check_commands cfg run checks es)) n e =
        (if n \<in> fst ` set (es_data es) \<and> e = EVENT_NETWORK_CHECK then 0 else progress_of es n e)"
proof -
  let ?ids = "map fst (es_data es)"
  let ?u = "update_nodes EVENT_NETWORK_CHECK 0 False ?ids es"
  note plain = update_nodes_plain [of 0 EVENT_NETWORK_CHECK ?ids es]
  from plain have "fst ?u = Inr (map (\<lambda>_. 0) ?ids)" by simp
  then obtain st where u: "?u = (Inr (map (\<lambda>_. 0) ?ids), st)" by (metis prod.collapse)
  then have "event_start EVENT_NETWORK_CHECK ?ids es = (Inr (), st)"
    by (simp add: event_start_def event_update_def update_event_def)
  then have "apply_nic_check_commands cfg run checks es = (Inl TypeError, st)"
    using assms by (simp add: apply_nic_check_commands_def event_init_def)
  moreover have "progress_of st n e =
      (if n \<in> set ?ids \<and> e = EVENT_NETWORK_CHECK then 0 else progress_of es n e)"
    using plain by (simp add: u)
  ultimately show ?thesis by simp
qed

definition ex_nc :: nc_config where
  "ex_nc = \<lparr>nic_prefix = ''eth'', network_timeout = 1, is_connectivity_checks_enabled = False,
     get_interface_index_fun = (\<lambda>_ _. Inr 0), connectivity_checker_fun = (\<lambda>_ _. ''ping'')\<rparr>"

theorem disabled_checks_raise_witness:
  "fst (apply_nic_check_commands ex_nc (\<lambda>_ _. Inr ()) [] my_event_system_init) = Inl TypeError"
  using disabled_checks_raise [of ex_nc] by (simp add: ex_nc_def)

theorem same_subnet_unique_ips_witness:
  "dget (ss_ips (snd (ss_nodes_loop ex_nc
       [ex_node 1\<lparr>en_interfaces := [ex_mesh 1]\<rparr>, ex_node 2\<lparr>en_interfaces := [ex_mesh 1]\<rparr>] []
       \<lparr>ss_generator = [ex_net 0], ss_subnets = [], subnet_counter = [], ss_ips = []\<rparr>))) (1, ex_mesh 1) \<noteq>
   dget (ss_ips (snd (ss_nodes_loop ex_nc
       [ex_node 1\<lparr>en_interfaces := [ex_mesh 1]\<rparr>, ex_node 2\<lparr>en_interfaces := [ex_mesh 1]\<rparr>] []
       \<lparr>ss_generator = [ex_net 0], ss_subnets = [], subnet_counter = [], ss_ips = []\<rparr>))) (2, ex_mesh 1)"
  (is "dget (ss_ips ?st) ?k1 \<noteq> dget (ss_ips ?st) ?k2")
proof -
  let ?ns = "[ex_node 1\<lparr>en_interfaces := [ex_mesh 1]\<rparr>, ex_node 2\<lparr>en_interfaces := [ex_mesh 1]\<rparr>]"
  have "dget (ss_ips ?st) ?k1 \<noteq> None"
    by (simp add: ss_configure_connection_def filter_normal_interfaces_def filter_type_def ex_nc_def ex_mesh_def
        INTERFACE_NORMAL_CLASSES_TYPES_def get_subnet_def ss_address_def ss_get_ip_def getitem_nonneg
        get_key_ip_dict_def ex_node_def ex_net_def net_size_def dict_simps)
  then obtain ip where ip: "dget (ss_ips ?st) ?k1 = Some ip" by blast
  have "disjoint_nets [ex_net 0]" by (simp add: disjoint_nets_def)
  moreover have "\<forall>n \<in> set ?ns. node_fits (\<lambda>_. 1) n" by (simp add: node_fits_def ex_node_def ex_mesh_def)
  ultimately show ?thesis
    using same_subnet_unique_ips [of "[ex_net 0]" ?ns "\<lambda>_. 1" ?st ex_nc "[]" ?k1 ip ?k2] ip by auto
qed

end
