(* ===== verification/Json_Config.thy ===== *)
theory Json_Config
  imports Dict_Util
begin

text \<open>
  The configuration mechanism: \<open>util/JSONConfig.py\<close>. A configuration is a nested value; a
  getter is declared by its path of keys, an optional default and the expected values, and
  prefers a value under \<open>node_details\<close> for the node it is asked for. \<open>None\<close> is \<open>JNull\<close>;
  the sentinel \<open>nothing\<close> is \<open>None\<close> of the option type.
\<close>

section \<open>Reading\<close>

definition CONFIG_KEY_NODE_DETAILS :: string where "CONFIG_KEY_NODE_DETAILS = ''node_details''"

fun nested_loop :: "json \<Rightarrow> string list \<Rightarrow> json option res" where
  "nested_loop cur [] = Inr (Some cur)"
| "nested_loop cur (k # ks) = (case cur of
      JObj o' \<Rightarrow> (case dget o' k of
          None \<Rightarrow> Inr None
        | Some JNull \<Rightarrow> Inr None
        | Some v \<Rightarrow> nested_loop v ks)
    | _ \<Rightarrow> Inl ConfigMalformed)"

definition get_dict_nested_value :: "json \<Rightarrow> string list \<Rightarrow> json option res" where
  "get_dict_nested_value d keys = (if d = JNull then Inl ConfigNotSet else nested_loop d keys)"

record getter =
  g_keys :: "string list"
  g_default :: "json option"
  g_expected :: "json list"
  g_not_null :: bool

text \<open>\<open>str(fun_kwargs.get("node_id"))\<close>: a getter that is called without a node asks for \<open>"None"\<close>.\<close>

definition node_id_str :: "int option \<Rightarrow> string" where
  "node_id_str nid = (case nid of None \<Rightarrow> ''None'' | Some i \<Rightarrow> int_dec i)"

definition is_none :: "json option \<Rightarrow> bool" where
  "is_none r \<longleftrightarrow> r = None \<or> r = Some JNull"

text \<open>
  \<open>customizable_attrs\<close>. The list of expected values also grows by \<open>None\<close> with every call,
  which changes no later answer, as \<open>None\<close> is allowed from the first call on.
\<close>

definition customizable_attrs :: "getter \<Rightarrow> int option \<Rightarrow> json \<Rightarrow> json res" where
  "customizable_attrs g nid data =
     rbind (get_dict_nested_value data (CONFIG_KEY_NODE_DETAILS # node_id_str nid # g_keys g)) (\<lambda>node_value.
     rbind (if is_none node_value then get_dict_nested_value data (g_keys g) else Inr node_value) (\<lambda>r.
     rbind (if is_none r then
              (if g_not_null g then Inl ConfigMalformed
               else Inr (case g_default g of None \<Rightarrow> r | Some d \<Rightarrow> Some d))
            else Inr r) (\<lambda>r.
     let r = (case r of None \<Rightarrow> JNull | Some v \<Rightarrow> v)
     in if g_expected g \<noteq> [] \<and> r \<notin> set (g_expected g) \<and> r \<noteq> JNull then Inl ConfigOptionNotSupported
        else Inr r)))"

abbreviation plain_getter :: "string list \<Rightarrow> getter" where
  "plain_getter keys \<equiv> \<lparr>g_keys = keys, g_default = None, g_expected = [], g_not_null = False\<rparr>"

abbreviation default_getter :: "string list \<Rightarrow> json \<Rightarrow> getter" where
  "default_getter keys d \<equiv> \<lparr>g_keys = keys, g_default = Some d, g_expected = [], g_not_null = False\<rparr>"

section \<open>Strings\<close>

definition is_space :: "char \<Rightarrow> bool" where
  "is_space c \<longleftrightarrow> c \<in> set [CHR 0x20, CHR 0x09, CHR 0x0A, CHR 0x0B, CHR 0x0C, CHR 0x0D,
     CHR 0x1C, CHR 0x1D, CHR 0x1E, CHR 0x1F, CHR 0x85, CHR 0xA0]"

definition py_strip :: "string \<Rightarrow> string" where
  "py_strip s = rev (dropWhile is_space (rev (dropWhile is_space s)))"

definition digit_value :: "char \<Rightarrow> nat option" where
  "digit_value c = (let v = of_char c :: nat in if 48 \<le> v \<and> v \<le> 57 then Some (v - 48) else None)"

text \<open>The digits of \<open>int(s)\<close>; an underscore is allowed between two digits.\<close>

fun parse_digits :: "nat \<Rightarrow> string \<Rightarrow> nat option" where
  "parse_digits acc [] = Some acc"
| "parse_digits acc [c] = map_option (\<lambda>v. acc * 10 + v) (digit_value c)"
| "parse_digits acc (c # c' # cs) =
     (if c = CHR ''_'' then (if digit_value c' = None then None else parse_digits acc (c' # cs))
      else (case digit_value c of None \<Rightarrow> None | Some v \<Rightarrow> parse_digits (acc * 10 + v) (c' # cs)))"

definition py_int :: "string \<Rightarrow> int res" where
  "py_int s =
     (let s = py_strip s;
          (sign, t) = (case s of c # cs \<Rightarrow> if c = CHR ''-'' then (-1, cs) else if c = CHR ''+'' then (1, cs) else (1, s)
                              | [] \<Rightarrow> (1, s))
      in (case t of
            [] \<Rightarrow> Inl ValueError
          | c # _ \<Rightarrow> if digit_value c = None then Inl ValueError
                      else (case parse_digits 0 t of None \<Rightarrow> Inl ValueError | Some v \<Rightarrow> Inr (sign * int v))))"

section \<open>Conversions\<close>

text \<open>\<open>int\<close> of a JSON value.\<close>

definition py_int_json :: "json \<Rightarrow> int res" where
  "py_int_json v = (case v of
      JInt i \<Rightarrow> Inr i | JBool b \<Rightarrow> Inr (of_bool b) | JFloat f \<Rightarrow> Inr (if 0 \<le> f then \<lfloor>f\<rfloor> else \<lceil>f\<rceil>)
    | JStr s \<Rightarrow> py_int s | _ \<Rightarrow> Inl TypeError)"

text \<open>\<open>json2dict\<close>: \<open>{int(x): y for x, y in res.items()}\<close>\<close>

definition json2dict :: "json res \<Rightarrow> (int, json) dict option res" where
  "json2dict res = rbind res (\<lambda>r. case r of
      JNull \<Rightarrow> Inr None
    | JObj o' \<Rightarrow> rbind (rmap (\<lambda>(x, y). rbind (py_int x) (\<lambda>i. Inr (i, y))) o') (\<lambda>kvs. Inr (Some (dict_of kvs)))
    | _ \<Rightarrow> Inl AttributeError)"

text \<open>\<open>keys_to_int\<close>: the recursive call is on \<open>d.values()\<close>, no dict, and returns it as it is.\<close>

definition keys_to_int :: "json \<Rightarrow> (json + (int, json) dict) res" where
  "keys_to_int d = (case d of
      JObj o' \<Rightarrow> rbind (rmap (\<lambda>(x, y). rbind (py_int x) (\<lambda>i. Inr (i, y))) o') (\<lambda>kvs. Inr (Inr (dict_of kvs)))
    | _ \<Rightarrow> Inr (Inl d))"

text \<open>
  \<open>read_json_config\<close> removes \<open>//.*?(\n|\r\n)\<close>: from two slashes anywhere up to and including
  the next line feed; without a line feed nothing is removed.
\<close>

function strip_comments :: "string \<Rightarrow> string" where
  "strip_comments [] = []"
| "strip_comments [c] = [c]"
| "strip_comments (c # c' # cs) =
     (if c = CHR ''/'' \<and> c' = CHR ''/'' \<and> CHR 0x0A \<in> set cs
      then strip_comments (tl (dropWhile (\<lambda>x. x \<noteq> CHR 0x0A) cs))
      else c # strip_comments (c' # cs))"
  by pat_completeness auto
termination
proof (relation "measure length", goal_cases)
  case (2 c c' cs)
  have "length (dropWhile (\<lambda>x. x \<noteq> CHR 0x0A) cs) \<le> length cs" by (rule length_dropWhile_le)
  then show ?case by simp
qed auto

text \<open>\<open>json.loads\<close> is the parameter \<open>loads\<close>; \<open>read\<close> opens a file.\<close>

definition read_json_config :: "(string \<Rightarrow> json res) \<Rightarrow> (string \<Rightarrow> string res) \<Rightarrow> bool \<Rightarrow> string \<Rightarrow> json res" where
  "read_json_config loads read raw config =
     (case rbind (if raw then Inr config else read config) (\<lambda>txt. loads (strip_comments txt)) of
        Inr d \<Rightarrow> Inr d
      | Inl ValueError \<Rightarrow> Inl ConfigError
      | Inl IOError \<Rightarrow> Inl ConfigError
      | Inl e \<Rightarrow> Inl e)"

text \<open>\<open>arg2float\<close>; \<open>float(s)\<close> of a string is the parameter \<open>parse\<close>.\<close>

definition arg2float :: "(string \<Rightarrow> rat res) \<Rightarrow> json res \<Rightarrow> rat res" where
  "arg2float parse res = rbind res (\<lambda>r. case r of
      JInt i \<Rightarrow> Inr (of_int i) | JFloat f \<Rightarrow> Inr f | JBool b \<Rightarrow> Inr (of_bool b)
    | JStr s \<Rightarrow> parse s | _ \<Rightarrow> Inl TypeError)"

section \<open>Writing\<close>

text \<open>
  \<open>init_keys\<close>: creates the dicts on a path, descending into what is there. A value without
  \<open>get\<close> on the way raises, after the dicts above it were created.
\<close>

fun init_keys :: "string list \<Rightarrow> json \<Rightarrow> unit res \<times> json" where
  "init_keys [] d = (Inr (), d)"
| "init_keys (k # ks) d = (case d of
      JObj o' \<Rightarrow>
        let sub = (case dget o' k of None \<Rightarrow> JObj [] | Some JNull \<Rightarrow> JObj [] | Some v \<Rightarrow> v);
            (r, sub') = init_keys ks sub
        in (r, JObj (dset o' k sub'))
    | _ \<Rightarrow> (Inl AttributeError, d))"

text \<open>\<open>d[k1][k2]...[kn] = v\<close>\<close>

fun put_path :: "string list \<Rightarrow> json \<Rightarrow> json \<Rightarrow> unit res \<times> json" where
  "put_path [] v d = (Inr (), d)"
| "put_path [k] v d = (case d of
      JObj o' \<Rightarrow> (Inr (), JObj (dset o' k v)) | _ \<Rightarrow> (Inl TypeError, d))"
| "put_path (k # k' # ks) v d = (case d of
      JObj o' \<Rightarrow> (case dget o' k of
          None \<Rightarrow> (Inl KeyError, d)
        | Some sub \<Rightarrow> (let (r, sub') = put_path (k' # ks) v sub in (r, JObj (dset o' k sub'))))
    | _ \<Rightarrow> (Inl TypeError, d))"

section \<open>Lemmas on reading\<close>

lemma dict_of_distinct: "dwf d \<Longrightarrow> dict_of d = d"
proof -
  have "dwf (e @ d) \<Longrightarrow> fold (\<lambda>(k, v) d. dset d k v) d e = e @ d" for e
  proof (induction d arbitrary: e)
    case (Cons kv d)
    obtain k v where kv: "kv = (k, v)" by (cases kv)
    have "dget e k = None" using Cons.prems by (auto simp: kv kwf_def dget_None_iff)
    then have "dset e k v = e @ [(k, v)]" by (induction e) (auto split: if_splits)
    then show ?case using Cons.IH [of "e @ [(k, v)]"] Cons.prems by (simp add: kv)
  qed simp
  from this [of "[]"] show "dwf d \<Longrightarrow> dict_of d = d" by (simp add: dict_of_def)
qed

lemma get_dict_nested_Obj [simp]: "get_dict_nested_value (JObj o') ks = nested_loop (JObj o') ks"
  by (simp add: get_dict_nested_value_def)

lemma nested_loop_not_null:
  "nested_loop d ks = Inr (Some v) \<Longrightarrow> ks \<noteq> [] \<Longrightarrow> v \<noteq> JNull"
proof (induction d ks rule: nested_loop.induct)
  case (2 cur k ks)
  then show ?case by (cases ks) (auto split: json.splits option.splits)
qed simp

lemma customizable_plain_value:
  assumes "get_dict_nested_value d (CONFIG_KEY_NODE_DETAILS # node_id_str nid # g_keys g) = Inr None"
    and "get_dict_nested_value d (g_keys g) = Inr (Some v)" "v \<noteq> JNull" "g_expected g = []"
  shows "customizable_attrs g nid d = Inr v"
  using assms by (simp add: customizable_attrs_def is_none_def)

section \<open>Lemmas on numbers in keys\<close>

lemma digit_value_digit_char: "d < 10 \<Longrightarrow> digit_value (digit_char d) = Some d"
  by (simp add: digit_value_def digit_char_def)

lemma digit_char_not_underscore: "d < 10 \<Longrightarrow> digit_char d \<noteq> CHR ''_''"
  using digit_value_digit_char [of d] by (auto simp: digit_value_def Let_def split: if_splits)

lemma parse_digits_map:
  assumes "\<forall>d \<in> set ds. d < 10"
  shows "parse_digits acc (map digit_char ds) = Some (foldl (\<lambda>a d. a * 10 + d) acc ds)"
  using assms
proof (induction ds arbitrary: acc)
  case (Cons d ds)
  then show ?case
    by (cases ds) (simp_all add: digit_value_digit_char digit_char_not_underscore)
qed simp

lemma digit_char_not_space: "d < 10 \<Longrightarrow> \<not> is_space (digit_char d)"
  using digit_value_digit_char [of d] by (auto simp: is_space_def digit_value_def Let_def split: if_splits)

lemma nat_dec_digits: "nat_dec n = map digit_char (base_digits 10 n)" "\<forall>d \<in> set (base_digits 10 n). d < 10"
  using base_digits_small [of 10] by (auto simp: nat_dec_def)

lemma base_digits_not_Nil: "base_digits b n \<noteq> []"
  by (subst base_digits.simps) simp

lemma nat_dec_Cons: "\<exists>c cs v. nat_dec n = c # cs \<and> digit_value c = Some v"
proof -
  obtain d ds where "base_digits 10 n = d # ds" using base_digits_not_Nil by (metis list.exhaust)
  then show ?thesis using nat_dec_digits [of n] digit_value_digit_char [of d] by auto
qed

lemma py_strip_no_space: "\<forall>c \<in> set s. \<not> is_space c \<Longrightarrow> py_strip s = s"
proof -
  assume s: "\<forall>c \<in> set s. \<not> is_space c"
  have "dropWhile is_space t = t" if "\<forall>c \<in> set t. \<not> is_space c" for t
    using that by (cases t) auto
  from this [of s] this [of "rev s"] show ?thesis using s by (simp add: py_strip_def)
qed

lemma parse_nat_dec: "parse_digits 0 (nat_dec n) = Some n"
  using parse_digits_map [OF nat_dec_digits(2)] digits_value_base_digits [of 10 n]
  by (simp add: nat_dec_digits(1) digits_value_def)

lemma py_int_int_dec [simp]: "py_int (int_dec i) = Inr i"
proof -
  have no_space: "\<forall>c \<in> set (nat_dec n). \<not> is_space c" for n
    using nat_dec_digits [of n] digit_char_not_space by auto
  obtain c cs v where c: "nat_dec (nat \<bar>i\<bar>) = c # cs" "digit_value c = Some v"
    using nat_dec_Cons by blast
  then have "c \<noteq> CHR ''-''" "c \<noteq> CHR ''+''" by (auto simp: digit_value_def Let_def split: if_splits)
  moreover have "py_strip (int_dec i) = int_dec i"
    by (rule py_strip_no_space) (use no_space in \<open>auto simp: int_dec_def is_space_def\<close>)
  ultimately show ?thesis
    using c parse_nat_dec [of "nat \<bar>i\<bar>"] by (auto simp: py_int_def int_dec_def Let_def abs_if split: if_splits)
qed

text \<open>A dict with integer keys, as \<open>json.dumps\<close> writes it: the keys in decimal.\<close>

definition int_keyed :: "(int, json) dict \<Rightarrow> json" where
  "int_keyed m = JObj (map (\<lambda>(i, v). (int_dec i, v)) m)"

lemma json2dict_int_keyed: "dwf m \<Longrightarrow> json2dict (Inr (int_keyed m)) = Inr (Some m)"
proof -
  assume m: "dwf m"
  have "rmap (\<lambda>(x, y). rbind (py_int x) (\<lambda>i. Inr (i, y))) (map (\<lambda>(i, v). (int_dec i, v)) m) = Inr m"
    by (induction m) auto
  then show ?thesis by (simp add: json2dict_def int_keyed_def dict_of_distinct [OF m])
qed

section \<open>Lemmas on writing\<close>

lemma put_path_Obj: "put_path ks v d = (Inr (), d') \<Longrightarrow> ks \<noteq> [] \<Longrightarrow> \<exists>o'. d' = JObj o'"
  by (induction ks v d rule: put_path.induct) (auto split: json.splits option.splits prod.splits)

lemma nested_loop_descend:
  "dget o' k = Some v \<Longrightarrow> v \<noteq> JNull \<Longrightarrow> nested_loop (JObj o') (k # ks) = nested_loop v ks"
  by (cases v) simp_all

lemma nested_loop_put:
  "put_path ks v d = (Inr (), d') \<Longrightarrow> ks \<noteq> [] \<Longrightarrow> v \<noteq> JNull \<Longrightarrow> nested_loop d' ks = Inr (Some v)"
proof (induction ks v d arbitrary: d' rule: put_path.induct)
  case (2 k v d)
  then show ?case by (auto split: json.splits simp: dict_simps)
next
  case (3 k k' ks v d)
  from 3(2) obtain o' sub sub' where o: "d = JObj o'" "dget o' k = Some sub"
      "put_path (k' # ks) v sub = (Inr (), sub')" "d' = JObj (dset o' k sub')"
    by (auto split: json.splits option.splits prod.splits)
  then obtain o'' where "sub' = JObj o''" using put_path_Obj by blast
  moreover have "nested_loop sub' (k' # ks) = Inr (Some v)" using 3(1) [OF o(1,2,3)] 3(4) by simp
  ultimately show ?case
    using nested_loop_descend [of "dset o' k sub'" k sub'] by (simp add: o dict_simps)
qed simp

lemma nested_loop_dset_other: "k' \<noteq> k \<Longrightarrow> nested_loop (JObj (dset o' k v)) (k' # ks) = nested_loop (JObj o') (k' # ks)"
  by (simp add: dict_simps)

lemma nested_loop_put_other:
  "put_path (k # ks) v d = (r, d') \<Longrightarrow> k' \<noteq> k \<Longrightarrow> nested_loop d' (k' # ks') = nested_loop d (k' # ks')"
  by (cases ks; cases d) (auto simp: nested_loop_dset_other simp del: nested_loop.simps split: option.splits prod.splits)

lemma nested_loop_init_other:
  "init_keys (k # ks) d = (r, d') \<Longrightarrow> k' \<noteq> k \<Longrightarrow> nested_loop d' (k' # ks') = nested_loop d (k' # ks')"
  by (cases d) (auto simp: nested_loop_dset_other simp del: nested_loop.simps split: prod.splits)

lemma init_keys_put:
  "init_keys ks d = (Inr (), d') \<Longrightarrow> ks \<noteq> [] \<Longrightarrow> \<exists>d''. put_path ks v d' = (Inr (), d'')"
proof (induction ks d arbitrary: d' rule: init_keys.induct)
  case (2 k ks d)
  then obtain o' where d: "d = JObj o'" by (cases d) auto
  let ?sub = "case dget o' k of None \<Rightarrow> JObj [] | Some JNull \<Rightarrow> JObj [] | Some v \<Rightarrow> v"
  obtain r sub' where sub: "init_keys ks ?sub = (r, sub')" by (cases "init_keys ks ?sub")
  with 2 d have d': "d' = JObj (dset o' k sub')" "r = Inr ()" by auto
  show ?case
  proof (cases ks)
    case (Cons k' ks')
    then show ?thesis using 2(1) [OF d refl _ ] sub d' by (fastforce simp: dict_simps)
  qed (simp add: d')
qed simp

section \<open>Lemmas on comments\<close>

fun has_comment :: "string \<Rightarrow> bool" where
  "has_comment (c # c' # cs) \<longleftrightarrow> c = CHR ''/'' \<and> c' = CHR ''/'' \<or> has_comment (c' # cs)"
| "has_comment _ \<longleftrightarrow> False"

lemma strip_comments_none: "\<not> has_comment s \<Longrightarrow> strip_comments s = s"
  by (induction s rule: has_comment.induct) auto

lemma dropWhile_line: "CHR 0x0A \<notin> set c \<Longrightarrow> dropWhile (\<lambda>x. x \<noteq> CHR 0x0A) (c @ CHR 0x0A # post) = CHR 0x0A # post"
  by (induction c) auto

section \<open>Properties\<close>

text \<open>A getter resolves its value in a fixed order: the value for the node, else the value
  of the scenario, else the default. A missing value without default is null, or the error
  \<open>ConfigMalformed\<close> if a value is required; the answer is null or one of the expected values,
  any other value is refused.\<close>

theorem getter_resolution:
  assumes "g_keys g \<noteq> []"
    and node: "get_dict_nested_value d (CONFIG_KEY_NODE_DETAILS # node_id_str nid # g_keys g) = Inr nv"
    and glob: "get_dict_nested_value d (g_keys g) = Inr gv"
  shows "customizable_attrs g nid d =
    (case (nv, gv, g_not_null g, g_default g) of
       (Some v, _, _, _) \<Rightarrow> if g_expected g = [] \<or> v \<in> set (g_expected g) then Inr v else Inl ConfigOptionNotSupported
     | (None, Some v, _, _) \<Rightarrow> if g_expected g = [] \<or> v \<in> set (g_expected g) then Inr v else Inl ConfigOptionNotSupported
     | (None, None, True, _) \<Rightarrow> Inl ConfigMalformed
     | (None, None, False, None) \<Rightarrow> Inr JNull
     | (None, None, False, Some v) \<Rightarrow>
         if g_expected g = [] \<or> v = JNull \<or> v \<in> set (g_expected g) then Inr v else Inl ConfigOptionNotSupported)"
proof -
  have d: "d \<noteq> JNull" using node by (auto simp: get_dict_nested_value_def)
  have "nv \<noteq> Some JNull"
    using node d nested_loop_not_null by (auto simp: get_dict_nested_value_def simp del: nested_loop.simps)
  moreover have "gv \<noteq> Some JNull" using glob d nested_loop_not_null assms(1) by (auto simp: get_dict_nested_value_def)
  ultimately show ?thesis
    by (cases nv; cases gv; cases "g_not_null g"; cases "g_default g")
      (simp_all add: customizable_attrs_def node glob is_none_def)
qed

lemma int_dec_2: "int_dec 2 = ''2''"
  by code_simp

theorem getter_resolution_witness:
  "customizable_attrs (default_getter [''qemu'', ''ram''] (JStr ''32M'')) (Some 2)
     (JObj [(''node_details'', JObj [(''1'', JObj [(''qemu'', JObj [(''ram'', JStr ''64M'')])])])]) = Inr (JStr ''32M'')"
  using getter_resolution [of "default_getter [''qemu'', ''ram''] (JStr ''32M'')"
      "JObj [(''node_details'', JObj [(''1'', JObj [(''qemu'', JObj [(''ram'', JStr ''64M'')])])])]" "Some 2" None None]
  by (simp add: CONFIG_KEY_NODE_DETAILS_def node_id_str_def int_dec_2)

text \<open>Reading a configuration removes every comment, wherever on the line it starts: from
  the two slashes up to and including the line feed; a text without two adjacent slashes is not
  changed. The slashes need not begin the line, so a value such as a URL is cut as well.\<close>

theorem strip_comments_line:
  assumes "\<not> has_comment pre" and "pre = [] \<or> last pre \<noteq> CHR ''/''" and "CHR 0x0A \<notin> set c"
  shows "strip_comments (pre @ ''//'' @ c @ CHR 0x0A # post) = pre @ strip_comments post"
  using assms
proof (induction pre rule: has_comment.induct)
  case (1 a b cs)
  then show ?case by (cases cs) (auto split: if_splits)
qed (auto simp: dropWhile_line)

theorem strip_comments_line_witness:
  "strip_comments (''a: http:'' @ ''//'' @ ''host/'' @ CHR 0x0A # ''b'') = ''a: http:'' @ strip_comments ''b''"
  by (rule strip_comments_line) simp_all

end
