(* ===== verification/Scenario_Config.thy ===== *)
theory Scenario_Config
  imports Json_Config "HOL-Library.Sublist"
begin

text \<open>
  The options of the emulator: \<open>Config.py\<close> (\<open>GlobalConfig\<close>) and \<open>Scenario.py\<close>
  (\<open>ScenarioConfig\<close>). A getter takes the keyword argument \<open>node_id\<close> (\<open>None\<close> if it is not
  given) and the data of the config; a setter answers with its outcome and the new data. There is
  one instance of each class, so \<open>scenario_config\<close> and \<open>self\<close> are the same object. A dict with
  integer keys is kept with its keys in decimal, the way it is written to a file.
\<close>

text \<open>\<open>if v\<close>\<close>

definition truthy :: "json \<Rightarrow> bool" where
  "truthy v \<longleftrightarrow> v \<notin> {JNull, JBool False, JInt 0, JFloat 0, JStr [], JList [], JObj []}"

section \<open>The global configuration\<close>

definition get_server_addr :: "int option \<Rightarrow> json \<Rightarrow> json res" where
  "get_server_addr =
     customizable_attrs (default_getter [''server'', ''address''] (JStr ''localhost''))"

definition is_mode_distributed :: "int option \<Rightarrow> json \<Rightarrow> json res" where
  "is_mode_distributed =
     customizable_attrs (default_getter [''distributed'', ''use''] (JBool False))"

definition get_mode_distributed_get_cnt_servers :: "int option \<Rightarrow> json \<Rightarrow> json res" where
  "get_mode_distributed_get_cnt_servers =
     customizable_attrs (plain_getter [''distributed'', ''cnt_servers''])"

definition get_repl_timeout :: "int option \<Rightarrow> json \<Rightarrow> json res" where
  "get_repl_timeout =
     customizable_attrs (default_getter [''provisioning'', ''boot_wait_timeout''] (JInt 300))"

definition get_bridge_tap_name :: "int option \<Rightarrow> json \<Rightarrow> json res" where
  "get_bridge_tap_name =
     customizable_attrs (default_getter [''management'', ''device''] (JStr ''mgmt''))"

definition is_ramdisk_enabled :: "int option \<Rightarrow> json \<Rightarrow> json res" where
  "is_ramdisk_enabled =
     customizable_attrs (default_getter [''ramdisk''] (JBool False))"

definition is_qemu_snapshot_boot :: "int option \<Rightarrow> json \<Rightarrow> json res" where
  "is_qemu_snapshot_boot =
     customizable_attrs (default_getter [''qemu'', ''snapshot_boot''] (JBool True))"

definition is_management_switch_enabled :: "int option \<Rightarrow> json \<Rightarrow> json res" where
  "is_management_switch_enabled =
     customizable_attrs (default_getter [''management'', ''use''] (JBool False))"

definition is_debug :: "int option \<Rightarrow> json \<Rightarrow> json res" where
  "is_debug =
     customizable_attrs (default_getter [''logging'', ''debug''] (JBool False))"

definition is_log_provisioning :: "int option \<Rightarrow> json \<Rightarrow> json res" where
  "is_log_provisioning =
     customizable_attrs (default_getter [''logging'', ''log_provisioning''] (JBool False))"

definition is_log_cleanup :: "int option \<Rightarrow> json \<Rightarrow> json res" where
  "is_log_cleanup =
     customizable_attrs (default_getter [''logging'', ''log_cleanup''] (JBool False))"

definition get_log_level :: "int option \<Rightarrow> json \<Rightarrow> json res" where
  "get_log_level =
     customizable_attrs (default_getter [''logging'', ''level''] (JStr ''INFO''))"

definition get_network_switching_threads :: "int option \<Rightarrow> json \<Rightarrow> json res" where
  "get_network_switching_threads =
     customizable_attrs (default_getter [''network_switching_threads''] (JInt 100))"

definition set_is_coordinator :: "bool \<Rightarrow> json \<Rightarrow> unit res \<times> json" where
  "set_is_coordinator b data = put_path [''coordinator''] (JBool b) data"

definition is_coordinator :: "json \<Rightarrow> json res" where
  "is_coordinator data = (case data of
      JObj o' \<Rightarrow> Inr (case dget o' ''coordinator'' of None \<Rightarrow> JBool False | Some v \<Rightarrow> v)
    | _ \<Rightarrow> Inl AttributeError)"

definition PROTOCOL_MSG_PACK :: json where
  "PROTOCOL_MSG_PACK = JStr ''msgpack''"

definition PROTOCOL_JSON :: json where
  "PROTOCOL_JSON = JStr ''json''"

definition PROTOCOL_ZMQ_MODE_P2P :: json where
  "PROTOCOL_ZMQ_MODE_P2P = JStr ''p2p''"

definition PROTOCOL_ZMQ_MODE_MCAST :: json where
  "PROTOCOL_ZMQ_MODE_MCAST = JStr ''multicast''"

definition get_protocol :: "int option \<Rightarrow> json \<Rightarrow> json res" where
  "get_protocol =
     customizable_attrs \<lparr>g_keys = [''network'', ''protocol'', ''name''],
     g_default = Some PROTOCOL_JSON, g_expected = [PROTOCOL_JSON, PROTOCOL_MSG_PACK], g_not_null = False\<rparr>"

definition is_protocol_json :: "json \<Rightarrow> bool res" where
  "is_protocol_json data = rbind (get_protocol None data) (\<lambda>r. Inr (r = PROTOCOL_JSON))"

definition is_protocol_msgpack :: "json \<Rightarrow> bool res" where
  "is_protocol_msgpack data = rbind (get_protocol None data) (\<lambda>r. Inr (r = PROTOCOL_MSG_PACK))"

definition get_protocol_zeromq_mode :: "int option \<Rightarrow> json \<Rightarrow> json res" where
  "get_protocol_zeromq_mode =
     customizable_attrs (default_getter [''network'', ''protocol'', ''zeromq'', ''mode''] PROTOCOL_ZMQ_MODE_MCAST)"

definition is_protocol_zeromq_mode_p2p :: "json \<Rightarrow> bool res" where
  "is_protocol_zeromq_mode_p2p data = rbind (get_protocol_zeromq_mode None data) (\<lambda>r. Inr (r = PROTOCOL_ZMQ_MODE_P2P))"

definition is_protocol_zeromq_mode_mcast :: "json \<Rightarrow> bool res" where
  "is_protocol_zeromq_mode_mcast data = rbind (get_protocol_zeromq_mode None data) (\<lambda>r. Inr (r = PROTOCOL_ZMQ_MODE_MCAST))"

definition get_time_step :: "(string \<Rightarrow> rat res) \<Rightarrow> int option \<Rightarrow> json \<Rightarrow> rat res" where
  "get_time_step parse nid data = arg2float parse (customizable_attrs (default_getter [''simulation'', ''time_step''] (JFloat 1)) nid data)"

definition is_publish_only_new_distance_matrices :: "int option \<Rightarrow> json \<Rightarrow> json res" where
  "is_publish_only_new_distance_matrices =
     customizable_attrs (default_getter [''network'', ''protocol'', ''zeromq'', ''publish_only_new_distance_matrices''] (JBool True))"

definition is_publish_individual_distance_matrices :: "int option \<Rightarrow> json \<Rightarrow> json res" where
  "is_publish_individual_distance_matrices =
     customizable_attrs (default_getter [''network'', ''protocol'', ''zeromq'', ''publish_individual_distance_matrices''] (JBool False))"

definition DISTRIBUTD_SCHEDULER_EQUAL :: json where
  "DISTRIBUTD_SCHEDULER_EQUAL = JStr ''equal''"

definition DISTRIBUTD_SCHEDULER_SCORE :: json where
  "DISTRIBUTD_SCHEDULER_SCORE = JStr ''score''"

definition get_distributed_scheduler :: "int option \<Rightarrow> json \<Rightarrow> json res" where
  "get_distributed_scheduler =
     customizable_attrs \<lparr>g_keys = [''distributed'', ''scheduler''],
     g_default = Some DISTRIBUTD_SCHEDULER_SCORE, g_expected = [DISTRIBUTD_SCHEDULER_EQUAL, DISTRIBUTD_SCHEDULER_SCORE], g_not_null = False\<rparr>"

definition is_distributed_scheduler_score :: "json \<Rightarrow> bool res" where
  "is_distributed_scheduler_score data = rbind (get_distributed_scheduler None data) (\<lambda>r. Inr (r = DISTRIBUTD_SCHEDULER_SCORE))"

definition is_distributed_scheduler_equal :: "json \<Rightarrow> bool res" where
  "is_distributed_scheduler_equal data = rbind (get_distributed_scheduler None data) (\<lambda>r. Inr (r = DISTRIBUTD_SCHEDULER_EQUAL))"

section \<open>The scenario configuration\<close>

definition EXECUTE_MODE_BRCTL :: json where
  "EXECUTE_MODE_BRCTL = JStr ''brctl''"

definition EXECUTE_MODE_IPROUTE2 :: json where
  "EXECUTE_MODE_IPROUTE2 = JStr ''iproute2''"

definition EXECUTE_MODE_PYROUTE2 :: json where
  "EXECUTE_MODE_PYROUTE2 = JStr ''pyroute2''"

definition CONNECTION_MODE_SINGLE :: json where
  "CONNECTION_MODE_SINGLE = JStr ''single''"

definition CONNECTION_MODE_MULTI :: json where
  "CONNECTION_MODE_MULTI = JStr ''multi''"

definition get_foo :: "int option \<Rightarrow> json \<Rightarrow> json res" where
  "get_foo =
     customizable_attrs (plain_getter [''foo'', ''bar''])"

definition get_number_of_nodes :: "int option \<Rightarrow> json \<Rightarrow> json res" where
  "get_number_of_nodes =
     customizable_attrs (default_getter [''cnt_nodes''] (JInt 0))"

text \<open>\<open>range(1, n + 1)\<close>, as the list of its elements; \<open>True + 1\<close> is 2.\<close>

definition range_from_1 :: "json \<Rightarrow> json res" where
  "range_from_1 n = (case n of
      JInt i \<Rightarrow> Inr (JList (map JInt [1..i]))
    | JBool b \<Rightarrow> Inr (JList (map JInt [1..of_bool b]))
    | _ \<Rightarrow> Inl TypeError)"

definition get_all_emulation_node_ids :: "json \<Rightarrow> json res" where
  "get_all_emulation_node_ids data = rbind (get_number_of_nodes None data) range_from_1"

definition get_qemu_user_addition :: "int option \<Rightarrow> json \<Rightarrow> json res" where
  "get_qemu_user_addition =
     customizable_attrs (plain_getter [''qemu'', ''qemu_user_addition''])"

definition get_scenario_name :: "int option \<Rightarrow> json \<Rightarrow> json res" where
  "get_scenario_name =
     customizable_attrs (plain_getter [''scenario''])"

definition is_parallel_node_starting :: "int option \<Rightarrow> json \<Rightarrow> json res" where
  "is_parallel_node_starting =
     customizable_attrs (default_getter [''provisioning'', ''parallel''] (JBool True))"

definition get_overlay_images :: "int option \<Rightarrow> json \<Rightarrow> json res" where
  "get_overlay_images =
     customizable_attrs (default_getter [''provisioning'', ''overlay_images''] (JList []))"

definition PROVISIONING_BOOT_MODE_SELECTORS :: json where
  "PROVISIONING_BOOT_MODE_SELECTORS = JStr ''selectors''"

definition PROVISIONING_BOOT_MODE_PEXPECT :: json where
  "PROVISIONING_BOOT_MODE_PEXPECT = JStr ''pexpect''"

definition get_provisioning_boot_mode :: "int option \<Rightarrow> json \<Rightarrow> json res" where
  "get_provisioning_boot_mode =
     customizable_attrs (default_getter [''provisioning'', ''boot_mode''] PROVISIONING_BOOT_MODE_SELECTORS)"

definition is_provisioning_boot_mode_selectors :: "json \<Rightarrow> bool res" where
  "is_provisioning_boot_mode_selectors data = rbind (get_provisioning_boot_mode None data) (\<lambda>r. Inr (r = PROVISIONING_BOOT_MODE_SELECTORS))"

definition is_provisioning_boot_mode_pexpect :: "json \<Rightarrow> bool res" where
  "is_provisioning_boot_mode_pexpect data = rbind (get_provisioning_boot_mode None data) (\<lambda>r. Inr (r = PROVISIONING_BOOT_MODE_PEXPECT))"

definition get_shell_prompt :: "int option \<Rightarrow> json \<Rightarrow> json res" where
  "get_shell_prompt =
     customizable_attrs (plain_getter [''provisioning'', ''regex_shell_prompt''])"

definition get_signal_boot_completed :: "int option \<Rightarrow> json \<Rightarrow> json res" where
  "get_signal_boot_completed =
     customizable_attrs (plain_getter [''provisioning'', ''regex_boot_completed''])"

definition get_path_image :: "int option \<Rightarrow> json \<Rightarrow> json res" where
  "get_path_image =
     customizable_attrs \<lparr>g_keys = [''provisioning'', ''image''],
     g_default = None, g_expected = [], g_not_null = True\<rparr>"

definition get_link_quality_model :: "int option \<Rightarrow> json \<Rightarrow> json res" where
  "get_link_quality_model =
     customizable_attrs (default_getter [''network'', ''links'', ''model''] (JStr ''miniworld.model.network.linkqualitymodels.LinkQualityModelRange.LinkQualityModelRange''))"

definition get_link_bandwidth :: "int option \<Rightarrow> json \<Rightarrow> json res" where
  "get_link_bandwidth =
     customizable_attrs (default_getter [''network'', ''links'', ''bandwidth''] JNull)"

definition WALK_MODEL_NAME_ARMA :: json where
  "WALK_MODEL_NAME_ARMA = JStr ''arma''"

definition WALK_MODEL_NAME_CORE :: json where
  "WALK_MODEL_NAME_CORE = JStr ''core''"

definition WALK_MODEL_NAME_RANDOM_WALK :: json where
  "WALK_MODEL_NAME_RANDOM_WALK = JStr ''RandomWalk''"

definition WALK_MODEL_NAME_MOVE_ON_BIG_STREETS :: json where
  "WALK_MODEL_NAME_MOVE_ON_BIG_STREETS = JStr ''MoveOnBigStreets''"

definition WALK_MODEL_NAMES :: "json list" where
  "WALK_MODEL_NAMES = [WALK_MODEL_NAME_ARMA, WALK_MODEL_NAME_CORE, WALK_MODEL_NAME_RANDOM_WALK, WALK_MODEL_NAME_MOVE_ON_BIG_STREETS]"

definition get_walk_model_name :: "int option \<Rightarrow> json \<Rightarrow> json res" where
  "get_walk_model_name =
     customizable_attrs \<lparr>g_keys = [''walk_model'', ''name''],
     g_default = None, g_expected = WALK_MODEL_NAMES, g_not_null = False\<rparr>"

definition walk_model_arma_filepath_attr :: "int option \<Rightarrow> json \<Rightarrow> json res" where
  "walk_model_arma_filepath_attr =
     customizable_attrs (plain_getter [''walk_model'', ''filepath''])"

text \<open>\<open>abspath\<close> is \<open>os.path.abspath\<close>, which depends on the working directory.\<close>

definition get_walk_model_arma_filepath :: "(string \<Rightarrow> string) \<Rightarrow> json \<Rightarrow> string res" where
  "get_walk_model_arma_filepath abspath data = rbind (walk_model_arma_filepath_attr None data) (\<lambda>r. case r of
      JStr s \<Rightarrow> Inr (abspath s) | _ \<Rightarrow> Inl TypeError)"

definition get_qemu_memory :: "int option \<Rightarrow> json \<Rightarrow> json res" where
  "get_qemu_memory =
     customizable_attrs (default_getter [''qemu'', ''ram''] (JStr ''32M''))"

definition get_qemu_memory_mb :: "json \<Rightarrow> int res" where
  "get_qemu_memory_mb data = rbind (get_qemu_memory None data) (\<lambda>r. case r of
      JStr s \<Rightarrow> py_int (takeWhile (\<lambda>c. c \<noteq> CHR ''M'') s)
    | _ \<Rightarrow> Inl AttributeError)"

definition get_qemu_nic :: "json list \<Rightarrow> int option \<Rightarrow> json \<Rightarrow> json res" where
  "get_qemu_nic nic_models =
     customizable_attrs \<lparr>g_keys = [''qemu'', ''nic'', ''model''],
     g_default = Some (JStr ''virtio-net-pci''), g_expected = nic_models, g_not_null = False\<rparr>"

definition is_connectivity_check_enabled :: "int option \<Rightarrow> json \<Rightarrow> json res" where
  "is_connectivity_check_enabled =
     customizable_attrs (default_getter [''network'', ''links'', ''configuration'', ''connectivity_check'', ''enabled''] (JBool True))"

definition get_connectivity_check_timeout :: "int option \<Rightarrow> json \<Rightarrow> json res" where
  "get_connectivity_check_timeout =
     customizable_attrs (default_getter [''network'', ''links'', ''configuration'', ''connectivity_check'', ''timeout''] (JInt 60))"

definition get_connectivity_check_cmd :: "int option \<Rightarrow> json \<Rightarrow> json res" where
  "get_connectivity_check_cmd =
     customizable_attrs (default_getter [''network'', ''links'', ''configuration'', ''connectivity_check'', ''cmd''] (JStr ''ping -n -c 1 -w {timeout} {ip}''))"

definition get_network_provisioner_name :: "int option \<Rightarrow> json \<Rightarrow> json res" where
  "get_network_provisioner_name =
     customizable_attrs \<lparr>g_keys = [''network'', ''links'', ''configuration'', ''ip_provisioner'', ''name''],
     g_default = Some JNull, g_expected = [JStr ''p2p'', JStr ''same_subnet''], g_not_null = False\<rparr>"

definition is_network_links_auto_ipv4 :: "int option \<Rightarrow> json \<Rightarrow> json res" where
  "is_network_links_auto_ipv4 =
     customizable_attrs (default_getter [''network'', ''links'', ''configuration'', ''auto_ipv4''] (JBool True))"

definition get_network_configuration_ip_provisioner_base_network_cidr :: "int option \<Rightarrow> json \<Rightarrow> json res" where
  "get_network_configuration_ip_provisioner_base_network_cidr =
     customizable_attrs (default_getter [''network'', ''links'', ''configuration'', ''ip_provisioner'', ''base_network_cidr''] (JStr ''10.0.0.0/8''))"

definition get_network_configuration_ip_provisioner_prefixlen :: "int option \<Rightarrow> json \<Rightarrow> json res" where
  "get_network_configuration_ip_provisioner_prefixlen =
     customizable_attrs (default_getter [''network'', ''links'', ''configuration'', ''ip_provisioner'', ''prefixlen''] (JInt 16))"

definition get_network_links_nic_prefix :: "int option \<Rightarrow> json \<Rightarrow> json res" where
  "get_network_links_nic_prefix =
     customizable_attrs (default_getter [''network'', ''links'', ''configuration'', ''nic_prefix''] (JStr ''eth''))"

definition NETWORK_BACKEND_BRIDGED :: json where
  "NETWORK_BACKEND_BRIDGED = JStr ''bridged''"

definition NETWORK_BACKEND_VDE :: json where
  "NETWORK_BACKEND_VDE = JStr ''vde''"

definition get_network_backend :: "int option \<Rightarrow> json \<Rightarrow> json res" where
  "get_network_backend =
     customizable_attrs \<lparr>g_keys = [''network'', ''backend'', ''name''],
     g_default = Some NETWORK_BACKEND_BRIDGED, g_expected = [NETWORK_BACKEND_BRIDGED, NETWORK_BACKEND_VDE], g_not_null = False\<rparr>"

definition get_network_backend_vde_num_ports :: "int option \<Rightarrow> json \<Rightarrow> json res" where
  "get_network_backend_vde_num_ports =
     customizable_attrs (default_getter [''network'', ''backend'', ''num_ports''] (JInt (2 ^ 16 + 1)))"

definition is_network_backend_parallel :: "int option \<Rightarrow> json \<Rightarrow> json res" where
  "is_network_backend_parallel =
     customizable_attrs (default_getter [''network'', ''backend'', ''execution_mode'', ''parallel''] (JBool True))"

text \<open>\<open>cpus\<close> is what \<open>multiprocessing.cpu_count\<close> answers.\<close>

definition get_network_backend_cnt_minions :: "nat \<Rightarrow> json \<Rightarrow> nat res" where
  "get_network_backend_cnt_minions cpus data =
     rbind (is_network_backend_parallel None data) (\<lambda>r. Inr (if truthy r then cpus else 1))"

definition get_network_backend_event_hook_script :: "int option \<Rightarrow> json \<Rightarrow> json res" where
  "get_network_backend_event_hook_script =
     customizable_attrs (default_getter [''network'', ''backend'', ''event_hook_script''] JNull)"

definition get_network_backend_bridged_connection_mode :: "int option \<Rightarrow> json \<Rightarrow> json res" where
  "get_network_backend_bridged_connection_mode =
     customizable_attrs \<lparr>g_keys = [''network'', ''backend'', ''connection_mode''],
     g_default = Some (JStr ''single''), g_expected = [JStr ''single'', JStr ''multi''], g_not_null = False\<rparr>"

definition EXECUTION_MODES :: "json list" where
  "EXECUTION_MODES = [JStr ''iproute2'', JStr ''pyroute2'', JStr ''brctl'']"

definition get_network_backend_bridged_execution_mode :: "int option \<Rightarrow> json \<Rightarrow> json res" where
  "get_network_backend_bridged_execution_mode =
     customizable_attrs \<lparr>g_keys = [''network'', ''backend'', ''execution_mode'', ''name''],
     g_default = Some (JStr ''brctl''), g_expected = EXECUTION_MODES, g_not_null = False\<rparr>"

definition is_network_backend_bridged_execution_mode_batch :: "int option \<Rightarrow> json \<Rightarrow> json res" where
  "is_network_backend_bridged_execution_mode_batch =
     customizable_attrs (default_getter [''network'', ''backend'', ''execution_mode'', ''batch''] (JBool True))"

definition is_network_backend_bridged_execution_mode_brctl :: "json \<Rightarrow> bool res" where
  "is_network_backend_bridged_execution_mode_brctl data = rbind (get_network_backend_bridged_execution_mode None data) (\<lambda>r. Inr (r = EXECUTE_MODE_BRCTL))"

definition is_network_backend_bridged_execution_mode_iproute2 :: "json \<Rightarrow> bool res" where
  "is_network_backend_bridged_execution_mode_iproute2 data = rbind (get_network_backend_bridged_execution_mode None data) (\<lambda>r. Inr (r = EXECUTE_MODE_IPROUTE2))"

definition is_network_backend_bridged_execution_mode_pyroute2 :: "json \<Rightarrow> bool res" where
  "is_network_backend_bridged_execution_mode_pyroute2 data = rbind (get_network_backend_bridged_execution_mode None data) (\<lambda>r. Inr (r = EXECUTE_MODE_PYROUTE2))"

definition is_network_backend_bridged_connection_mode_single :: "json \<Rightarrow> bool res" where
  "is_network_backend_bridged_connection_mode_single data = rbind (get_network_backend_bridged_connection_mode None data) (\<lambda>r. Inr (r = CONNECTION_MODE_SINGLE))"

definition is_network_backend_bridged_connection_mode_set :: "json \<Rightarrow> bool res" where
  "is_network_backend_bridged_connection_mode_set data = rbind (get_network_backend_bridged_connection_mode None data) (\<lambda>r. Inr (r \<noteq> JNull))"

definition is_network_backend_bridged_execution_mode_one_shell_call :: "int option \<Rightarrow> json \<Rightarrow> json res" where
  "is_network_backend_bridged_execution_mode_one_shell_call =
     customizable_attrs (default_getter [''network'', ''backend'', ''execution_mode'', ''one_shell_call''] (JBool True))"

definition get_network_backend_bridged_tunnel_endpoints :: "int option \<Rightarrow> json \<Rightarrow> (int, json) dict option res" where
  "get_network_backend_bridged_tunnel_endpoints nid data = json2dict (customizable_attrs (plain_getter [''network'', ''backend'', ''tunnel_endpoints'']) nid data)"

definition set_network_backend_bridged_tunnel_endpoints :: "json \<Rightarrow> json \<Rightarrow> unit res \<times> json" where
  "set_network_backend_bridged_tunnel_endpoints tunnel_endpoints data =
     (let keys = [''network'', ''backend'', ''tunnel_endpoints'']
      in (case init_keys keys data of
            (Inl e, data) \<Rightarrow> (Inl e, data)
          | (Inr _, data) \<Rightarrow> put_path keys tunnel_endpoints data))"

definition KEY_NETWORK_BACKEND_BRIDGED_DISTRIBUTED_MODE_VLAN :: json where
  "KEY_NETWORK_BACKEND_BRIDGED_DISTRIBUTED_MODE_VLAN = JStr ''vlan''"

definition KEY_NETWORK_BACKEND_BRIDGED_DISTRIBUTED_MODE_GRETAP :: json where
  "KEY_NETWORK_BACKEND_BRIDGED_DISTRIBUTED_MODE_GRETAP = JStr ''gretap''"

definition KEY_NETWORK_BACKEND_BRIDGED_DISTRIBUTED_MODE_VXLAN :: json where
  "KEY_NETWORK_BACKEND_BRIDGED_DISTRIBUTED_MODE_VXLAN = JStr ''vxlan''"

definition get_network_backend_bridged_distributed_mode :: "int option \<Rightarrow> json \<Rightarrow> json res" where
  "get_network_backend_bridged_distributed_mode =
     customizable_attrs \<lparr>g_keys = [''network'', ''backend'', ''distributed_mode''],
     g_default = Some KEY_NETWORK_BACKEND_BRIDGED_DISTRIBUTED_MODE_GRETAP, g_expected = [KEY_NETWORK_BACKEND_BRIDGED_DISTRIBUTED_MODE_VLAN, KEY_NETWORK_BACKEND_BRIDGED_DISTRIBUTED_MODE_GRETAP, KEY_NETWORK_BACKEND_BRIDGED_DISTRIBUTED_MODE_VXLAN], g_not_null = False\<rparr>"

definition is_network_backend_bridged_distributed_mode_vlan :: "json \<Rightarrow> bool res" where
  "is_network_backend_bridged_distributed_mode_vlan data = rbind (get_network_backend_bridged_distributed_mode None data) (\<lambda>r. Inr (r = KEY_NETWORK_BACKEND_BRIDGED_DISTRIBUTED_MODE_VLAN))"

definition is_network_backend_bridged_distributed_mode_gretap :: "json \<Rightarrow> bool res" where
  "is_network_backend_bridged_distributed_mode_gretap data = rbind (get_network_backend_bridged_distributed_mode None data) (\<lambda>r. Inr (r = KEY_NETWORK_BACKEND_BRIDGED_DISTRIBUTED_MODE_GRETAP))"

definition is_network_backend_bridged_distributed_mode_vxlan :: "json \<Rightarrow> bool res" where
  "is_network_backend_bridged_distributed_mode_vxlan data = rbind (get_network_backend_bridged_distributed_mode None data) (\<lambda>r. Inr (r = KEY_NETWORK_BACKEND_BRIDGED_DISTRIBUTED_MODE_VXLAN))"

definition get_interfaces :: "int option \<Rightarrow> json \<Rightarrow> json res" where
  "get_interfaces =
     customizable_attrs (default_getter [''network'', ''links'', ''interfaces''] (JList [JStr ''mesh'']))"

definition get_core_scenarios :: "int option \<Rightarrow> json \<Rightarrow> json res" where
  "get_core_scenarios =
     customizable_attrs (plain_getter [''network'', ''core'', ''topologies''])"

definition CORE_MODE_LAN :: json where
  "CORE_MODE_LAN = JStr ''lan''"

definition CORE_MODE_WIFI :: json where
  "CORE_MODE_WIFI = JStr ''wifi''"

definition get_core_mode :: "int option \<Rightarrow> json \<Rightarrow> json res" where
  "get_core_mode =
     customizable_attrs (default_getter [''network'', ''core'', ''mode''] CORE_MODE_WIFI)"

definition is_core_mode_lan :: "json \<Rightarrow> bool res" where
  "is_core_mode_lan data = rbind (get_core_mode None data) (\<lambda>r. Inr (r = CORE_MODE_LAN))"

definition is_core_mode_wifi :: "json \<Rightarrow> bool res" where
  "is_core_mode_wifi data = rbind (get_core_mode None data) (\<lambda>r. Inr (r = CORE_MODE_WIFI))"

definition is_core_loop :: "int option \<Rightarrow> json \<Rightarrow> json res" where
  "is_core_loop =
     customizable_attrs (default_getter [''network'', ''core'', ''loop''] (JBool False))"

definition get_shell_commands_pre_network_start :: "int option \<Rightarrow> json \<Rightarrow> json res" where
  "get_shell_commands_pre_network_start =
     customizable_attrs (plain_getter [''provisioning'', ''shell'', ''pre_network_start'', ''shell_cmds''])"

definition get_shell_commands_path_pre_network_start :: "int option \<Rightarrow> json \<Rightarrow> json res" where
  "get_shell_commands_path_pre_network_start =
     customizable_attrs (plain_getter [''provisioning'', ''shell'', ''pre_network_start'', ''shell_cmd_file_path''])"

definition get_shell_commands_post_network_start :: "int option \<Rightarrow> json \<Rightarrow> json res" where
  "get_shell_commands_post_network_start =
     customizable_attrs (plain_getter [''provisioning'', ''shell'', ''post_network_start'', ''shell_cmds''])"

definition get_shell_commands_path_post_network_start :: "int option \<Rightarrow> json \<Rightarrow> json res" where
  "get_shell_commands_path_post_network_start =
     customizable_attrs (plain_getter [''provisioning'', ''shell'', ''post_network_start'', ''shell_cmd_file_path''])"

text \<open>
  \<open>"distributed" not in self.data\<close>: for a list or a string, membership of a value, and a
  \<open>TypeError\<close> later; only a dict is written to. A section that is null is not replaced.
\<close>

definition create_distributed_section :: "json \<Rightarrow> unit res \<times> json" where
  "create_distributed_section data = (case data of
      JObj o' \<Rightarrow> (Inr (), if dget o' ''distributed'' = None then JObj (dset o' ''distributed'' (JObj [])) else data)
    | JList xs \<Rightarrow> (if JStr ''distributed'' \<in> set xs then Inr () else Inl TypeError, data)
    | JStr s \<Rightarrow> (if sublist ''distributed'' s then Inr () else Inl TypeError, data)
    | _ \<Rightarrow> (Inl TypeError, data))"

definition get_distributed_server_node_mapping :: "int option \<Rightarrow> json \<Rightarrow> (int, json) dict option res" where
  "get_distributed_server_node_mapping nid data = json2dict (customizable_attrs (default_getter [''distributed'', ''server_node_mapping''] JNull) nid data)"

definition get_distributed_server_ids :: "json \<Rightarrow> int list res" where
  "get_distributed_server_ids data = rbind (get_distributed_server_node_mapping None data) (\<lambda>r. case r of
      None \<Rightarrow> Inl AttributeError | Some m \<Rightarrow> Inr (map fst m))"

definition set_distributed :: "string \<Rightarrow> json \<Rightarrow> json \<Rightarrow> unit res \<times> json" where
  "set_distributed key v data = (case create_distributed_section data of
      (Inl e, data) \<Rightarrow> (Inl e, data)
    | (Inr _, data) \<Rightarrow> put_path [''distributed'', key] v data)"

definition set_distributed_server_node_mapping :: "json \<Rightarrow> json \<Rightarrow> unit res \<times> json" where
  "set_distributed_server_node_mapping = set_distributed ''server_node_mapping''"

definition get_distributed_server_id :: "int option \<Rightarrow> json \<Rightarrow> json res" where
  "get_distributed_server_id =
     customizable_attrs (plain_getter [''distributed'', ''server_id''])"

definition set_distributed_server_id :: "json \<Rightarrow> json \<Rightarrow> unit res \<times> json" where
  "set_distributed_server_id = set_distributed ''server_id''"

section \<open>Operations on several options\<close>

text \<open>
  Indexing a dict with integer keys by a value of the configuration: \<open>1 == 1.0 == True\<close>, and
  a list or a dict is not hashable.
\<close>

definition int_getitem :: "(int, json) dict \<Rightarrow> json \<Rightarrow> json res" where
  "int_getitem m k = (case k of
      JInt i \<Rightarrow> getitem m i
    | JBool b \<Rightarrow> getitem m (of_bool b)
    | JFloat f \<Rightarrow> if of_int \<lfloor>f\<rfloor> = f then getitem m \<lfloor>f\<rfloor> else Inl KeyError
    | JNull \<Rightarrow> Inl KeyError
    | JStr _ \<Rightarrow> Inl KeyError
    | _ \<Rightarrow> Inl TypeError)"

definition get_local_node_ids :: "json \<Rightarrow> json res" where
  "get_local_node_ids data = rbind (get_distributed_server_node_mapping None data) (\<lambda>res.
     case res of
       Some (kv # m) \<Rightarrow> rbind (get_distributed_server_id None data) (int_getitem (kv # m))
     | _ \<Rightarrow> rbind (get_number_of_nodes None data) range_from_1)"

definition is_network_backend_bridged_connection_mode_multi :: "json \<Rightarrow> bool res" where
  "is_network_backend_bridged_connection_mode_multi data =
     rbind (get_core_scenarios None data) (\<lambda>s.
     if \<not> truthy s then Inl ValueError
     else rbind (get_network_backend_bridged_connection_mode None data) (\<lambda>r. Inr (r = CONNECTION_MODE_MULTI)))"

text \<open>\<open>sep.join(v)\<close> of a configuration value: the elements of a list have to be strings, a string is joined character by character, a dict by its keys.\<close>

definition join_value :: "string \<Rightarrow> json \<Rightarrow> string res" where
  "join_value sep v = (case v of
      JList xs \<Rightarrow> rbind (rmap (\<lambda>x. case x of JStr s \<Rightarrow> Inr s | _ \<Rightarrow> Inl TypeError) xs) (\<lambda>ss. Inr (pyjoin sep ss))
    | JStr s \<Rightarrow> Inr (pyjoin sep (map (\<lambda>c. [c]) s))
    | JObj o' \<Rightarrow> Inr (pyjoin sep (map fst o'))
    | _ \<Rightarrow> Inl TypeError)"

text \<open>\<open>_get_all_shell_commands\<close>; \<open>read\<close> opens and reads a file.\<close>

definition get_all_shell_commands :: "(json \<Rightarrow> string res) \<Rightarrow> json \<Rightarrow> json \<Rightarrow> string res" where
  "get_all_shell_commands read shell_commands_path shell_commands_list =
     rbind (if truthy shell_commands_list then join_value [CHR 0x0A] shell_commands_list else Inr []) (\<lambda>from_config.
     rbind (if truthy shell_commands_path then
              (case read shell_commands_path of Inl IOError \<Rightarrow> Inl ConfigMalformed | r \<Rightarrow> r)
            else Inr []) (\<lambda>from_path.
     Inr (py_strip (from_path @ [CHR 0x0A, CHR 0x0A] @ from_config))))"

definition get_all_shell_commands_pre_network_start :: "(json \<Rightarrow> string res) \<Rightarrow> int option \<Rightarrow> json \<Rightarrow> string res" where
  "get_all_shell_commands_pre_network_start read nid data =
     rbind (get_shell_commands_path_pre_network_start nid data) (\<lambda>path.
     rbind (get_shell_commands_pre_network_start nid data) (\<lambda>cmds.
     get_all_shell_commands read path cmds))"

definition get_all_shell_commands_post_network_start :: "(json \<Rightarrow> string res) \<Rightarrow> int option \<Rightarrow> json \<Rightarrow> string res" where
  "get_all_shell_commands_post_network_start read nid data =
     rbind (get_shell_commands_path_post_network_start nid data) (\<lambda>path.
     rbind (get_shell_commands_post_network_start nid data) (\<lambda>cmds.
     get_all_shell_commands read path cmds))"

text \<open>
  \<open>set_scenario_config\<close> and \<open>set_global_config\<close>: the new data of the config, kept on an error.
  The global setter also hands its keyword arguments to \<open>log.info\<close>, which refuses
  \<open>raw\<close> if the level is enabled; \<open>raw\<close> is \<open>None\<close> if it is not given.
\<close>

definition set_scenario_config ::
  "(string \<Rightarrow> json res) \<Rightarrow> (string \<Rightarrow> string res) \<Rightarrow> bool \<Rightarrow> string \<Rightarrow> json \<Rightarrow> json res \<times> json" where
  "set_scenario_config loads read raw cfg data = (case read_json_config loads read raw cfg of
      Inl e \<Rightarrow> (Inl e, data) | Inr d \<Rightarrow> (Inr d, d))"

definition set_global_config ::
  "(string \<Rightarrow> json res) \<Rightarrow> (string \<Rightarrow> string res) \<Rightarrow> bool \<Rightarrow> bool option \<Rightarrow> string \<Rightarrow> json \<Rightarrow> json res \<times> json" where
  "set_global_config loads read info_enabled raw cfg data =
     (case read_json_config loads read (raw = Some True) cfg of
        Inl e \<Rightarrow> (Inl e, data)
      | Inr d \<Rightarrow> if raw \<noteq> None \<and> info_enabled then (Inl TypeError, data) else (Inr d, d))"

section \<open>Lemmas\<close>

lemmas getter_defs = customizable_attrs_def is_none_def

text \<open>A getter with a default among its expected values always answers with an expected value.\<close>

lemma expected_value:
  assumes "customizable_attrs g nid d = Inr v" and "g_keys g \<noteq> []"
    and "g_default g = Some dv" "dv \<noteq> JNull" "dv \<in> set (g_expected g)"
  shows "v \<in> set (g_expected g)"
proof -
  from assms(1) obtain nv gv where
    nv: "get_dict_nested_value d (CONFIG_KEY_NODE_DETAILS # node_id_str nid # g_keys g) = Inr nv"
    and gv: "\<not> is_none nv \<or> get_dict_nested_value d (g_keys g) = Inr gv"
    unfolding customizable_attrs_def by (auto simp: rbind_Inr_iff split: if_splits)
  have "g_expected g \<noteq> []" using assms(5) by auto
  moreover have "v \<noteq> JNull"
    using assms nv gv by (auto simp: customizable_attrs_def rbind_Inr_iff is_none_def Let_def split: if_splits option.splits)
  ultimately show ?thesis
    using assms(1) by (auto simp: customizable_attrs_def rbind_Inr_iff Let_def split: if_splits)
qed

text \<open>Writing a value into the distributed section, if the section is a dict or missing.\<close>

lemma set_distributed_works:
  assumes "dget o' ''distributed'' = None \<or> dget o' ''distributed'' = Some (JObj sec)"
  shows "\<exists>o2. set_distributed key v (JObj o') = (Inr (), JObj o2)
    \<and> dget o2 ''distributed'' = Some (JObj (dset (case dget o' ''distributed'' of Some (JObj s) \<Rightarrow> s | _ \<Rightarrow> []) key v))
    \<and> (\<forall>k. k \<noteq> ''distributed'' \<longrightarrow> dget o2 k = dget o' k)"
  using assms by (auto simp: set_distributed_def create_distributed_section_def dict_simps)

text \<open>No value for a path, neither for the node nor for the scenario.\<close>

definition unset :: "int option \<Rightarrow> json \<Rightarrow> string list \<Rightarrow> bool" where
  "unset nid d ks \<longleftrightarrow> get_dict_nested_value d (CONFIG_KEY_NODE_DETAILS # node_id_str nid # ks) = Inr None
     \<and> get_dict_nested_value d ks = Inr None"

text \<open>All questions are answered, and exactly one of them with yes.\<close>

definition exactly_one :: "bool res list \<Rightarrow> bool" where
  "exactly_one rs \<longleftrightarrow> (\<forall>r \<in> set rs. r = Inr True \<or> r = Inr False) \<and> length (filter (\<lambda>r. r = Inr True) rs) = 1"

lemma execution_mode_exclusive:
  assumes "get_network_backend_bridged_execution_mode None d = Inr e"
  shows "exactly_one [is_network_backend_bridged_execution_mode_brctl d,
    is_network_backend_bridged_execution_mode_iproute2 d, is_network_backend_bridged_execution_mode_pyroute2 d]"
proof -
  have "e \<in> set EXECUTION_MODES"
    using expected_value [OF assms [unfolded get_network_backend_bridged_execution_mode_def]]
    by (simp add: EXECUTION_MODES_def)
  then show ?thesis
    using assms
    by (auto simp: is_network_backend_bridged_execution_mode_brctl_def is_network_backend_bridged_execution_mode_iproute2_def
        is_network_backend_bridged_execution_mode_pyroute2_def EXECUTION_MODES_def EXECUTE_MODE_BRCTL_def
        EXECUTE_MODE_IPROUTE2_def EXECUTE_MODE_PYROUTE2_def exactly_one_def)
qed

lemma distributed_mode_exclusive:
  assumes "get_network_backend_bridged_distributed_mode None d = Inr t"
  shows "exactly_one [is_network_backend_bridged_distributed_mode_vlan d,
    is_network_backend_bridged_distributed_mode_gretap d, is_network_backend_bridged_distributed_mode_vxlan d]"
proof -
  have "t \<in> {KEY_NETWORK_BACKEND_BRIDGED_DISTRIBUTED_MODE_VLAN, KEY_NETWORK_BACKEND_BRIDGED_DISTRIBUTED_MODE_GRETAP,
      KEY_NETWORK_BACKEND_BRIDGED_DISTRIBUTED_MODE_VXLAN}"
    using expected_value [OF assms [unfolded get_network_backend_bridged_distributed_mode_def]]
    by (simp add: KEY_NETWORK_BACKEND_BRIDGED_DISTRIBUTED_MODE_GRETAP_def)
  then show ?thesis
    using assms
    by (auto simp: is_network_backend_bridged_distributed_mode_vlan_def is_network_backend_bridged_distributed_mode_gretap_def
        is_network_backend_bridged_distributed_mode_vxlan_def KEY_NETWORK_BACKEND_BRIDGED_DISTRIBUTED_MODE_VLAN_def
        KEY_NETWORK_BACKEND_BRIDGED_DISTRIBUTED_MODE_GRETAP_def KEY_NETWORK_BACKEND_BRIDGED_DISTRIBUTED_MODE_VXLAN_def
        exactly_one_def)
qed

lemma scheduler_exclusive:
  assumes "get_distributed_scheduler None c = Inr s"
  shows "exactly_one [is_distributed_scheduler_score c, is_distributed_scheduler_equal c]"
proof -
  have "s \<in> {DISTRIBUTD_SCHEDULER_EQUAL, DISTRIBUTD_SCHEDULER_SCORE}"
    using expected_value [OF assms [unfolded get_distributed_scheduler_def]]
    by (simp add: DISTRIBUTD_SCHEDULER_SCORE_def)
  then show ?thesis
    using assms
    by (auto simp: is_distributed_scheduler_score_def is_distributed_scheduler_equal_def
        DISTRIBUTD_SCHEDULER_EQUAL_def DISTRIBUTD_SCHEDULER_SCORE_def exactly_one_def)
qed

text \<open>The addresses of the servers' tunnels are read back as they were written.\<close>

lemma tunnel_endpoints_roundtrip:
  assumes "set_network_backend_bridged_tunnel_endpoints (int_keyed m) (JObj o') = (Inr (), d)"
    and "dwf m" and "dget o' CONFIG_KEY_NODE_DETAILS = None"
  shows "get_network_backend_bridged_tunnel_endpoints None d = Inr (Some m)"
proof -
  let ?ks = "[''network'', ''backend'', ''tunnel_endpoints'']"
  obtain d1 where d1: "init_keys ?ks (JObj o') = (Inr (), d1)" and d: "put_path ?ks (int_keyed m) d1 = (Inr (), d)"
    using assms(1) by (auto simp: set_network_backend_bridged_tunnel_endpoints_def Let_def simp del: put_path.simps init_keys.simps
        split: prod.splits sum.splits)
  have val: "nested_loop d ?ks = Inr (Some (int_keyed m))"
    by (rule nested_loop_put [OF d]) (simp_all add: int_keyed_def)
  have "nested_loop d (CONFIG_KEY_NODE_DETAILS # ks) = nested_loop (JObj o') (CONFIG_KEY_NODE_DETAILS # ks)" for ks
    using nested_loop_put_other [OF d] nested_loop_init_other [OF d1] by (simp add: CONFIG_KEY_NODE_DETAILS_def)
  then have none: "nested_loop d (CONFIG_KEY_NODE_DETAILS # ks) = Inr None" for ks
    using assms(3) by simp
  obtain o2 where "d = JObj o2" using put_path_Obj [OF d] by auto
  then show ?thesis
    unfolding get_network_backend_bridged_tunnel_endpoints_def json2dict_int_keyed [OF assms(2), symmetric]
    using val none by (intro arg_cong [of _ _ json2dict] customizable_plain_value) (simp_all add: int_keyed_def)
qed

section \<open>Properties\<close>

text \<open>Once the coordinator has written the node assignment and the id of a server into the
  scenario, that server is responsible for exactly the nodes assigned to it, whatever was
  there before; the other sections of the scenario are left as they were.\<close>

theorem local_node_ids_after_assignment:
  assumes sect: "dget o' ''distributed'' = None \<or> dget o' ''distributed'' = Some (JObj sec)"
    and no_details: "dget o' CONFIG_KEY_NODE_DETAILS = None"
    and m: "dwf m" "dget m sid = Some ids"
  shows "\<exists>d1 o2. set_distributed_server_node_mapping (int_keyed m) (JObj o') = (Inr (), d1)
    \<and> set_distributed_server_id (JInt sid) d1 = (Inr (), JObj o2)
    \<and> get_local_node_ids (JObj o2) = Inr ids
    \<and> (\<forall>k. k \<noteq> ''distributed'' \<longrightarrow> dget o2 k = dget o' k)"
proof -
  obtain o1 where o1: "set_distributed ''server_node_mapping'' (int_keyed m) (JObj o') = (Inr (), JObj o1)"
    and sec1: "dget o1 ''distributed'' = Some (JObj (dset (case dget o' ''distributed'' of Some (JObj s) \<Rightarrow> s | _ \<Rightarrow> []) ''server_node_mapping'' (int_keyed m)))"
      (is "_ = Some (JObj ?s1)")
    and frame1: "\<forall>k. k \<noteq> ''distributed'' \<longrightarrow> dget o1 k = dget o' k"
    using set_distributed_works [OF sect, of "''server_node_mapping''" "int_keyed m"] by blast
  obtain o2 where o2: "set_distributed ''server_id'' (JInt sid) (JObj o1) = (Inr (), JObj o2)"
    and sec2: "dget o2 ''distributed'' = Some (JObj (dset ?s1 ''server_id'' (JInt sid)))"
    and frame2: "\<forall>k. k \<noteq> ''distributed'' \<longrightarrow> dget o2 k = dget o1 k"
    using set_distributed_works [of o1 ?s1 "''server_id''" "JInt sid"] sec1 by auto
  have none: "dget o2 CONFIG_KEY_NODE_DETAILS = None"
    using frame1 frame2 no_details by (simp add: CONFIG_KEY_NODE_DETAILS_def)
  have mapping: "get_distributed_server_node_mapping None (JObj o2) = Inr (Some m)"
    unfolding get_distributed_server_node_mapping_def json2dict_int_keyed [OF m(1), symmetric]
    by (rule arg_cong [of _ _ json2dict], rule customizable_plain_value)
      (simp_all add: none sec2 dict_simps int_keyed_def)
  have sid: "get_distributed_server_id None (JObj o2) = Inr (JInt sid)"
    unfolding get_distributed_server_id_def
    by (rule customizable_plain_value)
      (simp_all add: none sec2 dict_simps)
  obtain kv m' where "m = kv # m'" using m(2) by (cases m) auto
  then have "get_local_node_ids (JObj o2) = Inr ids"
    using mapping sid m(2) by (simp add: get_local_node_ids_def int_getitem_def getitem_def)
  then show ?thesis
    using o1 o2 frame1 frame2
    by (auto simp: set_distributed_server_node_mapping_def set_distributed_server_id_def)
qed

theorem local_node_ids_after_assignment_witness:
  "\<exists>d1 o2. set_distributed_server_node_mapping (int_keyed [(1, JList [JInt 1]), (2, JList [JInt 2, JInt 3])]) (JObj [(''cnt_nodes'', JInt 3)]) = (Inr (), d1)
    \<and> set_distributed_server_id (JInt 2) d1 = (Inr (), JObj o2)
    \<and> get_local_node_ids (JObj o2) = Inr (JList [JInt 2, JInt 3])"
  using local_node_ids_after_assignment [of "[(''cnt_nodes'', JInt 3)]" "[]"
      "[(1, JList [JInt 1]), (2, JList [JInt 2, JInt 3])]" 2 "JList [JInt 2, JInt 3]"]
  by (auto simp: CONFIG_KEY_NODE_DETAILS_def kwf_def)

text \<open>The modes of the bridged backend and the scheduler are exclusive and exhaustive:
  whenever the configuration can be read, exactly one way of executing the commands, exactly one
  kind of tunnel between the servers and exactly one scheduler is chosen.\<close>

theorem modes_exclusive:
  assumes "get_network_backend_bridged_execution_mode None d = Inr e"
    and "get_network_backend_bridged_distributed_mode None d = Inr t"
    and "get_distributed_scheduler None c = Inr s"
  shows "exactly_one [is_network_backend_bridged_execution_mode_brctl d,
        is_network_backend_bridged_execution_mode_iproute2 d, is_network_backend_bridged_execution_mode_pyroute2 d]
    \<and> exactly_one [is_network_backend_bridged_distributed_mode_vlan d,
        is_network_backend_bridged_distributed_mode_gretap d, is_network_backend_bridged_distributed_mode_vxlan d]
    \<and> exactly_one [is_distributed_scheduler_score c, is_distributed_scheduler_equal c]"
  using execution_mode_exclusive distributed_mode_exclusive scheduler_exclusive assms by blast

theorem modes_exclusive_witness:
  "exactly_one [is_distributed_scheduler_score (JObj []), is_distributed_scheduler_equal (JObj [])]"
  using modes_exclusive [of "JObj []" "JStr ''brctl''" KEY_NETWORK_BACKEND_BRIDGED_DISTRIBUTED_MODE_GRETAP
        "JObj []" DISTRIBUTD_SCHEDULER_SCORE]
  by (simp add: get_network_backend_bridged_execution_mode_def get_network_backend_bridged_distributed_mode_def
      get_distributed_scheduler_def getter_defs EXECUTION_MODES_def)

text \<open>A scenario without an image is refused when the image is read, for every node. The
  shell prompt is documented as required in the same way but is not: \<open>not_null\<close> is a parameter
  of the decorated function instead of the decorator, and a missing prompt is read as null.\<close>

theorem required_options:
  assumes "unset nid d [''provisioning'', ''image'']" and "unset nid d [''provisioning'', ''regex_shell_prompt'']"
  shows "get_path_image nid d = Inl ConfigMalformed \<and> get_shell_prompt nid d = Inr JNull"
  using assms by (simp add: get_path_image_def get_shell_prompt_def getter_defs unset_def)

theorem required_options_witness:
  "get_path_image (Some 1) (JObj [(''provisioning'', JObj [])]) = Inl ConfigMalformed"
  using required_options [of "Some 1" "JObj [(''provisioning'', JObj [])]"]
  by (simp add: unset_def CONFIG_KEY_NODE_DETAILS_def)

end
