(* ===== verification/Zmq_Protocol.thy ===== *)
theory Zmq_Protocol
  imports Scenario_Config Node_Distribution
begin

text \<open>
  The group communication of the distributed mode: \<open>rpc/zeromq/StateMachine.py\<close>,
  \<open>States.py\<close>, \<open>ZeroMQProtoServer.py\<close> and \<open>ZeroMQProtoClient.py\<close>. The coordinator owns
  a router socket, the emulation servers are its clients and own a request socket each. A
  message is the address of the client and a list of frames: an empty frame (\<open>None\<close>), which the
  request socket adds, and one frame per serialised part. \<open>ser\<close> and \<open>des\<close> are the methods of
  the \<open>Protocol\<close> (JSON or MessagePack).

  The messages that arrive at the router socket are the \<open>inbox\<close>, in the order of arrival; a
  receive with nothing to come blocks for ever and the operation has no result (\<open>None\<close>).
\<close>

type_synonym 'w frame = "'w option"
type_synonym ('a, 'w) message = "'a \<times> 'w frame list"

definition STATE_REGISTER :: string where "STATE_REGISTER = ''register''"
definition STATE_START_NODES :: string where "STATE_START_NODES = ''start_nodes''"
definition STATE_EXCHANGE :: string where "STATE_EXCHANGE = ''exchange''"
definition STATE_DISTANCE_MATRIX :: string where "STATE_DISTANCE_MATRIX = ''distance_matrix''"

section \<open>Expecter\<close>

record 'a expecter =
  ex_cnt_peers :: nat
  ex_state :: string
  cnt_message_parts :: nat
  expect_storage :: "('a \<times> json list) list"

definition new_expecter :: "nat \<Rightarrow> string \<Rightarrow> nat \<Rightarrow> 'a expecter" where
  "new_expecter cnt st parts = \<lparr>ex_cnt_peers = cnt, ex_state = st, cnt_message_parts = parts, expect_storage = []\<rparr>"

text \<open>Both protocols raise a \<open>ValueError\<close> for an empty frame.\<close>

definition deserialize_frame :: "('w \<Rightarrow> json res) \<Rightarrow> 'w frame \<Rightarrow> json res" where
  "deserialize_frame des f = (case f of None \<Rightarrow> Inl ValueError | Some w \<Rightarrow> des w)"

text \<open>\<open>expect\<close> on the next message: whether it is valid, and the expecter with the stored parts.\<close>

definition expect :: "('w \<Rightarrow> json res) \<Rightarrow> 'a expecter \<Rightarrow> ('a, 'w) message \<Rightarrow> (bool \<times> 'a expecter) res" where
  "expect des e msg = (let (addr, frames) = msg in
     if 1 + length frames = 3 + cnt_message_parts e then
       rbind (rmap (deserialize_frame des) (tl frames)) (\<lambda>parts.
         if hd parts = JStr (ex_state e)
         then Inr (True, e\<lparr>expect_storage := expect_storage e @ [(addr, tl parts)]\<rparr>)
         else Inr (False, e))
     else Inr (False, e))"

text \<open>The loop of \<open>expect_for_all\<close>, with the number of valid messages still to come.\<close>

fun expect_loop ::
  "('w \<Rightarrow> json res) \<Rightarrow> nat \<Rightarrow> 'a expecter \<Rightarrow> ('a, 'w) message list \<Rightarrow> ('a expecter res \<times> ('a, 'w) message list) option" where
  "expect_loop des 0 e inbox = Some (Inr e, inbox)"
| "expect_loop des (Suc k) e [] = None"
| "expect_loop des (Suc k) e (m # inbox) = (case expect des e m of
      Inl err \<Rightarrow> Some (Inl err, inbox)
    | Inr (True, e) \<Rightarrow> expect_loop des k e inbox
    | Inr (False, e) \<Rightarrow> expect_loop des (Suc k) e inbox)"

definition expect_for_all ::
  "('w \<Rightarrow> json res) \<Rightarrow> 'a expecter \<Rightarrow> ('a, 'w) message list \<Rightarrow> ('a expecter res \<times> ('a, 'w) message list) option" where
  "expect_for_all des e inbox = expect_loop des (ex_cnt_peers e) e inbox"

text \<open>
  A value as the key of a dict: numbers are equal across types, lists and dicts are not
  hashable.
\<close>

definition hash_key :: "json \<Rightarrow> json res" where
  "hash_key k = (case k of
      JBool b \<Rightarrow> Inr (JInt (of_bool b))
    | JFloat f \<Rightarrow> Inr (if of_int \<lfloor>f\<rfloor> = f then JInt \<lfloor>f\<rfloor> else JFloat f)
    | JList _ \<Rightarrow> Inl TypeError
    | JObj _ \<Rightarrow> Inl TypeError
    | _ \<Rightarrow> Inr k)"

text \<open>\<open>arg_list[i]\<close> of a stored item, whose first element is the address.\<close>

definition arg_at :: "'a \<times> json list \<Rightarrow> nat \<Rightarrow> json res" where
  "arg_at item i = pyindex (snd item) (i - 1)"

definition get_message_parts :: "nat \<Rightarrow> 'a expecter \<Rightarrow> json list list" where
  "get_message_parts frm e = map (\<lambda>item. drop (frm - 1) (snd item)) (expect_storage e)"

definition get_message_parts_no_id :: "'a expecter \<Rightarrow> json list list" where
  "get_message_parts_no_id e = get_message_parts 1 e"

definition dict_comp :: "('i \<Rightarrow> json res) \<Rightarrow> ('i \<Rightarrow> 'v res) \<Rightarrow> 'i list \<Rightarrow> (json, 'v) dict res" where
  "dict_comp key val items =
     rbind (rmap (\<lambda>x. rbind (key x) (\<lambda>k. rbind (val x) (\<lambda>v. rbind (hash_key k) (\<lambda>k. Inr (k, v))))) items) (\<lambda>kvs. Inr (dict_of kvs))"

definition get_message_parts_per_node_id :: "'a expecter \<Rightarrow> (json, json list) dict res" where
  "get_message_parts_per_node_id e =
     dict_comp (\<lambda>item. arg_at item 1) (\<lambda>item. Inr (drop 1 (snd item))) (expect_storage e)"

definition get_message_part_per_node_id :: "nat \<Rightarrow> 'a expecter \<Rightarrow> (json, json) dict res" where
  "get_message_part_per_node_id arg_nr e =
     dict_comp (\<lambda>item. arg_at item 1) (\<lambda>item. arg_at item (2 + arg_nr - 1)) (expect_storage e)"

definition get_server_ids :: "'a expecter \<Rightarrow> json list res" where
  "get_server_ids e = rmap (\<lambda>item. arg_at item 1) (expect_storage e)"

definition get_addresses :: "'a expecter \<Rightarrow> 'a list" where
  "get_addresses e = map fst (expect_storage e)"

definition get_server_id_addr_mapping :: "'a expecter \<Rightarrow> (json, 'a) dict res" where
  "get_server_id_addr_mapping e =
     dict_comp (\<lambda>item. arg_at item 1) (\<lambda>item. Inr (fst item)) (expect_storage e)"

section \<open>Responders\<close>

text \<open>The messages that are sent on the router socket.\<close>

definition reply :: "(json \<Rightarrow> 'w) \<Rightarrow> 'a \<Rightarrow> json \<Rightarrow> ('a, 'w) message" where
  "reply ser addr v = (addr, [None, Some (ser v)])"

definition respond_argument :: "(json \<Rightarrow> 'w) \<Rightarrow> json \<Rightarrow> 'a expecter \<Rightarrow> ('a, 'w) message list" where
  "respond_argument ser response e = map (\<lambda>addr. reply ser addr response) (get_addresses e)"

definition respond_server_id :: "(json \<Rightarrow> 'w) \<Rightarrow> 'a expecter \<Rightarrow> ('a, 'w) message list \<times> (int, 'a) dict" where
  "respond_server_id ser e =
     (let ids = zip [1..int (length (get_addresses e))] (get_addresses e)
      in (map (\<lambda>(idx, addr). reply ser addr (JInt idx)) ids, dict_of ids))"

text \<open>A missing response raises \<open>KeyError\<close>, after the answers before it were sent.\<close>

fun respond_per_loop ::
  "(json \<Rightarrow> 'w) \<Rightarrow> (json, json) dict \<Rightarrow> (json \<times> 'a) list \<Rightarrow> ('a, 'w) message list \<times> unit res" where
  "respond_per_loop ser responses [] = ([], Inr ())"
| "respond_per_loop ser responses ((sid, addr) # rest) = (case dget responses sid of
      None \<Rightarrow> ([], Inl KeyError)
    | Some v \<Rightarrow> (let (sent, r) = respond_per_loop ser responses rest in (reply ser addr v # sent, r)))"

definition respond_per_server_id ::
  "(json \<Rightarrow> 'w) \<Rightarrow> (json, json) dict \<Rightarrow> 'a expecter \<Rightarrow> ('a, 'w) message list \<times> unit res" where
  "respond_per_server_id ser responses e = (case get_server_id_addr_mapping e of
      Inl err \<Rightarrow> ([], Inl err)
    | Inr m \<Rightarrow> respond_per_loop ser responses m)"

section \<open>The coordinator\<close>

text \<open>
  \<open>ZeroMQServer\<close>. \<open>sv_sent\<close> is what was sent on the router socket, \<open>sv_published\<close> what was sent
  on the publish socket, \<open>sv_resets\<close> the number of reset messages; the two events are flags, and
  waiting for an event that is not set blocks. \<open>sv_scenario\<close> is the data of the scenario
  configuration of the process.
\<close>

record ('a, 'w) zmq_server =
  sv_cnt_peers :: "nat option"
  wait_for_scenario_config :: bool
  wait_for_nodes_started :: bool
  sv_scenario :: json
  sv_inbox :: "('a, 'w) message list"
  sv_sent :: "('a, 'w) message list"
  sv_published :: "'w list"
  sv_resets :: nat

type_synonym ('a, 'w) handler_result = "(unit res \<times> ('a, 'w) zmq_server) option"

definition and_then :: "('r res \<times> 's) option \<Rightarrow> ('r \<Rightarrow> 's \<Rightarrow> ('q res \<times> 's) option) \<Rightarrow> ('q res \<times> 's) option" where
  "and_then m k = (case m of
      None \<Rightarrow> None
    | Some (Inl e, s) \<Rightarrow> Some (Inl e, s)
    | Some (Inr r, s) \<Rightarrow> k r s)"

definition zmq_reset :: "('a, 'w) zmq_server \<Rightarrow> ('a, 'w) zmq_server" where
  "zmq_reset s = s\<lparr>sv_cnt_peers := None, wait_for_nodes_started := False, wait_for_scenario_config := False\<rparr>"

definition send_reset :: "('a, 'w) zmq_server \<Rightarrow> ('a, 'w) zmq_server" where
  "send_reset s = zmq_reset (s\<lparr>sv_resets := sv_resets s + 1\<rparr>)"

definition zmq_shutdown :: "('a, 'w) zmq_server \<Rightarrow> ('a, 'w) zmq_server" where
  "zmq_shutdown s = zmq_reset (send_reset s)"

text \<open>
  \<open>get_expecter_state\<close> followed by \<open>expect_for_all\<close>. Before \<open>start\<close> the number of peers is
  \<open>None\<close>, which \<open>range\<close> refuses.
\<close>

definition expect_state ::
  "('w \<Rightarrow> json res) \<Rightarrow> string \<Rightarrow> nat \<Rightarrow> ('a, 'w) zmq_server \<Rightarrow> ('a expecter res \<times> ('a, 'w) zmq_server) option" where
  "expect_state des st parts s = (case sv_cnt_peers s of
      None \<Rightarrow> Some (Inl TypeError, s)
    | Some n \<Rightarrow> map_option (\<lambda>(r, inbox). (r, s\<lparr>sv_inbox := inbox\<rparr>))
                 (expect_for_all des (new_expecter n st parts) (sv_inbox s)))"

definition send_all :: "('a, 'w) message list \<Rightarrow> ('a, 'w) zmq_server \<Rightarrow> ('a, 'w) zmq_server" where
  "send_all msgs s = s\<lparr>sv_sent := sv_sent s @ msgs\<rparr>"

definition handle_state_register ::
  "(json \<Rightarrow> 'w) \<Rightarrow> ('w \<Rightarrow> json res) \<Rightarrow> ('a, 'w) zmq_server \<Rightarrow> ('a, 'w) handler_result" where
  "handle_state_register ser des s =
     and_then (expect_state des STATE_REGISTER 0 s) (\<lambda>e s.
       Some (Inr (), send_all (fst (respond_server_id ser e)) s))"

text \<open>\<open>create_scenario_configs\<close> of the coordinator's simulation manager.\<close>

fun create_scenario_configs :: "int list \<Rightarrow> json \<Rightarrow> (int, json) dict \<Rightarrow> (int, json) dict res \<times> json" where
  "create_scenario_configs [] data cfgs = (Inr cfgs, data)"
| "create_scenario_configs (server # servers) data cfgs =
     (case set_distributed_server_id (JInt server) data of
        (Inl e, data) \<Rightarrow> (Inl e, data)
      | (Inr _, data) \<Rightarrow> create_scenario_configs servers data (dset cfgs server data))"

text \<open>\<open>list(node_ids)\<close>: the ids of the nodes are integers.\<close>

definition json_int_list :: "json \<Rightarrow> int list res" where
  "json_int_list v = (case v of
      JList xs \<Rightarrow> rmap (\<lambda>x. case x of JInt i \<Rightarrow> Inr i | _ \<Rightarrow> Inl TypeError) xs
    | _ \<Rightarrow> Inl TypeError)"

text \<open>The dict of the tunnel addresses in the configuration; its keys are the ids the coordinator gave out.\<close>

definition key_text :: "json \<Rightarrow> string" where
  "key_text k = (case k of JInt i \<Rightarrow> int_dec i | JStr s \<Rightarrow> s | _ \<Rightarrow> ''null'')"

definition id_keyed :: "(json, json) dict \<Rightarrow> json" where
  "id_keyed m = JObj (map (\<lambda>(k, v). (key_text k, v)) m)"

definition mapping_json :: "(int, int list) dict \<Rightarrow> json" where
  "mapping_json m = int_keyed (map (\<lambda>(k, ns). (k, JList (map JInt ns))) m)"

text \<open>
  \<open>strategy\<close> is the scheduler, \<open>nds_equal\<close> or \<open>nds_score\<close>, given the scores of the servers.
\<close>

definition handle_state_information_exchange ::
  "(json \<Rightarrow> 'w) \<Rightarrow> ('w \<Rightarrow> json res) \<Rightarrow> ((json, json) dict \<Rightarrow> int list \<Rightarrow> nat \<Rightarrow> distribution res option)
     \<Rightarrow> ('a, 'w) zmq_server \<Rightarrow> ('a, 'w) handler_result" where
  "handle_state_information_exchange ser des strategy s =
     and_then (expect_state des STATE_EXCHANGE 3 s) (\<lambda>e s.
     and_then (Some (get_message_part_per_node_id 1 e, s)) (\<lambda>tunnel_addresses s.
     and_then (Some (get_message_part_per_node_id 2 e, s)) (\<lambda>server_score s.
     and_then (let (r, data) = set_network_backend_bridged_tunnel_endpoints (id_keyed tunnel_addresses) (sv_scenario s)
               in Some (r, s\<lparr>sv_scenario := data\<rparr>)) (\<lambda>_ s.
     and_then (Some (rbind (get_local_node_ids (sv_scenario s)) json_int_list, s)) (\<lambda>node_ids s.
     and_then (map_option (\<lambda>r. (r, s)) (strategy server_score node_ids (case sv_cnt_peers s of Some n \<Rightarrow> n | None \<Rightarrow> 0))) (\<lambda>server_node_mapping s.
     and_then (let (r, data) = set_distributed_server_node_mapping (mapping_json server_node_mapping) (sv_scenario s)
               in Some (r, s\<lparr>sv_scenario := data\<rparr>)) (\<lambda>_ s.
     and_then (let (r, data) = create_scenario_configs (map fst server_node_mapping) (sv_scenario s) []
               in Some (r, s\<lparr>sv_scenario := data\<rparr>)) (\<lambda>scenario_configs s.
     let (msgs, r) = respond_per_server_id ser (map (\<lambda>(i, c). (JInt i, c)) scenario_configs) e
     in Some (r, send_all msgs s)))))))))"

definition handle_state_start_nodes ::
  "(json \<Rightarrow> 'w) \<Rightarrow> ('w \<Rightarrow> json res) \<Rightarrow> ('a, 'w) zmq_server \<Rightarrow> ('a, 'w) handler_result" where
  "handle_state_start_nodes ser des s =
     and_then (expect_state des STATE_START_NODES 1 s) (\<lambda>e s.
       Some (Inr (), (send_all (respond_argument ser (JStr []) e) s)\<lparr>wait_for_nodes_started := True\<rparr>))"

definition zmq_start ::
  "(json \<Rightarrow> 'w) \<Rightarrow> ('w \<Rightarrow> json res) \<Rightarrow> ((json, json) dict \<Rightarrow> int list \<Rightarrow> nat \<Rightarrow> distribution res option)
     \<Rightarrow> nat \<Rightarrow> ('a, 'w) zmq_server \<Rightarrow> ('a, 'w) handler_result" where
  "zmq_start ser des strategy cnt_peers s =
     and_then (handle_state_register ser des (s\<lparr>sv_cnt_peers := Some cnt_peers\<rparr>)) (\<lambda>_ s.
     if \<not> wait_for_scenario_config s then None
     else and_then (handle_state_information_exchange ser des strategy s) (\<lambda>_ s.
          handle_state_start_nodes ser des s))"

definition sync_subscribers ::
  "(json \<Rightarrow> 'w) \<Rightarrow> ('w \<Rightarrow> json res) \<Rightarrow> ('a, 'w) zmq_server \<Rightarrow> ('a, 'w) handler_result" where
  "sync_subscribers ser des s =
     and_then (expect_state des STATE_DISTANCE_MATRIX 1 s) (\<lambda>e s.
       Some (Inr (), send_all (respond_argument ser (JStr []) e) s))"

text \<open>The distance matrix as it is sent: for each node the list of its peers and distances.\<close>

definition matrix_json :: "distance_matrix \<Rightarrow> json" where
  "matrix_json m = int_keyed (map (\<lambda>(x, ys). (x, JList (map (\<lambda>(y, d). JList [JInt y, JFloat d]) ys))) (transform_distance_matrix m))"

text \<open>\<open>ZeroMQServerRouter._handle_state_distance_matrix\<close>: each server is sent its own matrix.\<close>

definition router_distance_matrix ::
  "(json \<Rightarrow> 'w) \<Rightarrow> ('w \<Rightarrow> json res) \<Rightarrow> (int, distance_matrix) dict \<Rightarrow> ('a, 'w) zmq_server \<Rightarrow> ('a, 'w) handler_result" where
  "router_distance_matrix ser des per_server s =
     and_then (expect_state des STATE_DISTANCE_MATRIX 1 s) (\<lambda>e s.
     let (msgs, r) = respond_per_server_id ser (map (\<lambda>(i, m). (JInt i, matrix_json m)) per_server) e
     in Some (r, send_all msgs s))"

text \<open>
  \<open>ZeroMQCServerPubSub._handle_state_distance_matrix\<close>: everyone is sent the whole matrix,
  between two synchronisations. \<open>current_step\<close> is that of the simulation manager.
\<close>

definition pubsub_distance_matrix ::
  "(json \<Rightarrow> 'w) \<Rightarrow> ('w \<Rightarrow> json res) \<Rightarrow> nat \<Rightarrow> distance_matrix \<Rightarrow> ('a, 'w) zmq_server \<Rightarrow> ('a, 'w) handler_result" where
  "pubsub_distance_matrix ser des current_step m s =
     and_then (if current_step = 0 then sync_subscribers ser des s else Some (Inr (), s)) (\<lambda>_ s.
     sync_subscribers ser des (s\<lparr>sv_published := sv_published s @ [ser (matrix_json m)]\<rparr>))"

text \<open>\<open>handle_state_distance_matrix\<close> waits until the nodes were started.\<close>

definition handle_state_distance_matrix ::
  "('m \<Rightarrow> ('a, 'w) zmq_server \<Rightarrow> ('a, 'w) handler_result) \<Rightarrow> 'm \<Rightarrow> ('a, 'w) zmq_server \<Rightarrow> ('a, 'w) handler_result" where
  "handle_state_distance_matrix handle m s = (if \<not> wait_for_nodes_started s then None else handle m s)"

end
