(* ===== verification/Zmq_Group.thy ===== *)
theory Zmq_Group
  imports Zmq_Protocol
begin

text \<open>
  The coordinator and its clients running together: a step relation on the state of the group,
  in which the clients (\<open>ZeroMQClient.start\<close> and the run loop of \<open>ZeroMQClientReq\<close>) and the
  coordinator (\<open>ZeroMQServer.start\<close> and the rounds of \<open>ZeroMQServerRouter\<close>) interleave
  arbitrarily and the messages of different clients arrive in any order. The rounds are numbered:
  0 is the registration, 1 the exchange of information, 2 the start of the nodes, and every
  round from 3 on distributes one distance matrix.
\<close>

section \<open>Clients\<close>

text \<open>\<open>c_log\<close> is what a client received so far, so its length is the round the client is in.\<close>

record client =
  c_server_id :: json
  c_waiting :: bool
  c_log :: "json list"

abbreviation c_round :: "client \<Rightarrow> nat" where "c_round c \<equiv> length (c_log c)"

definition new_client :: client where
  "new_client = \<lparr>c_server_id = JNull, c_waiting = False, c_log = []\<rparr>"

definition stage_name :: "nat \<Rightarrow> string" where
  "stage_name k = (if k = 0 then STATE_REGISTER else if k = 1 then STATE_EXCHANGE
                   else if k = 2 then STATE_START_NODES else STATE_DISTANCE_MATRIX)"

text \<open>The parts of the request of a client: \<open>send_no_server_id\<close> and \<open>send_server_id\<close>.\<close>

definition send_server_id :: "string \<Rightarrow> client \<Rightarrow> json list \<Rightarrow> json list" where
  "send_server_id st c args = JStr st # c_server_id c # args"

definition client_request :: "json \<Rightarrow> json \<Rightarrow> client \<Rightarrow> json list" where
  "client_request tunnel_ip score c =
     (if c_round c = 0 then [JStr STATE_REGISTER]
      else if c_round c = 1 then send_server_id STATE_EXCHANGE c [tunnel_ip, score]
      else if c_round c = 2 then send_server_id STATE_START_NODES c []
      else send_server_id STATE_DISTANCE_MATRIX c [])"

definition send_multi_part :: "(json \<Rightarrow> 'w) \<Rightarrow> json list \<Rightarrow> 'w frame list" where
  "send_multi_part ser parts = None # map (\<lambda>p. Some (ser p)) parts"

text \<open>The client formats its id with \<open>int\<close>.\<close>

definition client_receive :: "('w \<Rightarrow> json res) \<Rightarrow> 'w frame list \<Rightarrow> client \<Rightarrow> client res" where
  "client_receive des frames c = rbind (deserialize_frame des (hd (tl frames))) (\<lambda>v.
     rbind (if c_round c = 0 then py_int_json v else Inr 0) (\<lambda>_.
     Inr (c\<lparr>c_server_id := if c_round c = 0 then v else c_server_id c, c_waiting := False, c_log := c_log c @ [v]\<rparr>)))"

section \<open>The coordinator in a round\<close>

text \<open>How many parts a request has beside its state, and how the coordinator answers.\<close>

definition stage_parts :: "nat \<Rightarrow> nat" where
  "stage_parts k = (if k = 0 then 0 else if k = 1 then 3 else 1)"

definition round_expecter :: "nat \<Rightarrow> nat \<Rightarrow> ('a \<times> json list) list \<Rightarrow> 'a expecter" where
  "round_expecter n k storage = (new_expecter n (stage_name k) (stage_parts k))\<lparr>expect_storage := storage\<rparr>"

text \<open>
  \<open>resp\<close> gives the answers for the servers in the rounds 1 (their scenario configurations) and
  from 3 on (their distance matrices).
\<close>

definition round_respond ::
  "(json \<Rightarrow> 'w) \<Rightarrow> (json, json) dict \<Rightarrow> nat \<Rightarrow> 'a expecter \<Rightarrow> ('a, 'w) message list \<times> unit res" where
  "round_respond ser resp k e =
     (if k = 0 then (fst (respond_server_id ser e), Inr ())
      else if k = 2 then (respond_argument ser (JStr []) e, Inr ())
      else respond_per_server_id ser resp e)"

section \<open>The group\<close>

text \<open>
  \<open>g_ids\<close> is the mapping that \<open>ResponderServerID.respond\<close> returns; \<open>g_answers\<close> records the
  answers of the finished rounds.
\<close>

record ('a, 'w) zmq_group =
  g_clients :: "'a \<Rightarrow> client"
  g_mail :: "'a \<Rightarrow> 'w frame list list"
  g_inbox :: "('a, 'w) message list"
  g_storage :: "('a \<times> json list) list"
  g_round :: nat
  g_scenario_set :: bool
  g_ids :: "(int, 'a) dict"
  g_answers :: "nat \<Rightarrow> (json, json) dict"

definition initial_group :: "('a, 'w) zmq_group" where
  "initial_group = \<lparr>g_clients = (\<lambda>_. new_client), g_mail = (\<lambda>_. []), g_inbox = [], g_storage = [], g_round = 0,
     g_scenario_set = False, g_ids = [], g_answers = (\<lambda>_. [])\<rparr>"

definition deliver :: "('a, 'w) message list \<Rightarrow> ('a \<Rightarrow> 'w frame list list) \<Rightarrow> 'a \<Rightarrow> 'w frame list list" where
  "deliver msgs mail a = mail a @ map snd (filter (\<lambda>m. fst m = a) msgs)"

record ('a, 'w) zmq_env =
  env_ser :: "json \<Rightarrow> 'w"
  env_des :: "'w \<Rightarrow> json res"
  env_peers :: "'a set"
  env_tunnel :: "'a \<Rightarrow> json"
  env_score :: "'a \<Rightarrow> json"
  env_resp :: "nat \<Rightarrow> 'a expecter \<Rightarrow> (json, json) dict"

abbreviation cnt_peers :: "('a, 'w) zmq_env \<Rightarrow> nat" where "cnt_peers env \<equiv> card (env_peers env)"

definition current_expecter :: "('a, 'w) zmq_env \<Rightarrow> ('a, 'w) zmq_group \<Rightarrow> 'a expecter" where
  "current_expecter env g = round_expecter (cnt_peers env) (g_round g) (g_storage g)"

definition request_of :: "('a, 'w) zmq_env \<Rightarrow> ('a, 'w) zmq_group \<Rightarrow> 'a \<Rightarrow> json list" where
  "request_of env g a = client_request (env_tunnel env a) (env_score env a) (g_clients g a)"

text \<open>
  The steps: a client sends its request, the coordinator takes the next message, the
  coordinator answers a complete round, a client receives, and the scenario is set from outside,
  for which the coordinator waits before the exchange.
\<close>

inductive group_step :: "('a, 'w) zmq_env \<Rightarrow> ('a, 'w) zmq_group \<Rightarrow> ('a, 'w) zmq_group \<Rightarrow> bool" for env where
  client_send: "\<lbrakk> a \<in> env_peers env; \<not> c_waiting (g_clients g a) \<rbrakk> \<Longrightarrow>
    group_step env g (g\<lparr>g_clients := (g_clients g)(a := (g_clients g a)\<lparr>c_waiting := True\<rparr>),
      g_inbox := g_inbox g @ [(a, send_multi_part (env_ser env) (request_of env g a))]\<rparr>)"
| serve: "\<lbrakk> length (g_storage g) < cnt_peers env; g_round g = 1 \<longrightarrow> g_scenario_set g; g_inbox g = m # inbox;
      expect (env_des env) (current_expecter env g) m = Inr (valid, e) \<rbrakk> \<Longrightarrow>
    group_step env g (g\<lparr>g_inbox := inbox, g_storage := expect_storage e\<rparr>)"
| respond: "\<lbrakk> length (g_storage g) = cnt_peers env; e = current_expecter env g; resp = env_resp env (g_round g) e;
      round_respond (env_ser env) resp (g_round g) e = (msgs, Inr ()) \<rbrakk> \<Longrightarrow>
    group_step env g (g\<lparr>g_mail := deliver msgs (g_mail g), g_storage := [], g_round := Suc (g_round g),
      g_ids := (if g_round g = 0 then snd (respond_server_id (env_ser env) e) else g_ids g),
      g_answers := (g_answers g)(g_round g := resp)\<rparr>)"
| client_recv: "\<lbrakk> a \<in> env_peers env; c_waiting (g_clients g a); g_mail g a = fr # mail;
      client_receive (env_des env) fr (g_clients g a) = Inr c \<rbrakk> \<Longrightarrow>
    group_step env g (g\<lparr>g_clients := (g_clients g)(a := c), g_mail := (g_mail g)(a := mail)\<rparr>)"
| set_scenario: "\<not> g_scenario_set g \<Longrightarrow> group_step env g (g\<lparr>g_scenario_set := True\<rparr>)"

inductive group_reachable :: "('a, 'w) zmq_env \<Rightarrow> ('a, 'w) zmq_group \<Rightarrow> bool" for env where
  group_init: "group_reachable env initial_group"
| group_next: "\<lbrakk> group_reachable env g; group_step env g g' \<rbrakk> \<Longrightarrow> group_reachable env g'"

text \<open>What the layers around the group have to promise.\<close>

definition env_ok :: "('a, 'w) zmq_env \<Rightarrow> bool" where
  "env_ok env \<longleftrightarrow> finite (env_peers env) \<and> env_peers env \<noteq> {}
     \<and> (\<forall>v. env_des env (env_ser env v) = Inr v)
     \<and> (\<forall>k e i. 1 \<le> i \<longrightarrow> i \<le> int (cnt_peers env) \<longrightarrow> dget (env_resp env k e) (JInt i) \<noteq> None)"

section \<open>The coordinator's handlers are rounds\<close>

lemma register_is_round:
  "handle_state_register ser des s =
     and_then (expect_state des (stage_name 0) (stage_parts 0) s) (\<lambda>e s.
       let (msgs, r) = round_respond ser [] 0 e in Some (r, send_all msgs s))"
  by (simp add: handle_state_register_def stage_name_def stage_parts_def round_respond_def)

lemma start_nodes_is_round:
  "handle_state_start_nodes ser des s =
     and_then (expect_state des (stage_name 2) (stage_parts 2) s) (\<lambda>e s.
       let (msgs, r) = round_respond ser [] 2 e in Some (r, (send_all msgs s)\<lparr>wait_for_nodes_started := True\<rparr>))"
  by (simp add: handle_state_start_nodes_def stage_name_def stage_parts_def round_respond_def)

lemma router_is_round:
  assumes "3 \<le> k"
  shows "router_distance_matrix ser des per_server s =
     and_then (expect_state des (stage_name k) (stage_parts k) s) (\<lambda>e s.
       let (msgs, r) = round_respond ser (map (\<lambda>(i, m). (JInt i, matrix_json m)) per_server) k e in Some (r, send_all msgs s))"
  using assms by (simp add: router_distance_matrix_def stage_name_def stage_parts_def round_respond_def)

section \<open>Invariant\<close>

definition id_of :: "('a, 'w) zmq_group \<Rightarrow> 'a \<Rightarrow> int" where
  "id_of g a = the (map_of (map (\<lambda>(i, a). (a, i)) (g_ids g)) a)"

text \<open>What a client is answered in a round.\<close>

definition answer :: "('a, 'w) zmq_group \<Rightarrow> nat \<Rightarrow> 'a \<Rightarrow> json" where
  "answer g k a = (if k = 0 then JInt (id_of g a) else if k = 2 then JStr []
     else the (dget (g_answers g k) (JInt (id_of g a))))"

definition queued :: "('a, 'w) zmq_group \<Rightarrow> 'a \<Rightarrow> bool" where
  "queued g a \<longleftrightarrow> a \<in> fst ` set (g_inbox g) \<or> a \<in> fst ` set (g_storage g)"

text \<open>A client has an answer to read, or has to send its request, or its request is at the coordinator.\<close>

definition client_inv :: "('a, 'w) zmq_env \<Rightarrow> ('a, 'w) zmq_group \<Rightarrow> 'a \<Rightarrow> bool" where
  "client_inv env g a \<longleftrightarrow> (let c = g_clients g a in
     (g_mail g a = [[None, Some (env_ser env (answer g (c_round c) a))]]
        \<and> c_waiting c \<and> Suc (c_round c) = g_round g \<and> \<not> queued g a)
     \<or> (g_mail g a = [] \<and> c_round c = g_round g \<and> (c_waiting c \<longleftrightarrow> queued g a)))"

definition log_inv :: "('a, 'w) zmq_group \<Rightarrow> 'a \<Rightarrow> bool" where
  "log_inv g a \<longleftrightarrow> (let c = g_clients g a in
     c_log c = map (\<lambda>k. answer g k a) [0..<c_round c] \<and> (0 < c_round c \<longrightarrow> c_server_id c = JInt (id_of g a)))"

definition queue_inv :: "('a, 'w) zmq_env \<Rightarrow> ('a, 'w) zmq_group \<Rightarrow> bool" where
  "queue_inv env g \<longleftrightarrow> distinct (map fst (g_inbox g) @ map fst (g_storage g))
     \<and> fst ` set (g_inbox g) \<union> fst ` set (g_storage g) \<subseteq> env_peers env
     \<and> (\<forall>(a, fr) \<in> set (g_inbox g). fr = send_multi_part (env_ser env) (request_of env g a))
     \<and> (\<forall>(a, ps) \<in> set (g_storage g). ps = tl (request_of env g a))"

definition ids_inv :: "('a, 'w) zmq_env \<Rightarrow> ('a, 'w) zmq_group \<Rightarrow> bool" where
  "ids_inv env g \<longleftrightarrow> (0 < g_round g \<longrightarrow>
     (\<exists>addrs. g_ids g = zip [1..int (cnt_peers env)] addrs \<and> distinct addrs \<and> set addrs = env_peers env))"

definition group_inv :: "('a, 'w) zmq_env \<Rightarrow> ('a, 'w) zmq_group \<Rightarrow> bool" where
  "group_inv env g \<longleftrightarrow> queue_inv env g \<and> ids_inv env g
     \<and> (\<forall>a \<in> env_peers env. client_inv env g a \<and> log_inv g a)"

subsection \<open>Requests and answers\<close>

lemma rmap_deserialize:
  "env_ok env \<Longrightarrow> rmap (deserialize_frame (env_des env)) (map (\<lambda>p. Some (env_ser env p)) ps) = Inr ps"
  by (induction ps) (simp_all add: deserialize_frame_def env_ok_def)

lemma request_shape:
  "length (client_request t s c) = Suc (stage_parts (c_round c))"
  "hd (client_request t s c) = JStr (stage_name (c_round c))"
  by (simp_all add: client_request_def stage_parts_def stage_name_def send_server_id_def)

lemma expect_request:
  assumes "env_ok env" and "c_round (g_clients g a) = g_round g"
  shows "expect (env_des env) (current_expecter env g) (a, send_multi_part (env_ser env) (request_of env g a))
    = Inr (True, (current_expecter env g)\<lparr>expect_storage := g_storage g @ [(a, tl (request_of env g a))]\<rparr>)"
  using assms
  by (simp add: expect_def send_multi_part_def rmap_deserialize request_of_def request_shape
      current_expecter_def round_expecter_def new_expecter_def)

lemma deliver_map:
  "distinct as \<Longrightarrow> a \<in> set as \<Longrightarrow> deliver (map (\<lambda>a. (a, f a)) as) mail a = mail a @ [f a]"
proof -
  assume "distinct as" "a \<in> set as"
  then have "filter (\<lambda>x. x = a) as = [a]"
    by (induction as) (auto simp: filter_empty_conv)
  then show ?thesis by (simp add: deliver_def filter_map comp_def)
qed

lemma map_of_swap_zip:
  "distinct as \<Longrightarrow> length is = length as \<Longrightarrow> map (\<lambda>(i, a). f i a) (zip is as)
     = map (\<lambda>a. f (the (map_of (map (\<lambda>(i, a). (a, i)) (zip is as)) a)) a) as"
proof (induction as arbitrary: "is")
  case (Cons a as)
  then obtain i is' where i: "is = i # is'" by (cases "is") auto
  have "map (\<lambda>b. f (the (map_of ((a, i) # map (\<lambda>(i, a). (a, i)) (zip is' as)) b)) b) as
      = map (\<lambda>b. f (the (map_of (map (\<lambda>(i, a). (a, i)) (zip is' as)) b)) b) as"
    using Cons.prems by (intro map_cong) auto
  then show ?case using Cons.IH [of is'] Cons.prems i by (simp only: i) simp
qed simp

lemma id_of_zip:
  assumes "g_ids g = zip [1..int n] addrs" "distinct addrs" "length addrs = n"
  shows "map (\<lambda>(i, a). f i a) (g_ids g) = map (\<lambda>a. f (id_of g a) a) addrs"
  using map_of_swap_zip [of addrs "[1..int n]" f] assms by (simp add: id_of_def)

lemma id_of_inj:
  assumes "g_ids g = zip [1..int n] addrs" "distinct addrs" "length addrs = n"
  shows "map (id_of g) addrs = [1..int n]" and "inj_on (id_of g) (set addrs)"
proof -
  show ids: "map (id_of g) addrs = [1..int n]"
    using id_of_zip [OF assms, of "\<lambda>i a. i"] assms by (simp add: case_prod_unfold)
  have "distinct (map (id_of g) addrs)" unfolding ids by simp
  then show "inj_on (id_of g) (set addrs)" by (simp add: distinct_map)
qed

lemma respond_per_loop_total:
  assumes "\<forall>(k, a) \<in> set m. dget resp k \<noteq> None"
  shows "respond_per_loop ser resp m = (map (\<lambda>(k, a). reply ser a (the (dget resp k))) m, Inr ())"
  using assms by (induction m) (auto split: option.splits)

lemma dwf_map_fst: "dwf d \<longleftrightarrow> distinct (map fst d)"
  by (simp add: kwf_def comp_def)

text \<open>The coordinator finds the address of every server and sends each its own answer.\<close>

lemma respond_per_server_total:
  assumes storage: "\<forall>(a, ps) \<in> set (expect_storage e). \<exists>rest. ps = JInt (idf a) # rest"
    and dist: "distinct (map fst (expect_storage e))" and inj: "inj_on idf (fst ` set (expect_storage e))"
    and resp: "\<forall>a \<in> fst ` set (expect_storage e). dget resp (JInt (idf a)) \<noteq> None"
  shows "respond_per_server_id ser resp e
    = (map (\<lambda>a. reply ser a (the (dget resp (JInt (idf a))))) (map fst (expect_storage e)), Inr ())"
proof -
  let ?kvs = "map (\<lambda>(a, ps). (JInt (idf a), a)) (expect_storage e)"
  have "rmap (\<lambda>x. rbind (arg_at x 1) (\<lambda>k. rbind (Inr (fst x)) (\<lambda>v. rbind (hash_key k) (\<lambda>k. Inr (k, v))))) st
      = Inr (map (\<lambda>(a, ps). (JInt (idf a), a)) st)"
    if "set st \<subseteq> set (expect_storage e)" for st
    using that storage by (induction st) (force simp: arg_at_def pyindex_def hash_key_def)+
  then have "get_server_id_addr_mapping e = Inr (dict_of ?kvs)"
    by (simp add: get_server_id_addr_mapping_def dict_comp_def)
  moreover have "distinct (map fst ?kvs)"
    using dist inj by (simp add: distinct_map comp_def case_prod_unfold inj_on_def)
  then have "dict_of ?kvs = ?kvs" by (intro dict_of_distinct) (simp add: dwf_map_fst)
  moreover have "respond_per_loop ser resp ?kvs = (map (\<lambda>(k, a). reply ser a (the (dget resp k))) ?kvs, Inr ())"
    using resp by (intro respond_per_loop_total) force
  ultimately show ?thesis
    by (simp add: respond_per_server_id_def comp_def case_prod_unfold)
qed

subsection \<open>A complete round\<close>

definition responded :: "('a, 'w) zmq_env \<Rightarrow> ('a, 'w) message list \<Rightarrow> ('a, 'w) zmq_group \<Rightarrow> ('a, 'w) zmq_group" where
  "responded env msgs g = (let e = current_expecter env g in
     g\<lparr>g_mail := deliver msgs (g_mail g), g_storage := [], g_round := Suc (g_round g),
       g_ids := (if g_round g = 0 then snd (respond_server_id (env_ser env) e) else g_ids g),
       g_answers := (g_answers g)(g_round g := env_resp env (g_round g) e)\<rparr>)"

lemma responded_simps [simp]:
  "g_mail (responded env msgs g) = deliver msgs (g_mail g)"
  "g_storage (responded env msgs g) = []" "g_round (responded env msgs g) = Suc (g_round g)"
  "g_ids (responded env msgs g)
     = (if g_round g = 0 then snd (respond_server_id (env_ser env) (current_expecter env g)) else g_ids g)"
  "g_answers (responded env msgs g) = (g_answers g)(g_round g := env_resp env (g_round g) (current_expecter env g))"
  "g_clients (responded env msgs g) = g_clients g" "g_inbox (responded env msgs g) = g_inbox g"
  by (simp_all add: responded_def Let_def)

lemma current_expecter_storage [simp]: "expect_storage (current_expecter env g) = g_storage g"
  by (simp add: current_expecter_def round_expecter_def)

lemma full_storage:
  assumes "env_ok env" and "queue_inv env g" and "length (g_storage g) = cnt_peers env"
  shows "distinct (map fst (g_storage g))" and "fst ` set (g_storage g) = env_peers env" and "g_inbox g = []"
proof -
  show dist: "distinct (map fst (g_storage g))" using assms(2) by (simp add: queue_inv_def)
  have "card (fst ` set (g_storage g)) = cnt_peers env"
    using distinct_card [OF dist] assms(3) by simp
  then show all: "fst ` set (g_storage g) = env_peers env"
    using assms(1,2) by (intro card_subset_eq) (auto simp: env_ok_def queue_inv_def)
  have "fst ` set (g_inbox g) \<inter> fst ` set (g_storage g) = {}" "fst ` set (g_inbox g) \<subseteq> env_peers env"
    using assms(2) by (auto simp: queue_inv_def)
  then show "g_inbox g = []" using all by (cases "g_inbox g") auto
qed

lemma full_storage_ids:
  assumes "env_ok env" and "group_inv env g" and "length (g_storage g) = cnt_peers env"
  obtains addrs where "g_ids (responded env msgs g) = zip [1..int (cnt_peers env)] addrs"
    and "distinct addrs" "set addrs = env_peers env" "length addrs = cnt_peers env"
    and "g_round g = 0 \<Longrightarrow> addrs = map fst (g_storage g)"
proof (cases "g_round g = 0")
  case True
  let ?addrs = "map fst (g_storage g)"
  have full: "distinct ?addrs" "set ?addrs = env_peers env" "length ?addrs = cnt_peers env"
    using full_storage [of env g] assms by (simp_all add: group_inv_def)
  have "dwf (zip [1..int (cnt_peers env)] ?addrs)" using full by (simp add: dwf_map_fst)
  then have "g_ids (responded env msgs g) = zip [1..int (cnt_peers env)] ?addrs"
    using True full(3) by (simp add: respond_server_id_def get_addresses_def dict_of_distinct Let_def)
  then show ?thesis using that [of ?addrs] full by simp
next
  case False
  then obtain addrs where "g_ids g = zip [1..int (cnt_peers env)] addrs" "distinct addrs" "set addrs = env_peers env"
    using assms(2) by (auto simp: group_inv_def ids_inv_def)
  then show ?thesis using that [of addrs] False distinct_card [of addrs] by simp
qed

lemma log_inv_id: "log_inv g a \<Longrightarrow> 0 < c_round (g_clients g a) \<Longrightarrow> c_server_id (g_clients g a) = JInt (id_of g a)"
  unfolding log_inv_def Let_def by blast

lemma stored_request:
  assumes "group_inv env g" and "(a, ps) \<in> set (g_storage g)" and "0 < g_round g"
  shows "\<exists>rest. ps = JInt (id_of g a) # rest"
proof -
  have mem: "a \<in> fst ` set (g_storage g)" using assms(2) by (rule image_eqI [rotated]) simp
  have q: "queue_inv env g" using assms(1) by (simp add: group_inv_def)
  have a: "a \<in> env_peers env" "ps = tl (request_of env g a)" "queued g a"
    using q mem assms(2) unfolding queue_inv_def queued_def by blast+
  have "client_inv env g a" "log_inv g a" using assms(1) a(1) by (simp_all add: group_inv_def)
  then have "c_round (g_clients g a) = g_round g" "c_server_id (g_clients g a) = JInt (id_of g a)"
    using assms(3) a(3) by (auto simp: client_inv_def Let_def intro: log_inv_id)
  then show ?thesis
    using assms(3) a(2) by (auto simp: request_of_def client_request_def send_server_id_def)
qed

lemma id_of_range:
  assumes "g_ids g = zip [1..int (cnt_peers env)] addrs" "distinct addrs" "set addrs = env_peers env" "a \<in> env_peers env"
  shows "1 \<le> id_of g a \<and> id_of g a \<le> int (cnt_peers env)"
proof -
  have "id_of g a \<in> set (map (id_of g) addrs)" using assms by simp
  also have "map (id_of g) addrs = [1..int (cnt_peers env)]"
    using id_of_inj(1) [OF assms(1,2)] assms distinct_card [of addrs] by simp
  finally show ?thesis by simp
qed

lemma round_respond_total:
  assumes ok: "env_ok env" and inv: "group_inv env g" and full: "length (g_storage g) = cnt_peers env"
  shows "\<exists>msgs. round_respond (env_ser env) (env_resp env (g_round g) (current_expecter env g)) (g_round g) (current_expecter env g)
            = (msgs, Inr ())
      \<and> msgs = map (\<lambda>a. reply (env_ser env) a (answer (responded env msgs g) (g_round g) a)) (map fst (g_storage g))"
proof -
  let ?e = "current_expecter env g" and ?k = "g_round g" and ?addrs = "map fst (g_storage g)"
  note st = full_storage [OF ok _ full] inv [unfolded group_inv_def]
  consider "?k = 0" | "?k = 2" | "?k \<noteq> 0" "?k \<noteq> 2" by blast
  then show ?thesis
  proof cases
    case 1
    let ?msgs = "map (\<lambda>(i, a). reply (env_ser env) a (JInt i)) (zip [1..int (cnt_peers env)] ?addrs)"
    obtain addrs where "g_ids (responded env ?msgs g) = zip [1..int (cnt_peers env)] addrs"
        "distinct addrs" "length addrs = cnt_peers env" "addrs = ?addrs"
      using full_storage_ids [OF ok inv full, of ?msgs] 1 by metis
    then have "?msgs = map (\<lambda>a. reply (env_ser env) a (JInt (id_of (responded env ?msgs g) a))) ?addrs"
      using id_of_zip [of "responded env ?msgs g" "cnt_peers env" ?addrs "\<lambda>i a. reply (env_ser env) a (JInt i)"] by simp
    then show ?thesis
      using 1 full by (intro exI [of _ ?msgs])
        (simp add: round_respond_def respond_server_id_def get_addresses_def answer_def Let_def)
  next
    case 2
    then show ?thesis
      by (simp add: round_respond_def respond_argument_def get_addresses_def answer_def)
  next
    case 3
    have ids: "id_of (responded env msgs g) = id_of g" for msgs
      using 3 by (simp add: fun_eq_iff id_of_def)
    obtain addrs where addrs: "g_ids g = zip [1..int (cnt_peers env)] addrs" "distinct addrs" "set addrs = env_peers env"
      using inv 3 by (auto simp: group_inv_def ids_inv_def)
    have "respond_per_server_id (env_ser env) (env_resp env ?k ?e) ?e
      = (map (\<lambda>a. reply (env_ser env) a (the (dget (env_resp env ?k ?e) (JInt (id_of g a))))) ?addrs, Inr ())"
    proof -
      have "\<forall>(a, ps) \<in> set (expect_storage ?e). \<exists>rest. ps = JInt (id_of g a) # rest"
        using stored_request [OF inv] 3 by auto
      moreover have "inj_on (id_of g) (fst ` set (expect_storage ?e))"
        using id_of_inj(2) [OF addrs(1,2)] st addrs distinct_card [of addrs] by simp
      moreover have "\<forall>a \<in> fst ` set (expect_storage ?e). dget (env_resp env ?k ?e) (JInt (id_of g a)) \<noteq> None"
        using id_of_range [OF addrs] st ok by (auto simp: env_ok_def)
      ultimately show ?thesis
        using respond_per_server_total [of ?e "id_of g"] st by simp
    qed
    then show ?thesis using 3 by (simp add: round_respond_def answer_def ids)
  qed
qed

subsection \<open>Preservation\<close>

lemma group_invD:
  assumes "group_inv env g"
  shows "queue_inv env g" "ids_inv env g" "a \<in> env_peers env \<Longrightarrow> client_inv env g a" "a \<in> env_peers env \<Longrightarrow> log_inv g a"
  using assms by (simp_all add: group_inv_def)

lemma answer_cong: "g_ids g' = g_ids g \<Longrightarrow> g_answers g' k = g_answers g k \<Longrightarrow> answer g' k a = answer g k a"
  by (simp add: answer_def id_of_def)

lemma log_inv_cong:
  assumes "g_ids g' = g_ids g" "g_answers g' = g_answers g"
    and "c_log (g_clients g' a) = c_log (g_clients g a)" "c_server_id (g_clients g' a) = c_server_id (g_clients g a)"
  shows "log_inv g' a \<longleftrightarrow> log_inv g a"
proof -
  have "answer g' k a = answer g k a" for k using assms(1,2) by (simp add: answer_def id_of_def)
  then show ?thesis unfolding log_inv_def Let_def assms(3,4) using assms(1) by (simp only: id_of_def)
qed

lemma request_of_cong:
  "c_log (g_clients g' a) = c_log (g_clients g a) \<Longrightarrow> c_server_id (g_clients g' a) = c_server_id (g_clients g a)
    \<Longrightarrow> request_of env g' a = request_of env g a"
  by (simp add: request_of_def client_request_def send_server_id_def)

lemma client_inv_cong:
  assumes "g_ids g' = g_ids g" "g_answers g' = g_answers g" "g_mail g' a = g_mail g a" "g_round g' = g_round g"
    and "g_clients g' a = g_clients g a" "queued g' a = queued g a"
  shows "client_inv env g' a \<longleftrightarrow> client_inv env g a"
proof -
  have "answer g' k a = answer g k a" for k using assms(1,2) by (simp add: answer_def id_of_def)
  then show ?thesis unfolding client_inv_def using assms by simp
qed

lemma queue_inv_cong:
  assumes "g_inbox g' = g_inbox g" "g_storage g' = g_storage g"
    and req: "\<And>b. queued g b \<Longrightarrow> request_of env g' b = request_of env g b" and inv: "queue_inv env g"
  shows "queue_inv env g'"
proof -
  have "request_of env g' b = request_of env g b" if "(b, fr) \<in> set (g_inbox g)" for b fr
    using req that by (simp add: queued_def) (metis fst_conv image_eqI)
  moreover have "request_of env g' b = request_of env g b" if "(b, ps) \<in> set (g_storage g)" for b ps
    using req that by (simp add: queued_def) (metis fst_conv image_eqI)
  ultimately show ?thesis using inv unfolding queue_inv_def assms(1,2) by auto
qed

lemma group_inv_initial: "group_inv env initial_group"
  by (simp add: group_inv_def initial_group_def queue_inv_def ids_inv_def client_inv_def log_inv_def new_client_def queued_def)

lemma send_preserves:
  assumes inv: "group_inv env g" and a: "a \<in> env_peers env" "\<not> c_waiting (g_clients g a)"
  shows "group_inv env (g\<lparr>g_clients := (g_clients g)(a := (g_clients g a)\<lparr>c_waiting := True\<rparr>),
      g_inbox := g_inbox g @ [(a, send_multi_part (env_ser env) (request_of env g a))]\<rparr>)" (is "group_inv env ?g")
proof -
  note q = group_invD(1) [OF inv, unfolded queue_inv_def]
  have ca: "g_mail g a = []" "c_round (g_clients g a) = g_round g" "\<not> queued g a"
    using group_invD(3) [OF inv a(1)] a(2) by (auto simp: client_inv_def Let_def)
  have req: "request_of env ?g b = request_of env g b" for b by (rule request_of_cong) auto
  have queued: "queued ?g b \<longleftrightarrow> queued g b \<or> b = a" for b by (auto simp: queued_def)
  have "queue_inv env ?g"
    unfolding queue_inv_def req using q a ca(3) by (auto simp: queued_def)
  moreover have "ids_inv env ?g" using group_invD(2) [OF inv] by (simp add: ids_inv_def)
  moreover have "client_inv env ?g b" if b: "b \<in> env_peers env" for b
  proof (cases "b = a")
    case True
    then show ?thesis using ca queued by (simp add: client_inv_def)
  next
    case False
    then show ?thesis
      using client_inv_cong [of ?g g b env] queued [of b] group_invD(3) [OF inv b] by simp
  qed
  moreover have "log_inv ?g b" if "b \<in> env_peers env" for b
    using log_inv_cong [of ?g g b] group_invD(4) [OF inv that] by simp
  ultimately show ?thesis unfolding group_inv_def by blast
qed

lemma inbox_head:
  assumes "group_inv env g" and "g_inbox g = m # inbox"
  obtains a where "a \<in> env_peers env" "m = (a, send_multi_part (env_ser env) (request_of env g a))"
    and "c_round (g_clients g a) = g_round g"
proof -
  obtain a fr where m: "m = (a, fr)" by (cases m)
  have q: "a \<in> env_peers env" "fr = send_multi_part (env_ser env) (request_of env g a)" "queued g a"
    using group_invD(1) [OF assms(1)] assms(2) m by (auto simp: queue_inv_def queued_def)
  then show ?thesis using that m group_invD(3) [OF assms(1) q(1)] by (auto simp: client_inv_def Let_def)
qed

lemma serve_result:
  assumes ok: "env_ok env" and inv: "group_inv env g" and inbox: "g_inbox g = m # inbox"
  obtains a where "a \<in> env_peers env" "m = (a, send_multi_part (env_ser env) (request_of env g a))"
    and "expect (env_des env) (current_expecter env g) m
      = Inr (True, (current_expecter env g)\<lparr>expect_storage := g_storage g @ [(a, tl (request_of env g a))]\<rparr>)"
  using inbox_head [OF inv inbox] expect_request [OF ok] by metis

lemma serve_preserves:
  assumes inv: "group_inv env g" and inbox: "g_inbox g = (a, send_multi_part (env_ser env) (request_of env g a)) # inbox"
  shows "group_inv env (g\<lparr>g_inbox := inbox, g_storage := g_storage g @ [(a, tl (request_of env g a))]\<rparr>)"
    (is "group_inv env ?g")
proof -
  have req: "request_of env ?g b = request_of env g b" for b by (rule request_of_cong) auto
  have queued: "queued ?g b \<longleftrightarrow> queued g b" for b using inbox by (auto simp: queued_def)
  have "queue_inv env ?g"
    using group_invD(1) [OF inv] unfolding queue_inv_def req by (auto simp: inbox)
  moreover have "ids_inv env ?g" using group_invD(2) [OF inv] by (simp add: ids_inv_def)
  moreover have "client_inv env ?g b \<and> log_inv ?g b" if "b \<in> env_peers env" for b
    using client_inv_cong [of ?g g b env] log_inv_cong [of ?g g b] queued [of b] group_invD(3,4) [OF inv that] by simp
  ultimately show ?thesis unfolding group_inv_def by blast
qed

lemma recv_result:
  assumes ok: "env_ok env" and inv: "group_inv env g" and a: "a \<in> env_peers env" "g_mail g a = fr # mail"
  shows "mail = [] \<and> c_waiting (g_clients g a) \<and> client_receive (env_des env) fr (g_clients g a)
    = Inr (g_clients g a\<lparr>c_server_id := JInt (id_of g a), c_waiting := False,
        c_log := c_log (g_clients g a) @ [answer g (c_round (g_clients g a)) a]\<rparr>)"
proof -
  have c: "fr = [None, Some (env_ser env (answer g (c_round (g_clients g a)) a))]" "mail = []" "c_waiting (g_clients g a)"
    using group_invD(3) [OF inv a(1)] a(2) by (auto simp: client_inv_def Let_def)
  have "c_round (g_clients g a) > 0 \<Longrightarrow> c_server_id (g_clients g a) = JInt (id_of g a)"
    using group_invD(4) [OF inv a(1)] by (rule log_inv_id)
  then show ?thesis
    using ok c by (cases "c_log (g_clients g a)")
      (simp_all add: client_receive_def deserialize_frame_def env_ok_def py_int_json_def answer_def)
qed

lemma recv_preserves:
  assumes inv: "group_inv env g" and a: "a \<in> env_peers env" "g_mail g a \<noteq> []"
  shows "group_inv env (g\<lparr>g_clients := (g_clients g)(a := g_clients g a\<lparr>c_server_id := JInt (id_of g a), c_waiting := False,
        c_log := c_log (g_clients g a) @ [answer g (c_round (g_clients g a)) a]\<rparr>), g_mail := (g_mail g)(a := [])\<rparr>)"
    (is "group_inv env ?g")
proof -
  have ca: "\<not> queued g a" "Suc (c_round (g_clients g a)) = g_round g"
    using group_invD(3) [OF inv a(1)] a(2) by (auto simp: client_inv_def Let_def)
  have req: "request_of env ?g b = request_of env g b" if "b \<noteq> a" for b by (rule request_of_cong) (use that in auto)
  have queued: "queued ?g b \<longleftrightarrow> queued g b" for b by (simp add: queued_def)
  have ans: "answer ?g k b = answer g k b" for k b by (rule answer_cong) auto
  have req': "request_of env ?g b = request_of env g b" if "queued g b" for b
    using that ca(1) by (intro req) blast
  have "queue_inv env ?g"
    by (rule queue_inv_cong [OF _ _ req' group_invD(1) [OF inv]]) simp_all
  moreover have "ids_inv env ?g" using group_invD(2) [OF inv] by (simp add: ids_inv_def)
  moreover have "client_inv env ?g b" if b: "b \<in> env_peers env" for b
  proof (cases "b = a")
    case True
    then show ?thesis using ca queued by (simp add: client_inv_def)
  next
    case False
    then show ?thesis
      using client_inv_cong [of ?g g b env] queued [of b] group_invD(3) [OF inv b] by simp
  qed
  moreover have "log_inv ?g b" if b: "b \<in> env_peers env" for b
  proof (cases "b = a")
    case True
    obtain r where r: "c_round (g_clients g a) = r" by blast
    then have "c_log (g_clients g a) = map (\<lambda>k. answer g k a) [0..<r]"
      using group_invD(4) [OF inv a(1)] unfolding log_inv_def Let_def by blast
    moreover have "id_of ?g a = id_of g a" by (simp add: id_of_def)
    ultimately show ?thesis unfolding log_inv_def Let_def ans True by simp
  next
    case False
    then show ?thesis using log_inv_cong [of ?g g b] group_invD(4) [OF inv b] by simp
  qed
  ultimately show ?thesis unfolding group_inv_def by blast
qed

lemma respond_preserves:
  assumes ok: "env_ok env" and inv: "group_inv env g" and full: "length (g_storage g) = cnt_peers env"
    and resp: "round_respond (env_ser env) (env_resp env (g_round g) (current_expecter env g)) (g_round g) (current_expecter env g)
      = (msgs, Inr ())"
  shows "group_inv env (responded env msgs g)" (is "group_inv env ?g")
proof -
  note st = full_storage [OF ok group_invD(1) [OF inv] full]
  obtain addrs where ids: "g_ids ?g = zip [1..int (cnt_peers env)] addrs" "distinct addrs" "set addrs = env_peers env"
    using full_storage_ids [OF ok inv full] by metis
  have msgs: "msgs = map (\<lambda>a. reply (env_ser env) a (answer ?g (g_round g) a)) (map fst (g_storage g))"
    using round_respond_total [OF ok inv full] resp by auto
  have "queue_inv env ?g" using st(3) by (simp add: queue_inv_def)
  moreover have "ids_inv env ?g" unfolding ids_inv_def using ids by blast
  moreover have "client_inv env ?g a \<and> log_inv ?g a" if a: "a \<in> env_peers env" for a
  proof
    have "queued g a" using a st(2) by (simp add: queued_def)
    then have ca: "g_mail g a = []" "c_waiting (g_clients g a)" "c_round (g_clients g a) = g_round g"
      using group_invD(3) [OF inv a] by (auto simp: client_inv_def Let_def)
    have "deliver msgs (g_mail g) a = [[None, Some (env_ser env (answer ?g (g_round g) a))]]"
      using deliver_map [OF st(1), of a "\<lambda>a. [None, Some (env_ser env (answer ?g (g_round g) a))]" "g_mail g"] a st(2) ca(1) msgs
      by (simp add: reply_def)
    then show "client_inv env ?g a" using ca st(3) by (simp add: client_inv_def queued_def)
    have "answer ?g k a = answer g k a" if "k < g_round g" for k
      using that by (simp add: answer_def id_of_def)
    moreover have "id_of ?g a = id_of g a" if "0 < g_round g" using that by (simp add: id_of_def)
    moreover have "c_log (g_clients g a) = map (\<lambda>k. answer g k a) [0..<g_round g]"
      using group_invD(4) [OF inv a] ca(3) unfolding log_inv_def Let_def by simp
    moreover have "c_round (g_clients g a) > 0 \<Longrightarrow> c_server_id (g_clients g a) = JInt (id_of g a)"
      using group_invD(4) [OF inv a] by (rule log_inv_id)
    ultimately show "log_inv ?g a"
      unfolding log_inv_def Let_def using ca(3) by (cases "g_round g") simp_all
  qed
  ultimately show ?thesis unfolding group_inv_def by blast
qed

lemma group_step_preserves:
  assumes "env_ok env" and "group_inv env g" and "group_step env g g'"
  shows "group_inv env g'"
  using assms(3)
proof cases
  case (client_send a)
  then show ?thesis using send_preserves [OF assms(2)] by simp
next
  case (serve m inbox valid e)
  obtain a where a: "m = (a, send_multi_part (env_ser env) (request_of env g a))"
    and exp: "expect (env_des env) (current_expecter env g) m
      = Inr (True, (current_expecter env g)\<lparr>expect_storage := g_storage g @ [(a, tl (request_of env g a))]\<rparr>)"
    by (rule serve_result [OF assms(1,2) serve(4)]) blast
  have "expect_storage e = g_storage g @ [(a, tl (request_of env g a))]" using serve(5) exp by auto
  then show ?thesis using serve(1) serve_preserves [OF assms(2) serve(4) [unfolded a]] by simp
next
  case (respond e resp msgs)
  then have "g' = responded env msgs g" by (simp add: responded_def Let_def)
  then show ?thesis using respond respond_preserves [OF assms(1,2)] by simp
next
  case (client_recv a fr mail c)
  then show ?thesis
    using recv_result [OF assms(1,2) client_recv(2,4)] recv_preserves [OF assms(2) client_recv(2)] by auto
next
  case set_scenario
  have req: "request_of env g' b = request_of env g b" for b by (rule request_of_cong) (simp_all add: set_scenario)
  have "queue_inv env g'"
    by (rule queue_inv_cong [OF _ _ req group_invD(1) [OF assms(2)]]) (simp_all add: set_scenario)
  moreover have "ids_inv env g'" using group_invD(2) [OF assms(2)] by (simp add: ids_inv_def set_scenario)
  moreover have "client_inv env g' b \<and> log_inv g' b" if "b \<in> env_peers env" for b
    using client_inv_cong [of g' g b env] log_inv_cong [of g' g b] group_invD(3,4) [OF assms(2) that]
    by (simp add: set_scenario queued_def)
  ultimately show ?thesis unfolding group_inv_def by blast
qed

lemma group_reachable_inv: "group_reachable env g \<Longrightarrow> env_ok env \<Longrightarrow> group_inv env g"
  by (induction rule: group_reachable.induct) (blast intro: group_inv_initial group_step_preserves)+

section \<open>Progress\<close>

text \<open>The steps of a client that are left in the round: receive, send, and being served.\<close>

definition client_work :: "('a, 'w) zmq_group \<Rightarrow> 'a \<Rightarrow> nat" where
  "client_work g a = (if g_mail g a \<noteq> [] then 3 else if \<not> c_waiting (g_clients g a) then 2
     else if a \<in> fst ` set (g_inbox g) then 1 else 0)"

definition round_work :: "('a, 'w) zmq_env \<Rightarrow> ('a, 'w) zmq_group \<Rightarrow> nat" where
  "round_work env g = (\<Sum>a \<in> env_peers env. client_work g a) + (if g_scenario_set g then 0 else 1)"

lemma round_work_bound: "env_ok env \<Longrightarrow> round_work env g \<le> 3 * cnt_peers env + 1"
proof -
  have "(\<Sum>a \<in> env_peers env. client_work g a) \<le> (\<Sum>a \<in> env_peers env. 3)"
    by (rule sum_mono) (simp add: client_work_def)
  then show ?thesis by (simp add: round_work_def)
qed

lemma round_work_less:
  assumes "env_ok env" "a \<in> env_peers env" "client_work g' a < client_work g a" "g_scenario_set g' = g_scenario_set g"
    and "\<And>b. b \<in> env_peers env \<Longrightarrow> b \<noteq> a \<Longrightarrow> client_work g' b = client_work g b"
  shows "round_work env g' < round_work env g"
proof -
  have "(\<Sum>a \<in> env_peers env. client_work g' a) < (\<Sum>a \<in> env_peers env. client_work g a)"
  proof (rule sum_strict_mono_ex1)
    show "\<forall>b \<in> env_peers env. client_work g' b \<le> client_work g b"
      using assms(3,5) by (metis order.strict_implies_order order_refl)
  qed (use assms in \<open>auto simp: env_ok_def\<close>)
  then show ?thesis using assms(4) by (simp add: round_work_def)
qed

text \<open>Every step but the answer of the coordinator uses up work of the round.\<close>

lemma step_work:
  assumes ok: "env_ok env" and inv: "group_inv env g" and step: "group_step env g g'"
  shows "g_round g' = Suc (g_round g) \<or> g_round g' = g_round g \<and> round_work env g' < round_work env g"
  using step
proof cases
  case (client_send a)
  have "g_mail g a = []" using group_invD(3) [OF inv client_send(2)] client_send(3) by (auto simp: client_inv_def Let_def)
  then have "round_work env g' < round_work env g"
    using client_send by (intro round_work_less [OF ok client_send(2)]) (auto simp: client_work_def)
  then show ?thesis by (simp add: client_send)
next
  case (serve m inbox valid e)
  obtain a where a: "a \<in> env_peers env" "m = (a, send_multi_part (env_ser env) (request_of env g a))"
    by (rule serve_result [OF ok inv serve(4)]) blast
  have "queued g a" using serve(4) a by (simp add: queued_def)
  then have c: "g_mail g a = []" "c_waiting (g_clients g a)"
    using group_invD(3) [OF inv a(1)] by (auto simp: client_inv_def Let_def)
  have "a \<notin> fst ` set inbox" using group_invD(1) [OF inv] serve(4) a by (simp add: queue_inv_def)
  then have "round_work env g' < round_work env g"
    using c a serve by (intro round_work_less [OF ok a(1)]) (auto simp: client_work_def)
  then show ?thesis by (simp add: serve)
next
  case (client_recv a fr mail c)
  have "mail = []" "\<not> c_waiting c"
    using recv_result [OF ok inv client_recv(2,4)] client_recv(5) by auto
  then have "round_work env g' < round_work env g"
    using client_recv by (intro round_work_less [OF ok client_recv(2)]) (auto simp: client_work_def)
  then show ?thesis by (simp add: client_recv)
next
  case set_scenario
  have "client_work g' a = client_work g a" for a by (simp add: client_work_def set_scenario)
  then show ?thesis using set_scenario by (simp add: round_work_def)
qed auto

lemma step_round_mono: "group_step env g g' \<Longrightarrow> g_round g \<le> g_round g'"
  by (induction rule: group_step.induct) simp_all

lemma run_round_mono: "(group_step env ^^ m) g g' \<Longrightarrow> g_round g \<le> g_round g'"
proof (induction m arbitrary: g')
  case (Suc m)
  then obtain h where "(group_step env ^^ m) g h" "group_step env h g'" by auto
  then show ?case using Suc.IH step_round_mono by (metis le_trans)
qed auto

lemma run_work:
  assumes "env_ok env" "group_inv env g" "(group_step env ^^ m) g g'" "g_round g' = g_round g"
  shows "m + round_work env g' \<le> round_work env g \<and> group_inv env g'"
  using assms(3,4)
proof (induction m arbitrary: g')
  case (Suc m)
  then obtain h where h: "(group_step env ^^ m) g h" "group_step env h g'" by auto
  have "g_round h = g_round g"
    using run_round_mono [OF h(1)] step_round_mono [OF h(2)] Suc.prems(2) by simp
  with Suc.IH [OF h(1)] have IH: "m + round_work env h \<le> round_work env g" "group_inv env h" by auto
  then show ?case
    using step_work [OF assms(1) IH(2) h(2)] group_step_preserves [OF assms(1) IH(2) h(2)] Suc.prems(2) \<open>g_round h = g_round g\<close>
    by simp
qed (use assms(2) in auto)

lemma group_step_exists:
  assumes ok: "env_ok env" and inv: "group_inv env g"
  shows "\<exists>g'. group_step env g g'"
proof -
  consider (mail) a fr mail where "a \<in> env_peers env" "g_mail g a = fr # mail"
    | (send) a where "a \<in> env_peers env" "\<not> c_waiting (g_clients g a)"
    | (wait) "\<forall>a \<in> env_peers env. g_mail g a = [] \<and> c_waiting (g_clients g a)"
    by (metis neq_Nil_conv)
  then show ?thesis
  proof cases
    case mail
    from recv_result [OF ok inv this] show ?thesis using client_recv [OF mail(1) _ mail(2)] by (elim conjE) (rule exI)
  next
    case send
    show ?thesis by (rule exI, rule client_send [OF send])
  next
    case wait
    then have queued: "\<forall>a \<in> env_peers env. queued g a"
      using group_invD(3) [OF inv] by (auto simp: client_inv_def Let_def)
    note q = group_invD(1) [OF inv, unfolded queue_inv_def]
    show ?thesis
    proof (cases "g_inbox g")
      case Nil
      then have "fst ` set (g_storage g) = env_peers env" using queued q by (auto simp: queued_def)
      then have "length (g_storage g) = cnt_peers env"
        using q distinct_card [of "map fst (g_storage g)"] by simp
      then show ?thesis using round_respond_total [OF ok inv] respond [OF _ refl refl, of g env] by metis
    next
      case (Cons m inbox)
      then obtain a where a: "a \<in> env_peers env" "a \<notin> fst ` set (g_storage g)"
        using q by (cases m) auto
      have "length (g_storage g) = card (fst ` set (g_storage g))"
        using q distinct_card [of "map fst (g_storage g)"] by simp
      also have "\<dots> < cnt_peers env"
        using a q ok by (intro psubset_card_mono) (auto simp: env_ok_def)
      finally have less: "length (g_storage g) < cnt_peers env" .
      show ?thesis
      proof (cases "g_round g = 1 \<and> \<not> g_scenario_set g")
        case True
        then show ?thesis using set_scenario [of g env] by blast
      next
        case False
        obtain valid e where "expect (env_des env) (current_expecter env g) m = Inr (valid, e)"
          by (rule serve_result [OF ok inv Cons]) blast
        then show ?thesis using serve [OF less _ Cons] False by blast
      qed
    qed
  qed
qed

lemma round_ends:
  assumes "env_ok env" "group_inv env g" "(group_step env ^^ m) g g'" "3 * cnt_peers env + 1 < m"
  shows "g_round g < g_round g'"
proof (rule ccontr)
  assume "\<not> g_round g < g_round g'"
  then have "g_round g' = g_round g" using run_round_mono [OF assms(3)] by simp
  then have "m \<le> round_work env g" using run_work [OF assms(1-3)] by simp
  then show False using round_work_bound [OF assms(1), of g] assms(4) by simp
qed

lemma run_exists:
  assumes "env_ok env" "group_reachable env g"
  shows "\<exists>g'. (group_step env ^^ m) g g' \<and> group_reachable env g'"
proof (induction m)
  case 0
  then show ?case using assms by auto
next
  case (Suc m)
  then obtain h where h: "(group_step env ^^ m) g h" "group_reachable env h" by blast
  obtain g' where "group_step env h g'"
    using group_step_exists [OF assms(1)] group_reachable_inv [OF h(2) assms(1)] by blast
  then show ?case using h group_next by (metis relpowp_Suc_I)
qed

lemma every_round_reached:
  assumes "env_ok env"
  shows "\<exists>g. group_reachable env g \<and> k \<le> g_round g"
proof (induction k)
  case 0
  then show ?case using group_init by blast
next
  case (Suc k)
  then obtain g where g: "group_reachable env g" "k \<le> g_round g" by blast
  obtain g' where "(group_step env ^^ (3 * cnt_peers env + 2)) g g'" "group_reachable env g'"
    using run_exists [OF assms g(1)] by blast
  then show ?case using round_ends [OF assms group_reachable_inv [OF g(1) assms]] g(2) by fastforce
qed

lemma every_client_reaches:
  assumes "env_ok env"
  shows "\<exists>g. group_reachable env g \<and> (\<forall>a \<in> env_peers env. k < c_round (g_clients g a))"
proof -
  obtain g where g: "group_reachable env g" "k + 2 \<le> g_round g" using every_round_reached [OF assms] by blast
  have "k < c_round (g_clients g a)" if "a \<in> env_peers env" for a
    using group_invD(3) [OF group_reachable_inv [OF g(1) assms] that] g(2) by (auto simp: client_inv_def Let_def)
  then show ?thesis using g(1) by blast
qed

section \<open>Properties\<close>

text \<open>A group of two emulation servers whose protocol passes values on unchanged.\<close>

definition ex_env :: "(nat, json) zmq_env" where
  "ex_env = \<lparr>env_ser = (\<lambda>v. v), env_des = Inr, env_peers = {0, 1}, env_tunnel = (\<lambda>_. JStr ''10.0.0.1''),
     env_score = (\<lambda>_. JInt 1), env_resp = (\<lambda>_ _. [(JInt 1, JNull), (JInt 2, JNull)])\<rparr>"

lemma ex_env_ok: "env_ok ex_env"
proof -
  have "dget [(JInt 1, JNull), (JInt 2, JNull)] (JInt i) \<noteq> None" if "1 \<le> i" "i \<le> 2" for i
    using that by auto
  then show ?thesis by (simp add: env_ok_def ex_env_def)
qed

text \<open>C10: Clients and coordinator run in lock step: at any time the rounds of two clients
  differ by at most one, and every message that waits at the coordinator belongs to its
  current round and is accepted by the expecter. No request is ever ignored.\<close>

theorem group_lockstep:
  assumes "env_ok env" and "group_reachable env g" and "a \<in> env_peers env" "b \<in> env_peers env"
  shows "c_round (g_clients g a) \<le> Suc (c_round (g_clients g b)) \<and> c_round (g_clients g a) \<le> g_round g
    \<and> (\<forall>m \<in> set (g_inbox g). \<exists>e. expect (env_des env) (current_expecter env g) m = Inr (True, e))"
proof -
  have inv: "group_inv env g" using group_reachable_inv assms(1,2) by blast
  have "client_inv env g a" "client_inv env g b" using group_invD(3) [OF inv] assms(3,4) by blast+
  then have "c_round (g_clients g a) \<le> Suc (c_round (g_clients g b)) \<and> c_round (g_clients g a) \<le> g_round g"
    by (auto simp: client_inv_def Let_def)
  moreover have "\<exists>e. expect (env_des env) (current_expecter env g) m = Inr (True, e)" if "m \<in> set (g_inbox g)" for m
  proof -
    obtain d fr where m: "m = (d, fr)" by (cases m)
    have mem: "d \<in> fst ` set (g_inbox g)" using that by (rule image_eqI [rotated]) (simp add: m)
    have "d \<in> env_peers env" "fr = send_multi_part (env_ser env) (request_of env g d)" "queued g d"
      using that mem group_invD(1) [OF inv] unfolding queue_inv_def queued_def m by blast+
    moreover from this have "c_round (g_clients g d) = g_round g"
      using group_invD(3) [OF inv, of d] by (auto simp: client_inv_def Let_def)
    ultimately show ?thesis using expect_request [OF assms(1)] m by blast
  qed
  ultimately show ?thesis by blast
qed

theorem group_lockstep_witness:
  "\<exists>g m e. group_reachable ex_env g \<and> g_inbox g = [m] \<and> expect (env_des ex_env) (current_expecter ex_env g) m = Inr (True, e)"
proof -
  have "0 \<in> env_peers ex_env" "1 \<in> env_peers ex_env" "\<not> c_waiting (g_clients initial_group 0)" "g_inbox initial_group = []"
    by (simp_all add: ex_env_def initial_group_def new_client_def)
  note start = this
  then obtain g m where g: "group_reachable ex_env g" "g_inbox g = [m]"
    using group_next [OF group_init client_send [of 0 ex_env initial_group]] by force
  from group_lockstep [OF ex_env_ok g(1) start(1,2)]
  have "\<exists>e. expect (env_des ex_env) (current_expecter ex_env g) m = Inr (True, e)" unfolding g(2) by simp
  with g show ?thesis by blast
qed

text \<open>C4: Every round is a barrier. A client that has its answer of a round knows that every
  other client has sent its request of that round; in particular no client goes on after the
  start of the nodes before all clients have started theirs.\<close>

theorem group_barrier:
  assumes "env_ok env" and "group_reachable env g" and "a \<in> env_peers env" "b \<in> env_peers env"
    and "k < c_round (g_clients g a)"
  shows "k < c_round (g_clients g b) \<or> (k = c_round (g_clients g b) \<and> c_waiting (g_clients g b))"
proof -
  have inv: "group_inv env g" using group_reachable_inv assms(1,2) by blast
  have "client_inv env g a" "client_inv env g b" using group_invD(3) [OF inv] assms(3,4) by blast+
  then show ?thesis using assms(5) by (auto simp: client_inv_def Let_def)
qed

theorem group_barrier_witness:
  "\<exists>g. group_reachable ex_env g \<and> 2 < c_round (g_clients g 0)
     \<and> (2 < c_round (g_clients g 1) \<or> (2 = c_round (g_clients g 1) \<and> c_waiting (g_clients g 1)))"
proof -
  obtain g where "group_reachable ex_env g" "2 < c_round (g_clients g 0)"
    using every_client_reaches [OF ex_env_ok, of 2] by (auto simp: ex_env_def)
  then show ?thesis using group_barrier [OF ex_env_ok, of g 0 1 2] by (auto simp: ex_env_def)
qed

text \<open>C12: The ids of the clients are pairwise different and range over 1 to the number of
  clients, and every client is answered with the configuration and the distance matrices that
  were made for its own id, in the order of the rounds.\<close>

theorem group_ids:
  assumes "env_ok env" and "group_reachable env g" and "a \<in> env_peers env" "b \<in> env_peers env"
    and "0 < c_round (g_clients g a)" "0 < c_round (g_clients g b)"
  shows "\<exists>i. c_server_id (g_clients g a) = JInt i \<and> 1 \<le> i \<and> i \<le> int (cnt_peers env)
    \<and> (c_server_id (g_clients g b) = JInt i \<longleftrightarrow> a = b)
    \<and> (\<forall>k. k < c_round (g_clients g a) \<longrightarrow> k \<noteq> 0 \<longrightarrow> k \<noteq> 2 \<longrightarrow>
         c_log (g_clients g a) ! k = the (dget (g_answers g k) (JInt i)))"
proof -
  have inv: "group_inv env g" using group_reachable_inv assms(1,2) by blast
  have "client_inv env g a" using group_invD(3) [OF inv assms(3)] .
  then have "c_round (g_clients g a) \<le> g_round g" by (auto simp: client_inv_def Let_def)
  then have "0 < g_round g" using assms(5) by linarith
  then obtain addrs where addrs: "g_ids g = zip [1..int (cnt_peers env)] addrs" "distinct addrs" "set addrs = env_peers env"
    using group_invD(2) [OF inv] by (auto simp: ids_inv_def)
  have inj: "inj_on (id_of g) (env_peers env)"
    using id_of_inj(2) [OF addrs(1,2)] addrs distinct_card [of addrs] by simp
  have ids: "c_server_id (g_clients g a) = JInt (id_of g a)" "c_server_id (g_clients g b) = JInt (id_of g b)"
    by (rule log_inv_id [OF group_invD(4) [OF inv assms(3)] assms(5)],
        rule log_inv_id [OF group_invD(4) [OF inv assms(4)] assms(6)])
  obtain r where r: "c_round (g_clients g a) = r" by blast
  then have log: "c_log (g_clients g a) = map (\<lambda>k. answer g k a) [0..<r]"
    using group_invD(4) [OF inv assms(3)] unfolding log_inv_def Let_def by blast
  have "c_log (g_clients g a) ! k = answer g k a" if "k < c_round (g_clients g a)" for k
    using that unfolding log by simp
  then have "\<forall>k. k < c_round (g_clients g a) \<longrightarrow> k \<noteq> 0 \<longrightarrow> k \<noteq> 2 \<longrightarrow>
      c_log (g_clients g a) ! k = the (dget (g_answers g k) (JInt (id_of g a)))"
    by (simp add: answer_def)
  then show ?thesis
    using ids id_of_range [OF addrs assms(3)] inj_onD [OF inj] assms(3,4) by (intro exI [of _ "id_of g a"]) auto
qed

theorem group_ids_witness:
  "\<exists>g i. group_reachable ex_env g \<and> c_server_id (g_clients g 0) = JInt i \<and> c_server_id (g_clients g 1) \<noteq> JInt i"
proof -
  obtain g where g: "group_reachable ex_env g" "0 < c_round (g_clients g 0)" "0 < c_round (g_clients g 1)"
    using every_client_reaches [OF ex_env_ok, of 0] by (auto simp: ex_env_def)
  from group_ids [OF ex_env_ok g(1) _ _ g(2,3)] show ?thesis using g(1) by (auto simp: ex_env_def)
qed

text \<open>C7: The group never blocks and every round ends: in every reachable state some step is
  possible, and no execution stays in a round for more than \<open>3 n + 1\<close> steps, so that the next
  round is always reached, however the clients and the coordinator are scheduled.\<close>

theorem group_progress:
  assumes "env_ok env" and "group_reachable env g"
  shows "(\<exists>g'. group_step env g g')
    \<and> (\<forall>m g'. (group_step env ^^ m) g g' \<longrightarrow> 3 * cnt_peers env + 1 < m \<longrightarrow> g_round g < g_round g')"
proof -
  have inv: "group_inv env g" using group_reachable_inv assms by blast
  show ?thesis using group_step_exists [OF assms(1) inv] round_ends [OF assms(1) inv] by blast
qed

theorem group_progress_witness: "\<exists>g'. group_step ex_env initial_group g'"
  using group_progress [OF ex_env_ok group_init] by blast

end
