(* ===== verification/Effects.thy ===== *)
theory Effects
  imports Prelude
begin

text \<open>
  Sequencing of operations that change a state and may raise: an operation maps a state to its
  outcome and the state it leaves behind, also when it raises. \<open>keeps P m\<close> says that an
  invariant survives an operation on every path, the exceptional ones included; \<open>yields P m Q\<close>
  says what holds after an operation that did not raise.
\<close>

type_synonym ('s, 'a) eff = "'s \<Rightarrow> 'a res \<times> 's"

definition ereturn :: "'a \<Rightarrow> ('s, 'a) eff" where "ereturn x s = (Inr x, s)"
definition eraise :: "py_error \<Rightarrow> ('s, 'a) eff" where "eraise e s = (Inl e, s)"
definition elift :: "'a res \<Rightarrow> ('s, 'a) eff" where "elift r s = (r, s)"
definition eget :: "('s \<Rightarrow> 'a) \<Rightarrow> ('s, 'a) eff" where "eget f s = (Inr (f s), s)"
definition emodify :: "('s \<Rightarrow> 's) \<Rightarrow> ('s, unit) eff" where "emodify f s = (Inr (), f s)"

definition ebind :: "('s, 'a) eff \<Rightarrow> ('a \<Rightarrow> ('s, 'b) eff) \<Rightarrow> ('s, 'b) eff" where
  "ebind m k s = (case m s of (Inl e, s') \<Rightarrow> (Inl e, s') | (Inr x, s') \<Rightarrow> k x s')"

abbreviation eseq :: "('s, 'a) eff \<Rightarrow> ('s, 'b) eff \<Rightarrow> ('s, 'b) eff" where
  "eseq m k \<equiv> ebind m (\<lambda>_. k)"

definition ewhen :: "bool \<Rightarrow> ('s, unit) eff \<Rightarrow> ('s, unit) eff" where
  "ewhen b m = (if b then m else ereturn ())"

text \<open>\<open>for x in xs: f(x)\<close>; the first exception ends the loop.\<close>

fun efor :: "'x list \<Rightarrow> ('x \<Rightarrow> ('s, unit) eff) \<Rightarrow> ('s, unit) eff" where
  "efor [] f = ereturn ()"
| "efor (x # xs) f = eseq (f x) (efor xs f)"

text \<open>\<open>try: m finally: f\<close> for a clean-up that does not raise.\<close>

definition efinally :: "('s, 'a) eff \<Rightarrow> ('s \<Rightarrow> 's) \<Rightarrow> ('s, 'a) eff" where
  "efinally m f s = (let (r, s') = m s in (r, f s'))"

section \<open>Invariants of operations\<close>

definition keeps :: "('s \<Rightarrow> bool) \<Rightarrow> ('s, 'a) eff \<Rightarrow> bool" where
  "keeps P m \<longleftrightarrow> (\<forall>s. P s \<longrightarrow> P (snd (m s)))"

definition yields :: "('s \<Rightarrow> bool) \<Rightarrow> ('s, 'a) eff \<Rightarrow> ('a \<Rightarrow> 's \<Rightarrow> bool) \<Rightarrow> bool" where
  "yields P m Q \<longleftrightarrow> (\<forall>s x s'. P s \<longrightarrow> m s = (Inr x, s') \<longrightarrow> Q x s')"

named_theorems keeps_intros

lemma keeps_ereturn [keeps_intros]: "keeps P (ereturn x)"
  by (simp add: keeps_def ereturn_def)

lemma keeps_eraise [keeps_intros]: "keeps P (eraise e)"
  by (simp add: keeps_def eraise_def)

lemma keeps_elift [keeps_intros]: "keeps P (elift r)"
  by (simp add: keeps_def elift_def)

lemma keeps_eget [keeps_intros]: "keeps P (eget f)"
  by (simp add: keeps_def eget_def)

lemma keeps_emodify: "(\<And>s. P s \<Longrightarrow> P (f s)) \<Longrightarrow> keeps P (emodify f)"
  by (simp add: keeps_def emodify_def)

lemma keepsD': "keeps P m \<Longrightarrow> P s \<Longrightarrow> P (snd (m s))"
  by (simp add: keeps_def)

lemma keeps_ebind [keeps_intros]:
  assumes "keeps P m" and "\<And>x. keeps P (k x)"
  shows "keeps P (ebind m k)"
  unfolding keeps_def
proof (intro allI impI)
  fix s assume "P s"
  then have "P (snd (m s))" using assms(1) by (simp add: keeps_def)
  then show "P (snd (ebind m k s))"
    using assms(2) by (auto simp: ebind_def keeps_def split: prod.splits sum.splits)
qed

text \<open>The value of the first operation gives a stronger invariant for the second.\<close>

lemma keeps_ebind_yields:
  assumes "keeps P m" and "\<And>s x s'. P s \<Longrightarrow> m s = (Inr x, s') \<Longrightarrow> P' x s'"
    and "\<And>x. keeps (P' x) (k x)" and "\<And>x s. P' x s \<Longrightarrow> P s"
  shows "keeps P (ebind m k)"
  unfolding keeps_def
proof (intro allI impI)
  fix s assume P: "P s"
  obtain r s1 where m: "m s = (r, s1)" by (cases "m s")
  show "P (snd (ebind m k s))"
  proof (cases r)
    case (Inl e)
    then show ?thesis using keepsD' [OF assms(1) P] m by (simp add: ebind_def)
  next
    case (Inr x)
    then have "P' x s1" using assms(2) P m by blast
    then have "P' x (snd (k x s1))" using assms(3) by (simp add: keeps_def)
    then show ?thesis using assms(4) m Inr by (simp add: ebind_def)
  qed
qed

text \<open>What follows an operation that always raises is never reached.\<close>

lemma keeps_ebind_raises:
  assumes "keeps P m" and "\<And>s. \<exists>e s'. m s = (Inl e, s')"
  shows "keeps P (ebind m k)"
  unfolding keeps_def
proof (intro allI impI)
  fix s assume "P s"
  moreover obtain e s' where "m s = (Inl e, s')" using assms(2) by blast
  ultimately show "P (snd (ebind m k s))" using assms(1) by (auto simp: ebind_def keeps_def)
qed

lemma keeps_ewhen [keeps_intros]: "keeps P m \<Longrightarrow> keeps P (ewhen b m)"
  by (simp add: ewhen_def keeps_ereturn)

lemma keeps_if [keeps_intros]: "keeps P m \<Longrightarrow> keeps P m' \<Longrightarrow> keeps P (if b then m else m')"
  by simp

lemma keeps_case_option [keeps_intros]:
  "keeps P m \<Longrightarrow> (\<And>x. keeps P (f x)) \<Longrightarrow> keeps P (case opt of None \<Rightarrow> m | Some x \<Rightarrow> f x)"
  by (cases opt) simp_all

lemma keeps_efor [keeps_intros]: "(\<And>x. keeps P (f x)) \<Longrightarrow> keeps P (efor xs f)"
  by (induction xs) (auto intro: keeps_ereturn keeps_ebind)

lemma keeps_efinally: "keeps P m \<Longrightarrow> (\<And>s. P s \<Longrightarrow> P (f s)) \<Longrightarrow> keeps P (efinally m f)"
  by (simp add: keeps_def efinally_def case_prod_beta)

lemma keepsD: "keeps P m \<Longrightarrow> P s \<Longrightarrow> m s = (r, s') \<Longrightarrow> P s'"
  unfolding keeps_def by (metis snd_conv)

lemma ebind_Inr: "ebind m k s = (Inr y, s') \<longleftrightarrow> (\<exists>x s1. m s = (Inr x, s1) \<and> k x s1 = (Inr y, s'))"
  by (auto simp: ebind_def split: prod.splits sum.splits)

lemma ebind_assoc: "ebind (ebind m k) l = ebind m (\<lambda>x. ebind (k x) l)"
proof
  fix s show "ebind (ebind m k) l s = ebind m (\<lambda>x. ebind (k x) l) s"
    by (cases "m s"; cases "fst (m s)") (simp_all add: ebind_def)
qed

lemma ereturn_bind [simp]: "ebind (ereturn x) k = k x"
  by (simp add: fun_eq_iff ebind_def ereturn_def)

lemma ebind_elift: "ebind (elift (Inr x)) k = k x" "ebind (elift (Inl e)) k = eraise e"
  by (simp_all add: fun_eq_iff ebind_def elift_def eraise_def)

lemma efor_append: "efor (xs @ ys) f = eseq (efor xs f) (efor ys f)"
  by (induction xs) (simp_all add: ebind_assoc)

text \<open>A loop in which every iteration establishes its own fact and keeps those of the others.\<close>

lemma efor_establishes:
  assumes "efor xs f s = (Inr (), s')" and "I s"
    and "\<And>x s s'. x \<in> set xs \<Longrightarrow> I s \<Longrightarrow> f x s = (Inr (), s') \<Longrightarrow> I s' \<and> Q x s'"
    and "\<And>x y s s'. x \<in> set xs \<Longrightarrow> y \<in> set xs \<Longrightarrow> I s \<Longrightarrow> Q x s \<Longrightarrow> f y s = (Inr (), s') \<Longrightarrow> x \<noteq> y \<Longrightarrow> Q x s'"
    and "distinct xs"
  shows "I s' \<and> (\<forall>x \<in> set xs. Q x s')"
  using assms
proof (induction xs arbitrary: s' rule: rev_induct)
  case Nil
  from Nil.prems(1,2) show ?case by (simp add: ereturn_def)
next
  case (snoc x xs)
  from snoc.prems(1) obtain s1 where 1: "efor xs f s = (Inr (), s1)" and 2: "f x s1 = (Inr (), s')"
    unfolding efor_append by (auto simp: ebind_Inr ereturn_def)
  have "I s1 \<and> (\<forall>y \<in> set xs. Q y s1)"
  proof (rule snoc.IH [OF 1 snoc.prems(2)])
    show "I t' \<and> Q y t'" if "y \<in> set xs" "I t" "f y t = (Inr (), t')" for y t t'
      using snoc.prems(3) [of y t t'] that by simp
    show "Q y t'" if "y \<in> set xs" "z \<in> set xs" "I t" "Q y t" "f z t = (Inr (), t')" "y \<noteq> z" for y z t t'
      using snoc.prems(4) [of y z t t'] that by simp
    show "distinct xs" using snoc.prems(5) by simp
  qed
  moreover from this have "I s' \<and> Q x s'" using snoc.prems(3) [of x s1 s'] 2 by simp
  moreover have "Q y s'" if "y \<in> set xs" for y
    using snoc.prems(4) [of y x s1 s'] snoc.prems(5) 2 that calculation by auto
  ultimately show ?case by simp
qed

end
