(* ===== verification/Simulation.thy ===== *)
theory Simulation
  imports Effects Connection_Store Dict_Util
begin

text \<open>
  The simulation step: \<open>management/SimulationManager.py\<close> and
  \<open>management/network/manager/NetworkManager.py\<close>. A step takes a distance matrix, compares it
  with the last one, asks the link quality model for every changed pair of nodes and brings the
  connection store and the network backend in line.

  The network backend, the movement director, the IP configurator and the shells of the nodes are
  reached through the operations of \<open>sim_env\<close>, which change a \<open>world\<close> of their own and may
  raise: the notifications of \<open>NetworkBackendNotifications.py\<close> are the ones starting with \<open>nb\<close>.
\<close>

section \<open>State and environment\<close>

record ('c, 'w) sim =
  sm_current_step :: nat
  sm_distance_matrix :: distance_matrix
  sm_distance_matrix_hubwifi :: distance_matrix
  sm_nodes :: "(int, emulation_node) dict"
  sm_connected_event :: bool
  nm_connection_store :: "'c connection_store"
  nm_step_cnt :: nat
  nm_new_conns_per_node :: "(int, int list) dict"
  nm_distance_matrix :: distance_matrix
  nm_active_before :: "(emulation_node list, interface list list) dict"
  sm_world :: 'w

type_synonym new_connections = "(emulation_node list, interface list list) dict"

record ('c, 's, 'w) sim_env =
  se_link_quality :: "rat \<Rightarrow> (bool \<times> link_quality option) res"
  se_initial_link_quality :: link_quality
  se_interface_filter :: "interface list \<Rightarrow> interface list \<Rightarrow> (interface \<times> interface) list \<times> py_error option"
  se_director :: bool
  se_added :: "emulation_node list list \<Rightarrow> emulation_node list list \<Rightarrow> emulation_node list list"
  se_simulate :: "('w, distance_matrix option) eff"
  se_among_servers :: "emulation_node \<Rightarrow> emulation_node \<Rightarrow> bool"
  se_remote_ip :: "emulation_node \<Rightarrow> emulation_node \<Rightarrow> string option"
  se_auto_ipv4 :: bool
  se_connectivity_check :: bool
  se_configure :: "nat \<Rightarrow> new_connections \<Rightarrow> ('w, unit) eff"
  se_check :: "new_connections \<Rightarrow> ('w, unit) eff"
  se_configurator_reset :: "('w, unit) eff"
  se_clear_progress :: "('w, unit) eff"
  se_post_network :: "emulation_node \<Rightarrow> ('w, unit) eff"
  nb_before_step :: "nat \<Rightarrow> emulation_node list \<Rightarrow> ('w, unit) eff"
  nb_after_step :: "nat \<Rightarrow> emulation_node list \<Rightarrow> ('w, unit) eff"
  nb_before_matrix :: "distance_matrix \<Rightarrow> distance_matrix \<Rightarrow> ('w, unit) eff"
  nb_after_matrix :: "distance_matrix \<Rightarrow> distance_matrix \<Rightarrow> ('w, unit) eff"
  nb_before_link_start :: "emulation_node \<Rightarrow> emulation_node \<Rightarrow> interface \<Rightarrow> interface \<Rightarrow> connection_info \<Rightarrow> bool
     \<Rightarrow> ('w, bool \<times> 's \<times> 'c) eff"
  nb_after_link_start :: "bool \<Rightarrow> 's \<Rightarrow> 'c \<Rightarrow> emulation_node \<Rightarrow> emulation_node \<Rightarrow> interface \<Rightarrow> interface \<Rightarrow> connection_info
     \<Rightarrow> bool \<Rightarrow> ('w, unit) eff"
  nb_before_adjustment :: "'c \<Rightarrow> bool \<Rightarrow> link_quality option \<Rightarrow> emulation_node \<Rightarrow> emulation_node \<Rightarrow> interface \<Rightarrow> interface
     \<Rightarrow> connection_info \<Rightarrow> ('w, unit) eff"
  nb_after_adjustment :: "'c \<Rightarrow> bool \<Rightarrow> link_quality option \<Rightarrow> emulation_node \<Rightarrow> emulation_node \<Rightarrow> interface \<Rightarrow> interface
     \<Rightarrow> connection_info \<Rightarrow> ('w, unit) eff"
  nb_link_up :: "'c \<Rightarrow> link_quality option \<Rightarrow> emulation_node \<Rightarrow> emulation_node \<Rightarrow> interface \<Rightarrow> interface \<Rightarrow> connection_info
     \<Rightarrow> ('w, unit) eff"
  nb_link_down :: "'c \<Rightarrow> link_quality option \<Rightarrow> emulation_node \<Rightarrow> emulation_node \<Rightarrow> interface \<Rightarrow> interface \<Rightarrow> connection_info
     \<Rightarrow> ('w, unit) eff"
  nb_across_servers :: "emulation_node \<Rightarrow> emulation_node \<Rightarrow> string \<Rightarrow> ('w, unit) eff"

text \<open>An operation of the world, and one of the connection store.\<close>

definition in_world :: "('w, 'a) eff \<Rightarrow> (('c, 'w) sim, 'a) eff" where
  "in_world m s = (let (r, w) = m (sm_world s) in (r, s\<lparr>sm_world := w\<rparr>))"

definition in_store :: "('c connection_store \<Rightarrow> 'a res \<times> 'c connection_store) \<Rightarrow> (('c, 'w) sim, 'a) eff" where
  "in_store m s = (let (r, st) = m (nm_connection_store s) in (r, s\<lparr>nm_connection_store := st\<rparr>))"

definition sim_reset :: "'w \<Rightarrow> ('c, 'w) sim" where
  "sim_reset w = \<lparr>sm_current_step = 0, sm_distance_matrix = [], sm_distance_matrix_hubwifi = [], sm_nodes = [],
     sm_connected_event = False, nm_connection_store = connection_store_init, nm_step_cnt = 0,
     nm_new_conns_per_node = [], nm_distance_matrix = [], nm_active_before = [], sm_world = w\<rparr>"

section \<open>Network manager\<close>

definition nm_before_simulation_step ::
  "('c, 's, 'w) sim_env \<Rightarrow> nat \<Rightarrow> emulation_node list \<Rightarrow> (('c, 'w) sim, unit) eff" where
  "nm_before_simulation_step env step_cnt nodes =
     eseq (emodify (\<lambda>s. s\<lparr>nm_step_cnt := step_cnt\<rparr>)) (in_world (nb_before_step env step_cnt nodes))"

text \<open>
  \<open>get_new_connections_with_interfaces_since_last_distance_matrix_change\<close>. Which keys are new
  is the answer of \<open>DictDiffer.added\<close> (package \<open>dictdiffer\<close>, \<open>se_added\<close>), given as a set
  whose order is not fixed.
\<close>

definition get_new_connections :: "('c, 's, 'w) sim_env \<Rightarrow> ('c, 'w) sim \<Rightarrow> new_connections res" where
  "get_new_connections env s =
     (let active = get_active_interfaces_per_connection (nm_connection_store s)
      in if sm_current_step s = 0 then Inr active
         else rbind (rmap (\<lambda>k. (case kget node_key_eq active k of None \<Rightarrow> Inl KeyError | Some v \<Rightarrow> Inr (k, v)))
                       (se_added env (map fst active) (map fst (nm_active_before s))))
                (\<lambda>items. Inr (fold (\<lambda>(k, v) d. kset node_key_eq d k v) items [])))"

definition nm_after_simulation_step ::
  "('c, 's, 'w) sim_env \<Rightarrow> nat \<Rightarrow> emulation_node list \<Rightarrow> (('c, 'w) sim, unit) eff" where
  "nm_after_simulation_step env step_cnt nodes =
     eseq (ewhen (se_auto_ipv4 env \<and> se_connectivity_check env)
             (ebind (eget (get_new_connections env)) (\<lambda>r. ebind (elift r) (\<lambda>conns. in_world (se_check env conns)))))
     (eseq (in_world (se_configurator_reset env)) (in_world (nb_after_step env step_cnt nodes)))"

text \<open>The peers of every node that the model calls connected.\<close>

fun conns_per_node :: "(rat \<Rightarrow> (bool \<times> link_quality option) res) \<Rightarrow> distance_matrix \<Rightarrow> (int, int list) dict \<Rightarrow> (int, int list) dict res" where
  "conns_per_node model [] acc = Inr acc"
| "conns_per_node model (((x, y), distance) # m) acc =
     rbind (model distance) (\<lambda>(linked, _).
       conns_per_node model m
         (if linked then
            (let acc = dset acc x (oset_add (ddget_set acc x) y) in dset acc y (oset_add (ddget_set acc y) x))
          else acc))"

definition new_conns :: "(int, int list) dict \<Rightarrow> (int, int list) dict \<Rightarrow> (int, int list) dict" where
  "new_conns conns old =
     dict_of (map (\<lambda>n. (n, filter (\<lambda>p. p \<notin> set (ddget_set old n)) (ddget_set conns n))) (map fst conns @ map fst old))"

definition nm_before_distance_matrix_changed ::
  "('c, 's, 'w) sim_env \<Rightarrow> distance_matrix \<Rightarrow> distance_matrix \<Rightarrow> (('c, 'w) sim, unit) eff" where
  "nm_before_distance_matrix_changed env changed full =
     eseq (emodify (\<lambda>s. s\<lparr>nm_distance_matrix := full\<rparr>))
     (eseq (in_world (se_clear_progress env))
     (ebind (elift (conns_per_node (se_link_quality env) full [])) (\<lambda>conns.
      eseq (emodify (\<lambda>s. s\<lparr>nm_new_conns_per_node := new_conns conns (nm_new_conns_per_node s), nm_distance_matrix := full,
              nm_active_before := get_active_interfaces_per_connection (nm_connection_store s)\<rparr>))
      (in_world (nb_before_matrix env changed full)))))"

definition ip_config :: "('c, 's, 'w) sim_env \<Rightarrow> (('c, 'w) sim, unit) eff" where
  "ip_config env = ewhen (se_auto_ipv4 env)
     (ebind (eget (get_new_connections env)) (\<lambda>r. ebind (elift r) (\<lambda>conns.
      ebind (eget sm_current_step) (\<lambda>step. in_world (se_configure env step conns)))))"

definition nm_after_distance_matrix_changed ::
  "('c, 's, 'w) sim_env \<Rightarrow> distance_matrix \<Rightarrow> distance_matrix \<Rightarrow> (('c, 'w) sim, unit) eff" where
  "nm_after_distance_matrix_changed env changed full =
     eseq (in_world (nb_after_matrix env changed full)) (ip_config env)"

definition nm_after_link_initial_start ::
  "('c, 's, 'w) sim_env \<Rightarrow> bool \<Rightarrow> 's \<Rightarrow> 'c \<Rightarrow> emulation_node \<Rightarrow> emulation_node \<Rightarrow> interface \<Rightarrow> interface
     \<Rightarrow> connection_info \<Rightarrow> bool \<Rightarrow> (('c, 'w) sim, unit) eff" where
  "nm_after_link_initial_start env linked switch conn nx ny ix iy info activated =
     eseq (ewhen linked (in_store (\<lambda>st. (Inr (), add_connection st nx ny ix iy conn linked None))))
     (in_world (nb_after_link_start env linked switch conn nx ny ix iy info activated))"

definition nm_after_link_quality_adjustment ::
  "('c, 's, 'w) sim_env \<Rightarrow> 'c \<Rightarrow> bool \<Rightarrow> link_quality option \<Rightarrow> emulation_node \<Rightarrow> emulation_node \<Rightarrow> interface \<Rightarrow> interface
     \<Rightarrow> connection_info \<Rightarrow> (('c, 'w) sim, unit) eff" where
  "nm_after_link_quality_adjustment env conn still lq nx ny ix iy info =
     eseq (in_store (\<lambda>st. update_link_quality st nx ny ix iy lq))
     (in_world (nb_after_adjustment env conn still lq nx ny ix iy info))"

definition nm_link_up ::
  "('c, 's, 'w) sim_env \<Rightarrow> 'c \<Rightarrow> link_quality option \<Rightarrow> emulation_node \<Rightarrow> emulation_node \<Rightarrow> interface \<Rightarrow> interface
     \<Rightarrow> connection_info \<Rightarrow> (('c, 'w) sim, unit) eff" where
  "nm_link_up env conn lq nx ny ix iy info =
     eseq (in_store (\<lambda>st. change_connection_state st nx ny ix iy True)) (in_world (nb_link_up env conn lq nx ny ix iy info))"

definition nm_link_down ::
  "('c, 's, 'w) sim_env \<Rightarrow> 'c \<Rightarrow> link_quality option \<Rightarrow> emulation_node \<Rightarrow> emulation_node \<Rightarrow> interface \<Rightarrow> interface
     \<Rightarrow> connection_info \<Rightarrow> (('c, 'w) sim, unit) eff" where
  "nm_link_down env conn lq nx ny ix iy info =
     eseq (in_store (\<lambda>st. change_connection_state st nx ny ix iy False)) (in_world (nb_link_down env conn lq nx ny ix iy info))"

section \<open>Simulation manager: pairs of nodes\<close>

text \<open>\<open>VirtualNode.connect_to_emu_node\<close>\<close>

definition connect_to_emu_node ::
  "('c, 's, 'w) sim_env \<Rightarrow> emulation_node \<Rightarrow> emulation_node \<Rightarrow> (('c, 'w) sim, unit) eff" where
  "connect_to_emu_node env virtual emu =
     ebind (elift (virtual_node_interface virtual)) (\<lambda>iface.
     ebind (elift (pyindex (filter_type (\<lambda>i. if_type i = if_type iface) (en_interfaces emu)) 0)) (\<lambda>emu_node_if.
     ebind (elift (init_connection_info virtual)) (\<lambda>info.
     ebind (in_world (nb_before_link_start env virtual emu iface emu_node_if info True)) (\<lambda>(linked, switch, conn).
     nm_after_link_initial_start env linked switch conn virtual emu iface emu_node_if info True))))"

text \<open>
  The body of the loop of \<open>_step_no_connection_yet\<close> for one pair of interfaces; the
  \<open>connection_info\<close> is changed in place and handed on.
\<close>

definition connect_pair ::
  "('c, 's, 'w) sim_env \<Rightarrow> bool \<Rightarrow> link_quality option \<Rightarrow> emulation_node \<Rightarrow> emulation_node \<Rightarrow> interface \<Rightarrow> interface
     \<Rightarrow> connection_info \<Rightarrow> (('c, 'w) sim, connection_info) eff" where
  "connect_pair env says_connected lq nx ny ix iy info =
     (if is_same_interface_type ix iy \<and> node_class (if_type ix) \<noteq> node_class Management then
        ebind (eget (\<lambda>s. get_connections_for_nodes_implicit (nm_connection_store s) nx ny ix iy)) (\<lambda>conns.
          if (case conns of Some (_, nic) \<Rightarrow> nic \<noteq> [] | None \<Rightarrow> False) then ereturn info
          else
            let is_hubwifi_iface = (if_type ix = HubWiFi); info = info\<lparr>is_central := is_hubwifi_iface\<rparr>
            in if \<not> is_hubwifi_iface then
                 if says_connected then
                   ebind (in_world (nb_before_link_start env nx ny ix iy info False)) (\<lambda>(linked, switch, conn).
                   eseq (nm_after_link_initial_start env linked switch conn nx ny ix iy info False)
                   (eseq (ewhen linked (nm_link_up env conn lq nx ny ix iy info)) (ereturn info)))
                 else ereturn info
               else if is_central_node nx \<noteq> is_central_node ny then
                 (let (bridge, emu) = (if is_central_node nx then (nx, ny) else (ny, nx))
                  in eseq (connect_to_emu_node env bridge emu) (ereturn info))
               else ereturn info)
      else ereturn info)"

fun connect_loop ::
  "('c, 's, 'w) sim_env \<Rightarrow> bool \<Rightarrow> link_quality option \<Rightarrow> emulation_node \<Rightarrow> emulation_node \<Rightarrow> (interface \<times> interface) list
     \<Rightarrow> connection_info \<Rightarrow> (('c, 'w) sim, connection_info) eff" where
  "connect_loop env says_connected lq nx ny [] info = ereturn info"
| "connect_loop env says_connected lq nx ny ((ix, iy) # pairs) info =
     ebind (connect_pair env says_connected lq nx ny ix iy info) (connect_loop env says_connected lq nx ny pairs)"

definition step_no_connection_yet ::
  "('c, 's, 'w) sim_env \<Rightarrow> bool \<Rightarrow> link_quality option \<Rightarrow> emulation_node \<Rightarrow> emulation_node \<Rightarrow> connection_info
     \<Rightarrow> (('c, 'w) sim, connection_info) eff" where
  "step_no_connection_yet env says_connected lq nx ny info =
     (let (pairs, err) = se_interface_filter env (en_interfaces nx) (en_interfaces ny)
      in ebind (connect_loop env says_connected lq nx ny pairs info) (\<lambda>info.
           (case err of None \<Rightarrow> ereturn info | Some e \<Rightarrow> eraise e)))"

text \<open>\<open>call_link_quality_adjustment_notifications\<close>: in the first step on top of the initial link quality.\<close>

definition adjusted_link_quality :: "('c, 's, 'w) sim_env \<Rightarrow> nat \<Rightarrow> link_quality option \<Rightarrow> link_quality option res" where
  "adjusted_link_quality env step lq =
     (if step = 0 then (case lq of None \<Rightarrow> Inl TypeError | Some d \<Rightarrow> Inr (Some (dupdate (se_initial_link_quality env) d)))
      else Inr lq)"

definition adjust_link_quality ::
  "('c, 's, 'w) sim_env \<Rightarrow> bool \<Rightarrow> link_quality option \<Rightarrow> emulation_node \<Rightarrow> emulation_node \<Rightarrow> connection_info
     \<Rightarrow> 'c \<Rightarrow> interface \<Rightarrow> interface \<Rightarrow> (('c, 'w) sim, unit) eff" where
  "adjust_link_quality env says_connected lq nx ny info conn ix iy =
     ebind (eget sm_current_step) (\<lambda>step.
     ebind (elift (adjusted_link_quality env step lq)) (\<lambda>lq.
     eseq (in_world (nb_before_adjustment env conn says_connected lq nx ny ix iy info))
     (nm_after_link_quality_adjustment env conn says_connected lq nx ny ix iy info)))"

text \<open>
  \<open>_step_connection\<close>. The items of the active connections are collected before the loop. For
  an inactive connection the nested function is called with an argument too few.
\<close>

definition step_active ::
  "('c, 's, 'w) sim_env \<Rightarrow> bool \<Rightarrow> link_quality option \<Rightarrow> emulation_node \<Rightarrow> emulation_node \<Rightarrow> connection_info
     \<Rightarrow> interface list \<times> nat \<Rightarrow> (('c, 'w) sim, unit) eff" where
  "step_active env says_connected lq nx ny info item = (case item of
      ([ix, iy], ref) \<Rightarrow>
        ebind (eget (\<lambda>s. cd_connection (cs_heap (nm_connection_store s) ! ref))) (\<lambda>conn.
          if says_connected then adjust_link_quality env says_connected lq nx ny info conn ix iy
          else nm_link_down env conn lq nx ny ix iy info)
    | _ \<Rightarrow> eraise ValueError)"

definition step_connection ::
  "('c, 's, 'w) sim_env \<Rightarrow> bool \<Rightarrow> link_quality option \<Rightarrow> emulation_node \<Rightarrow> emulation_node \<Rightarrow> connection_info
     \<Rightarrow> (('c, 'w) sim, unit) eff" where
  "step_connection env says_connected lq nx ny info =
     ebind (eget nm_connection_store) (\<lambda>st.
       (case node_get (get_active_node_connection_store st) (nx, ny) of
          Some vals \<Rightarrow> efor vals (step_active env says_connected lq nx ny info)
        | None \<Rightarrow> (case node_get (get_inactive_node_connection_store st) (nx, ny) of
             Some (_ # _) \<Rightarrow> if says_connected then eraise TypeError else ereturn ()
           | _ \<Rightarrow> ereturn ())))"

text \<open>\<open>_step_inner\<close>, from the point where the two nodes are known.\<close>

definition across_servers ::
  "('c, 's, 'w) sim_env \<Rightarrow> emulation_node \<Rightarrow> emulation_node \<Rightarrow> connection_info \<Rightarrow> (('c, 'w) sim, connection_info) eff" where
  "across_servers env nx ny info =
     (if se_among_servers env nx ny then
        (case se_remote_ip env nx ny of
           None \<Rightarrow> ereturn info
         | Some ip \<Rightarrow> eseq (in_world (nb_across_servers env nx ny ip)) (ereturn (info\<lparr>is_remote_conn := True\<rparr>)))
      else ereturn info)"

definition step_nodes ::
  "('c, 's, 'w) sim_env \<Rightarrow> bool \<Rightarrow> link_quality option \<Rightarrow> emulation_node \<Rightarrow> emulation_node \<Rightarrow> (('c, 'w) sim, unit) eff" where
  "step_nodes env says_connected lq nx ny =
     ebind (eget (\<lambda>s. node_get (get_active_node_connection_store (nm_connection_store s)) (nx, ny))) (\<lambda>active.
       if \<not> says_connected \<and> (active = None \<or> active = Some []) then ereturn ()
       else
         ebind (across_servers env nx ny \<lparr>is_remote_conn = False, is_central = False, is_mgmt = False\<rparr>) (\<lambda>info.
         ebind (step_no_connection_yet env says_connected lq nx ny info) (\<lambda>info.
         step_connection env says_connected lq nx ny info)))"

definition step_inner :: "('c, 's, 'w) sim_env \<Rightarrow> int \<times> int \<Rightarrow> rat \<Rightarrow> (('c, 'w) sim, unit) eff" where
  "step_inner env xy distance =
     ebind (elift (se_link_quality env distance)) (\<lambda>(says_connected, lq).
     ebind (eget (\<lambda>s. getitem (sm_nodes s) (fst xy))) (\<lambda>r. ebind (elift r) (\<lambda>nx.
     ebind (eget (\<lambda>s. getitem (sm_nodes s) (snd xy))) (\<lambda>r. ebind (elift r) (\<lambda>ny.
     step_nodes env says_connected lq nx ny)))))"

section \<open>Simulation manager: steps\<close>

definition get_emulation_nodes :: "('c, 'w) sim \<Rightarrow> emulation_node list" where
  "get_emulation_nodes s = filter_real_emulation_nodes (map fst (fold (\<lambda>n d. kset node_name d n n) (map snd (sm_nodes s)) []))"

definition get_distance_matrix_diff :: "distance_matrix \<Rightarrow> (('c, 'w) sim, distance_matrix) eff" where
  "get_distance_matrix_diff new =
     ebind (eget (\<lambda>s. filter (\<lambda>kv. kv \<notin> set (sm_distance_matrix s)) new)) (\<lambda>diff.
     eseq (emodify (\<lambda>s. s\<lparr>sm_distance_matrix := new\<rparr>)) (ereturn diff))"

definition after_network_setup_done :: "('c, 's, 'w) sim_env \<Rightarrow> (('c, 'w) sim, unit) eff" where
  "after_network_setup_done env =
     ebind (eget (\<lambda>s. (sm_current_step s, get_emulation_nodes s))) (\<lambda>(step, nodes).
     ewhen (step = 0) (efor nodes (\<lambda>n. in_world (se_post_network env n))))"

definition matrix_changed :: "('c, 's, 'w) sim_env \<Rightarrow> distance_matrix \<Rightarrow> distance_matrix \<Rightarrow> (('c, 'w) sim, unit) eff" where
  "matrix_changed env diff full =
     eseq (nm_before_distance_matrix_changed env diff full)
     (eseq (efor (filter (\<lambda>((x, y), _). x < y) diff) (\<lambda>(xy, distance). step_inner env xy distance))
     (eseq (nm_after_distance_matrix_changed env diff full)
     (ebind (eget (\<lambda>s. (sm_current_step s, get_emulation_nodes s))) (\<lambda>(step, nodes).
      nm_after_simulation_step env step nodes))))"

text \<open>
  \<open>_step\<close> in its parts: where the matrix comes from, what is done for a changed matrix, and
  the rest. It returns the distance matrix object it worked on, which the hub distances were
  added to: the caller's object, if the caller supplied one that is not empty.
\<close>

definition obtain_matrix ::
  "('c, 's, 'w) sim_env \<Rightarrow> distance_matrix option \<Rightarrow> (('c, 'w) sim, distance_matrix option) eff" where
  "obtain_matrix env given =
     (if given = None \<or> given = Some [] then in_world (se_simulate env) else ereturn given)"

definition handle_diff ::
  "('c, 's, 'w) sim_env \<Rightarrow> nat \<Rightarrow> distance_matrix \<Rightarrow> distance_matrix \<Rightarrow> (('c, 'w) sim, distance_matrix) eff" where
  "handle_diff env step m diff =
     ebind (eget sm_distance_matrix_hubwifi) (\<lambda>hub.
       if step = 0 \<or> diff \<noteq> [] then
         eseq (matrix_changed env (dupdate diff hub) (dupdate m hub)) (ereturn (dupdate m hub))
       else ereturn m)"

definition apply_matrix :: "('c, 's, 'w) sim_env \<Rightarrow> distance_matrix \<Rightarrow> (('c, 'w) sim, distance_matrix) eff" where
  "apply_matrix env m =
     ebind (eget (\<lambda>s. (sm_current_step s, get_emulation_nodes s))) (\<lambda>(step, nodes).
     eseq (nm_before_simulation_step env step nodes)
     (ebind (get_distance_matrix_diff m) (\<lambda>diff.
      ebind (handle_diff env step m diff) (\<lambda>m'.
      eseq (after_network_setup_done env)
      (eseq (emodify (\<lambda>s. s\<lparr>sm_current_step := sm_current_step s + 1\<rparr>)) (ereturn m'))))))"

definition sim_step_once ::
  "('c, 's, 'w) sim_env \<Rightarrow> distance_matrix option \<Rightarrow> (('c, 'w) sim, distance_matrix option) eff" where
  "sim_step_once env given =
     (if \<not> se_director env then eraise NoMovementDirector
      else ebind (obtain_matrix env given) (\<lambda>dm.
        (case dm of
           None \<Rightarrow> eraise ValueError
         | Some m \<Rightarrow> ebind (apply_matrix env m) (\<lambda>m'.
             ereturn (if given = None \<or> given = Some [] then given else Some m')))))"

fun sim_step_loop :: "('c, 's, 'w) sim_env \<Rightarrow> nat \<Rightarrow> distance_matrix option \<Rightarrow> (('c, 'w) sim, unit) eff" where
  "sim_step_loop env 0 dm = ereturn ()"
| "sim_step_loop env (Suc n) dm = ebind (sim_step_once env dm) (\<lambda>dm. sim_step_loop env n dm)"

definition sim_step :: "('c, 's, 'w) sim_env \<Rightarrow> nat \<Rightarrow> distance_matrix option \<Rightarrow> (('c, 'w) sim, unit) eff" where
  "sim_step env steps dm = efinally (sim_step_loop env steps dm) (\<lambda>s. s\<lparr>sm_connected_event := True\<rparr>)"

section \<open>What every operation keeps\<close>

text \<open>
  The part of the state that the operations on links leave alone, and the fact that the
  connection store is only changed through the operations of the network manager.
\<close>

definition links_inv :: "(int, emulation_node) dict \<Rightarrow> nat \<Rightarrow> distance_matrix \<Rightarrow> distance_matrix \<Rightarrow> ('c, 'w) sim \<Rightarrow> bool" where
  "links_inv nodes step m hub s \<longleftrightarrow> cs_reachable (nm_connection_store s) \<and> sm_nodes s = nodes \<and> sm_current_step s = step
     \<and> sm_distance_matrix s = m \<and> sm_distance_matrix_hubwifi s = hub"

lemma keeps_in_world [keeps_intros]: "keeps (links_inv N k m h) (in_world op)"
  by (simp add: keeps_def in_world_def links_inv_def case_prod_beta Let_def)

lemma keeps_add [keeps_intros]:
  "keeps (links_inv N k m h) (in_store (\<lambda>st. (Inr (), add_connection st nx ny ix iy c True lq)))"
  by (simp add: keeps_def in_store_def links_inv_def reach_add)

lemma keeps_change [keeps_intros]:
  "keeps (links_inv N k m h) (in_store (\<lambda>st. change_connection_state st nx ny ix iy now))"
  by (auto simp: keeps_def in_store_def links_inv_def case_prod_beta Let_def intro: reach_change)

lemma keeps_update [keeps_intros]:
  "keeps (links_inv N k m h) (in_store (\<lambda>st. update_link_quality st nx ny ix iy lq))"
  by (auto simp: keeps_def in_store_def links_inv_def case_prod_beta Let_def intro: reach_update)

lemma keeps_after_link [keeps_intros]:
  "keeps (links_inv N k m h) (nm_after_link_initial_start env linked sw c nx ny ix iy info act)"
  unfolding nm_after_link_initial_start_def
  by (cases linked) (auto simp: ewhen_def intro!: keeps_intros)

lemma keeps_links [keeps_intros]:
  "keeps (links_inv N k m h) (nm_link_up env c lq nx ny ix iy info)"
  "keeps (links_inv N k m h) (nm_link_down env c lq nx ny ix iy info)"
  "keeps (links_inv N k m h) (nm_after_link_quality_adjustment env c still lq nx ny ix iy info)"
  unfolding nm_link_up_def nm_link_down_def nm_after_link_quality_adjustment_def by (intro keeps_intros)+

lemma keeps_prod [keeps_intros]: "(\<And>a b. keeps P (f a b)) \<Longrightarrow> keeps P (case x of (a, b) \<Rightarrow> f a b)"
  by (cases x) simp

lemma keeps_connect_to_emu_node [keeps_intros]: "keeps (links_inv N k m h) (connect_to_emu_node env v e)"
  unfolding connect_to_emu_node_def by (intro keeps_intros)

lemma keeps_connect_pair [keeps_intros]: "keeps (links_inv N k m h) (connect_pair env says lq nx ny ix iy info)"
  unfolding connect_pair_def Let_def by (intro keeps_intros)

lemma keeps_connect_loop [keeps_intros]: "keeps (links_inv N k m h) (connect_loop env says lq nx ny pairs info)"
proof (induction pairs arbitrary: info)
  case (Cons p pairs)
  then show ?case by (cases p) (auto intro: keeps_ebind keeps_connect_pair)
qed (simp add: keeps_ereturn)

lemma keeps_no_connection [keeps_intros]: "keeps (links_inv N k m h) (step_no_connection_yet env says lq nx ny info)"
  unfolding step_no_connection_yet_def Let_def by (intro keeps_intros)

lemma keeps_adjust [keeps_intros]: "keeps (links_inv N k m h) (adjust_link_quality env says lq nx ny info c ix iy)"
  unfolding adjust_link_quality_def by (intro keeps_intros)

lemma keeps_step_active [keeps_intros]: "keeps (links_inv N k m h) (step_active env says lq nx ny info item)"
  unfolding step_active_def by (auto split: prod.splits list.splits intro!: keeps_intros)

lemma keeps_step_connection [keeps_intros]: "keeps (links_inv N k m h) (step_connection env says lq nx ny info)"
  unfolding step_connection_def
  by (intro keeps_intros) (auto split: option.splits list.splits intro!: keeps_intros)

lemma keeps_across_servers [keeps_intros]: "keeps (links_inv N k m h) (across_servers env nx ny info)"
  unfolding across_servers_def by (auto split: option.splits intro!: keeps_intros)

lemma keeps_step_inner [keeps_intros]: "keeps (links_inv N k m h) (step_inner env xy d)"
  unfolding step_inner_def step_nodes_def by (intro keeps_intros)

lemma step_inner_Inr:
  assumes "step_inner env (x, y) d s = (Inr (), s')"
  obtains says lq nx ny where "se_link_quality env d = Inr (says, lq)"
    and "dget (sm_nodes s) x = Some nx" "dget (sm_nodes s) y = Some ny" "step_nodes env says lq nx ny s = (Inr (), s')"
  using assms
  by (auto simp: step_inner_def ebind_Inr elift_def eget_def getitem_def split: option.splits)

section \<open>Invariants of the connection store under a step\<close>

text \<open>
  What a property of the connection store has to satisfy to survive the operations on the links
  of some pairs of nodes: those that connect and adjust, and those that disconnect.
\<close>

locale link_growth =
  fixes Q :: "'c connection_store \<Rightarrow> bool" and pairs :: "(emulation_node \<times> emulation_node) set"
  assumes add: "Q st \<Longrightarrow> (nx, ny) \<in> pairs \<Longrightarrow> Q (add_connection st nx ny ix iy c True lq)"
    and up: "Q st \<Longrightarrow> (nx, ny) \<in> pairs \<Longrightarrow> Q (snd (change_connection_state st nx ny ix iy True))"
    and adjusted: "Q st \<Longrightarrow> (nx, ny) \<in> pairs \<Longrightarrow> Q (snd (update_link_quality st nx ny ix iy lq))"
begin

definition QS :: "('c, 'w) sim \<Rightarrow> bool" where "QS s \<longleftrightarrow> Q (nm_connection_store s)"

lemma QS_in_world: "keeps QS (in_world op)"
  by (simp add: keeps_def in_world_def QS_def case_prod_beta Let_def)

lemma QS_in_store: "(\<And>st. Q st \<Longrightarrow> Q (snd (op st))) \<Longrightarrow> keeps QS (in_store op)"
  by (simp add: keeps_def in_store_def QS_def case_prod_beta Let_def)

lemma QS_after_link:
  "(nx, ny) \<in> pairs \<Longrightarrow> keeps QS (nm_after_link_initial_start env linked sw c nx ny ix iy info act)"
  unfolding nm_after_link_initial_start_def
  by (cases linked) (auto simp: ewhen_def intro!: keeps_intros QS_in_world QS_in_store add)

lemma QS_link_up: "(nx, ny) \<in> pairs \<Longrightarrow> keeps QS (nm_link_up env c lq nx ny ix iy info)"
  unfolding nm_link_up_def by (intro keeps_ebind QS_in_store QS_in_world up)

lemma QS_adjust: "(nx, ny) \<in> pairs \<Longrightarrow> keeps QS (adjust_link_quality env says lq nx ny info c ix iy)"
  unfolding adjust_link_quality_def nm_after_link_quality_adjustment_def
  by (intro keeps_ebind keeps_eget keeps_elift QS_in_store QS_in_world adjusted)

lemma QS_connect_to_emu_node: "(v, e) \<in> pairs \<Longrightarrow> keeps QS (connect_to_emu_node env v e)"
  unfolding connect_to_emu_node_def by (intro keeps_intros QS_in_world QS_after_link)

lemma QS_connect_pair:
  assumes "(nx, ny) \<in> pairs" and "is_central_node nx \<noteq> is_central_node ny \<Longrightarrow> (ny, nx) \<in> pairs"
  shows "keeps QS (connect_pair env says lq nx ny ix iy info)"
  unfolding connect_pair_def Let_def
  using assms by (auto intro!: keeps_intros QS_in_world QS_after_link QS_link_up QS_connect_to_emu_node)

lemma QS_connect_loop:
  assumes "(nx, ny) \<in> pairs" and "is_central_node nx \<noteq> is_central_node ny \<Longrightarrow> (ny, nx) \<in> pairs"
  shows "keeps QS (connect_loop env says lq nx ny ifs info)"
proof (induction ifs arbitrary: info)
  case (Cons p ifs)
  then show ?case by (cases p) (auto intro!: keeps_ebind QS_connect_pair assms)
qed (simp add: keeps_ereturn)

lemma QS_no_connection:
  assumes "(nx, ny) \<in> pairs" and "is_central_node nx \<noteq> is_central_node ny \<Longrightarrow> (ny, nx) \<in> pairs"
  shows "keeps QS (step_no_connection_yet env says lq nx ny info)"
  unfolding step_no_connection_yet_def Let_def
  by (intro keeps_intros QS_connect_loop assms) (auto split: option.splits intro!: keeps_intros QS_connect_loop assms)

lemma QS_connected_step:
  assumes "(nx, ny) \<in> pairs"
  shows "keeps QS (step_connection env True lq nx ny info)"
  unfolding step_connection_def step_active_def
  using assms by (auto intro!: keeps_intros QS_adjust split: option.splits list.splits prod.splits)

end

locale link_frame = link_growth +
  assumes down: "Q st \<Longrightarrow> (nx, ny) \<in> pairs \<Longrightarrow> Q (snd (change_connection_state st nx ny ix iy False))"
begin

lemma QS_step_connection:
  assumes "(nx, ny) \<in> pairs"
  shows "keeps QS (step_connection env says lq nx ny info)"
  unfolding step_connection_def step_active_def nm_link_down_def
  using assms
  by (auto intro!: keeps_intros QS_adjust QS_in_store QS_in_world down split: option.splits list.splits prod.splits)

lemma QS_step_nodes:
  assumes "(nx, ny) \<in> pairs" and "is_central_node nx \<noteq> is_central_node ny \<Longrightarrow> (ny, nx) \<in> pairs"
  shows "keeps QS (step_nodes env says lq nx ny)"
  unfolding step_nodes_def across_servers_def
  using assms
  by (auto intro!: keeps_intros QS_no_connection QS_step_connection QS_in_world split: option.splits)

end

interpretation link_stays: link_growth "\<lambda>st. cs_reachable st \<and> ref_at st True nk ik \<noteq> None" UNIV for nk ik
proof unfold_locales
  fix st :: "'c connection_store" and nx ny ix iy c lq
  assume st: "cs_reachable st \<and> ref_at st True nk ik \<noteq> None"
  then show "cs_reachable (add_connection st nx ny ix iy c True lq)
      \<and> ref_at (add_connection st nx ny ix iy c True lq) True nk ik \<noteq> None"
    using ref_at_add [OF reachable_wf, of st] by (simp add: reach_add)
  show "cs_reachable (snd (change_connection_state st nx ny ix iy True))
      \<and> ref_at (snd (change_connection_state st nx ny ix iy True)) True nk ik \<noteq> None"
    using st by (auto simp: ref_at_change intro: reach_change)
  show "cs_reachable (snd (update_link_quality st nx ny ix iy lq))
      \<and> ref_at (snd (update_link_quality st nx ny ix iy lq)) True nk ik \<noteq> None"
    using st by (auto intro: reach_update) (auto simp: update_link_quality_ref split: option.splits)
qed

lemma ref_at_update: "ref_at (snd (update_link_quality st nx ny ix iy lq)) = ref_at st"
  by (auto simp: update_link_quality_ref fun_eq_iff split: option.splits)

interpretation other_links: link_frame
  "\<lambda>st. cs_reachable st \<and> (\<forall>nk ik. \<not> same_nodes p nk \<longrightarrow> (ref_at st True nk ik \<noteq> None \<longleftrightarrow> A nk ik))"
  "{q. same_nodes p q}" for p A
proof unfold_locales
  fix st :: "'c connection_store" and nx ny ix iy c lq
  assume st: "cs_reachable st \<and> (\<forall>nk ik. \<not> same_nodes p nk \<longrightarrow> (ref_at st True nk ik \<noteq> None \<longleftrightarrow> A nk ik))"
    and "(nx, ny) \<in> {q. same_nodes p q}"
  then have other: "\<not> same_nodes p nk \<Longrightarrow> \<not> same_nodes (nx, ny) nk" for nk
    using node_dict.same_trans by blast
  show "cs_reachable (add_connection st nx ny ix iy c True lq)
    \<and> (\<forall>nk ik. \<not> same_nodes p nk \<longrightarrow> (ref_at (add_connection st nx ny ix iy c True lq) True nk ik \<noteq> None \<longleftrightarrow> A nk ik))"
    using st other by (auto simp: ref_at_add reachable_wf intro: reach_add)
  have "cs_reachable (snd (change_connection_state st nx ny ix iy now))
    \<and> (\<forall>nk ik. \<not> same_nodes p nk \<longrightarrow> (ref_at (snd (change_connection_state st nx ny ix iy now)) True nk ik \<noteq> None \<longleftrightarrow> A nk ik))" for now
    using st other by (auto simp: ref_at_change intro: reach_change)
  then show "cs_reachable (snd (change_connection_state st nx ny ix iy True))
    \<and> (\<forall>nk ik. \<not> same_nodes p nk \<longrightarrow> (ref_at (snd (change_connection_state st nx ny ix iy True)) True nk ik \<noteq> None \<longleftrightarrow> A nk ik))"
    and "cs_reachable (snd (change_connection_state st nx ny ix iy False))
    \<and> (\<forall>nk ik. \<not> same_nodes p nk \<longrightarrow> (ref_at (snd (change_connection_state st nx ny ix iy False)) True nk ik \<noteq> None \<longleftrightarrow> A nk ik))"
    by blast+
  show "cs_reachable (snd (update_link_quality st nx ny ix iy lq))
    \<and> (\<forall>nk ik. \<not> same_nodes p nk \<longrightarrow> (ref_at (snd (update_link_quality st nx ny ix iy lq)) True nk ik \<noteq> None \<longleftrightarrow> A nk ik))"
    using st by (auto simp: ref_at_update intro: reach_update)
qed

section \<open>The effect of a step on a pair of nodes\<close>

definition linked_in :: "('c, 'w) sim \<Rightarrow> emulation_node \<times> emulation_node \<Rightarrow> bool" where
  "linked_in s nk \<longleftrightarrow> (\<exists>ik. ref_at (nm_connection_store s) True nk ik \<noteq> None)"

text \<open>A backend that connects the nodes it is asked to connect, and nodes that have interfaces to connect.\<close>

definition backend_connects :: "('c, 's, 'w) sim_env \<Rightarrow> bool" where
  "backend_connects env \<longleftrightarrow> (\<forall>nx ny ix iy info act w l sw c w'.
     nb_before_link_start env nx ny ix iy info act w = (Inr (l, sw, c), w') \<longrightarrow> l)"

definition connectable :: "('c, 's, 'w) sim_env \<Rightarrow> emulation_node \<Rightarrow> emulation_node \<Rightarrow> bool" where
  "connectable env nx ny \<longleftrightarrow> (\<exists>(ix, iy) \<in> set (fst (se_interface_filter env (en_interfaces nx) (en_interfaces ny))).
     is_same_interface_type ix iy \<and> if_type ix \<noteq> Management \<and> if_type ix \<noteq> HubWiFi)"

lemma in_world_Inr: "in_world op s = (Inr x, s') \<Longrightarrow> nm_connection_store s' = nm_connection_store s"
  by (auto simp: in_world_def Let_def split: prod.splits)

lemma in_store_Inr: "in_store op s = (r, s') \<Longrightarrow> nm_connection_store s' = snd (op (nm_connection_store s))"
  by (auto simp: in_store_def Let_def split: prod.splits)

lemma connect_pair_links:
  assumes conn: "backend_connects env" and inv: "cs_reachable (nm_connection_store s)"
    and iface: "is_same_interface_type ix iy" "if_type ix \<noteq> Management" "if_type ix \<noteq> HubWiFi"
    and step: "connect_pair env True lq nx ny ix iy info s = (Inr info', s')"
  shows "ref_at (nm_connection_store s') True (nx, ny) (ix, iy) \<noteq> None"
proof (cases "get_connections_for_nodes_implicit (nm_connection_store s) nx ny ix iy")
  case (Some kn)
  then have "ref_at (nm_connection_store s) True (nx, ny) (ix, iy) \<noteq> None"
    using ref_at_False_reachable [OF inv] by (auto simp: implicit_ref split: if_splits)
  then have "link_stays.QS (nx, ny) (ix, iy) s" using inv unfolding link_stays.QS_def by blast
  then have "link_stays.QS (nx, ny) (ix, iy) s'"
    by (rule keepsD [OF link_stays.QS_connect_pair _ step, rotated -1]) simp_all
  then show ?thesis unfolding link_stays.QS_def by blast
next
  case None
  let ?info = "info\<lparr>is_central := False\<rparr>"
  have "node_class (if_type ix) \<noteq> node_class Management" using iface(2) node_class_inj by blast
  with step None iface obtain l sw c s1 s2 s3 where
    s1: "in_world (nb_before_link_start env nx ny ix iy ?info False) s = (Inr (l, sw, c), s1)"
    and s2: "nm_after_link_initial_start env l sw c nx ny ix iy ?info False s1 = (Inr (), s2)"
    and s3: "ewhen l (nm_link_up env c lq nx ny ix iy ?info) s2 = (Inr (), s3)" and s': "s' = s3"
    by (auto simp: connect_pair_def Let_def ebind_Inr eget_def ereturn_def)
  from s1 obtain w where "nb_before_link_start env nx ny ix iy ?info False (sm_world s) = (Inr (l, sw, c), w)"
    by (auto simp: in_world_def Let_def split: prod.splits)
  with conn have l: "l" unfolding backend_connects_def by blast
  have st1: "nm_connection_store s1 = nm_connection_store s" by (rule in_world_Inr [OF s1])
  from s2 l obtain s2' where "in_store (\<lambda>st. (Inr (), add_connection st nx ny ix iy c True None)) s1 = (Inr (), s2')"
      "in_world (nb_after_link_start env True sw c nx ny ix iy ?info False) s2' = (Inr (), s2)"
    by (auto simp: nm_after_link_initial_start_def ebind_Inr ewhen_def)
  then have st2: "nm_connection_store s2 = add_connection (nm_connection_store s) nx ny ix iy c True None"
    using in_store_Inr in_world_Inr st1 by (metis snd_conv)
  have s2_inv: "link_stays.QS (nx, ny) (ix, iy) s2"
    using inv ref_at_add [OF reachable_wf [OF inv]] node_dict.same_refl
    unfolding link_stays.QS_def st2 by (simp add: reach_add)
  have "link_stays.QS (nx, ny) (ix, iy) s3"
    by (rule keepsD [OF keeps_ewhen [OF link_stays.QS_link_up] s2_inv s3]) simp
  then show ?thesis unfolding s' link_stays.QS_def by blast
qed

lemma connect_loop_links:
  assumes conn: "backend_connects env" and inv: "cs_reachable (nm_connection_store s)"
    and iface: "is_same_interface_type ix iy" "if_type ix \<noteq> Management" "if_type ix \<noteq> HubWiFi"
    and step: "connect_loop env True lq nx ny pairs info s = (Inr info', s')" and mem: "(ix, iy) \<in> set pairs"
  shows "link_stays.QS (nx, ny) (ix, iy) s'"
  using inv step mem
proof (induction pairs arbitrary: info s)
  case (Cons p pairs)
  obtain jx jy where p: "p = (jx, jy)" by (cases p)
  from Cons.prems(2) obtain info1 s1 where s1: "connect_pair env True lq nx ny jx jy info s = (Inr info1, s1)"
    and rest: "connect_loop env True lq nx ny pairs info1 s1 = (Inr info', s')"
    by (auto simp: p ebind_Inr)
  have inv1: "cs_reachable (nm_connection_store s1)"
    using keepsD [OF keeps_connect_pair [of "sm_nodes s" "sm_current_step s" "sm_distance_matrix s" "sm_distance_matrix_hubwifi s"] _ s1]
      Cons.prems(1) by (simp add: links_inv_def)
  show ?case
  proof (cases "(ix, iy) = (jx, jy)")
    case True
    then have "link_stays.QS (nx, ny) (ix, iy) s1"
      using connect_pair_links [OF conn Cons.prems(1), of jx jy] s1 iface inv1
      unfolding link_stays.QS_def by blast
    then show ?thesis by (rule keepsD [OF link_stays.QS_connect_loop _ rest, rotated -1]) simp_all
  next
    case False
    then show ?thesis using Cons.IH [OF inv1 rest] Cons.prems(3) p by auto
  qed
qed simp

text \<open>The loop that takes the links of a pair of nodes down.\<close>

lemma down_loop:
  assumes "cs_reachable (nm_connection_store s)"
    and "efor vals (step_active env False lq nx ny info) s = (Inr (), s')"
  shows "cs_reachable (nm_connection_store s') \<and> (\<forall>nk ik. ref_at (nm_connection_store s') True nk ik \<noteq> None \<longleftrightarrow>
     ref_at (nm_connection_store s) True nk ik \<noteq> None \<and> \<not> (same_nodes (nx, ny) nk \<and> [fst ik, snd ik] \<in> fst ` set vals))"
  using assms
proof (induction vals arbitrary: s)
  case Nil
  then show ?case by (simp add: ereturn_def)
next
  case (Cons item vals)
  from Cons.prems(2) obtain s1 where s1: "step_active env False lq nx ny info item s = (Inr (), s1)"
    and rest: "efor vals (step_active env False lq nx ny info) s1 = (Inr (), s')"
    by (auto simp: ebind_Inr)
  from s1 obtain ix iy ref where item: "item = ([ix, iy], ref)"
    by (auto simp: step_active_def eraise_def split: prod.splits list.splits)
  with s1 obtain s1' where
    "in_store (\<lambda>st. change_connection_state st nx ny ix iy False) s = (Inr s1', s1) \<or>
     (\<exists>b s2 c. in_store (\<lambda>st. change_connection_state st nx ny ix iy False) s = (Inr b, s2)
        \<and> in_world (nb_link_down env c lq nx ny ix iy info) s2 = (Inr (), s1))"
    by (auto simp: step_active_def nm_link_down_def ebind_Inr eget_def)
  then have st1: "nm_connection_store s1 = snd (change_connection_state (nm_connection_store s) nx ny ix iy False)"
    using in_store_Inr in_world_Inr by metis
  have inv1: "cs_reachable (nm_connection_store s1)" unfolding st1 using Cons.prems(1) by (rule reach_change)
  have ref1: "ref_at (nm_connection_store s1) True nk ik =
      (if same_nodes (nx, ny) nk \<and> ik = (ix, iy) then None else ref_at (nm_connection_store s) True nk ik)" for nk ik
    unfolding st1 using ref_at_change [OF Cons.prems(1)] by simp
  show ?case using Cons.IH [OF inv1 rest] by (auto simp: ref1 item)
qed

lemma nic_key_eq_inj: "nic_key_eq ks = nic_key_eq ks' \<Longrightarrow> ks = ks'"
proof -
  have "inj eq__comp_attrs" by (rule injI) (simp add: interface_eq_iff [unfolded interface_eq_def])
  then show "nic_key_eq ks = nic_key_eq ks' \<Longrightarrow> ks = ks'" by (simp add: nic_key_eq_def inj_map_eq_map)
qed

lemma ref_at_in_nic:
  assumes "ref_at st True nk ik \<noteq> None" and "node_get (cs_active st) nk = Some vals"
  shows "[fst ik, snd ik] \<in> fst ` set vals"
proof -
  have "kget nic_key_eq vals [fst ik, snd ik] \<noteq> None"
    using assms by (simp add: ref_at_def explicit_defs tud_get_def nic_get_key_def)
  then obtain v k' where "(k', v) \<in> set vals" "nic_key_eq k' = nic_key_eq [fst ik, snd ik]"
    by (auto dest: kget_SomeD)
  then show ?thesis using nic_key_eq_inj by force
qed

lemma step_connection_down:
  assumes inv: "cs_reachable (nm_connection_store s)" and step: "step_connection env False lq nx ny info s = (Inr (), s')"
  shows "\<not> linked_in s' (nx, ny)"
proof (cases "node_get (cs_active (nm_connection_store s)) (nx, ny)")
  case None
  then have "node_get (cs_not_active (nm_connection_store s)) (nx, ny) = None"
    using reachable_not_active [OF inv] by simp
  then have "s' = s" using step None by (simp add: step_connection_def ebind_def eget_def ereturn_def explicit_defs)
  then show ?thesis using None by (simp add: linked_in_def ref_at_def explicit_defs)
next
  case (Some vals)
  then have "efor vals (step_active env False lq nx ny info) s = (Inr (), s')"
    using step by (simp add: step_connection_def ebind_def eget_def explicit_defs)
  then show ?thesis
    using down_loop [OF inv, of vals] ref_at_in_nic [OF _ Some] node_dict.same_refl [of "(nx, ny)"]
    unfolding linked_in_def by blast
qed

lemma links_inv_of: "cs_reachable (nm_connection_store s) \<Longrightarrow>
  links_inv (sm_nodes s) (sm_current_step s) (sm_distance_matrix s) (sm_distance_matrix_hubwifi s) s"
  by (simp add: links_inv_def)

lemma no_connection_links:
  assumes conn: "backend_connects env" "connectable env nx ny" and inv: "cs_reachable (nm_connection_store s)"
    and step: "step_no_connection_yet env True lq nx ny info s = (Inr info', s')"
  shows "\<exists>ik. link_stays.QS (nx, ny) ik s'"
proof -
  obtain pairs err where f: "se_interface_filter env (en_interfaces nx) (en_interfaces ny) = (pairs, err)" by fastforce
  obtain ix iy where i: "(ix, iy) \<in> set pairs" "is_same_interface_type ix iy" "if_type ix \<noteq> Management" "if_type ix \<noteq> HubWiFi"
    using conn(2) f by (auto simp: connectable_def)
  from step f obtain info1 where "connect_loop env True lq nx ny pairs info s = (Inr info1, s')"
    by (auto simp: step_no_connection_yet_def ebind_Inr ereturn_def eraise_def split: option.splits)
  then show ?thesis using connect_loop_links [OF conn(1) inv i(2-4) _ i(1)] by blast
qed

lemma step_nodes_links:
  assumes conn: "backend_connects env" "connectable env nx ny" and inv: "cs_reachable (nm_connection_store s)"
    and step: "step_nodes env says lq nx ny s = (Inr (), s')"
  shows "linked_in s' (nx, ny) \<longleftrightarrow> says"
proof (cases "\<not> says \<and> (node_get (cs_active (nm_connection_store s)) (nx, ny) = None
    \<or> node_get (cs_active (nm_connection_store s)) (nx, ny) = Some [])")
  case True
  then have "s' = s" using step by (auto simp: step_nodes_def ebind_Inr eget_def ereturn_def explicit_defs)
  then show ?thesis using True by (auto simp: linked_in_def ref_at_def explicit_defs tud_get_def)
next
  case False
  from step False obtain i1 s1 i2 s2 where
    s1: "across_servers env nx ny \<lparr>is_remote_conn = False, is_central = False, is_mgmt = False\<rparr> s = (Inr i1, s1)"
    and s2: "step_no_connection_yet env says lq nx ny i1 s1 = (Inr i2, s2)"
    and s3: "step_connection env says lq nx ny i2 s2 = (Inr (), s')"
    unfolding step_nodes_def ebind_Inr eget_def explicit_defs by (auto simp: ebind_Inr)
  have inv1: "cs_reachable (nm_connection_store s1)"
    using keepsD [OF keeps_across_servers links_inv_of [OF inv] s1] by (simp add: links_inv_def)
  have inv2: "cs_reachable (nm_connection_store s2)"
    using keepsD [OF keeps_no_connection links_inv_of [OF inv1] s2] by (simp add: links_inv_def)
  show ?thesis
  proof (cases says)
    case True
    then obtain ik where "link_stays.QS (nx, ny) ik s2"
      using no_connection_links [OF conn inv1, of lq i1 i2 s2] s2 by auto
    moreover have "step_connection env True lq nx ny i2 s2 = (Inr (), s')" using s3 True by simp
    ultimately have "link_stays.QS (nx, ny) ik s'"
      using keepsD [OF link_stays.QS_connected_step] by blast
    then show ?thesis using True unfolding link_stays.QS_def linked_in_def by blast
  next
    case False
    then show ?thesis using step_connection_down [OF inv2] s3 by simp
  qed
qed

lemma step_nodes_frame:
  assumes inv: "cs_reachable (nm_connection_store s)" and step: "step_nodes env says lq nx ny s = (r, s')"
    and ids: "en_id nx \<noteq> en_id ny" and other: "\<not> same_nodes (nx, ny) nk"
  shows "linked_in s' nk \<longleftrightarrow> linked_in s nk"
proof -
  let ?A = "\<lambda>nk ik. ref_at (nm_connection_store s) True nk ik \<noteq> None"
  have "same_nodes (nx, ny) (nx, ny)" by (rule node_dict.same_refl)
  moreover have "same_nodes (nx, ny) (ny, nx)" using ids by (intro same_nodes_swap) simp
  ultimately have "keeps (other_links.QS (nx, ny) ?A) (step_nodes env says lq nx ny)"
    by (intro other_links.QS_step_nodes) simp_all
  moreover have "other_links.QS (nx, ny) ?A s" using inv unfolding other_links.QS_def by blast
  ultimately have "other_links.QS (nx, ny) ?A s'" using step by (rule keepsD)
  then show ?thesis using other unfolding other_links.QS_def linked_in_def by blast
qed

section \<open>The network follows the distance matrix\<close>

definition nodes_wf :: "(int, emulation_node) dict \<Rightarrow> bool" where
  "nodes_wf N \<longleftrightarrow> (\<forall>i n. dget N i = Some n \<longrightarrow> en_id n = i)
     \<and> (\<forall>i n j m. dget N i = Some n \<longrightarrow> dget N j = Some m \<longrightarrow> node_name n = node_name m \<longrightarrow> i = j)"

lemma same_nodes_ids:
  assumes "nodes_wf N" "dget N x = Some nx" "dget N y = Some ny" "dget N u = Some nu" "dget N v = Some nv" "x < y" "u < v"
    and "same_nodes (nx, ny) (nu, nv)"
  shows "x = u \<and> y = v"
proof -
  have "en_id nx < en_id ny" "en_id nu < en_id nv" using assms by (auto simp: nodes_wf_def)
  then have "node_name nx = node_name nu" "node_name ny = node_name nv"
    using assms(8) by (auto simp: same_nodes_def node_key_eq_def node_get_key_def nodes_sorted_pair split: if_splits)
  then show ?thesis using assms unfolding nodes_wf_def by blast
qed

text \<open>The link between two nodes is up exactly if the model calls them connected at that distance.\<close>

definition connects :: "('c, 's, 'w) sim_env \<Rightarrow> rat \<Rightarrow> bool" where
  "connects env d \<longleftrightarrow> (\<exists>lq. se_link_quality env d = Inr (True, lq))"

definition tracked :: "('c, 's, 'w) sim_env \<Rightarrow> (int \<times> int) \<times> rat \<Rightarrow> ('c, 'w) sim \<Rightarrow> bool" where
  "tracked env entry s \<longleftrightarrow> (\<exists>nx ny. dget (sm_nodes s) (fst (fst entry)) = Some nx \<and> dget (sm_nodes s) (snd (fst entry)) = Some ny
     \<and> (linked_in s (nx, ny) \<longleftrightarrow> connects env (snd entry)))"

definition all_connectable :: "('c, 's, 'w) sim_env \<Rightarrow> (int, emulation_node) dict \<Rightarrow> bool" where
  "all_connectable env N \<longleftrightarrow> (\<forall>nx \<in> snd ` set N. \<forall>ny \<in> snd ` set N. connectable env nx ny)"

lemma step_inner_tracked:
  assumes env: "backend_connects env" "all_connectable env N" and inv: "links_inv N k m h s"
    and step: "step_inner env (x, y) d s = (Inr (), s')"
  shows "tracked env ((x, y), d) s'"
proof -
  obtain says lq nx ny where lq: "se_link_quality env d = Inr (says, lq)"
    and n: "dget (sm_nodes s) x = Some nx" "dget (sm_nodes s) y = Some ny"
    and st: "step_nodes env says lq nx ny s = (Inr (), s')"
    by (rule step_inner_Inr [OF step])
  have N: "sm_nodes s = N" and reach: "cs_reachable (nm_connection_store s)" using inv by (simp_all add: links_inv_def)
  have "connectable env nx ny"
    using env(2) n unfolding N all_connectable_def by (metis dget_SomeD image_eqI snd_conv)
  then have "linked_in s' (nx, ny) \<longleftrightarrow> says" using step_nodes_links [OF env(1) _ reach st] by blast
  moreover have "sm_nodes s' = N" using keepsD [OF keeps_step_inner inv step] by (simp add: links_inv_def)
  ultimately show ?thesis using n lq unfolding tracked_def connects_def N by auto
qed

lemma step_inner_frame:
  assumes wf: "nodes_wf N" and inv: "links_inv N k m h s" and step: "step_inner env (x, y) d s = (Inr (), s')"
    and lt: "x < y" "u < v" and other: "(u, v) \<noteq> (x, y)" and tr: "tracked env ((u, v), d') s"
  shows "tracked env ((u, v), d') s'"
proof -
  obtain says lq nx ny where n: "dget (sm_nodes s) x = Some nx" "dget (sm_nodes s) y = Some ny"
    and st: "step_nodes env says lq nx ny s = (Inr (), s')"
    by (rule step_inner_Inr [OF step])
  obtain nu nv where uv: "dget (sm_nodes s) u = Some nu" "dget (sm_nodes s) v = Some nv"
    and l: "linked_in s (nu, nv) \<longleftrightarrow> connects env d'"
    using tr by (auto simp: tracked_def)
  have N: "sm_nodes s = N" and reach: "cs_reachable (nm_connection_store s)" using inv by (simp_all add: links_inv_def)
  have "\<not> same_nodes (nx, ny) (nu, nv)"
    using same_nodes_ids [OF wf n [unfolded N] uv [unfolded N] lt] other by blast
  moreover have "en_id nx = x" "en_id ny = y" using wf n unfolding N nodes_wf_def by blast+
  ultimately have "linked_in s' (nu, nv) \<longleftrightarrow> linked_in s (nu, nv)" using step_nodes_frame [OF reach st] lt by simp
  moreover have "sm_nodes s' = N" using keepsD [OF keeps_step_inner inv step] by (simp add: links_inv_def)
  ultimately show ?thesis using uv l unfolding tracked_def N by auto
qed

lemma inner_loop_tracks:
  assumes env: "backend_connects env" "all_connectable env N" "nodes_wf N" and inv: "links_inv N k m h s"
    and L: "distinct (map fst L)" "\<forall>e \<in> set L. fst (fst e) < snd (fst e)"
    and step: "efor L (\<lambda>(xy, d). step_inner env xy d) s = (Inr (), s')"
  shows "links_inv N k m h s' \<and> (\<forall>e \<in> set L. tracked env e s')"
proof (rule efor_establishes [where I = "links_inv N k m h" and Q = "tracked env", OF step inv])
  fix e t t' assume e: "e \<in> set L" "links_inv N k m h t" "(case e of (xy, d) \<Rightarrow> step_inner env xy d) t = (Inr (), t')"
  obtain x y d where xyd: "e = ((x, y), d)" by (metis surj_pair)
  have st: "step_inner env (x, y) d t = (Inr (), t')" using e(3) xyd by simp
  show "links_inv N k m h t' \<and> tracked env e t'"
    using keepsD [OF keeps_step_inner e(2) st] step_inner_tracked [OF env(1,2) e(2) st] xyd by simp
next
  fix e f t t' assume e: "e \<in> set L" "f \<in> set L" "links_inv N k m h t" "tracked env e t"
      "(case f of (xy, d) \<Rightarrow> step_inner env xy d) t = (Inr (), t')" "e \<noteq> f"
  obtain x y d u v d' where ef: "e = ((u, v), d')" "f = ((x, y), d)" by (metis surj_pair)
  have "(u, v) \<noteq> (x, y)"
  proof
    assume "(u, v) = (x, y)"
    then have "fst e = fst f" using ef by simp
    then show False using L(1) e(1,2,6) unfolding distinct_map inj_on_def by blast
  qed
  moreover have "x < y" "u < v" using L(2) e(1,2) ef by auto
  ultimately show "tracked env e t'" using step_inner_frame [OF env(3) e(3)] e(4,5) ef by simp
qed (use L(1) in \<open>simp add: distinct_map\<close>)

lemma inner_loop_frame:
  assumes wf: "nodes_wf N" and inv: "links_inv N k m h s" and L: "\<forall>e \<in> set L. fst (fst e) < snd (fst e)"
    and step: "efor L (\<lambda>(xy, d). step_inner env xy d) s = (Inr (), s')"
    and uv: "u < v" "(u, v) \<notin> fst ` set L" and tr: "tracked env ((u, v), d') s"
  shows "tracked env ((u, v), d') s'"
  using inv L step uv(2) tr
proof (induction L arbitrary: s)
  case Nil
  then show ?case by (simp add: ereturn_def)
next
  case (Cons e L)
  obtain x y d where e: "e = ((x, y), d)" by (metis surj_pair)
  from Cons.prems(3) obtain s1 where s1: "step_inner env (x, y) d s = (Inr (), s1)"
    and rest: "efor L (\<lambda>(xy, d). step_inner env xy d) s1 = (Inr (), s')"
    by (auto simp: e ebind_Inr)
  have inv1: "links_inv N k m h s1" by (rule keepsD [OF keeps_step_inner Cons.prems(1) s1])
  have "tracked env ((u, v), d') s1"
    using step_inner_frame [OF wf Cons.prems(1) s1 _ uv(1)] Cons.prems(2,4,5) e by auto
  then show ?case using Cons.IH [OF inv1 _ rest] Cons.prems(2,4) by simp
qed

text \<open>Operations that touch neither the links nor the nodes.\<close>

definition same_links :: "('c, 'w) sim \<Rightarrow> ('c, 'w) sim \<Rightarrow> bool" where
  "same_links s0 s \<longleftrightarrow> nm_connection_store s = nm_connection_store s0 \<and> sm_nodes s = sm_nodes s0
     \<and> sm_current_step s = sm_current_step s0 \<and> sm_distance_matrix s = sm_distance_matrix s0
     \<and> sm_distance_matrix_hubwifi s = sm_distance_matrix_hubwifi s0"

lemma same_links_refl: "same_links s s"
  by (simp add: same_links_def)

lemma same_links_tracked: "same_links s0 s \<Longrightarrow> tracked env e s \<longleftrightarrow> tracked env e s0"
  by (simp add: same_links_def tracked_def linked_in_def)

lemma keeps_same_world: "keeps (same_links s0) (in_world op)"
  by (simp add: keeps_def in_world_def same_links_def case_prod_beta Let_def)

lemma same_links_ops:
  "keeps (same_links s0) (nm_before_simulation_step env k ns)"
  "keeps (same_links s0) (nm_after_simulation_step env k ns)"
  "keeps (same_links s0) (nm_before_distance_matrix_changed env diff full)"
  "keeps (same_links s0) (nm_after_distance_matrix_changed env diff full)"
  "keeps (same_links s0) (after_network_setup_done env)"
  unfolding nm_before_simulation_step_def nm_after_simulation_step_def nm_before_distance_matrix_changed_def
    nm_after_distance_matrix_changed_def after_network_setup_done_def ip_config_def
  by (intro keeps_intros keeps_same_world keeps_emodify; simp add: same_links_def)+

lemma matrix_changed_Inr:
  assumes "matrix_changed env diff full s = (Inr (), s')"
  obtains s1 s2 where "same_links s s1" "same_links s2 s'"
    and "efor (filter (\<lambda>((x, y), _). x < y) diff) (\<lambda>(xy, d). step_inner env xy d) s1 = (Inr (), s2)"
proof -
  from assms obtain s1 s2 s3 where s1: "nm_before_distance_matrix_changed env diff full s = (Inr (), s1)"
    and s2: "efor (filter (\<lambda>((x, y), _). x < y) diff) (\<lambda>(xy, d). step_inner env xy d) s1 = (Inr (), s2)"
    and s3: "nm_after_distance_matrix_changed env diff full s2 = (Inr (), s3)"
    and s4: "nm_after_simulation_step env (sm_current_step s3) (get_emulation_nodes s3) s3 = (Inr (), s')"
    unfolding matrix_changed_def by (auto simp: ebind_Inr eget_def)
  have "same_links s s1" by (rule keepsD [OF same_links_ops(3) same_links_refl s1])
  moreover have "same_links s2 s3" by (rule keepsD [OF same_links_ops(4) same_links_refl s3])
  then have "same_links s2 s'" by (rule keepsD [OF same_links_ops(2) _ s4])
  ultimately show ?thesis using that s2 by blast
qed

definition topology_inv :: "('c, 's, 'w) sim_env \<Rightarrow> ('c, 'w) sim \<Rightarrow> bool" where
  "topology_inv env s \<longleftrightarrow> cs_reachable (nm_connection_store s) \<and> nodes_wf (sm_nodes s) \<and> all_connectable env (sm_nodes s)
     \<and> dwf (sm_distance_matrix_hubwifi s)
     \<and> (\<forall>e \<in> set (sm_distance_matrix s). fst (fst e) < snd (fst e) \<longrightarrow> fst e \<notin> fst ` set (sm_distance_matrix_hubwifi s)
          \<longrightarrow> tracked env e s)"

lemma dwf_filter: "dwf d \<Longrightarrow> dwf (filter P d)"
  by (simp add: kwf_def distinct_map_filter comp_def)

lemma dupdate_mem:
  assumes "dwf d" "dwf e" "fst kv \<notin> fst ` set e"
  shows "kv \<in> set (dupdate d e) \<longleftrightarrow> kv \<in> set d" and "fst kv \<in> fst ` set (dupdate d e) \<longleftrightarrow> fst kv \<in> fst ` set d"
proof -
  have wf: "dwf (dupdate d e)" using assms(1) by simp
  have "dget e (fst kv) = None" using assms(3) by (simp add: dget_None_iff)
  then have get: "dget (dupdate d e) (fst kv) = dget d (fst kv)" using assms(2) by (simp add: dget_dupdate)
  show "kv \<in> set (dupdate d e) \<longleftrightarrow> kv \<in> set d"
    using dget_of_mem [OF wf, of "fst kv" "snd kv"] dget_of_mem [OF assms(1), of "fst kv" "snd kv"]
      dget_SomeD [of _ "fst kv"] get by (metis prod.collapse)
  show "fst kv \<in> fst ` set (dupdate d e) \<longleftrightarrow> fst kv \<in> fst ` set d"
    using get dget_None_iff [of "dupdate d e" "fst kv"] dget_None_iff [of d "fst kv"] by auto
qed

text \<open>Handling the changed entries establishes the links of all entries of the new matrix.\<close>

lemma changed_entries_tracked:
  assumes env: "backend_connects env" "all_connectable env (sm_nodes s)" "nodes_wf (sm_nodes s)"
    and reach: "cs_reachable (nm_connection_store s)" and wf: "dwf m" "dwf hub"
    and old: "\<forall>e \<in> set old. fst (fst e) < snd (fst e) \<longrightarrow> fst e \<notin> fst ` set hub \<longrightarrow> tracked env e s"
    and diff: "diff = filter (\<lambda>kv. kv \<notin> set old) m"
    and step: "efor (filter (\<lambda>((x, y), _). x < y) (dupdate diff hub)) (\<lambda>(xy, d). step_inner env xy d) s = (Inr (), s')"
    and e: "e \<in> set m" "fst (fst e) < snd (fst e)" "fst e \<notin> fst ` set hub"
  shows "tracked env e s'"
proof -
  let ?L = "filter (\<lambda>((x, y), _). x < y) (dupdate diff hub)"
  have wfd: "dwf diff" using wf(1) dwf_filter diff by blast
  have "dwf (dupdate diff hub)" using wfd by simp
  then have dist: "distinct (map fst ?L)" by (simp add: kwf_def comp_def distinct_map_filter)
  have lt: "\<forall>f \<in> set ?L. fst (fst f) < snd (fst f)" by auto
  have inv: "links_inv (sm_nodes s) (sm_current_step s) (sm_distance_matrix s) (sm_distance_matrix_hubwifi s) s"
    using reach by (rule links_inv_of)
  show ?thesis
  proof (cases "e \<in> set old")
    case False
    then have "e \<in> set diff" using e(1) diff by simp
    then have "e \<in> set ?L" using dupdate_mem(1) [OF wfd wf(2) e(3)] e(2) by (cases e) auto
    then show ?thesis using inner_loop_tracks [OF env inv dist lt step] by blast
  next
    case True
    have "fst e \<notin> fst ` set diff"
    proof
      assume "fst e \<in> fst ` set diff"
      then obtain d2 where d2: "(fst e, d2) \<in> set diff" by auto
      then have "(fst e, d2) \<in> set m" "(fst e, d2) \<notin> set old" using diff by auto
      moreover from this have "d2 = snd e"
        using dget_of_mem [OF wf(1), of "fst e" d2] dget_of_mem [OF wf(1), of "fst e" "snd e"] e(1) by simp
      ultimately show False using True by simp
    qed
    then have "fst e \<notin> fst ` set (dupdate diff hub)" using dupdate_mem(2) [OF wfd wf(2) e(3)] by blast
    then have "(fst (fst e), snd (fst e)) \<notin> fst ` set ?L" by auto
    then show ?thesis
      using inner_loop_frame [OF env(3) inv lt step e(2), of "snd e"] old True e(2,3) by simp
  qed
qed

lemma matrix_changed_tracked:
  assumes env: "backend_connects env" and inv: "topology_inv env s0" and s: "same_links (s0\<lparr>sm_distance_matrix := m\<rparr>) s"
    and wf: "dwf m"
    and diff: "diff = filter (\<lambda>kv. kv \<notin> set (sm_distance_matrix s0)) m"
    and step: "matrix_changed env (dupdate diff (sm_distance_matrix_hubwifi s)) full s = (Inr (), s')"
  shows "topology_inv env s' \<and> sm_distance_matrix s' = m \<and> sm_current_step s' = sm_current_step s0
    \<and> sm_distance_matrix_hubwifi s' = sm_distance_matrix_hubwifi s0"
proof -
  let ?hub = "sm_distance_matrix_hubwifi s"
  obtain s1 s2 where s1: "same_links s s1" and s2: "same_links s2 s'"
    and loop: "efor (filter (\<lambda>((x, y), _). x < y) (dupdate diff ?hub)) (\<lambda>(xy, d). step_inner env xy d) s1 = (Inr (), s2)"
    by (rule matrix_changed_Inr [OF step])
  have same: "nm_connection_store s1 = nm_connection_store s0" "sm_nodes s1 = sm_nodes s0" "?hub = sm_distance_matrix_hubwifi s0"
    "sm_distance_matrix s1 = m" "sm_distance_matrix_hubwifi s1 = ?hub" "sm_current_step s1 = sm_current_step s0"
    using s s1 by (simp_all add: same_links_def)
  have tr01: "tracked env e s1 \<longleftrightarrow> tracked env e s0" for e
    using same by (simp add: tracked_def linked_in_def)
  have reach: "cs_reachable (nm_connection_store s1)" using inv same by (simp add: topology_inv_def)
  have "links_inv (sm_nodes s0) (sm_current_step s0) m ?hub s2"
  proof -
    have "keeps (links_inv (sm_nodes s0) (sm_current_step s0) m ?hub) (efor (filter (\<lambda>((x, y), _). x < y) (dupdate diff ?hub)) (\<lambda>(xy, d). step_inner env xy d))"
      by (intro keeps_intros)
    moreover have "links_inv (sm_nodes s0) (sm_current_step s0) m ?hub s1" using reach by (simp add: links_inv_def same)
    ultimately show ?thesis using loop by (rule keepsD)
  qed
  then have s2': "cs_reachable (nm_connection_store s')" "sm_nodes s' = sm_nodes s0" "sm_distance_matrix s' = m"
      "sm_distance_matrix_hubwifi s' = ?hub" "sm_current_step s' = sm_current_step s0"
    using s2 by (simp_all add: links_inv_def same_links_def)
  have "tracked env e s'" if "e \<in> set m" "fst (fst e) < snd (fst e)" "fst e \<notin> fst ` set ?hub" for e
  proof -
    have "tracked env e s2"
    proof (rule changed_entries_tracked [OF env _ _ reach wf _ _ diff loop that])
      show "all_connectable env (sm_nodes s1)" "nodes_wf (sm_nodes s1)" "dwf ?hub"
        using inv same(2,3) by (simp_all add: topology_inv_def)
      show "\<forall>e \<in> set (sm_distance_matrix s0). fst (fst e) < snd (fst e) \<longrightarrow> fst e \<notin> fst ` set ?hub \<longrightarrow> tracked env e s1"
        using inv unfolding topology_inv_def same(3) tr01 by blast
    qed
    then show ?thesis using same_links_tracked [OF s2] by blast
  qed
  then show ?thesis using s2' inv same(3) by (simp add: topology_inv_def)
qed

text \<open>The director answers with a dict, or it raises.\<close>

definition director_ok :: "('c, 's, 'w) sim_env \<Rightarrow> bool" where
  "director_ok env \<longleftrightarrow> (\<forall>w m w'. se_simulate env w = (Inr (Some m), w') \<longrightarrow> dwf m)"

lemma handle_diff_changed:
  assumes "handle_diff env k m diff s = (Inr m', s')" "k = 0 \<or> diff \<noteq> []"
  shows "m' = dupdate m (sm_distance_matrix_hubwifi s)"
    and "matrix_changed env (dupdate diff (sm_distance_matrix_hubwifi s)) (dupdate m (sm_distance_matrix_hubwifi s)) s = (Inr (), s')"
  using assms by (auto simp: handle_diff_def ebind_Inr eget_def ereturn_def)

lemma handle_diff_unchanged:
  assumes "handle_diff env k m diff s = (Inr m', s')" "\<not> (k = 0 \<or> diff \<noteq> [])"
  shows "m' = m" and "s' = s"
  using assms by (auto simp: handle_diff_def ebind_Inr eget_def ereturn_def)

lemma handle_diff_topology:
  assumes env: "backend_connects env" and inv: "topology_inv env s0" and s: "same_links (s0\<lparr>sm_distance_matrix := m\<rparr>) s"
    and wf: "dwf m" and step: "handle_diff env k m (filter (\<lambda>kv. kv \<notin> set (sm_distance_matrix s0)) m) s = (Inr m', s')"
  shows "topology_inv env s' \<and> sm_distance_matrix s' = m \<and> sm_current_step s' = sm_current_step s0 \<and> dwf m'
    \<and> sm_distance_matrix_hubwifi s' = sm_distance_matrix_hubwifi s0 \<and> m' \<in> {m, dupdate m (sm_distance_matrix_hubwifi s0)}"
proof (cases "k = 0 \<or> filter (\<lambda>kv. kv \<notin> set (sm_distance_matrix s0)) m \<noteq> []")
  case True
  note changed = handle_diff_changed [OF step True]
  from matrix_changed_tracked [OF env inv s wf refl changed(2)] show ?thesis
    using changed(1) wf s by (simp add: same_links_def)
next
  case False
  note same = handle_diff_unchanged [OF step False]
  have sub: "set m \<subseteq> set (sm_distance_matrix s0)" using False by (auto simp: filter_empty_conv)
  have eqs: "nm_connection_store s = nm_connection_store s0" "sm_nodes s = sm_nodes s0" "sm_distance_matrix s = m"
    "sm_current_step s = sm_current_step s0" "sm_distance_matrix_hubwifi s = sm_distance_matrix_hubwifi s0"
    using s by (simp_all add: same_links_def)
  have tr: "tracked env e s \<longleftrightarrow> tracked env e s0" for e
    using eqs by (simp add: tracked_def linked_in_def)
  have "topology_inv env s"
    using inv sub unfolding topology_inv_def eqs tr by blast
  then show ?thesis using same eqs wf by simp
qed

lemma same_links_topology:
  assumes "same_links s0 s" "topology_inv env s0"
  shows "topology_inv env s"
proof -
  have eqs: "nm_connection_store s = nm_connection_store s0" "sm_nodes s = sm_nodes s0"
    "sm_distance_matrix s = sm_distance_matrix s0" "sm_distance_matrix_hubwifi s = sm_distance_matrix_hubwifi s0"
    using assms(1) by (simp_all add: same_links_def)
  show ?thesis
    using assms(2) unfolding topology_inv_def eqs same_links_tracked [OF assms(1), of env] by blast
qed

lemma apply_matrix_topology:
  assumes env: "backend_connects env" and inv: "topology_inv env s" and wf: "dwf m"
    and step: "apply_matrix env m s = (Inr m', s')"
  shows "topology_inv env s' \<and> dwf m' \<and> sm_distance_matrix s' = m \<and> sm_current_step s' = Suc (sm_current_step s)
    \<and> sm_distance_matrix_hubwifi s' = sm_distance_matrix_hubwifi s \<and> m' \<in> {m, dupdate m (sm_distance_matrix_hubwifi s)}"
proof -
  from step obtain s1 s2 s3 s4 diff where
    s1: "nm_before_simulation_step env (sm_current_step s) (get_emulation_nodes s) s = (Inr (), s1)"
    and s2: "get_distance_matrix_diff m s1 = (Inr diff, s2)"
    and s3: "handle_diff env (sm_current_step s) m diff s2 = (Inr m', s3)"
    and s4: "after_network_setup_done env s3 = (Inr (), s4)"
    and s': "s' = s4\<lparr>sm_current_step := sm_current_step s4 + 1\<rparr>"
    by (auto simp: apply_matrix_def ebind_Inr eget_def emodify_def ereturn_def)
  have same1: "same_links s s1" by (rule keepsD [OF same_links_ops(1) same_links_refl s1])
  have s2': "s2 = s1\<lparr>sm_distance_matrix := m\<rparr>" "diff = filter (\<lambda>kv. kv \<notin> set (sm_distance_matrix s)) m"
    using s2 same1 by (auto simp: get_distance_matrix_diff_def ebind_Inr eget_def emodify_def ereturn_def same_links_def)
  have "same_links (s\<lparr>sm_distance_matrix := m\<rparr>) s2" using same1 s2'(1) by (simp add: same_links_def)
  then have s3': "topology_inv env s3 \<and> sm_distance_matrix s3 = m \<and> sm_current_step s3 = sm_current_step s \<and> dwf m'
    \<and> sm_distance_matrix_hubwifi s3 = sm_distance_matrix_hubwifi s \<and> m' \<in> {m, dupdate m (sm_distance_matrix_hubwifi s)}"
    using handle_diff_topology [OF env inv _ wf s3 [unfolded s2'(2)]] by blast
  have same4: "same_links s3 s4" by (rule keepsD [OF same_links_ops(5) same_links_refl s4])
  then have "topology_inv env s4" using s3' same_links_topology by blast
  then have "topology_inv env s'" by (simp add: s' topology_inv_def tracked_def linked_in_def)
  then show ?thesis using s3' same4 s' by (simp add: same_links_def)
qed

text \<open>
  One step. \<open>carried\<close> relates the matrix handed to a step with the one the next step gets:
  the same, or the same with the hub distances added.
\<close>

definition carried :: "distance_matrix \<Rightarrow> distance_matrix option \<Rightarrow> distance_matrix option \<Rightarrow> bool" where
  "carried hub given next \<longleftrightarrow>
     (if given = None \<or> given = Some [] then next = given
      else next \<in> {given, Some (dupdate (the given) hub)})"

lemma obtain_matrix_Inr:
  assumes "obtain_matrix env given s = (Inr (Some m), s1)"
  shows "same_links s s1"
    and "given \<noteq> None \<Longrightarrow> given \<noteq> Some [] \<Longrightarrow> given = Some m"
    and "director_ok env \<Longrightarrow> \<forall>g. given = Some g \<longrightarrow> dwf g \<Longrightarrow> dwf m"
  using assms
  by (auto simp: obtain_matrix_def in_world_def ereturn_def same_links_def director_ok_def Let_def split: if_splits prod.splits)

lemma step_once_Inr:
  assumes "sim_step_once env given s = (Inr g', s')"
  obtains m s1 m' where "obtain_matrix env given s = (Inr (Some m), s1)" "apply_matrix env m s1 = (Inr m', s')"
    and "g' = (if given = None \<or> given = Some [] then given else Some m')"
proof -
  from assms obtain dm s1 where 1: "obtain_matrix env given s = (Inr dm, s1)"
    and 2: "(case dm of None \<Rightarrow> eraise ValueError
         | Some m \<Rightarrow> ebind (apply_matrix env m) (\<lambda>m'.
             ereturn (if given = None \<or> given = Some [] then given else Some m'))) s1 = (Inr g', s')"
    unfolding sim_step_once_def by (cases "se_director env") (auto simp: ebind_Inr eraise_def)
  from 2 obtain m where m: "dm = Some m" by (cases dm) (simp_all add: eraise_def)
  with 2 obtain m' where "apply_matrix env m s1 = (Inr m', s')"
    "g' = (if given = None \<or> given = Some [] then given else Some m')"
    by (simp only: option.case ebind_Inr ereturn_def) blast
  with that 1 m show ?thesis by blast
qed

lemma step_once_topology:
  assumes env: "backend_connects env" "director_ok env" and inv: "topology_inv env s"
    and given: "\<forall>m. given = Some m \<longrightarrow> dwf m" and step: "sim_step_once env given s = (Inr g', s')"
  shows "topology_inv env s' \<and> (\<forall>m. g' = Some m \<longrightarrow> dwf m) \<and> carried (sm_distance_matrix_hubwifi s) given g'
    \<and> (given \<noteq> None \<longrightarrow> given \<noteq> Some [] \<longrightarrow> given = Some (sm_distance_matrix s'))
    \<and> sm_distance_matrix_hubwifi s' = sm_distance_matrix_hubwifi s
    \<and> sm_current_step s' = Suc (sm_current_step s)"
proof -
  obtain m s1 m' where s1: "obtain_matrix env given s = (Inr (Some m), s1)"
    and s2: "apply_matrix env m s1 = (Inr m', s')"
    and g': "g' = (if given = None \<or> given = Some [] then given else Some m')"
    by (rule step_once_Inr [OF step])
  note obtained = obtain_matrix_Inr [OF s1]
  have same: "sm_distance_matrix_hubwifi s1 = sm_distance_matrix_hubwifi s" "sm_current_step s1 = sm_current_step s"
    using obtained(1) by (simp_all add: same_links_def)
  have "topology_inv env s1" by (rule same_links_topology [OF obtained(1) inv])
  note applied = apply_matrix_topology [OF env(1) this obtained(3) [OF env(2) given] s2]
  show ?thesis
  proof (cases "given = None \<or> given = Some []")
    case True
    then show ?thesis using applied g' given same by (auto simp: carried_def)
  next
    case False
    then have "given = Some m" using obtained(2) by blast
    then show ?thesis using applied g' False same by (auto simp: carried_def)
  qed
qed

text \<open>
  All steps of a call. The matrix object of the caller keeps its entries, apart from those of the
  hub.
\<close>

lemma step_loop_topology:
  assumes "backend_connects env" "director_ok env" "topology_inv env s" "\<forall>m. given = Some m \<longrightarrow> dwf m"
    and "sim_step_loop env steps given s = (Inr (), s')"
  shows "topology_inv env s' \<and> sm_current_step s' = sm_current_step s + steps
    \<and> sm_distance_matrix_hubwifi s' = sm_distance_matrix_hubwifi s
    \<and> (0 < steps \<longrightarrow> (\<forall>m e. given = Some m \<longrightarrow> e \<in> set m \<longrightarrow> fst e \<notin> fst ` set (sm_distance_matrix_hubwifi s)
         \<longrightarrow> e \<in> set (sm_distance_matrix s')))"
  using assms(3-5)
proof (induction steps arbitrary: given s)
  case 0
  then show ?case by (simp add: ereturn_def)
next
  case (Suc n)
  from Suc.prems(3) obtain g1 s1 where 1: "sim_step_once env given s = (Inr g1, s1)"
    and 2: "sim_step_loop env n g1 s1 = (Inr (), s')" by (auto simp: ebind_Inr)
  note once = step_once_topology [OF assms(1,2) Suc.prems(1,2) 1]
  have rest: "topology_inv env s' \<and> sm_current_step s' = sm_current_step s1 + n
    \<and> sm_distance_matrix_hubwifi s' = sm_distance_matrix_hubwifi s1
    \<and> (0 < n \<longrightarrow> (\<forall>m e. g1 = Some m \<longrightarrow> e \<in> set m \<longrightarrow> fst e \<notin> fst ` set (sm_distance_matrix_hubwifi s1)
         \<longrightarrow> e \<in> set (sm_distance_matrix s')))"
    using Suc.IH [OF _ _ 2] once by blast
  have "e \<in> set (sm_distance_matrix s')"
    if given: "given = Some m" and e: "e \<in> set m" "fst e \<notin> fst ` set (sm_distance_matrix_hubwifi s)" for m e
  proof (cases n)
    case 0
    then have "s' = s1" using 2 by (simp add: ereturn_def)
    then show ?thesis using once given e by auto
  next
    case (Suc k)
    have hub: "dwf (sm_distance_matrix_hubwifi s)" "dwf m"
      using Suc.prems(1,2) given by (auto simp: topology_inv_def)
    have "g1 = Some m \<or> g1 = Some (dupdate m (sm_distance_matrix_hubwifi s))"
      using once given e(1) by (auto simp: carried_def split: if_splits)
    then obtain m1 where m1: "g1 = Some m1" "e \<in> set m1"
      using dupdate_mem(1) [OF hub(2,1) e(2)] e(1) by blast
    have "fst e \<notin> fst ` set (sm_distance_matrix_hubwifi s1)" using once e(2) by simp
    moreover have "0 < n" using Suc by simp
    ultimately show ?thesis using rest m1 by blast
  qed
  then show ?case using rest once by simp
qed

section \<open>Properties of a call of \<open>step\<close>\<close>

lemma efinally_Inr: "efinally m f s = (Inr x, s') \<longleftrightarrow> (\<exists>s1. m s = (Inr x, s1) \<and> s' = f s1)"
  by (auto simp: efinally_def Let_def split: prod.splits)

lemma topology_inv_event [simp]: "topology_inv env (s\<lparr>sm_connected_event := b\<rparr>) = topology_inv env s"
  by (simp add: topology_inv_def tracked_def linked_in_def)

lemma sim_step_topology:
  assumes "backend_connects env" "director_ok env" "topology_inv env s" "\<forall>m. given = Some m \<longrightarrow> dwf m"
    and "sim_step env steps given s = (Inr (), s')"
  shows "topology_inv env s' \<and> sm_current_step s' = sm_current_step s + steps
    \<and> sm_distance_matrix_hubwifi s' = sm_distance_matrix_hubwifi s
    \<and> (0 < steps \<longrightarrow> (\<forall>m e. given = Some m \<longrightarrow> e \<in> set m \<longrightarrow> fst e \<notin> fst ` set (sm_distance_matrix_hubwifi s)
         \<longrightarrow> e \<in> set (sm_distance_matrix s')))"
proof -
  from assms(5) obtain s1 where loop: "sim_step_loop env steps given s = (Inr (), s1)" and s': "s' = s1\<lparr>sm_connected_event := True\<rparr>"
    by (auto simp: sim_step_def efinally_Inr)
  show ?thesis using step_loop_topology [OF assms(1-4) loop] by (simp add: s')
qed

text \<open>
  The example: three nodes with one mesh interface each, the range model, connections that are
  plain numbers and a backend that connects whatever it is asked to.
\<close>

definition ex_mesh_node :: "int \<Rightarrow> emulation_node" where
  "ex_mesh_node i = \<lparr>en_id = i, en_name = None, en_kind = RealNode, en_interfaces = [\<lparr>if_type = Mesh, nr_host_interface = 1\<rparr>]\<rparr>"

definition ex_sim_env :: "(nat, unit, unit) sim_env" where
  "ex_sim_env = \<lparr>se_link_quality = distance_2_link_quality range_link_quality,
     se_initial_link_quality = snd (get_initial_link_quality None None),
     se_interface_filter = equal_interface_numbers, se_director = True,
     se_added = (\<lambda>new old. filter (\<lambda>k. k \<notin> set old) new), se_simulate = ereturn (Some []),
     se_among_servers = (\<lambda>_ _. False), se_remote_ip = (\<lambda>_ _. None), se_auto_ipv4 = False, se_connectivity_check = False,
     se_configure = (\<lambda>_ _. ereturn ()), se_check = (\<lambda>_. ereturn ()), se_configurator_reset = ereturn (),
     se_clear_progress = ereturn (), se_post_network = (\<lambda>_. ereturn ()),
     nb_before_step = (\<lambda>_ _. ereturn ()), nb_after_step = (\<lambda>_ _. ereturn ()),
     nb_before_matrix = (\<lambda>_ _. ereturn ()), nb_after_matrix = (\<lambda>_ _. ereturn ()),
     nb_before_link_start = (\<lambda>_ _ _ _ _ _. ereturn (True, (), 7)),
     nb_after_link_start = (\<lambda>_ _ _ _ _ _ _ _ _. ereturn ()),
     nb_before_adjustment = (\<lambda>_ _ _ _ _ _ _ _. ereturn ()), nb_after_adjustment = (\<lambda>_ _ _ _ _ _ _ _. ereturn ()),
     nb_link_up = (\<lambda>_ _ _ _ _ _ _. ereturn ()), nb_link_down = (\<lambda>_ _ _ _ _ _ _. ereturn ()),
     nb_across_servers = (\<lambda>_ _ _. ereturn ())\<rparr>"

definition ex_sim :: "(nat, unit) sim" where
  "ex_sim = (sim_reset ())\<lparr>sm_nodes := [(1, ex_mesh_node 1), (2, ex_mesh_node 2), (3, ex_mesh_node 3)]\<rparr>"

definition ex_near :: distance_matrix where "ex_near = [((1, 2), 10), ((1, 3), 100), ((2, 3), 5)]"
definition ex_far :: distance_matrix where "ex_far = [((1, 2), 100), ((1, 3), 20), ((2, 3), 5)]"

lemma ex_env_connects: "backend_connects ex_sim_env" "director_ok ex_sim_env"
  by (simp_all add: backend_connects_def director_ok_def ex_sim_env_def ereturn_def kwf_def)

lemma ex_nodes_connectable:
  "connectable ex_sim_env (ex_mesh_node i) (ex_mesh_node j)"
  by (simp add: connectable_def ex_sim_env_def ex_mesh_node_def equal_interface_numbers_def is_same_interface_type_def
      filter_normal_interfaces_def INTERFACE_NORMAL_CLASSES_TYPES_def filter_type_def Let_def is_management_interface_def is_hubwifi_interface_def)

lemma ex_sim_topology: "topology_inv ex_sim_env ex_sim"
proof -
  have "node_name (ex_mesh_node 1) = ''1''" "node_name (ex_mesh_node 2) = ''2''" "node_name (ex_mesh_node 3) = ''3''"
    by code_simp+
  then have "nodes_wf (sm_nodes ex_sim)"
    by (auto simp: nodes_wf_def ex_sim_def ex_mesh_node_def split: if_splits)
  moreover have "all_connectable ex_sim_env (sm_nodes ex_sim)"
    using ex_nodes_connectable by (auto simp: all_connectable_def ex_sim_def)
  ultimately show ?thesis
    by (auto simp: topology_inv_def ex_sim_def sim_reset_def kwf_def intro: cs_reachable.intros)
qed

lemma ex_run:
  "fst (sim_step ex_sim_env 1 (Some ex_near) ex_sim) = Inr ()"
  "fst (sim_step ex_sim_env 1 (Some ex_far) (snd (sim_step ex_sim_env 1 (Some ex_near) ex_sim))) = Inr ()"
  by code_simp+

lemma ex_matrices: "dwf ex_near" "dwf ex_far" "ex_near \<noteq> []"
  by (simp_all add: kwf_def ex_near_def ex_far_def)



section \<open>Every path of a call\<close>

abbreviation store_reachable :: "('c, 'w) sim \<Rightarrow> bool" where
  "store_reachable s \<equiv> cs_reachable (nm_connection_store s)"

lemma keeps_reachable_of_links:
  fixes op :: "(('c, 'w) sim, 'a) eff"
  assumes "\<And>N k m h. keeps (links_inv N k m h) op"
  shows "keeps store_reachable op"
  unfolding keeps_def
proof (intro allI impI)
  fix s :: "('c, 'w) sim" assume "store_reachable s"
  then have "links_inv (sm_nodes s) (sm_current_step s) (sm_distance_matrix s) (sm_distance_matrix_hubwifi s) s"
    by (rule links_inv_of)
  then show "store_reachable (snd (op s))" using assms unfolding keeps_def links_inv_def by blast
qed

lemma keeps_reachable_of_same:
  fixes op :: "(('c, 'w) sim, 'a) eff"
  assumes "\<And>s0. keeps (same_links s0) op"
  shows "keeps store_reachable op"
  unfolding keeps_def
proof (intro allI impI)
  fix s :: "('c, 'w) sim" assume "store_reachable s"
  then show "store_reachable (snd (op s))"
    using assms [of s] same_links_refl [of s] unfolding keeps_def same_links_def by metis
qed

lemma keeps_reachable_emodify:
  "(\<And>s. nm_connection_store (f s) = nm_connection_store s) \<Longrightarrow> keeps store_reachable (emodify f)"
  by (simp add: keeps_emodify)

lemma keeps_reachable_step_inner: "keeps store_reachable (step_inner env xy d)"
  by (rule keeps_reachable_of_links) (intro keeps_intros)

lemma keeps_reachable_apply: "keeps store_reachable (apply_matrix env m)"
proof -
  note same = same_links_ops [THEN keeps_reachable_of_same]
  have inner: "keeps store_reachable (efor xs (\<lambda>p. step_inner env (fst p) (snd p)))" for xs
    by (rule keeps_efor) (rule keeps_reachable_step_inner)
  have changed: "keeps store_reachable (matrix_changed env diff full)" for diff full
    unfolding matrix_changed_def case_prod_beta by (intro keeps_ebind keeps_eget same inner)
  have "keeps store_reachable (handle_diff env k m diff)" for k diff
    unfolding handle_diff_def by (intro keeps_ebind keeps_eget keeps_if keeps_ereturn changed)
  moreover have "keeps store_reachable (get_distance_matrix_diff m)"
    unfolding get_distance_matrix_diff_def by (intro keeps_ebind keeps_eget keeps_ereturn keeps_reachable_emodify) simp
  moreover have "keeps store_reachable (emodify (\<lambda>s. s\<lparr>sm_current_step := sm_current_step s + 1\<rparr>))"
    by (rule keeps_reachable_emodify) simp
  ultimately show ?thesis
    unfolding apply_matrix_def case_prod_beta by (intro keeps_ebind keeps_eget keeps_ereturn same)
qed

lemma keeps_reachable_step: "keeps store_reachable (sim_step env steps given)"
proof -
  have "keeps store_reachable (obtain_matrix env g)" for g
    unfolding obtain_matrix_def by (intro keeps_if keeps_ereturn keeps_reachable_of_same keeps_same_world)
  then have once: "keeps store_reachable (sim_step_once env g)" for g
    unfolding sim_step_once_def
    by (auto intro!: keeps_ebind keeps_eraise keeps_ereturn keeps_reachable_apply split: option.split)
  have "keeps store_reachable (sim_step_loop env steps g)" for g
    by (induction steps arbitrary: g) (auto intro: keeps_ereturn keeps_ebind once)
  then show ?thesis unfolding sim_step_def by (rule keeps_efinally) simp
qed

text \<open>C15: whatever a call of \<open>step\<close> does, also when the link quality model, the backend, the director
  or a shell raises in the middle of it, the threads waiting for the network to be set up are released
  and the connection store is one that its own operations can produce, so its two maps stay consistent.
  Without a movement director, a call that has a step to do raises \<open>NoMovementDirector\<close> and leaves
  the links as they were.
\<close>

theorem step_every_path:
  assumes "cs_reachable (nm_connection_store s)" "sim_step env steps given s = (r, s')"
  shows "sm_connected_event s' \<and> cs_reachable (nm_connection_store s') \<and> cs_wf (nm_connection_store s')
    \<and> (\<not> se_director env \<and> 0 < steps \<longrightarrow> r = Inl NoMovementDirector \<and> nm_connection_store s' = nm_connection_store s)"
proof -
  have "store_reachable s'" using keepsD [OF keeps_reachable_step assms] .
  moreover have "sm_connected_event s'"
    using assms(2) by (auto simp: sim_step_def efinally_def Let_def split: prod.splits)
  moreover have "r = Inl NoMovementDirector \<and> nm_connection_store s' = nm_connection_store s"
    if "\<not> se_director env" "0 < steps"
  proof (cases steps)
    case (Suc n)
    then show ?thesis using that(1) assms(2)
      by (auto simp: sim_step_def efinally_def sim_step_once_def ebind_def eraise_def)
  qed (use that in simp)
  ultimately show ?thesis using reachable_wf by blast
qed

theorem step_every_path_witness:
  "\<exists>s'. sim_step (ex_sim_env\<lparr>nb_link_up := \<lambda>_ _ _ _ _ _ _. eraise RuntimeError\<rparr>) 1 (Some ex_near) ex_sim = (Inl RuntimeError, s')
     \<and> sm_connected_event s' \<and> cs_wf (nm_connection_store s')"
proof -
  let ?env = "ex_sim_env\<lparr>nb_link_up := \<lambda>_ _ _ _ _ _ _. eraise RuntimeError\<rparr>"
  have "fst (sim_step ?env 1 (Some ex_near) ex_sim) = Inl RuntimeError" by code_simp
  then obtain s' where s': "sim_step ?env 1 (Some ex_near) ex_sim = (Inl RuntimeError, s')" by (metis prod.collapse)
  have "cs_reachable (nm_connection_store ex_sim)" using ex_sim_topology by (simp add: topology_inv_def)
  from step_every_path [OF this s'] s' show ?thesis by blast
qed

end
