(* ===== verification/Device_Names.thy ===== *)
theory Device_Names
  imports Nodes
begin

text \<open>
  Names of host devices: how the bridged backend names tap devices, bridges and tunnels
  (\<open>bridged/NetworkBackendBridged.py\<close>, \<open>bridged/iproute2/NetworkBackendBridged.py\<close>), the
  numbering of tunnels (\<open>util/NetworkBackendUtil.py\<close>) and the ids derived from interfaces
  (\<open>InterfaceDependentID.py\<close>). Names are limited to 15 characters by the kernel and have to be
  unique on the host.
\<close>

section \<open>Formatting\<close>

text \<open>\<open>NODE_ID_FMT = '%05d'\<close>; a sign counts for the width.\<close>

definition fmt_05d :: "int \<Rightarrow> string" where
  "fmt_05d i = (if i < 0 then CHR ''-'' # zpad 4 (nat_dec (nat (- i))) else zpad 5 (nat_dec (nat i)))"

definition get_interface_class_dependent_id :: "string \<Rightarrow> nat \<Rightarrow> nat \<Rightarrow> string" where
  "get_interface_class_dependent_id nid interface_class interface_nr =
     nid @ ''_'' @ nat_dec interface_class @ ''_'' @ nat_dec interface_nr"

section \<open>Numbering of the devices of a node\<close>

record device_names =
  br_id_mapping :: "(string, nat) dict"
  tap_id_mapping :: "(string, nat) dict"
  current_tap_dev_nr :: "(int, nat) dict"
  current_br_dev_nr :: "(py_id, nat) dict"

definition names_init :: device_names where
  "names_init = \<lparr>br_id_mapping = [], tap_id_mapping = [], current_tap_dev_nr = [], current_br_dev_nr = []\<rparr>"

text \<open>Reading a \<open>defaultdict(lambda: 1)\<close> stores the default.\<close>

definition ddget1 :: "('k, nat) dict \<Rightarrow> 'k \<Rightarrow> nat \<times> ('k, nat) dict" where
  "ddget1 d k = (case dget d k of Some v \<Rightarrow> (v, d) | None \<Rightarrow> (1, dset d k 1))"

definition py_id_str :: "py_id \<Rightarrow> string" where
  "py_id_str i = (case i of PyInt n \<Rightarrow> int_dec n | PyStr s \<Rightarrow> s)"

definition br_long_id :: "py_id \<Rightarrow> interface \<Rightarrow> string" where
  "br_long_id nid i = py_id_str nid @ ''_'' @ nat_dec (node_class (if_type i)) @ ''_'' @ nat_dec (nr_host_interface i)"

definition get_id_br_postfix :: "py_id \<Rightarrow> interface \<Rightarrow> device_names \<Rightarrow> nat \<times> device_names" where
  "get_id_br_postfix nid i s = (case dget (br_id_mapping s) (br_long_id nid i) of
      Some short_id \<Rightarrow> (short_id, s)
    | None \<Rightarrow>
        (let (short_id, cur) = ddget1 (current_br_dev_nr s) nid
         in (short_id, s\<lparr>br_id_mapping := dset (br_id_mapping s) (br_long_id nid i) short_id,
                         current_br_dev_nr := dset cur nid (short_id + 1)\<rparr>)))"

definition get_br_name :: "py_id \<Rightarrow> interface \<Rightarrow> device_names \<Rightarrow> string \<times> device_names" where
  "get_br_name nid i s = (let (postfix, s) = get_id_br_postfix nid i s
     in (''br_'' @ py_id_str nid @ ''_'' @ fmt_05d (int postfix), s))"

definition tap_long_id :: "int \<Rightarrow> interface \<Rightarrow> string" where
  "tap_long_id nid i = int_dec nid @ ''_'' @ fmt_05d (int (node_class (if_type i))) @ ''_'' @ fmt_05d (int (nr_host_interface i))"

definition get_id_tap_postfix :: "int \<Rightarrow> interface \<Rightarrow> device_names \<Rightarrow> nat \<times> device_names" where
  "get_id_tap_postfix nid i s =
     (let (short_id, cur) = ddget1 (current_tap_dev_nr s) nid
      in case dget (tap_id_mapping s) (tap_long_id nid i) of
           Some known \<Rightarrow> (known, s\<lparr>current_tap_dev_nr := cur\<rparr>)
         | None \<Rightarrow> (short_id, s\<lparr>tap_id_mapping := dset (tap_id_mapping s) (tap_long_id nid i) short_id,
                               current_tap_dev_nr := dset cur nid (short_id + 1)\<rparr>))"

definition get_tap_name :: "int \<Rightarrow> interface \<Rightarrow> device_names \<Rightarrow> string \<times> device_names" where
  "get_tap_name nid i s = (let (postfix, s) = get_id_tap_postfix nid i s
     in (''tap_'' @ fmt_05d nid @ ''_'' @ nat_hex postfix, s))"

definition get_interface_index :: "emulation_node \<Rightarrow> interface \<Rightarrow> device_names \<Rightarrow> int \<times> device_names" where
  "get_interface_index n i s = (let (postfix, s) = get_id_tap_postfix (en_id n) i s in (int postfix - 1, s))"

section \<open>Bridges and tunnels\<close>

definition node_bridge_name :: "int \<Rightarrow> int \<Rightarrow> string" where
  "node_bridge_name x y = ''br_'' @ fmt_05d x @ ''_'' @ fmt_05d y"

text \<open>The guard of \<open>create_n_store_switch\<close>.\<close>

definition switch_name :: "int \<Rightarrow> int \<Rightarrow> string res" where
  "switch_name x y = (let max_id = 10 ^ 5 in
     if x > max_id \<or> y > max_id then Inl ValueError else Inr (node_bridge_name x y))"

definition single_br_name :: "nat \<Rightarrow> string" where
  "single_br_name number = ''wifi'' @ nat_dec number"

datatype tunnel_mode = Vlan | Gretap | Vxlan

definition tunnel_prefix :: "tunnel_mode \<Rightarrow> string" where
  "tunnel_prefix m = (case m of Vlan \<Rightarrow> ''vl'' | Gretap \<Rightarrow> ''gr'' | Vxlan \<Rightarrow> ''vx'')"

text \<open>\<open>get_tunnel_name\<close>; without a distributed mode the method falls through and returns \<open>None\<close>.\<close>

definition get_tunnel_name :: "tunnel_mode option \<Rightarrow> int \<Rightarrow> int \<Rightarrow> string option" where
  "get_tunnel_name mode x y = map_option (\<lambda>m. tunnel_prefix m @ ''_'' @ fmt_05d (min x y) @ ''_'' @ fmt_05d (max x y)) mode"

definition szudzik_pairing_function :: "int \<Rightarrow> int \<Rightarrow> int" where
  "szudzik_pairing_function a b = (if a \<ge> b then a * a + a + b else a + b * b)"

section \<open>Formats are injective\<close>

named_theorems no_sep \<open>formatted numbers contain no separator\<close>

lemma nat_dec_no_sep [no_sep]: "CHR ''_'' \<notin> set (nat_dec n)"
  using digits_not_special [of 10 "CHR ''_''" n] by (auto simp: nat_dec_def)

lemma nat_hex_no_sep [no_sep]: "CHR ''_'' \<notin> set (nat_hex n)"
  using digits_not_special [of 16 "CHR ''_''" n] by (auto simp: nat_hex_def)

lemma zpad_no_sep [no_sep]: "CHR ''_'' \<notin> set s \<Longrightarrow> CHR ''_'' \<notin> set (zpad w s)"
  by (simp add: zpad_def)

lemma int_dec_no_sep [no_sep]: "CHR ''_'' \<notin> set (int_dec i)"
  by (simp add: int_dec_def no_sep)

lemma fmt_05d_no_sep [no_sep]: "CHR ''_'' \<notin> set (fmt_05d i)"
  by (simp add: fmt_05d_def no_sep)

lemma zpad_dec_no_minus: "CHR ''-'' # s \<noteq> zpad w (nat_dec n)"
proof
  assume "CHR ''-'' # s = zpad w (nat_dec n)"
  then have "CHR ''-'' \<in> set (zpad w (nat_dec n))" by (metis list.set_intros(1))
  then show False using digits_not_special [of 10 "CHR ''-''" n] by (auto simp: zpad_def nat_dec_def)
qed

lemma fmt_05d_inj: "fmt_05d i = fmt_05d j \<Longrightarrow> i = j"
  using zpad_dec_no_minus zpad_dec_no_minus [symmetric]
  by (auto simp: fmt_05d_def split: if_splits dest!: zpad_dec_inj)

lemma length_nat_dec: "n < 10 ^ k \<Longrightarrow> 0 < k \<Longrightarrow> length (nat_dec n) \<le> k"
  by (simp add: nat_dec_def length_base_digits)

lemma length_nat_hex: "n < 16 ^ k \<Longrightarrow> 0 < k \<Longrightarrow> length (nat_hex n) \<le> k"
  by (simp add: nat_hex_def length_base_digits)

lemma length_fmt_05d: "0 \<le> i \<Longrightarrow> i < 10 ^ 5 \<Longrightarrow> length (fmt_05d i) = 5"
  using length_nat_dec [of "nat i" 5] by (simp add: fmt_05d_def length_zpad)

text \<open>Two fields behind a common prefix.\<close>

lemma two_fields_inj:
  assumes "a @ ''_'' @ b = c @ ''_'' @ d" "CHR ''_'' \<notin> set a" "CHR ''_'' \<notin> set c"
  shows "a = c \<and> b = d"
  using split_at_sep [of a "CHR ''_''" b c d] assms by simp

section \<open>Tap devices\<close>

definition tap_suffix :: "interface \<Rightarrow> string" where
  "tap_suffix i = fmt_05d (int (node_class (if_type i))) @ ''_'' @ fmt_05d (int (nr_host_interface i))"

definition node_key :: "int \<Rightarrow> string \<Rightarrow> string" where
  "node_key nid c = int_dec nid @ ''_'' @ c"

lemma tap_long_id_alt: "tap_long_id nid i = node_key nid (tap_suffix i)"
  by (simp add: tap_long_id_def tap_suffix_def node_key_def)

lemma node_key_inj [simp]: "node_key nid a = node_key nid' b \<longleftrightarrow> nid = nid' \<and> a = b"
  using two_fields_inj [of "int_dec nid" a "int_dec nid'" b] int_dec_no_sep int_dec_inj
  unfolding node_key_def by blast

lemma tap_suffix_inj:
  "tap_suffix i = tap_suffix j \<Longrightarrow> node_class (if_type i) = node_class (if_type j) \<and> nr_host_interface i = nr_host_interface j"
proof -
  assume "tap_suffix i = tap_suffix j"
  then have "fmt_05d (int (node_class (if_type i))) = fmt_05d (int (node_class (if_type j)))
      \<and> fmt_05d (int (nr_host_interface i)) = fmt_05d (int (nr_host_interface j))"
    unfolding tap_suffix_def using two_fields_inj fmt_05d_no_sep by blast
  then show ?thesis using fmt_05d_inj by fastforce
qed

text \<open>The number the next new device of a node gets.\<close>

definition next_tap :: "device_names \<Rightarrow> int \<Rightarrow> nat" where
  "next_tap s nid = (case dget (current_tap_dev_nr s) nid of None \<Rightarrow> 1 | Some v \<Rightarrow> v)"

lemma ddget1_fst: "fst (ddget1 (current_tap_dev_nr s) nid) = next_tap s nid"
  by (simp add: ddget1_def next_tap_def split: option.split)

lemma ddget1_snd: "dget (snd (ddget1 d nid)) n = (if n = nid then Some (fst (ddget1 d nid)) else dget d n)"
  by (auto simp: ddget1_def dict_simps split: option.split)

definition tap_inv :: "device_names \<Rightarrow> bool" where
  "tap_inv s \<longleftrightarrow>
     (\<forall>k v. dget (tap_id_mapping s) k = Some v \<longrightarrow> (\<exists>nid c. k = node_key nid c \<and> 1 \<le> v \<and> v < next_tap s nid))
   \<and> (\<forall>nid c c' v. dget (tap_id_mapping s) (node_key nid c) = Some v
        \<longrightarrow> dget (tap_id_mapping s) (node_key nid c') = Some v \<longrightarrow> c = c')
   \<and> (\<forall>nid. 1 \<le> next_tap s nid)"

lemma tap_invD:
  assumes "tap_inv s"
  shows "dget (tap_id_mapping s) k = Some v \<Longrightarrow> \<exists>nid c. k = node_key nid c \<and> 1 \<le> v \<and> v < next_tap s nid"
    and "dget (tap_id_mapping s) (node_key nid c) = Some v \<Longrightarrow> dget (tap_id_mapping s) (node_key nid c') = Some v \<Longrightarrow> c = c'"
    and "1 \<le> next_tap s nid"
  using assms unfolding tap_inv_def by blast+

inductive names_later :: "device_names \<Rightarrow> device_names \<Rightarrow> bool" where
  later_refl: "names_later s s"
| later_tap: "names_later s s' \<Longrightarrow> names_later s (snd (get_id_tap_postfix nid i s'))"
| later_br: "names_later s s' \<Longrightarrow> names_later s (snd (get_id_br_postfix bid i s'))"

lemma tap_postfix_known:
  assumes "dget (tap_id_mapping s) (tap_long_id nid i) = Some v"
  shows "fst (get_id_tap_postfix nid i s) = v"
    and "tap_id_mapping (snd (get_id_tap_postfix nid i s)) = tap_id_mapping s"
    and "next_tap (snd (get_id_tap_postfix nid i s)) = next_tap s"
  using assms ddget1_fst [of s nid] ddget1_snd [of "current_tap_dev_nr s" nid]
  by (auto simp: get_id_tap_postfix_def case_prod_beta Let_def next_tap_def fun_eq_iff)

lemma tap_postfix_new:
  assumes "dget (tap_id_mapping s) (tap_long_id nid i) = None"
  shows "fst (get_id_tap_postfix nid i s) = next_tap s nid"
    and "dget (tap_id_mapping (snd (get_id_tap_postfix nid i s))) =
      (dget (tap_id_mapping s))(tap_long_id nid i \<mapsto> next_tap s nid)"
    and "next_tap (snd (get_id_tap_postfix nid i s)) = (next_tap s)(nid := Suc (next_tap s nid))"
  using assms ddget1_fst [of s nid] ddget1_snd [of "current_tap_dev_nr s" nid]
  by (auto simp: get_id_tap_postfix_def case_prod_beta Let_def next_tap_def fun_eq_iff dict_simps)

lemma map_upd_SomeD: "(f(a \<mapsto> b)) k = Some v \<Longrightarrow> (k = a \<and> v = b) \<or> f k = Some v"
  by (cases "k = a") simp_all

lemma tap_inv_tap:
  assumes "tap_inv s"
  shows "tap_inv (snd (get_id_tap_postfix nid i s))"
proof (cases "dget (tap_id_mapping s) (tap_long_id nid i)")
  case None
  note new = tap_postfix_new [OF None]
  have fresh: "v \<noteq> next_tap s nid" if "dget (tap_id_mapping s) (node_key nid c) = Some v" for c v
    using tap_invD(1) [OF assms that] by auto
  show ?thesis
    unfolding tap_inv_def new(2,3)
  proof (intro conjI allI impI)
    fix k v
    assume "((dget (tap_id_mapping s))(tap_long_id nid i \<mapsto> next_tap s nid)) k = Some v"
    then consider "k = tap_long_id nid i" "v = next_tap s nid" | "dget (tap_id_mapping s) k = Some v"
      using map_upd_SomeD by fast
    then show "\<exists>nid' c. k = node_key nid' c \<and> 1 \<le> v \<and> v < ((next_tap s)(nid := Suc (next_tap s nid))) nid'"
    proof cases
      case 1
      then show ?thesis using tap_invD(3) [OF assms, of nid] by (auto simp: tap_long_id_alt)
    next
      case 2
      then obtain nid' c where "k = node_key nid' c" "1 \<le> v" "v < next_tap s nid'"
        using tap_invD(1) [OF assms] by blast
      then show ?thesis by (intro exI [of _ nid'] exI [of _ c]) auto
    qed
  next
    fix nid' c c' v
    assume a: "((dget (tap_id_mapping s))(tap_long_id nid i \<mapsto> next_tap s nid)) (node_key nid' c) = Some v"
      "((dget (tap_id_mapping s))(tap_long_id nid i \<mapsto> next_tap s nid)) (node_key nid' c') = Some v"
    show "c = c'"
    proof (cases "nid' = nid")
      case True
      from a have "dget (tap_id_mapping s) (node_key nid c) = Some v \<and> dget (tap_id_mapping s) (node_key nid c') = Some v
        \<or> c = tap_suffix i \<and> c' = tap_suffix i"
        using fresh map_upd_SomeD [OF a(1)] map_upd_SomeD [OF a(2)] unfolding True tap_long_id_alt node_key_inj by fast
      then show ?thesis using tap_invD(2) [OF assms] by blast
    next
      case False
      then have "dget (tap_id_mapping s) (node_key nid' c) = Some v" "dget (tap_id_mapping s) (node_key nid' c') = Some v"
        using a by (simp_all add: tap_long_id_alt)
      then show ?thesis using tap_invD(2) [OF assms] by blast
    qed
  next
    fix nid' show "1 \<le> ((next_tap s)(nid := Suc (next_tap s nid))) nid'" using tap_invD(3) [OF assms] by simp
  qed
next
  case (Some v)
  show ?thesis using assms unfolding tap_inv_def tap_postfix_known(2,3) [OF Some] .
qed

lemma br_keeps_taps:
  "tap_id_mapping (snd (get_id_br_postfix bid i s)) = tap_id_mapping s" "next_tap (snd (get_id_br_postfix bid i s)) = next_tap s"
  by (auto simp: get_id_br_postfix_def case_prod_beta Let_def next_tap_def fun_eq_iff split: option.split)

lemma tap_inv_later: "names_later s s' \<Longrightarrow> tap_inv s \<Longrightarrow> tap_inv s'"
proof (induction rule: names_later.induct)
  case (later_br s s' bid i)
  then show ?case unfolding tap_inv_def br_keeps_taps by blast
qed (simp_all add: tap_inv_tap)

lemma tap_inv_init: "tap_inv names_init"
  by (simp add: tap_inv_def names_init_def next_tap_def)

lemma tap_kept_later:
  "names_later s s' \<Longrightarrow> dget (tap_id_mapping s) k = Some v \<Longrightarrow> dget (tap_id_mapping s') k = Some v"
proof (induction rule: names_later.induct)
  case (later_tap s s' nid i)
  then show ?case
    by (cases "dget (tap_id_mapping s') (tap_long_id nid i)")
      (auto simp: tap_postfix_known tap_postfix_new)
qed (simp_all add: br_keeps_taps)

lemma tap_postfix_stored:
  "dget (tap_id_mapping (snd (get_id_tap_postfix nid i s))) (tap_long_id nid i) = Some (fst (get_id_tap_postfix nid i s))"
  by (cases "dget (tap_id_mapping s) (tap_long_id nid i)") (simp_all add: tap_postfix_known tap_postfix_new)

lemma get_tap_name_alt:
  "get_tap_name nid i s = (''tap_'' @ fmt_05d nid @ ''_'' @ nat_hex (fst (get_id_tap_postfix nid i s)), snd (get_id_tap_postfix nid i s))"
  by (simp add: get_tap_name_def case_prod_beta)

text \<open>Tap names identify the interfaces of the nodes. Two requests, with any requests for names
  before, between and after them, are answered with the same name exactly if they are for the same
  node, interface class and interface number; in particular an interface keeps its name until the
  backend is reset.
\<close>

theorem tap_names_unique:
  assumes "names_later names_init s" "get_tap_name nx ix s = (tap_x, s1)" "names_later s1 s2"
    and "get_tap_name ny iy s2 = (tap_y, s3)"
  shows "tap_x = tap_y \<longleftrightarrow>
    nx = ny \<and> node_class (if_type ix) = node_class (if_type iy) \<and> nr_host_interface ix = nr_host_interface iy"
proof -
  let ?p = "fst (get_id_tap_postfix nx ix s)" and ?q = "fst (get_id_tap_postfix ny iy s2)"
  have s1: "s1 = snd (get_id_tap_postfix nx ix s)" "tap_x = ''tap_'' @ fmt_05d nx @ ''_'' @ nat_hex ?p"
    and s3: "s3 = snd (get_id_tap_postfix ny iy s2)" "tap_y = ''tap_'' @ fmt_05d ny @ ''_'' @ nat_hex ?q"
    using assms(2,4) by (auto simp: get_tap_name_alt)
  have "tap_inv s" using tap_inv_later [OF assms(1) tap_inv_init] .
  then have "tap_inv s1" using tap_inv_tap by (simp add: s1)
  then have "tap_inv s2" by (rule tap_inv_later [OF assms(3)])
  then have inv: "tap_inv s3" using tap_inv_tap by (simp add: s3)
  have later: "names_later s2 s3" using later_tap [OF later_refl] by (simp add: s3)
  have p: "dget (tap_id_mapping s3) (tap_long_id nx ix) = Some ?p"
    using tap_kept_later [OF later tap_kept_later [OF assms(3)]] tap_postfix_stored [of nx ix s] by (simp add: s1)
  have q: "dget (tap_id_mapping s3) (tap_long_id ny iy) = Some ?q"
    using tap_postfix_stored [of ny iy s2] by (simp add: s3)
  have names: "tap_x = tap_y \<longleftrightarrow> nx = ny \<and> ?p = ?q"
    using two_fields_inj [of "fmt_05d nx" "nat_hex ?p" "fmt_05d ny" "nat_hex ?q"] fmt_05d_no_sep fmt_05d_inj nat_hex_inj
    by (auto simp: s1(2) s3(2))
  show ?thesis
  proof
    assume "tap_x = tap_y"
    then have eq: "nx = ny" "?p = ?q" using names by auto
    then have "tap_suffix ix = tap_suffix iy"
      using tap_invD(2) [OF inv] p q by (simp add: tap_long_id_alt)
    then show "nx = ny \<and> node_class (if_type ix) = node_class (if_type iy) \<and> nr_host_interface ix = nr_host_interface iy"
      using eq tap_suffix_inj by blast
  next
    assume "nx = ny \<and> node_class (if_type ix) = node_class (if_type iy) \<and> nr_host_interface ix = nr_host_interface iy"
    then have "tap_long_id nx ix = tap_long_id ny iy" by (simp add: tap_long_id_def)
    then show "tap_x = tap_y" using names p q \<open>nx = ny \<and> _\<close> by simp
  qed
qed

theorem tap_names_unique_witness:
  "fst (get_tap_name 1 \<lparr>if_type = Mesh, nr_host_interface = 1\<rparr> names_init)
     \<noteq> fst (get_tap_name 1 \<lparr>if_type = AP, nr_host_interface = 1\<rparr> (snd (get_tap_name 1 \<lparr>if_type = Mesh, nr_host_interface = 1\<rparr> names_init)))"
  using tap_names_unique [OF later_refl surjective_pairing later_refl surjective_pairing] by simp

section \<open>Lengths\<close>

lemma length_tap_name:
  assumes "0 \<le> nid" "nid < 10 ^ 5" "fst (get_id_tap_postfix nid i s) < 16 ^ 5"
  shows "length (fst (get_tap_name nid i s)) \<le> 15"
  using assms length_nat_hex [of "fst (get_id_tap_postfix nid i s)" 5]
  by (simp add: get_tap_name_alt length_fmt_05d)

text \<open>Device names fit the 15 characters of the kernel for node ids below \<open>10 ^ 5\<close>: tap names as
  long as a node has fewer than \<open>16 ^ 5\<close> interfaces, bridge and tunnel names always. The guard of
  \<open>create_n_store_switch\<close>, which is there for this limit, admits every such id; it also admits
  \<open>10 ^ 5\<close> itself, for which the name of the bridge has 16 characters.
\<close>

theorem device_name_lengths:
  assumes "0 \<le> x" "x < 10 ^ 5" "0 \<le> y" "y < 10 ^ 5"
  shows "(fst (get_id_tap_postfix x i s) < 16 ^ 5 \<longrightarrow> length (fst (get_tap_name x i s)) \<le> 15)
    \<and> (\<exists>name. switch_name x y = Inr name \<and> length name = 14)
    \<and> (\<forall>m name. get_tunnel_name (Some m) x y = Some name \<longrightarrow> length name = 14)
    \<and> (\<exists>name. switch_name (10 ^ 5) (10 ^ 5) = Inr name \<and> length name = 16)"
proof -
  have "length (node_bridge_name x y) = 14" using assms by (simp add: node_bridge_name_def length_fmt_05d)
  then have "\<exists>name. switch_name x y = Inr name \<and> length name = 14" using assms by (simp add: switch_name_def)
  moreover have "length name = 14" if "get_tunnel_name (Some m) x y = Some name" for m name
    using that assms by (auto simp: get_tunnel_name_def tunnel_prefix_def length_fmt_05d min_def max_def split: tunnel_mode.splits)
  moreover have "length (node_bridge_name (10 ^ 5) (10 ^ 5)) = 16"
    by (simp add: node_bridge_name_def fmt_05d_def nat_dec_def zpad_def base_digits.simps)
  then have "\<exists>name. switch_name (10 ^ 5) (10 ^ 5) = Inr name \<and> length name = 16" by (simp add: switch_name_def)
  ultimately show ?thesis using length_tap_name [OF assms(1,2), of i s] by (intro conjI allI impI)
qed

theorem device_name_lengths_witness:
  "\<exists>name. switch_name 1 99999 = Inr name \<and> length name = 14"
  using device_name_lengths [of 1 99999 "\<lparr>if_type = Mesh, nr_host_interface = 1\<rparr>" names_init] by simp

section \<open>Tunnels\<close>

lemma szudzik_bounds:
  assumes "0 \<le> a" "0 \<le> b"
  shows "max a b ^ 2 \<le> szudzik_pairing_function a b" "szudzik_pairing_function a b < (max a b + 1) ^ 2"
  using assms by (auto simp: szudzik_pairing_function_def power2_eq_square algebra_simps max_def)

lemma szudzik_max:
  assumes "0 \<le> a" "0 \<le> b" "0 \<le> c" "0 \<le> d" "szudzik_pairing_function a b = szudzik_pairing_function c d"
  shows "max a b = max c d"
proof -
  have le: "max p q \<le> max u v"
    if "0 \<le> p" "0 \<le> q" "0 \<le> u" "0 \<le> v" "szudzik_pairing_function p q = szudzik_pairing_function u v" for p q u v
  proof -
    have "max p q ^ 2 < (max u v + 1) ^ 2"
      using szudzik_bounds(1) [OF that(1,2)] szudzik_bounds(2) [OF that(3,4)] that(5) by simp
    then have "max p q < max u v + 1" using that by (metis add_nonneg_nonneg max.coboundedI1 power_less_imp_less_base zero_le_one)
    then show ?thesis by simp
  qed
  show ?thesis using le [OF assms] le [OF assms(3,4,1,2) assms(5) [symmetric]] by (rule antisym)
qed

lemma szudzik_inj:
  assumes "0 \<le> a" "0 \<le> b" "0 \<le> c" "0 \<le> d" "szudzik_pairing_function a b = szudzik_pairing_function c d"
  shows "a = c \<and> b = d"
proof -
  define m where "m = max a b"
  have m': "m = max c d" using szudzik_max [OF assms] m_def by simp
  show ?thesis
    using assms m_def m' by (auto simp: szudzik_pairing_function_def max_def split: if_splits)
qed

text \<open>VLAN ids are 12 bit wide and 4095 is reserved: the numbering leaves them from node id 64 on.\<close>

lemma vlan_id_range:
  assumes "0 \<le> a" "a < b"
  shows "szudzik_pairing_function a b < 4095 \<longleftrightarrow> b < 64"
proof
  assume "szudzik_pairing_function a b < 4095"
  then have "b * b < 64 * 64" using assms by (simp add: szudzik_pairing_function_def)
  then show "b < 64" using mult_mono [of 64 b 64 b] assms by (smt (verit))
next
  assume "b < 64"
  then have "b * b \<le> 63 * 63" using assms by (intro mult_mono) auto
  then show "szudzik_pairing_function a b < 4095" using assms \<open>b < 64\<close> by (simp add: szudzik_pairing_function_def)
qed

text \<open>Tunnels identify pairs of nodes. The tunnel id is injective on pairs of node ids, and the
  tunnel devices of two pairs have the same name exactly if the pairs consist of the same nodes, in
  whatever order they are given, so both servers of a connection use the same name and no two
  connections share one.
\<close>

theorem tunnel_identifies_pair:
  assumes "0 \<le> a" "0 \<le> b" "0 \<le> c" "0 \<le> d"
  shows "(szudzik_pairing_function a b = szudzik_pairing_function c d \<longleftrightarrow> a = c \<and> b = d)
    \<and> (get_tunnel_name (Some m) a b = get_tunnel_name (Some m) c d \<longleftrightarrow> {a, b} = {c, d})"
proof -
  have "get_tunnel_name (Some m) a b = get_tunnel_name (Some m) c d \<longleftrightarrow> min a b = min c d \<and> max a b = max c d"
    using two_fields_inj [of "fmt_05d (min a b)" "fmt_05d (max a b)" "fmt_05d (min c d)" "fmt_05d (max c d)"]
      fmt_05d_no_sep fmt_05d_inj by (auto simp: get_tunnel_name_def)
  moreover have "min a b = min c d \<and> max a b = max c d \<longleftrightarrow> {a, b} = {c, d}"
    by (auto simp: min_def max_def doubleton_eq_iff)
  ultimately show ?thesis using szudzik_inj [OF assms] by blast
qed

theorem tunnel_identifies_pair_witness:
  "get_tunnel_name (Some Gretap) 3 7 = get_tunnel_name (Some Gretap) 7 3 \<and> szudzik_pairing_function 3 7 \<noteq> szudzik_pairing_function 7 3"
  using tunnel_identifies_pair [of 3 7 7 3 Gretap] by auto

end
