(* ===== verification/Bridged_Backend.thy ===== *)
theory Bridged_Backend
  imports Device_Names Shell_Serializer Link_Quality Effects
begin

text \<open>
  The network backend that connects the nodes by Linux bridges: \<open>bridged/NetworkBackendBridged.py\<close>
  with its two connection modes (\<open>bridged/singledevice\<close>: one bridge per interface number and
  ebtables rules between the taps, \<open>bridged/multidevice\<close>: one bridge per connection), its two
  command line execution modes (\<open>bridged/iproute2\<close>, \<open>bridged/brctl\<close>), the connections
  (\<open>bridged/Connection.py\<close>), the tunnels between servers (\<open>bridged/iproute2/Tunnel.py\<close>) and
  the book keeping of used tap devices (\<open>bridged/ConnectionBookKeeper.py\<close>).

  The backend talks to the host by shell commands. Most are queued in the shell command serializer
  and executed when the topology changes; what is executed is recorded in \<open>bb_calls\<close>, the outcome
  of a call is a parameter. Writing the log files is left out.
\<close>

section \<open>State and environment\<close>

record bridge =
  sw_id :: string
  bridge_dev_name :: string

record bb_conn =
  cn_x :: emulation_node
  cn_y :: emulation_node
  cn_ix :: interface
  cn_iy :: interface
  cn_info :: connection_info

datatype host_call =
    RunShell shell_arg
  | RunInput string string
  | RunHook string string
  | SetMtus emulation_node nat

record backend =
  bb_names :: device_names
  new_bridges :: "string list"
  shell_command_executor :: serializer
  bk_connections :: "(string \<times> string, bool) dict"
  interface_states :: "(string, bool) dict"
  bb_tunnels :: "(string option, emulation_node \<times> emulation_node) dict"
  bb_bridges :: "(string, bridge) dict"
  shaped_ifaces :: "(string, bool) dict"
  cleanup_commands :: "string list"
  eb_connections :: "(string list, nat) dict"
  cnt_connections :: nat
  bb_calls :: "host_call list"

text \<open>
  What the backend asks of the rest of the system: the scenario configuration, which nodes are local,
  the switches of the virtual nodes (\<open>None\<close> before they are started), how Python prints a number of
  the link quality, and how the host answers.
\<close>

record bb_env =
  be_single :: bool
  be_brctl :: bool
  be_batch :: bool
  be_mode :: exec_mode
  be_tunnel :: "tunnel_mode option"
  be_is_local :: "int \<Rightarrow> bool"
  be_switch :: "emulation_node \<Rightarrow> bridge option"
  be_atomic_file :: string
  be_hook_script :: "string option"
  be_print_num :: "rat \<Rightarrow> string"
  be_host :: "host_call \<Rightarrow> unit res"

type_synonym 'a bb = "(backend, 'a) eff"

definition host :: "bb_env \<Rightarrow> host_call \<Rightarrow> unit bb" where
  "host env call = eseq (emodify (\<lambda>s. s\<lparr>bb_calls := bb_calls s @ [call]\<rparr>)) (elift (be_host env call))"

definition queue :: "string \<Rightarrow> string \<Rightarrow> string \<Rightarrow> string \<Rightarrow> string list \<Rightarrow> unit bb" where
  "queue grp event cid cmd prefixes =
     emodify (\<lambda>s. s\<lparr>shell_command_executor := add_command grp event cid cmd prefixes (shell_command_executor s)\<rparr>)"

definition tap_name :: "emulation_node \<Rightarrow> interface \<Rightarrow> string bb" where
  "tap_name n i s = (let (t, names) = get_tap_name (en_id n) i (bb_names s) in (Inr t, s\<lparr>bb_names := names\<rparr>))"

section \<open>Command lines\<close>

definition get_bridge_add_cmd :: "string \<Rightarrow> string" where
  "get_bridge_add_cmd dev = ''ip link add name '' @ dev @ '' type bridge''"

definition get_bridge_set_hub_mode_cmd :: "string \<Rightarrow> string" where
  "get_bridge_set_hub_mode_cmd dev = ''ip link set dev '' @ dev @ '' type bridge ageing_time 0''"

definition get_bridge_add_if_cmd :: "string \<Rightarrow> string \<Rightarrow> string" where
  "get_bridge_add_if_cmd ifn dev = ''ip link set dev '' @ ifn @ '' master '' @ dev"

definition get_interface_up_cmd :: "string \<Rightarrow> bool \<Rightarrow> string" where
  "get_interface_up_cmd ifn state_down = ''ip link set dev '' @ ifn @ '' '' @ (if state_down then ''down'' else ''up'')"

definition get_gretap_tunnel_cmd :: "string \<Rightarrow> string \<Rightarrow> int \<Rightarrow> string" where
  "get_gretap_tunnel_cmd tunnel_name remote_ip key =
     ''ip link add '' @ tunnel_name @ '' type gretap remote '' @ remote_ip @ '' key '' @ int_dec key @ '' nopmtudisc''"

definition get_add_interface_to_group_cmd :: "string \<Rightarrow> nat \<Rightarrow> string" where
  "get_add_interface_to_group_cmd ifn grp = ''ip link set dev '' @ ifn @ '' group '' @ nat_dec grp"

definition get_link_del_cmd :: "string \<Rightarrow> string" where
  "get_link_del_cmd dev = ''ip link del '' @ dev"

definition bridge_add_cmd :: "bb_env \<Rightarrow> string \<Rightarrow> string" where
  "bridge_add_cmd env dev = (if be_brctl env then ''brctl addbr '' @ dev else get_bridge_add_cmd dev)"

definition bridge_hub_cmd :: "bb_env \<Rightarrow> string \<Rightarrow> string" where
  "bridge_hub_cmd env dev = (if be_brctl env then ''brctl setageing '' @ dev @ '' 0'' else get_bridge_set_hub_mode_cmd dev)"

definition bridge_add_if_cmd :: "bb_env \<Rightarrow> string \<Rightarrow> string \<Rightarrow> string" where
  "bridge_add_if_cmd env ifn dev = (if be_brctl env then ''brctl addif '' @ dev @ '' '' @ ifn else get_bridge_add_if_cmd ifn dev)"

section \<open>Bridges\<close>

text \<open>\<open>BridgeIproute2\<close> and \<open>BridgeBrctl\<close>; all events but the creation share one name.\<close>

definition EVENT_BRIDGE_ADD :: string where "EVENT_BRIDGE_ADD = ''bridge_add''"
definition BRIDGE_PAR :: string where "BRIDGE_PAR = ''bridge_parallel''"

definition bridge_command :: "bridge \<Rightarrow> string \<Rightarrow> string \<Rightarrow> unit bb" where
  "bridge_command br event cmd = queue ''bridge'' event (sw_id br) cmd [''bridge'']"

definition bridge_start :: "bb_env \<Rightarrow> bridge \<Rightarrow> bool \<Rightarrow> unit bb" where
  "bridge_start env br switch =
     eseq (bridge_command br EVENT_BRIDGE_ADD (bridge_add_cmd env (bridge_dev_name br)))
     (ewhen (\<not> switch) (bridge_command br BRIDGE_PAR (bridge_hub_cmd env (bridge_dev_name br))))"

definition add_if :: "bb_env \<Rightarrow> bridge \<Rightarrow> string \<Rightarrow> unit bb" where
  "add_if env br ifn =
     eseq (bridge_command br BRIDGE_PAR (bridge_add_if_cmd env ifn (bridge_dev_name br)))
     (eseq (bridge_command br BRIDGE_PAR (get_interface_up_cmd ifn False))
     (bridge_command br BRIDGE_PAR (get_interface_up_cmd (bridge_dev_name br) False)))"

section \<open>Book keeping\<close>

text \<open>Reading a state stores \<open>False\<close> for an unknown device.\<close>

definition state_getitem :: "string \<Rightarrow> bool bb" where
  "state_getitem dev s = (case dget (interface_states s) dev of
      Some up \<Rightarrow> (Inr up, s)
    | None \<Rightarrow> (Inr False, s\<lparr>interface_states := dset (interface_states s) dev False\<rparr>))"

definition toggle_state :: "string \<Rightarrow> bool \<Rightarrow> unit bb" where
  "toggle_state dev up = ebind (state_getitem dev) (\<lambda>cur.
     ewhen (cur \<noteq> up) (emodify (\<lambda>s. s\<lparr>interface_states := dset (interface_states s) dev up\<rparr>)))"

definition add_device :: "string \<Rightarrow> bool \<Rightarrow> unit bb" where
  "add_device dev up = emodify (\<lambda>s. s\<lparr>interface_states := dset (interface_states s) dev up\<rparr>)"

definition host_key :: "emulation_node \<Rightarrow> emulation_node \<Rightarrow> string \<times> string" where
  "host_key x y = (node_name x, node_name y)"

text \<open>\<open>self.connections[...]\<close> of a \<open>defaultdict(lambda: False)\<close>.\<close>

definition connection_getitem :: "string \<times> string \<Rightarrow> bool bb" where
  "connection_getitem k s = (case dget (bk_connections s) k of
      Some b \<Rightarrow> (Inr b, s)
    | None \<Rightarrow> (Inr False, s\<lparr>bk_connections := dset (bk_connections s) k False\<rparr>))"

definition should_create_new_connection ::
  "emulation_node \<Rightarrow> emulation_node \<Rightarrow> interface \<Rightarrow> interface \<Rightarrow> bool bb" where
  "should_create_new_connection x y ix iy =
     ebind (tap_name x ix) (\<lambda>tap_x. ebind (tap_name y iy) (\<lambda>tap_y.
     ebind (connection_getitem (host_key x y)) (\<lambda>has_connection.
     ebind (eget interface_states) (\<lambda>states.
     ereturn (\<not> has_connection \<and> dget states tap_x = None \<and> dget states tap_y = None)))))"

definition remember_bidirectional_connection ::
  "emulation_node \<Rightarrow> emulation_node \<Rightarrow> interface \<Rightarrow> interface \<Rightarrow> unit bb" where
  "remember_bidirectional_connection x y ix iy =
     ebind (tap_name x ix) (\<lambda>tap_x. ebind (tap_name y iy) (\<lambda>tap_y.
     eseq (add_device tap_x False) (eseq (add_device tap_y False)
     (emodify (\<lambda>s. s\<lparr>bk_connections := dset (bk_connections s) (host_key x y) True\<rparr>)))))"

definition remember_unidirectional_connection :: "string \<Rightarrow> unit bb" where
  "remember_unidirectional_connection tap = add_device tap False"

section \<open>Connections\<close>

text \<open>\<open>AbstractConnection.id\<close>\<close>

definition conn_id :: "bb_conn \<Rightarrow> string" where
  "conn_id c =
     get_interface_class_dependent_id (int_dec (en_id (cn_x c))) (node_class (if_type (cn_ix c))) (nr_host_interface (cn_ix c))
     @ '','' @ get_interface_class_dependent_id (int_dec (en_id (cn_y c))) (node_class (if_type (cn_iy c))) (nr_host_interface (cn_iy c))"

definition EVENT_CONN_STATE_CHANGE :: string where "EVENT_CONN_STATE_CHANGE = ''conn_state_change''"
definition EVENT_LINK_SHAPE_ADD_CLASS :: string where "EVENT_LINK_SHAPE_ADD_CLASS = ''link_shape_add_class''"
definition EVENT_LINK_SHAPE_ADD_QDISC :: string where "EVENT_LINK_SHAPE_ADD_QDISC = ''link_shape_add_child''"
definition EVENT_LINK_SHAPE_ADD_FILTER :: string where "EVENT_LINK_SHAPE_ADD_FILTER = ''link_shape_add_filter''"

definition conn_event_order :: "string list" where
  "conn_event_order = [EVENT_CONN_STATE_CHANGE, EVENT_LINK_SHAPE_ADD_QDISC, EVENT_LINK_SHAPE_ADD_CLASS, EVENT_LINK_SHAPE_ADD_FILTER]"

definition conn_command :: "bb_conn \<Rightarrow> string \<Rightarrow> string \<Rightarrow> unit bb" where
  "conn_command c event cmd = queue ''connection'' event (conn_id c) cmd [''connection'']"

text \<open>
  \<open>SimulationManager.get_central_node\<close> and \<open>get_remote_node\<close>. The former returns the node
  itself in place of its interface when the second node is the central one: the last component is
  \<open>None\<close> for that object, which has no \<open>node_class\<close>.
\<close>

definition get_central_node ::
  "emulation_node \<Rightarrow> emulation_node \<Rightarrow> interface \<Rightarrow> interface \<Rightarrow> emulation_node \<times> interface \<times> emulation_node \<times> interface option" where
  "get_central_node x y ix iy = (if is_central_node x then (x, ix, y, Some iy) else (y, iy, x, None))"

definition get_remote_node ::
  "(int \<Rightarrow> bool) \<Rightarrow> emulation_node \<Rightarrow> emulation_node \<Rightarrow> interface \<Rightarrow> interface \<Rightarrow> emulation_node \<times> interface \<times> emulation_node \<times> interface" where
  "get_remote_node is_local x y ix iy = (if \<not> is_local (en_id x) then (x, ix, y, iy) else (y, iy, x, ix))"

definition tap_name_opt :: "emulation_node \<Rightarrow> interface option \<Rightarrow> string bb" where
  "tap_name_opt n i = (case i of Some i \<Rightarrow> tap_name n i | None \<Rightarrow> eraise AttributeError)"

text \<open>A tunnel name as it is printed into a command.\<close>

definition tunnel_str :: "string option \<Rightarrow> string" where
  "tunnel_str t = (case t of Some t \<Rightarrow> t | None \<Rightarrow> ''None'')"

subsection \<open>Connection ids\<close>

text \<open>
  \<open>ConnectionEbtables.get_connection_id\<close> numbers the pairs of devices (a \<open>defaultdict\<close> over a
  counter); with one bridge per connection the id is always 1.
\<close>

fun str_lt :: "string \<Rightarrow> string \<Rightarrow> bool" where
  "str_lt _ [] = False"
| "str_lt [] (_ # _) = True"
| "str_lt (a # as) (b # bs) = ((of_char a :: nat) < of_char b \<or> (a = b \<and> str_lt as bs))"

definition eb_key :: "string \<Rightarrow> string \<Rightarrow> string list" where
  "eb_key a b = pysorted str_lt [a, b]"

definition eb_connection_id :: "string \<Rightarrow> string \<Rightarrow> nat bb" where
  "eb_connection_id a b s = (case dget (eb_connections s) (eb_key a b) of
      Some i \<Rightarrow> (Inr i, s)
    | None \<Rightarrow> (Inr (cnt_connections s),
        s\<lparr>cnt_connections := cnt_connections s + 1, eb_connections := dset (eb_connections s) (eb_key a b) (cnt_connections s)\<rparr>))"

definition get_connection_id :: "bb_env \<Rightarrow> string \<Rightarrow> string option \<Rightarrow> nat bb" where
  "get_connection_id env a b =
     (if be_single env then (case b of Some b \<Rightarrow> eb_connection_id a b | None \<Rightarrow> eraise TypeError) else ereturn 1)"

subsection \<open>Link state\<close>

definition ebtables_cmd :: string where "ebtables_cmd = ''ebtables --concurrent''"

definition get_ebtables_atomix_prefix :: "bb_env \<Rightarrow> string" where
  "get_ebtables_atomix_prefix env = (if be_batch env then ''--atomic-file '' @ be_atomic_file env else [])"

definition ebtables_rule :: "bb_env \<Rightarrow> string \<Rightarrow> string \<Rightarrow> string \<Rightarrow> bool \<Rightarrow> nat \<Rightarrow> string" where
  "ebtables_rule env chain tap_x tap_y up i =
     ebtables_cmd @ '' '' @ get_ebtables_atomix_prefix env @ '' '' @ (if up then ''-I'' else ''-D'') @ '' '' @ chain
     @ '' -i '' @ tap_x @ '' -o '' @ tap_y @ '' -j mark --set-mark '' @ nat_dec i @ '' --mark-target ACCEPT''"

definition get_ebtables_cmd :: "bb_env \<Rightarrow> string \<Rightarrow> string \<Rightarrow> string option \<Rightarrow> bool \<Rightarrow> string bb" where
  "get_ebtables_cmd env chain tap_x tap_y up =
     ebind (get_connection_id env tap_x tap_y) (\<lambda>i. ereturn (ebtables_rule env chain tap_x (tunnel_str tap_y) up i))"

definition EVENT_EBTABLES_COMMANDS :: string where "EVENT_EBTABLES_COMMANDS = ''ebtables_commands''"
definition EVENT_EBTABLES_CREATE_CHAINS :: string where "EVENT_EBTABLES_CREATE_CHAINS = ''ebtables_create_chain''"
definition EVENT_EBTABLES_REDIRECT :: string where "EVENT_EBTABLES_REDIRECT = ''ebtables_redirect''"
definition EVENT_EBTABLES_INIT :: string where "EVENT_EBTABLES_INIT = ''ebtables_init''"
definition EVENT_EBTABLES_FINISH :: string where "EVENT_EBTABLES_FINISH = ''ebtables_finish''"

text \<open>The command id is the name of the class of the class.\<close>

definition add_shell_ebtables_command :: "string \<Rightarrow> string \<Rightarrow> unit bb" where
  "add_shell_ebtables_command event cmd = queue ''ebtables'' event ''type'' cmd [''ebtables'']"

text \<open>
  \<open>tap_link_up\<close>: an ebtables rule in the chain of the interface number, or the state of the tap
  device. The second device of a rule may be a tunnel.
\<close>

definition tap_link_up_single :: "bb_env \<Rightarrow> bb_conn \<Rightarrow> string \<Rightarrow> string option \<Rightarrow> bool \<Rightarrow> unit bb" where
  "tap_link_up_single env c tap_x tap_y up =
     ebind (get_ebtables_cmd env (single_br_name (nr_host_interface (cn_ix c))) tap_x tap_y up)
       (add_shell_ebtables_command EVENT_EBTABLES_COMMANDS)"

definition tap_link_up_multi :: "bb_conn \<Rightarrow> string \<Rightarrow> bool \<Rightarrow> unit bb" where
  "tap_link_up_multi c tap_x up =
     ebind (if up then state_getitem tap_x else ereturn False) (\<lambda>state_correct.
     ewhen (\<not> state_correct)
       (eseq (conn_command c EVENT_CONN_STATE_CHANGE (get_interface_up_cmd tap_x (\<not> up))) (toggle_state tap_x up)))"

definition tap_link_up :: "bb_env \<Rightarrow> bb_conn \<Rightarrow> string \<Rightarrow> string \<Rightarrow> bool \<Rightarrow> unit bb" where
  "tap_link_up env c tap_x tap_y up =
     (if be_single env then tap_link_up_single env c tap_x (Some tap_y) up else tap_link_up_multi c tap_x up)"

text \<open>
  Only the connections of the single device mode know remote taps. Without a distributed mode there
  is no tunnel name, and sorting it with the name of the tap raises.
\<close>

definition tap_link_up_remote :: "bb_env \<Rightarrow> bb_conn \<Rightarrow> string option \<Rightarrow> string option \<Rightarrow> bool \<Rightarrow> unit bb" where
  "tap_link_up_remote env c tap_x tap_y up =
     (if be_single env
      then (case tap_x of Some t \<Rightarrow> tap_link_up_single env c t tap_y up | None \<Rightarrow> eraise TypeError)
      else eraise NotImplementedError)"

text \<open>
  \<open>set_connection_state\<close>. For a hub the two nodes are taken from \<open>get_central_node\<close> in the
  wrong order: the second one is the emulated node, which has no switch.
\<close>

definition set_connection_state :: "bb_env \<Rightarrow> bb_conn \<Rightarrow> bool \<Rightarrow> unit bb" where
  "set_connection_state env c up =
     (if is_central (cn_info c) then
        (let (emu, if_emu, emu2, if_emu2) = get_central_node (cn_x c) (cn_y c) (cn_ix c) (cn_iy c)
         in eseq (tap_name emu if_emu) (eraise AttributeError))
      else if is_remote_conn (cn_info c) then
        (let (remote, if_remote, local_node, if_local) = get_remote_node (be_is_local env) (cn_x c) (cn_y c) (cn_ix c) (cn_iy c);
             tunnel = get_tunnel_name (be_tunnel env) (en_id remote) (en_id local_node)
         in ebind (tap_name local_node if_local) (\<lambda>tap_local.
            eseq (tap_link_up_remote env c tunnel (Some tap_local) up)
              (tap_link_up_remote env c (Some tap_local) tunnel up)))
      else
        ebind (tap_name (cn_x c) (cn_ix c)) (\<lambda>tap_x. ebind (tap_name (cn_y c) (cn_iy c)) (\<lambda>tap_y.
        eseq (tap_link_up env c tap_x tap_y up) (tap_link_up env c tap_y tap_x up))))"

definition bb_link_up :: "bb_env \<Rightarrow> bb_conn option \<Rightarrow> unit bb" where
  "bb_link_up env conn = (case conn of Some c \<Rightarrow> set_connection_state env c True | None \<Rightarrow> ereturn ())"

definition bb_link_down :: "bb_env \<Rightarrow> bb_conn option \<Rightarrow> unit bb" where
  "bb_link_down env conn = (case conn of Some c \<Rightarrow> set_connection_state env c False | None \<Rightarrow> ereturn ())"

subsection \<open>Link quality\<close>

definition lq_get :: "link_quality \<Rightarrow> string \<Rightarrow> lq_val" where
  "lq_get lq key = (case dget lq key of Some v \<Rightarrow> v | None \<Rightarrow> LqNone)"

definition lq_str :: "bb_env \<Rightarrow> lq_val \<Rightarrow> string" where
  "lq_str env v = (case v of LqNone \<Rightarrow> ''None'' | LqNum q \<Rightarrow> be_print_num env q | LqStr s \<Rightarrow> s)"

definition conn_id_str :: "nat option \<Rightarrow> string" where
  "conn_id_str i = (case i of None \<Rightarrow> ''None'' | Some i \<Rightarrow> nat_dec i)"

text \<open>\<open>build_netem_options\<close>\<close>

definition netem_options :: "bb_env \<Rightarrow> link_quality \<Rightarrow> string" where
  "netem_options env lq =
     pyjoin '' '' (map (\<lambda>key. key @ '' '' @ lq_str env (lq_get lq key)) (filter (\<lambda>key. lq_truthy (lq_get lq key)) NETEM_KEYS))"

definition shaped_getitem :: "string \<Rightarrow> bool bb" where
  "shaped_getitem dev s = (case dget (shaped_ifaces s) dev of
      Some b \<Rightarrow> (Inr b, s)
    | None \<Rightarrow> (Inr False, s\<lparr>shaped_ifaces := dset (shaped_ifaces s) dev False\<rparr>))"

definition add_filter_cmd :: "bb_env \<Rightarrow> bb_conn \<Rightarrow> string \<Rightarrow> nat option \<Rightarrow> unit bb" where
  "add_filter_cmd env c dev i = ewhen (be_single env)
     (conn_command c EVENT_LINK_SHAPE_ADD_FILTER
        (''tc filter replace dev '' @ dev @ '' parent 1:0 protocol all handle '' @ conn_id_str i @ '' fw flowid 1:'' @ conn_id_str i))"

definition add_cleanup :: "string \<Rightarrow> unit bb" where
  "add_cleanup dev = emodify (\<lambda>s. s\<lparr>cleanup_commands := oset_add (cleanup_commands s) (''tc qdisc del dev '' @ dev @ '' root'')\<rparr>)"

definition shape_device :: "bb_env \<Rightarrow> bb_conn \<Rightarrow> string \<Rightarrow> nat option \<Rightarrow> link_quality \<Rightarrow> unit bb" where
  "shape_device env c dev i lq =
     (let rate = lq_get lq LINK_QUALITY_KEY_BANDWIDTH; default_class = (if be_single env then [] else ''default 1'')
      in ewhen (rate \<noteq> LqNone)
           (ebind (shaped_getitem dev) (\<lambda>shaped.
            eseq (ewhen (\<not> shaped) (conn_command c EVENT_LINK_SHAPE_ADD_QDISC
                    (''tc qdisc replace dev '' @ dev @ '' root handle 1:0 htb '' @ default_class)))
            (eseq (emodify (\<lambda>s. s\<lparr>shaped_ifaces := dset (shaped_ifaces s) dev True\<rparr>))
            (eseq (conn_command c EVENT_LINK_SHAPE_ADD_CLASS
                    (''tc class replace dev '' @ dev @ '' parent 1:0 classid 1:'' @ conn_id_str i @ '' htb rate '' @ lq_str env rate @ ''kbit''))
            (eseq (conn_command c EVENT_LINK_SHAPE_ADD_CLASS
                    (''tc qdisc replace dev '' @ dev @ '' parent 1:'' @ conn_id_str i @ '' handle '' @ conn_id_str i @ ''0: netem '' @ netem_options env lq))
            (eseq (add_filter_cmd env c dev i) (add_cleanup dev))))))))"

definition adjust_conn_link_quality :: "bb_env \<Rightarrow> bb_conn \<Rightarrow> link_quality \<Rightarrow> unit bb" where
  "adjust_conn_link_quality env c lq = ewhen (lq_get lq LINK_QUALITY_KEY_BANDWIDTH \<noteq> LqNone)
     (let (central, if_central, emu_node, if_emu_node) = get_central_node (cn_x c) (cn_y c) (cn_ix c) (cn_iy c)
      in if is_central (cn_info c) then
           ebind (tap_name_opt emu_node if_emu_node) (\<lambda>tap. shape_device env c tap None lq)
         else
           ebind (tap_name (cn_x c) (cn_ix c)) (\<lambda>tap_x. ebind (tap_name (cn_y c) (cn_iy c)) (\<lambda>tap_y.
           ebind (get_connection_id env tap_x (Some tap_y)) (\<lambda>i.
             if is_remote_conn (cn_info c) then
               (let (remote, if_remote, local_node, if_local) = get_remote_node (be_is_local env) (cn_x c) (cn_y c) (cn_ix c) (cn_iy c)
                in ebind (tap_name local_node if_local) (\<lambda>tap_local.
                   ebind (get_connection_id env tap_local (get_tunnel_name (be_tunnel env) (en_id remote) (en_id local_node))) (\<lambda>i.
                   shape_device env c tap_local (Some i) lq)))
             else
               eseq (shape_device env c tap_x (Some i) lq) (shape_device env c tap_y (Some i) lq)))))"

text \<open>\<open>NetworkBackendBridgedDummy.before_link_quality_adjustment\<close>\<close>

definition bb_before_adjustment :: "bb_env \<Rightarrow> bb_conn option \<Rightarrow> link_quality option \<Rightarrow> unit bb" where
  "bb_before_adjustment env conn lq = (case conn of
      None \<Rightarrow> ereturn ()
    | Some c \<Rightarrow> (case lq of None \<Rightarrow> eraise AttributeError | Some lq \<Rightarrow> adjust_conn_link_quality env c lq))"

text \<open>
  \<open>Connection.reset\<close>: the clean-up commands are executed in the order of a Python set, which is
  not fixed; a failing one is logged.
\<close>

definition conn_reset :: "bb_env \<Rightarrow> bb_conn \<Rightarrow> (string list \<Rightarrow> string list) \<Rightarrow> unit bb" where
  "conn_reset env c order =
     eseq (emodify (\<lambda>s. s\<lparr>shaped_ifaces := []\<rparr>))
     (ebind (eget (\<lambda>s. order (cleanup_commands s))) (\<lambda>cmds.
      eseq (efor cmds (\<lambda>cmd s. (case host env (RunShell (conn_id c, cmd, [''tc''])) s of
              (Inl CalledProcessError, s) \<Rightarrow> (Inr (), s) | r \<Rightarrow> r)))
      (emodify (\<lambda>s. s\<lparr>cleanup_commands := []\<rparr>))))"

section \<open>Tunnels\<close>

definition get_tunnel_id :: "emulation_node \<Rightarrow> emulation_node \<Rightarrow> int" where
  "get_tunnel_id x y = szudzik_pairing_function (en_id x) (en_id y)"

definition GRETAP_MTU :: nat where "GRETAP_MTU = 1458"
definition EVENT_TUNNEL_ADD :: string where "EVENT_TUNNEL_ADD = ''tunnel_add''"
definition EVENT_TUNNEL_REMOVE :: string where "EVENT_TUNNEL_REMOVE = ''tunnel_remove''"

definition tunnel_command :: "string \<Rightarrow> string \<Rightarrow> unit bb" where
  "tunnel_command event cmd = queue ''tunnel'' event ''0'' cmd [''type'']"

definition get_local_emulation_node :: "bb_env \<Rightarrow> emulation_node \<Rightarrow> emulation_node \<Rightarrow> emulation_node" where
  "get_local_emulation_node env x y = (if be_is_local env (en_id x) then x else y)"

text \<open>
  The \<open>_start\<close> of the three tunnel classes. Each ends with the \<open>_start\<close> of its base classes, of
  which only \<open>StartableObject\<close> has one: it raises \<open>NotImplementedError\<close>.
\<close>

definition tunnel_start :: "bb_env \<Rightarrow> tunnel_mode \<Rightarrow> emulation_node \<Rightarrow> emulation_node \<Rightarrow> string \<Rightarrow> unit bb" where
  "tunnel_start env mode x y remote_ip =
     (let name = tunnel_str (get_tunnel_name (be_tunnel env) (en_id x) (en_id y)); i = get_tunnel_id x y
      in eseq (case mode of
             Gretap \<Rightarrow> eseq (tunnel_command EVENT_TUNNEL_ADD (get_gretap_tunnel_cmd name remote_ip i))
                        (host env (SetMtus (get_local_emulation_node env x y) GRETAP_MTU))
           | Vlan \<Rightarrow> tunnel_command EVENT_TUNNEL_ADD (''ip link add link eth0 name '' @ name @ '' type vlan id '' @ int_dec i)
           | Vxlan \<Rightarrow> tunnel_command EVENT_TUNNEL_ADD
               (''ip link add name '' @ name @ '' type vxlan id '' @ int_dec i @ '' group 239.0.0.1 dstport 4789''))
         (eraise NotImplementedError))"

definition tunnel_shutdown :: "bb_env \<Rightarrow> emulation_node \<Rightarrow> emulation_node \<Rightarrow> unit bb" where
  "tunnel_shutdown env x y =
     tunnel_command EVENT_TUNNEL_REMOVE (get_link_del_cmd (tunnel_str (get_tunnel_name (be_tunnel env) (en_id x) (en_id y))))"

definition tunnel_reset :: "bb_env \<Rightarrow> emulation_node \<Rightarrow> emulation_node \<Rightarrow> unit bb" where
  "tunnel_reset env x y =
     host env (RunShell (''0'', get_link_del_cmd (tunnel_str (get_tunnel_name (be_tunnel env) (en_id x) (en_id y))), [''tunnel'']))"

text \<open>Without a distributed mode there is no tunnel class (\<open>tunnel_factory\<close> returns \<open>None\<close>).\<close>

definition connection_across_servers :: "bb_env \<Rightarrow> emulation_node \<Rightarrow> emulation_node \<Rightarrow> string \<Rightarrow> unit bb" where
  "connection_across_servers env x y remote_ip =
     (let name = get_tunnel_name (be_tunnel env) (en_id x) (en_id y)
      in ebind (eget (\<lambda>s. dget (bb_tunnels s) name)) (\<lambda>known. ewhen (known = None)
           (case be_tunnel env of
              None \<Rightarrow> eraise TypeError
            | Some mode \<Rightarrow> eseq (tunnel_start env mode x y remote_ip)
                (emodify (\<lambda>s. s\<lparr>bb_tunnels := dset (bb_tunnels s) name (x, y)\<rparr>)))))"

section \<open>Creating links\<close>

definition create_n_store_switch :: "bb_env \<Rightarrow> emulation_node \<Rightarrow> emulation_node \<Rightarrow> bridge bb" where
  "create_n_store_switch env x y =
     ebind (elift (switch_name (en_id x) (en_id y))) (\<lambda>br_name.
     (let br = \<lparr>sw_id = br_name, bridge_dev_name = br_name\<rparr>
      in eseq (bridge_start env br False)
         (eseq (emodify (\<lambda>s. s\<lparr>new_bridges := oset_add (new_bridges s) br_name\<rparr>)) (ereturn br))))"

text \<open>
  The filters of \<open>Connections\<close> on the two ends of a link; \<open>[0]\<close> raises on an empty list.
\<close>

definition ends_filter ::
  "(emulation_node \<Rightarrow> bool) \<Rightarrow> emulation_node \<Rightarrow> emulation_node \<Rightarrow> interface \<Rightarrow> interface \<Rightarrow> (emulation_node \<times> interface) list" where
  "ends_filter p x y ix iy = filter_type (\<lambda>e. p (fst e)) [(x, ix), (y, iy)]"

definition virtual_switch :: "bb_env \<Rightarrow> emulation_node \<Rightarrow> bridge res" where
  "virtual_switch env n = (case be_switch env n of Some br \<Rightarrow> Inr br | None \<Rightarrow> Inl AttributeError)"

definition create_connection ::
  "bb_env \<Rightarrow> emulation_node \<Rightarrow> emulation_node \<Rightarrow> interface \<Rightarrow> interface \<Rightarrow> (bool \<times> bridge option) bb" where
  "create_connection env x y ix iy =
     (let centrals = ends_filter is_central_node x y ix iy; mgmts = ends_filter is_management_node x y ix iy
      in if centrals \<noteq> [] \<or> mgmts \<noteq> [] then
           (let (virtual, _) = (if centrals \<noteq> [] then hd centrals else hd mgmts)
            in ebind (elift (pyindex (ends_filter (\<lambda>n. \<not> is_virtual_node n) x y ix iy) 0)) (\<lambda>(emu_node, emu_if).
               ebind (tap_name emu_node emu_if) (\<lambda>tap.
               ebind (elift (virtual_switch env virtual)) (\<lambda>br.
               eseq (add_if env br tap)
               (eseq (remember_unidirectional_connection tap) (ereturn (True, Some br)))))))
         else
           ebind (should_create_new_connection x y ix iy) (\<lambda>create.
             if create then
               ebind (tap_name x ix) (\<lambda>tap_x. ebind (tap_name y iy) (\<lambda>tap_y.
               ebind (create_n_store_switch env x y) (\<lambda>br.
               eseq (add_if env br tap_x) (eseq (add_if env br tap_y)
               (eseq (remember_bidirectional_connection x y ix iy) (ereturn (True, Some br)))))))
             else ereturn (False, None)))"

definition multi_before_link_start ::
  "bb_env \<Rightarrow> emulation_node \<Rightarrow> emulation_node \<Rightarrow> interface \<Rightarrow> interface \<Rightarrow> connection_info \<Rightarrow> (bool \<times> bridge option \<times> bb_conn option) bb" where
  "multi_before_link_start env x y ix iy info =
     ebind (create_connection env x y ix iy) (\<lambda>(linked, br).
     ereturn (linked, br, if linked then Some \<lparr>cn_x = x, cn_y = y, cn_ix = ix, cn_iy = iy, cn_info = info\<rparr> else None))"

definition get_ebtables_chain_cmd :: "bb_env \<Rightarrow> string \<Rightarrow> string" where
  "get_ebtables_chain_cmd env name = ebtables_cmd @ '' '' @ get_ebtables_atomix_prefix env @ '' -N '' @ name @ '' -P DROP''"

definition get_ebtables_redirect_cmd :: "bb_env \<Rightarrow> string \<Rightarrow> string" where
  "get_ebtables_redirect_cmd env br =
     ebtables_cmd @ '' '' @ get_ebtables_atomix_prefix env @ '' -A FORWARD --logical-in '' @ br @ '' -j '' @ br"

text \<open>The bridge of an interface number, created on first use.\<close>

definition get_bridge :: "bb_env \<Rightarrow> interface \<Rightarrow> bridge bb" where
  "get_bridge env i =
     (let br_name = single_br_name (nr_host_interface i)
      in ebind (eget (\<lambda>s. dget (bb_bridges s) br_name)) (\<lambda>known. (case known of
           Some br \<Rightarrow> ereturn br
         | None \<Rightarrow>
             (let br = \<lparr>sw_id = br_name, bridge_dev_name = br_name\<rparr>
              in eseq (emodify (\<lambda>s. s\<lparr>bb_bridges := dset (bb_bridges s) br_name br\<rparr>))
                 (eseq (add_shell_ebtables_command EVENT_EBTABLES_CREATE_CHAINS (get_ebtables_chain_cmd env br_name))
                 (eseq (add_shell_ebtables_command EVENT_EBTABLES_REDIRECT (get_ebtables_redirect_cmd env br_name))
                 (eseq (bridge_start env br False) (ereturn br))))))))"

definition attach_taps ::
  "bb_env \<Rightarrow> bridge \<Rightarrow> emulation_node \<Rightarrow> emulation_node \<Rightarrow> interface \<Rightarrow> interface \<Rightarrow> connection_info \<Rightarrow> bridge bb" where
  "attach_taps env br x y ix iy info =
     (if \<not> (is_central info \<or> is_mgmt info \<or> is_remote_conn info) then
        ebind (tap_name x ix) (\<lambda>tap_x. ebind (tap_name y iy) (\<lambda>tap_y.
        eseq (add_if env br tap_x) (eseq (add_if env br tap_y) (ereturn br))))
      else
        ebind (elift (if is_central info then rbind (pyindex (ends_filter is_central_node x y ix iy) 0) (\<lambda>e. Inr (Some (fst e)))
                      else if is_mgmt info then rbind (pyindex (ends_filter is_management_node x y ix iy) 0) (\<lambda>e. Inr (Some (fst e)))
                      else Inr None)) (\<lambda>virtual.
          if is_remote_conn info then
            (let (remote, if_remote, local_node, if_local) = get_remote_node (be_is_local env) x y ix iy
             in eseq (add_if env br (tunnel_str (get_tunnel_name (be_tunnel env) (en_id x) (en_id y))))
                (ebind (tap_name local_node if_local) (\<lambda>tap. eseq (add_if env br tap) (ereturn br))))
          else
            ebind (elift (pyindex (ends_filter (\<lambda>n. \<not> is_virtual_node n) x y ix iy) 0)) (\<lambda>(emu_node, emu_if).
            ebind (tap_name emu_node emu_if) (\<lambda>tap.
            ebind (elift (case virtual of None \<Rightarrow> Inl AttributeError | Some v \<Rightarrow> virtual_switch env v)) (\<lambda>br.
            eseq (add_if env br tap) (ereturn br))))))"

definition single_before_link_start ::
  "bb_env \<Rightarrow> emulation_node \<Rightarrow> emulation_node \<Rightarrow> interface \<Rightarrow> interface \<Rightarrow> connection_info \<Rightarrow> (bool \<times> bridge option \<times> bb_conn option) bb" where
  "single_before_link_start env x y ix iy info =
     ebind (get_bridge env ix) (\<lambda>br. ebind (attach_taps env br x y ix iy info) (\<lambda>br.
     ereturn (True, Some br, Some \<lparr>cn_x = x, cn_y = y, cn_ix = ix, cn_iy = iy, cn_info = info\<rparr>)))"

definition bb_before_link_start ::
  "bb_env \<Rightarrow> emulation_node \<Rightarrow> emulation_node \<Rightarrow> interface \<Rightarrow> interface \<Rightarrow> connection_info \<Rightarrow> (bool \<times> bridge option \<times> bb_conn option) bb" where
  "bb_before_link_start env x y ix iy info =
     (if be_single env then single_before_link_start env x y ix iy info else multi_before_link_start env x y ix iy info)"

section \<open>Command queue and topology change\<close>

definition ebtables_event_order :: "string list" where
  "ebtables_event_order =
     [EVENT_EBTABLES_INIT, EVENT_EBTABLES_CREATE_CHAINS, EVENT_EBTABLES_REDIRECT, EVENT_EBTABLES_COMMANDS, EVENT_EBTABLES_FINISH]"

text \<open>
  \<open>setup_shell_command_executor\<close>: that of the connection mode, then that of \<open>iproute2\<close>. The
  single device mode replaces the base class's set-up.
\<close>

definition setup_shell_command_executor :: "bb_env \<Rightarrow> serializer \<Rightarrow> serializer" where
  "setup_shell_command_executor env ex =
     (let ex = (if be_single env
                then set_event_order ''ebtables'' ebtables_event_order (add_group ''ebtables'' ex)
                else set_event_order ''connection'' conn_event_order (set_group_order [''connection''] ex));
          ex = fold add_group [''connection'', ''tunnel'', ''bridge''] ex;
          ex = set_event_order ''bridge'' [EVENT_BRIDGE_ADD, BRIDGE_PAR] ex;
          ex = set_event_order ''connection'' conn_event_order ex
      in set_event_order ''tunnel'' [EVENT_TUNNEL_REMOVE, EVENT_TUNNEL_ADD] ex)"

definition reset_shell_command_executor :: "bb_env \<Rightarrow> unit bb" where
  "reset_shell_command_executor env =
     emodify (\<lambda>s. s\<lparr>shell_command_executor := setup_shell_command_executor env serializer_init\<rparr>)"

definition executor_run :: "bb_env \<Rightarrow> order_arg \<Rightarrow> unit bb" where
  "executor_run env order s =
     (let (r, tr, ex) = run_commands (\<lambda>a. be_host env (RunShell a)) (be_mode env) order (shell_command_executor s)
      in (r, s\<lparr>shell_command_executor := ex, bb_calls := bb_calls s @ map RunShell tr\<rparr>))"

text \<open>
  \<open>re_find_ip\<close> and \<open>re_tc\<close>: the rest of every line that starts with the command and white
  space. No command contains a line break, so the lines are the commands.
\<close>

definition is_ws :: "char \<Rightarrow> bool" where
  "is_ws c \<longleftrightarrow> c \<in> set [CHR '' '', CHR 0x09, CHR 0x0A, CHR 0x0B, CHR 0x0C, CHR 0x0D]"

definition strip_tool :: "string \<Rightarrow> string \<Rightarrow> string list" where
  "strip_tool tool line =
     (if take (length tool) line = tool \<and> (\<exists>c \<in> set (take 1 (drop (length tool) line)). is_ws c)
      then [dropWhile is_ws (drop (length tool) line)] else [])"

definition findall_tool :: "string \<Rightarrow> string list \<Rightarrow> string list" where
  "findall_tool tool cmds = concat (map (strip_tool tool) cmds)"

definition all_commands :: "string list bb" where
  "all_commands s = (let (cmds, ex) = get_all_commands (shell_command_executor s) in (Inr cmds, s\<lparr>shell_command_executor := ex\<rparr>))"

definition run_ip_batch :: "bb_env \<Rightarrow> unit bb" where
  "run_ip_batch env = ebind all_commands (\<lambda>cmds s.
     (case host env (RunInput ''ip -d -batch -'' (pyjoin newline (oset_of (findall_tool ''ip'' cmds)))) s of
        (Inl CalledProcessError, s) \<Rightarrow> (Inl NetworkBackendBridgedError, s) | r \<Rightarrow> r))"

definition ebtable_atomic_cmd :: "bb_env \<Rightarrow> string \<Rightarrow> string" where
  "ebtable_atomic_cmd env action = ebtables_cmd @ '' --atomic-file '' @ be_atomic_file env @ '' --atomic-'' @ action"

text \<open>
  \<open>do_network_topology_change\<close> along the inheritance: brctl, iproute2, then the connection mode.
  The group filters are strings.
\<close>

definition mode_topology_change :: "bb_env \<Rightarrow> unit bb" where
  "mode_topology_change env = ewhen (be_single env \<and> be_batch env)
     (eseq (add_shell_ebtables_command EVENT_EBTABLES_FINISH (ebtable_atomic_cmd env ''commit''))
       (executor_run env (OrderStr ''ebtables'')))"

definition do_network_topology_change :: "bb_env \<Rightarrow> unit bb" where
  "do_network_topology_change env =
     eseq (ewhen (be_brctl env \<and> be_batch env) (executor_run env (OrderStr ''bridge'')))
     (eseq (mode_topology_change env)
     (if be_batch env then run_ip_batch env else executor_run env OrderNone))"

definition do_queueing_discipline :: "bb_env \<Rightarrow> unit bb" where
  "do_queueing_discipline env = ewhen (be_batch env)
     (ebind all_commands (\<lambda>cmds. host env (RunInput ''tc -d -batch -'' (pyjoin newline (findall_tool ''tc'' cmds)))))"

definition bb_after_matrix :: "bb_env \<Rightarrow> unit bb" where
  "bb_after_matrix env =
     eseq (emodify (\<lambda>s. s\<lparr>shell_command_executor := snd (get_verbose_info (shell_command_executor s))\<rparr>))
     (eseq (do_network_topology_change env) (eseq (do_queueing_discipline env)
     (emodify (\<lambda>s. s\<lparr>shell_command_executor := serializer_init\<rparr>))))"

definition reset_simulation_step :: "bb_env \<Rightarrow> unit bb" where
  "reset_simulation_step env = eseq (emodify (\<lambda>s. s\<lparr>new_bridges := []\<rparr>)) (reset_shell_command_executor env)"

text \<open>\<open>be_hook_script\<close> is the configured script, if it exists.\<close>

definition bb_after_step :: "bb_env \<Rightarrow> unit bb" where
  "bb_after_step env =
     eseq (ebind (eget new_bridges) (\<lambda>brs. (case be_hook_script env of
             None \<Rightarrow> ereturn () | Some script \<Rightarrow> host env (RunHook script (pyjoin '' '' brs)))))
     (reset_simulation_step env)"

definition init_ebtables :: "bb_env \<Rightarrow> unit bb" where
  "init_ebtables env =
     eseq (host env (RunShell (''network_backend'', ebtable_atomic_cmd env ''init'', [''ebtables''])))
     (host env (RunShell (''network_backend'', ebtable_atomic_cmd env ''commit'', [''ebtables''])))"

definition bb_before_step :: "bb_env \<Rightarrow> nat \<Rightarrow> unit bb" where
  "bb_before_step env step_cnt = ewhen (be_single env)
     (eseq (ewhen (be_batch env) (add_shell_ebtables_command EVENT_EBTABLES_INIT (ebtable_atomic_cmd env ''save'')))
     (ewhen (step_cnt = 0) (init_ebtables env)))"

text \<open>
  \<open>reset\<close>: the tunnels, then \<open>_shutdown\<close>, then the ebtables of the single device mode. The
  bridges of that mode and the numbers of the connections, which belong to classes, stay.
\<close>

definition bb_shutdown :: "bb_env \<Rightarrow> unit bb" where
  "bb_shutdown env =
     eseq (emodify (\<lambda>s. s\<lparr>bb_names := names_init, new_bridges := []\<rparr>))
     (eseq (reset_shell_command_executor env)
     (emodify (\<lambda>s. s\<lparr>bk_connections := [], interface_states := []\<rparr>)))"

definition bb_reset :: "bb_env \<Rightarrow> unit bb" where
  "bb_reset env =
     eseq (emodify (\<lambda>s. s\<lparr>bb_tunnels := []\<rparr>)) (eseq (bb_shutdown env) (ewhen (be_single env) (init_ebtables env)))"

section \<open>What the notifications leave alone\<close>

text \<open>
  Everything the simulation manager makes the backend do between two resets, in any order and with
  any outcome.
\<close>

inductive bb_runtime :: "bb_env \<Rightarrow> backend \<Rightarrow> backend \<Rightarrow> bool" for env where
  run_refl: "bb_runtime env s s"
| run_start: "bb_runtime env s s' \<Longrightarrow> bb_runtime env s (snd (bb_before_link_start env x y ix iy info s'))"
| run_up: "bb_runtime env s s' \<Longrightarrow> bb_runtime env s (snd (bb_link_up env c s'))"
| run_down: "bb_runtime env s s' \<Longrightarrow> bb_runtime env s (snd (bb_link_down env c s'))"
| run_adjust: "bb_runtime env s s' \<Longrightarrow> bb_runtime env s (snd (bb_before_adjustment env c lq s'))"
| run_across: "bb_runtime env s s' \<Longrightarrow> bb_runtime env s (snd (connection_across_servers env x y ip s'))"
| run_before_step: "bb_runtime env s s' \<Longrightarrow> bb_runtime env s (snd (bb_before_step env k s'))"
| run_after_matrix: "bb_runtime env s s' \<Longrightarrow> bb_runtime env s (snd (bb_after_matrix env s'))"
| run_after_step: "bb_runtime env s s' \<Longrightarrow> bb_runtime env s (snd (bb_after_step env s'))"

lemma ebind_raise_last: "\<exists>e s'. ebind m (\<lambda>_. eraise err) s = (Inl e, s')"
  by (cases "m s"; cases "fst (m s)") (simp_all add: ebind_def eraise_def)

lemma tunnel_start_raises: "\<exists>e s'. tunnel_start env mode x y ip s = (Inl e, s')"
  unfolding tunnel_start_def Let_def by (rule ebind_raise_last)

text \<open>
  A property of the backend that survives the elementary changes survives all notifications, also
  when they raise.
\<close>

locale backend_frame =
  fixes Q :: "backend \<Rightarrow> bool"
  assumes Q_calls: "Q s \<Longrightarrow> Q (s\<lparr>bb_calls := c\<rparr>)"
    and Q_executor: "Q s \<Longrightarrow> Q (s\<lparr>shell_command_executor := ex\<rparr>)"
    and Q_new_bridges: "Q s \<Longrightarrow> Q (s\<lparr>new_bridges := brs\<rparr>)"
    and Q_connections: "Q s \<Longrightarrow> Q (s\<lparr>bk_connections := cs\<rparr>)"
    and Q_bridges: "Q s \<Longrightarrow> Q (s\<lparr>bb_bridges := bs\<rparr>)"
    and Q_shaped: "Q s \<Longrightarrow> Q (s\<lparr>shaped_ifaces := sh\<rparr>)"
    and Q_cleanup: "Q s \<Longrightarrow> Q (s\<lparr>cleanup_commands := cc\<rparr>)"
    and Q_taps: "Q s \<Longrightarrow> Q (s\<lparr>bb_names := snd (get_tap_name nid i (bb_names s))\<rparr>)"
    and Q_states: "Q s \<Longrightarrow> Q (s\<lparr>interface_states := dset (interface_states s) dev up\<rparr>)"
    and Q_ids: "Q s \<Longrightarrow> Q (snd (eb_connection_id a b s))"
begin

lemma Q_host: "keeps Q (host env call)"
  unfolding host_def by (intro keeps_ebind keeps_emodify keeps_elift Q_calls)

lemma Q_queue: "keeps Q (queue grp event cid cmd ps)"
  unfolding queue_def by (intro keeps_emodify Q_executor)

lemma Q_tap_name: "keeps Q (tap_name n i)"
  by (simp add: keeps_def tap_name_def case_prod_beta Q_taps)

lemma Q_state_getitem: "keeps Q (state_getitem dev)"
  by (simp add: keeps_def state_getitem_def Q_states split: option.split)

lemma Q_add_device: "keeps Q (add_device dev up)"
  unfolding add_device_def by (intro keeps_emodify Q_states)

lemma Q_toggle_state: "keeps Q (toggle_state dev up)"
  unfolding toggle_state_def by (intro keeps_ebind keeps_ewhen keeps_emodify Q_state_getitem Q_states)

lemma Q_connection_getitem: "keeps Q (connection_getitem k)"
  by (simp add: keeps_def connection_getitem_def Q_connections split: option.split)

lemma Q_shaped_getitem: "keeps Q (shaped_getitem dev)"
  by (simp add: keeps_def shaped_getitem_def Q_shaped split: option.split)

lemma Q_connection_id: "keeps Q (get_connection_id env a b)"
  unfolding get_connection_id_def
  by (intro keeps_if keeps_ereturn) (simp add: keeps_def Q_ids eraise_def split: option.split)

lemmas Q_prim = keeps_ebind keeps_case_option keeps_ewhen keeps_if keeps_ereturn keeps_eraise keeps_elift keeps_eget
  keeps_emodify Q_host Q_queue Q_tap_name Q_state_getitem Q_add_device Q_toggle_state Q_connection_getitem
  Q_shaped_getitem Q_connection_id Q_calls Q_executor Q_new_bridges Q_connections Q_bridges Q_shaped Q_cleanup

lemma Q_bridge_command: "keeps Q (bridge_command br e cmd)"
  unfolding bridge_command_def by (rule Q_queue)

lemma Q_bridge_start: "keeps Q (bridge_start env br sw)"
  unfolding bridge_start_def by (intro Q_prim Q_bridge_command)

lemma Q_add_if: "keeps Q (add_if env br ifn)"
  unfolding add_if_def by (intro Q_prim Q_bridge_command)

lemma Q_tap_link_up_single: "keeps Q (tap_link_up_single env c a b up)"
  unfolding tap_link_up_single_def get_ebtables_cmd_def add_shell_ebtables_command_def by (intro Q_prim)

lemma Q_tap_link_up: "keeps Q (tap_link_up env c a b up)"
  unfolding tap_link_up_def tap_link_up_multi_def conn_command_def by (intro Q_prim Q_tap_link_up_single)

lemma Q_tap_link_up_remote: "keeps Q (tap_link_up_remote env c a b up)"
  unfolding tap_link_up_remote_def by (intro Q_prim Q_tap_link_up_single)

lemma Q_set_connection_state: "keeps Q (set_connection_state env c up)"
  unfolding set_connection_state_def Let_def case_prod_beta
  by (intro Q_prim Q_tap_link_up Q_tap_link_up_remote)

lemma Q_shape_device: "keeps Q (shape_device env c dev i lq)"
  unfolding shape_device_def add_filter_cmd_def add_cleanup_def conn_command_def Let_def by (intro Q_prim)

lemma Q_adjust: "keeps Q (adjust_conn_link_quality env c lq)"
  unfolding adjust_conn_link_quality_def Let_def case_prod_beta tap_name_opt_def
  by (intro Q_prim Q_shape_device)

lemma Q_create_connection: "keeps Q (create_connection env x y ix iy)"
  unfolding create_connection_def should_create_new_connection_def remember_bidirectional_connection_def
    remember_unidirectional_connection_def create_n_store_switch_def Let_def case_prod_beta
  by (intro Q_prim Q_add_if Q_bridge_start)

lemma Q_get_bridge: "keeps Q (get_bridge env i)"
  unfolding get_bridge_def add_shell_ebtables_command_def Let_def by (intro Q_prim Q_bridge_start)

lemma Q_attach_taps: "keeps Q (attach_taps env br x y ix iy info)"
  unfolding attach_taps_def Let_def case_prod_beta by (intro Q_prim Q_add_if)

lemma Q_link_start: "keeps Q (bb_before_link_start env x y ix iy info)"
  unfolding bb_before_link_start_def single_before_link_start_def multi_before_link_start_def case_prod_beta
  by (intro Q_prim Q_create_connection Q_get_bridge Q_attach_taps)

lemma Q_link_up: "keeps Q (bb_link_up env c)" and Q_link_down: "keeps Q (bb_link_down env c)"
  by (cases c; simp add: bb_link_up_def bb_link_down_def keeps_ereturn Q_set_connection_state)+

lemma Q_before_adjustment: "keeps Q (bb_before_adjustment env c lq)"
  by (cases c; cases lq) (simp_all add: bb_before_adjustment_def keeps_ereturn keeps_eraise Q_adjust)

lemma Q_across: "keeps Q (connection_across_servers env x y ip)"
proof -
  have "keeps Q (tunnel_start env mode x y ip)" for mode
    unfolding tunnel_start_def tunnel_command_def Let_def by (cases mode) (auto intro!: Q_prim)
  then have start: "keeps Q (eseq (tunnel_start env mode x y ip) k)" for mode and k :: "unit bb"
    using tunnel_start_raises by (rule keeps_ebind_raises)
  show ?thesis
    unfolding connection_across_servers_def Let_def
    by (rule keeps_ebind [OF keeps_eget keeps_ewhen [OF keeps_case_option [OF keeps_eraise start]]])
qed

lemma Q_before_step: "keeps Q (bb_before_step env k)"
  unfolding bb_before_step_def add_shell_ebtables_command_def init_ebtables_def by (intro Q_prim)

lemma Q_executor_run: "keeps Q (executor_run env order)"
  unfolding keeps_def executor_run_def Let_def case_prod_beta using Q_calls [OF Q_executor] by simp

lemma Q_all_commands: "keeps Q all_commands"
  by (simp add: keeps_def all_commands_def case_prod_beta Q_executor)

lemma Q_ip_batch: "keeps Q (run_ip_batch env)"
proof -
  have "keeps Q (\<lambda>s. case host env call s of (Inl CalledProcessError, s) \<Rightarrow> (Inl NetworkBackendBridgedError, s) | r \<Rightarrow> r)" for call
    unfolding keeps_def
  proof (intro allI impI)
    fix s assume "Q s"
    then have "Q (snd (host env call s))" using Q_host [of env call] by (simp add: keeps_def)
    then show "Q (snd (case host env call s of (Inl CalledProcessError, s) \<Rightarrow> (Inl NetworkBackendBridgedError, s) | r \<Rightarrow> r))"
      by (auto split: prod.splits sum.splits py_error.splits)
  qed
  then show ?thesis unfolding run_ip_batch_def by (intro keeps_ebind Q_all_commands)
qed

lemma Q_after_matrix: "keeps Q (bb_after_matrix env)"
  unfolding bb_after_matrix_def do_network_topology_change_def mode_topology_change_def do_queueing_discipline_def
    add_shell_ebtables_command_def
  by (intro Q_prim Q_executor_run Q_ip_batch Q_all_commands)

lemma Q_after_step: "keeps Q (bb_after_step env)"
  unfolding bb_after_step_def reset_simulation_step_def reset_shell_command_executor_def by (intro Q_prim)

lemma Q_runtime: "bb_runtime env s s' \<Longrightarrow> Q s \<Longrightarrow> Q s'"
proof (induction rule: bb_runtime.induct)
  case run_refl
  then show ?case .
next
  case (run_start s s' x y ix iy info)
  then show ?case using Q_link_start unfolding keeps_def by blast
next
  case (run_up s s' c)
  then show ?case using Q_link_up unfolding keeps_def by blast
next
  case (run_down s s' c)
  then show ?case using Q_link_down unfolding keeps_def by blast
next
  case (run_adjust s s' c lq)
  then show ?case using Q_before_adjustment unfolding keeps_def by blast
next
  case (run_across s s' x y ip)
  then show ?case using Q_across unfolding keeps_def by blast
next
  case (run_before_step s s' k)
  then show ?case using Q_before_step unfolding keeps_def by blast
next
  case (run_after_matrix s s')
  then show ?case using Q_after_matrix unfolding keeps_def by blast
next
  case (run_after_step s s')
  then show ?case using Q_after_step unfolding keeps_def by blast
qed

end

end
