(* ===== verification/Bridged_Links.thy ===== *)
theory Bridged_Links
  imports Bridged_Backend
begin

text \<open>
  What the bridged backend guarantees between two resets: a tap device belongs to at most one
  bridge, connection ids identify pairs of devices, tunnels are never created.
\<close>

section \<open>Tap devices are used once\<close>

definition tap_str :: "int \<Rightarrow> nat \<Rightarrow> string" where
  "tap_str nid p = ''tap_'' @ fmt_05d nid @ ''_'' @ nat_hex p"

text \<open>The tap device of an interface exists and is marked as used.\<close>

definition tap_taken :: "int \<Rightarrow> interface \<Rightarrow> backend \<Rightarrow> bool" where
  "tap_taken nid i s \<longleftrightarrow> (\<exists>p. dget (tap_id_mapping (bb_names s)) (tap_long_id nid i) = Some p
     \<and> dget (interface_states s) (tap_str nid p) \<noteq> None)"

lemma tap_kept: "dget (tap_id_mapping s) k = Some p \<Longrightarrow> dget (tap_id_mapping (snd (get_tap_name nid i s))) k = Some p"
  using tap_kept_later [OF later_tap [OF later_refl]] by (simp add: get_tap_name_alt)

interpretation taken: backend_frame "tap_taken nid i" for nid i
proof
  show "tap_taken nid i (s\<lparr>bb_names := snd (get_tap_name n j (bb_names s))\<rparr>)" if "tap_taken nid i s" for s n j
    using that tap_kept unfolding tap_taken_def by fastforce
  show "tap_taken nid i (snd (eb_connection_id a b s))" if "tap_taken nid i s" for s a b
    using that by (auto simp: tap_taken_def eb_connection_id_def split: option.split)
  show "tap_taken nid i (s\<lparr>interface_states := dset (interface_states s) dev up\<rparr>)" if "tap_taken nid i s" for s dev up
    using that by (auto simp: tap_taken_def dict_simps)
qed (auto simp: tap_taken_def)

lemma tap_name_eval:
  "tap_name n i s = (Inr (tap_str (en_id n) (fst (get_id_tap_postfix (en_id n) i (bb_names s)))),
     s\<lparr>bb_names := snd (get_tap_name (en_id n) i (bb_names s))\<rparr>)"
  by (simp add: tap_name_def get_tap_name_alt tap_str_def)

lemma tap_name_stored:
  "tap_name n i s = (Inr t, s') \<Longrightarrow> \<exists>p. t = tap_str (en_id n) p \<and> dget (tap_id_mapping (bb_names s')) (tap_long_id (en_id n) i) = Some p"
  using tap_postfix_stored [of "en_id n" i "bb_names s"] by (auto simp: tap_name_eval get_tap_name_alt)

lemma tap_name_frame:
  assumes "tap_name n i s = (r, s')"
  shows "interface_states s' = interface_states s" "shell_command_executor s' = shell_command_executor s"
    "tap_taken nid j s \<Longrightarrow> tap_taken nid j s'" "\<exists>t. r = Inr t"
  using assms keepsD [OF taken.Q_tap_name [of nid j n i] _ assms] by (auto simp: tap_name_eval)

lemma tap_name_taken:
  assumes "tap_taken (en_id n) i s" "tap_name n i s = (Inr t, s')"
  shows "dget (interface_states s') t \<noteq> None"
proof -
  obtain p where p: "dget (tap_id_mapping (bb_names s)) (tap_long_id (en_id n) i) = Some p"
    "dget (interface_states s) (tap_str (en_id n) p) \<noteq> None" using assms(1) by (auto simp: tap_taken_def)
  then show ?thesis using assms(2) tap_postfix_known(1) [OF p(1)] by (auto simp: tap_name_eval)
qed

lemma should_create_taken:
  assumes "tap_taken (en_id x) ix s \<or> tap_taken (en_id y) iy s"
  shows "\<exists>s'. should_create_new_connection x y ix iy s = (Inr False, s') \<and> shell_command_executor s' = shell_command_executor s"
proof -
  obtain tx s1 where 1: "tap_name x ix s = (Inr tx, s1)" using tap_name_eval by blast
  obtain ty s2 where 2: "tap_name y iy s1 = (Inr ty, s2)" using tap_name_eval by blast
  obtain b s3 where 3: "connection_getitem (host_key x y) s2 = (Inr b, s3)" "interface_states s3 = interface_states s2"
    "shell_command_executor s3 = shell_command_executor s2"
    by (cases "dget (bk_connections s2) (host_key x y)") (auto simp: connection_getitem_def)
  have "dget (interface_states s3) tx \<noteq> None \<or> dget (interface_states s3) ty \<noteq> None"
    using assms
  proof
    assume "tap_taken (en_id x) ix s"
    then show ?thesis using tap_name_taken [OF _ 1] tap_name_frame(1) [OF 2] 3 by simp
  next
    assume "tap_taken (en_id y) iy s"
    then have "tap_taken (en_id y) iy s1" by (rule tap_name_frame(3) [OF 1])
    then show ?thesis using tap_name_taken [OF _ 2] 3 by simp
  qed
  then show ?thesis
    using 1 2 3 tap_name_frame(2) [OF 1] tap_name_frame(2) [OF 2]
    by (auto simp: should_create_new_connection_def ebind_def eget_def ereturn_def)
qed

lemma remember_takes:
  assumes "remember_bidirectional_connection x y ix iy s = (Inr (), s')"
  shows "tap_taken (en_id x) ix s' \<and> tap_taken (en_id y) iy s'"
proof -
  obtain tx s1 where 1: "tap_name x ix s = (Inr tx, s1)" using tap_name_eval by blast
  obtain ty s2 where 2: "tap_name y iy s1 = (Inr ty, s2)" using tap_name_eval by blast
  obtain p where p: "tx = tap_str (en_id x) p" "dget (tap_id_mapping (bb_names s1)) (tap_long_id (en_id x) ix) = Some p"
    using tap_name_stored [OF 1] by blast
  obtain q where q: "ty = tap_str (en_id y) q" "dget (tap_id_mapping (bb_names s2)) (tap_long_id (en_id y) iy) = Some q"
    using tap_name_stored [OF 2] by blast
  have "dget (tap_id_mapping (bb_names s2)) (tap_long_id (en_id x) ix) = Some p"
    using tap_kept [OF p(2)] 2 by (auto simp: tap_name_eval)
  moreover have "bb_names s' = bb_names s2" "dget (interface_states s') tx \<noteq> None" "dget (interface_states s') ty \<noteq> None"
    using assms 1 2 by (auto simp: remember_bidirectional_connection_def ebind_def add_device_def emodify_def dict_simps)
  ultimately show ?thesis using p(1) q unfolding tap_taken_def by fastforce
qed

lemma ends_filter_real:
  assumes "\<not> is_virtual_node x" "\<not> is_virtual_node y"
  shows "ends_filter is_central_node x y ix iy = []" "ends_filter is_management_node x y ix iy = []"
  using assms by (auto simp: ends_filter_def filter_type_def is_virtual_node_def is_central_node_def is_management_node_def)

lemma create_connection_takes:
  assumes "\<not> is_virtual_node x" "\<not> is_virtual_node y" "create_connection env x y ix iy s = (Inr (True, br), s')"
  shows "tap_taken (en_id x) ix s' \<and> tap_taken (en_id y) iy s'"
proof -
  have "\<exists>s0. remember_bidirectional_connection x y ix iy s0 = (Inr (), s')"
    using assms(3) unfolding create_connection_def ends_filter_real [OF assms(1,2)]
    by (auto simp: ebind_Inr ereturn_def split: if_splits)
  then show ?thesis using remember_takes by blast
qed

lemma create_connection_taken:
  assumes "\<not> is_virtual_node x" "\<not> is_virtual_node y" "tap_taken (en_id x) ix s \<or> tap_taken (en_id y) iy s"
  shows "\<exists>s'. create_connection env x y ix iy s = (Inr (False, None), s') \<and> shell_command_executor s' = shell_command_executor s"
  using should_create_taken [OF assms(3)] unfolding create_connection_def ends_filter_real [OF assms(1,2)]
  by (auto simp: ebind_def ereturn_def)

text \<open>The two ends of a link, as the tap devices are numbered.\<close>

definition end_key :: "emulation_node \<Rightarrow> interface \<Rightarrow> int \<times> nat \<times> nat" where
  "end_key n i = (en_id n, node_class (if_type i), nr_host_interface i)"

lemma taken_end_key: "end_key n i = end_key m j \<Longrightarrow> tap_taken (en_id n) i s \<longleftrightarrow> tap_taken (en_id m) j s"
  by (auto simp: end_key_def tap_taken_def tap_long_id_def)


definition ex_bb_env :: bb_env where
  "ex_bb_env = \<lparr>be_single = False, be_brctl = False, be_batch = True, be_mode = Sequential, be_tunnel = Some Gretap,
     be_is_local = (\<lambda>_. True), be_switch = (\<lambda>_. None), be_atomic_file = ''f'', be_hook_script = None,
     be_print_num = (\<lambda>_. ''1''), be_host = (\<lambda>_. Inr ())\<rparr>"

definition ex_backend :: backend where
  "ex_backend = \<lparr>bb_names = names_init, new_bridges = [], shell_command_executor = setup_shell_command_executor ex_bb_env serializer_init,
     bk_connections = [], interface_states = [], bb_tunnels = [], bb_bridges = [], shaped_ifaces = [], cleanup_commands = [],
     eb_connections = [], cnt_connections = 1, bb_calls = []\<rparr>"

definition ex_bb_node :: "int \<Rightarrow> emulation_node" where
  "ex_bb_node i = \<lparr>en_id = i, en_name = None, en_kind = RealNode, en_interfaces = [\<lparr>if_type = Mesh, nr_host_interface = 1\<rparr>]\<rparr>"

definition ex_bb_mesh :: interface where
  "ex_bb_mesh = \<lparr>if_type = Mesh, nr_host_interface = 1\<rparr>"

definition ex_bb_info :: connection_info where
  "ex_bb_info = \<lparr>is_remote_conn = False, is_central = False, is_mgmt = False\<rparr>"

lemma ex_bb_real: "\<not> is_virtual_node (ex_bb_node i)"
  by (simp add: is_virtual_node_def ex_bb_node_def)

text \<open>The first link of a backend is made, if the ids of the nodes are admitted.\<close>

lemma first_link_made:
  assumes "\<not> is_virtual_node x" "\<not> is_virtual_node y" "interface_states s = []" "bk_connections s = []"
    and "en_id x \<le> 10 ^ 5" "en_id y \<le> 10 ^ 5"
  shows "\<exists>br s'. create_connection env x y ix iy s = (Inr (True, Some br), s')"
proof -
  obtain tx s1 where 1: "tap_name x ix s = (Inr tx, s1)" "interface_states s1 = []" "bk_connections s1 = []"
    using assms(3,4) by (simp add: tap_name_eval)
  obtain ty s2 where 2: "tap_name y iy s1 = (Inr ty, s2)" "interface_states s2 = []" "bk_connections s2 = []"
    using 1 by (simp add: tap_name_eval)
  have create: "\<exists>s3. should_create_new_connection x y ix iy s = (Inr True, s3)"
    using 1 2 by (simp add: should_create_new_connection_def connection_getitem_def ebind_def eget_def ereturn_def)
  have quiet: "\<exists>s'. add_if env br t u = (Inr (), s')" "\<exists>s'. bridge_start env br False u = (Inr (), s')"
    "\<exists>s'. remember_bidirectional_connection x y ix iy u = (Inr (), s')" for br t u
    by (simp_all add: add_if_def bridge_start_def bridge_command_def queue_def ebind_def emodify_def ewhen_def
        remember_bidirectional_connection_def add_device_def tap_name_eval)
  have switch: "\<exists>br s'. create_n_store_switch env x y u = (Inr br, s')" for u
  proof -
    let ?name = "node_bridge_name (en_id x) (en_id y)"
    have "switch_name (en_id x) (en_id y) = Inr ?name" using assms(5,6) by (simp add: switch_name_def)
    moreover obtain s' where "bridge_start env \<lparr>sw_id = ?name, bridge_dev_name = ?name\<rparr> False u = (Inr (), s')"
      using quiet(2) by blast
    ultimately show ?thesis
      by (simp add: create_n_store_switch_def Let_def elift_def ebind_def emodify_def ereturn_def)
  qed
  obtain s3 where 3: "should_create_new_connection x y ix iy s = (Inr True, s3)" using create by blast
  obtain tx' s4 where 4: "tap_name x ix s3 = (Inr tx', s4)" using tap_name_eval by blast
  obtain ty' s5 where 5: "tap_name y iy s4 = (Inr ty', s5)" using tap_name_eval by blast
  obtain br s6 where 6: "create_n_store_switch env x y s5 = (Inr br, s6)" using switch by blast
  obtain s7 where 7: "add_if env br tx' s6 = (Inr (), s7)" using quiet(1) by blast
  obtain s8 where 8: "add_if env br ty' s7 = (Inr (), s8)" using quiet(1) by blast
  obtain s9 where 9: "remember_bidirectional_connection x y ix iy s8 = (Inr (), s9)" using quiet(3) by blast
  show ?thesis
    unfolding create_connection_def ends_filter_real [OF assms(1,2)]
    using 3 4 5 6 7 8 9 by (simp add: ebind_def ereturn_def)
qed


section \<open>Connection ids\<close>

lemma str_lt_total: "\<not> str_lt s t \<Longrightarrow> \<not> str_lt t s \<Longrightarrow> s = t"
proof (induction s t rule: str_lt.induct)
  case (1 s)
  then show ?case by (cases s) simp_all
next
  case (3 a as b bs)
  then have "\<not> (of_char a :: nat) < of_char b" "\<not> (of_char b :: nat) < of_char a" by auto
  then have "a = b" by (simp add: not_less_iff_gr_or_eq)
  then show ?case using 3 by simp
qed simp

lemma str_lt_asym: "str_lt s t \<Longrightarrow> \<not> str_lt t s"
  by (induction s t rule: str_lt.induct) auto

lemma eb_key_eq: "eb_key a b = eb_key c d \<longleftrightarrow> {a, b} = {c, d}"
proof -
  have key: "eb_key u v = (if str_lt v u then [v, u] else [u, v])" for u v
    by (simp add: eb_key_def pysorted_def)
  show ?thesis
    unfolding key using str_lt_total str_lt_asym by (auto simp: doubleton_eq_iff)
qed

definition eb_inv :: "backend \<Rightarrow> bool" where
  "eb_inv s \<longleftrightarrow> (\<forall>k i. dget (eb_connections s) k = Some i \<longrightarrow> i < cnt_connections s)
     \<and> (\<forall>k k' i. dget (eb_connections s) k = Some i \<longrightarrow> dget (eb_connections s) k' = Some i \<longrightarrow> k = k')"

text \<open>An id that was given to a pair of devices.\<close>

definition eb_given :: "string list option \<Rightarrow> nat \<Rightarrow> backend \<Rightarrow> bool" where
  "eb_given key i s \<longleftrightarrow> eb_inv s \<and> (\<forall>k. key = Some k \<longrightarrow> dget (eb_connections s) k = Some i)"

lemma eb_given_next:
  assumes "eb_given key i s"
  shows "eb_given key i (snd (eb_connection_id a b s))"
proof (cases "dget (eb_connections s) (eb_key a b)")
  case None
  let ?m = "(dget (eb_connections s))(eb_key a b \<mapsto> cnt_connections s)"
  have old: "j < cnt_connections s" if "dget (eb_connections s) k = Some j" for k j
    using assms that by (simp add: eb_given_def eb_inv_def)
  have inj: "k = k'" if "dget (eb_connections s) k = Some j" "dget (eb_connections s) k' = Some j" for k k' j
    using assms that by (simp add: eb_given_def eb_inv_def)
  have new: "dget (eb_connections (snd (eb_connection_id a b s))) = ?m"
    "cnt_connections (snd (eb_connection_id a b s)) = Suc (cnt_connections s)"
    using None by (auto simp: eb_connection_id_def fun_eq_iff dict_simps)
  have "k = k'" if "?m k = Some j" "?m k' = Some j" for k k' j
    using map_upd_SomeD [OF that(1)] map_upd_SomeD [OF that(2)] old inj by (metis less_irrefl)
  moreover have "j < Suc (cnt_connections s)" if "?m k = Some j" for k j
    using map_upd_SomeD [OF that] old by (metis lessI less_SucI)
  ultimately have "eb_inv (snd (eb_connection_id a b s))" unfolding eb_inv_def new by blast
  moreover have "?m k = Some i" if "key = Some k" for k
    using that None assms by (auto simp: eb_given_def)
  ultimately show ?thesis unfolding eb_given_def new by blast
next
  case (Some j)
  then show ?thesis using assms by (simp add: eb_connection_id_def)
qed

lemma eb_id_stored:
  assumes "eb_connection_id a b s = (Inr i, s')"
  shows "dget (eb_connections s') (eb_key a b) = Some i"
  using assms by (cases "dget (eb_connections s) (eb_key a b)") (auto simp: eb_connection_id_def dict_simps)

interpretation given: backend_frame "eb_given key i" for key i
proof
  show "eb_given key i (snd (eb_connection_id a b s))" if "eb_given key i s" for s a b
    using that by (rule eb_given_next)
qed (simp_all add: eb_given_def eb_inv_def)

text \<open>The marks that the ebtables rules put on frames, and the traffic classes behind them, tell
  connections apart. From a backend that has not numbered a connection yet, whatever happens before,
  between and after two requests, two pairs of devices get the same connection id exactly if they are
  the same two devices, in either order.
\<close>

theorem connection_ids_unique:
  assumes "eb_connections s0 = []" "bb_runtime env s0 s" "eb_connection_id a b s = (Inr i, s1)"
    and "bb_runtime env s1 s2" "eb_connection_id c d s2 = (Inr j, s3)"
  shows "i = j \<longleftrightarrow> {a, b} = {c, d}"
proof -
  have "eb_given None 0 s0" using assms(1) by (simp add: eb_given_def eb_inv_def)
  then have "eb_given None 0 s" by (rule given.Q_runtime [OF assms(2)])
  then have "eb_given None 0 s1" using eb_given_next [of None 0 s a b] assms(3) by simp
  then have "eb_given (Some (eb_key a b)) i s1" using eb_id_stored [OF assms(3)] by (simp add: eb_given_def)
  then have "eb_given (Some (eb_key a b)) i s2" by (rule given.Q_runtime [OF assms(4)])
  then have "eb_given (Some (eb_key a b)) i s3" using eb_given_next [of _ i s2 c d] assms(5) by simp
  then have "i = j \<longleftrightarrow> eb_key a b = eb_key c d"
    using eb_id_stored [OF assms(5)] unfolding eb_given_def eb_inv_def by (metis option.inject)
  then show ?thesis by (simp add: eb_key_eq)
qed

theorem connection_ids_unique_witness:
  "\<exists>i s1 j s3. eb_connection_id ''tap_1'' ''tap_2'' ex_backend = (Inr i, s1) \<and> eb_connection_id ''tap_2'' ''tap_1'' s1 = (Inr j, s3) \<and> i = j"
proof -
  obtain i s1 where 1: "eb_connection_id ''tap_1'' ''tap_2'' ex_backend = (Inr i, s1)"
    by (simp add: eb_connection_id_def ex_backend_def)
  obtain j s3 where 2: "eb_connection_id ''tap_2'' ''tap_1'' s1 = (Inr j, s3)"
    by (cases "dget (eb_connections s1) (eb_key ''tap_2'' ''tap_1'')") (simp_all add: eb_connection_id_def)
  have "eb_connections ex_backend = []" by (simp add: ex_backend_def)
  from connection_ids_unique [OF this run_refl 1 run_refl 2] have "i = j" by (simp add: insert_commute)
  with 1 2 show ?thesis by blast
qed

section \<open>Tunnels\<close>

interpretation no_tunnels: backend_frame "\<lambda>s. bb_tunnels s = []"
  by unfold_locales (simp_all add: eb_connection_id_def split: option.split)

text \<open>Nodes on different servers cannot be connected. In every state the backend can come to after
  a reset it has no tunnel, and a request for a tunnel raises: \<open>NotImplementedError\<close> whenever the
  host does what it is asked, because the base classes of the tunnels do not implement the
  \<open>_start\<close> that all three kinds of tunnels call at the end.
\<close>

theorem tunnels_never_start:
  assumes "bb_tunnels s0 = []" "bb_runtime env s0 s" "be_tunnel env = Some mode" "\<forall>call. be_host env call = Inr ()"
  shows "fst (connection_across_servers env x y ip s) = Inl NotImplementedError
    \<and> bb_tunnels (snd (connection_across_servers env x y ip s)) = []"
proof -
  have none: "bb_tunnels s = []" by (rule no_tunnels.Q_runtime [OF assms(2,1)])
  then have "bb_tunnels (snd (connection_across_servers env x y ip s)) = []"
    using no_tunnels.Q_across unfolding keeps_def by blast
  moreover have "fst (tunnel_start env mode x y ip s) = Inl NotImplementedError"
    using assms(4) by (cases mode) (simp_all add: tunnel_start_def tunnel_command_def queue_def host_def ebind_def
        emodify_def elift_def eraise_def Let_def)
  then have "fst (connection_across_servers env x y ip s) = Inl NotImplementedError"
    using none assms(3) by (auto simp: connection_across_servers_def ebind_def eget_def ewhen_def Let_def split: prod.splits)
  ultimately show ?thesis by blast
qed

theorem tunnels_never_start_witness:
  "fst (connection_across_servers ex_bb_env (ex_bb_node 1) (ex_bb_node 2) ''10.0.0.2'' ex_backend) = Inl NotImplementedError"
  using tunnels_never_start [OF _ run_refl, of ex_backend ex_bb_env Gretap]
  by (simp add: ex_backend_def ex_bb_env_def)

end
