(* ===== verification/Bridged_Order.thy ===== *)
theory Bridged_Order
  imports Bridged_Links
begin

text \<open>
  The order of the commands that the bridged backend runs when the topology changes: bridges are
  created before devices are put into them, whatever the order in which links were set up.
\<close>

section \<open>Queues\<close>

lemma event_commands_add:
  assumes "serializer_wf ex"
  shows "event_commands (add_command g e cid cmd ps ex) g' e' =
    (if g = g' \<and> e = e' then oset_add (event_commands ex g e) cmd else event_commands ex g' e')"
proof -
  have "uniq_ok (event_store ex g e)" using assms by (simp add: serializer_wf_def)
  then show ?thesis by (auto simp: event_commands_store event_store_add commands_add)
qed

text \<open>The bridges that exist or are created by the queued commands.\<close>

definition bridges_in :: "bb_env \<Rightarrow> string set \<Rightarrow> backend \<Rightarrow> string set" where
  "bridges_in env known s =
     known \<union> {br. bridge_add_cmd env br \<in> set (event_commands (shell_command_executor s) ''bridge'' EVENT_BRIDGE_ADD)}"

text \<open>A command that needs no bridge, or one of the given bridges.\<close>

definition port_ok :: "bb_env \<Rightarrow> string set \<Rightarrow> string \<Rightarrow> bool" where
  "port_ok env brs cmd \<longleftrightarrow> (\<exists>dev. cmd = get_interface_up_cmd dev False)
     \<or> (\<exists>br \<in> brs. cmd = bridge_hub_cmd env br \<or> (\<exists>ifn. cmd = bridge_add_if_cmd env ifn br))"

definition bb_groups :: "bb_env \<Rightarrow> string list" where
  "bb_groups env = (if be_single env then [''ebtables''] else []) @ [''connection'', ''tunnel'', ''bridge'']"

definition ports_inv :: "bb_env \<Rightarrow> string set \<Rightarrow> string set \<Rightarrow> backend \<Rightarrow> bool" where
  "ports_inv env known X s \<longleftrightarrow>
     serializer_wf (shell_command_executor s) \<and> group_order (shell_command_executor s) = bb_groups env
   \<and> event_names (shell_command_executor s) ''bridge'' = [EVENT_BRIDGE_ADD, BRIDGE_PAR]
   \<and> (\<forall>cmd \<in> set (event_commands (shell_command_executor s) ''bridge'' EVENT_BRIDGE_ADD). \<exists>br. cmd = bridge_add_cmd env br)
   \<and> (\<forall>cmd \<in> set (event_commands (shell_command_executor s) ''bridge'' BRIDGE_PAR). port_ok env (bridges_in env known s) cmd)
   \<and> bridge_dev_name ` snd ` set (bb_bridges s) \<union> X \<subseteq> bridges_in env known s"

text \<open>Virtual nodes bring their own switches.\<close>

definition switches_known :: "bb_env \<Rightarrow> string set \<Rightarrow> bool" where
  "switches_known env known \<longleftrightarrow> (\<forall>n br. be_switch env n = Some br \<longrightarrow> bridge_dev_name br \<in> known)"

lemma ports_inv_mono: "ports_inv env known X s \<Longrightarrow> Y \<subseteq> X \<Longrightarrow> ports_inv env known Y s"
  by (auto simp: ports_inv_def)

lemma ports_inv_cong:
  "shell_command_executor s' = shell_command_executor s \<Longrightarrow> bb_bridges s' = bb_bridges s \<Longrightarrow>
   ports_inv env known X s' = ports_inv env known X s"
  by (simp add: ports_inv_def bridges_in_def)

text \<open>The part of the state that the invariant does not look at.\<close>

lemma ports_queue:
  assumes "grp \<noteq> ''bridge''"
  shows "keeps (ports_inv env known X) (queue grp e cid cmd ps)"
  unfolding keeps_def queue_def emodify_def
  using assms by (auto simp: ports_inv_def bridges_in_def event_commands_add event_names_add wf_add)

lemma event_names_distinct: "EVENT_BRIDGE_ADD \<noteq> BRIDGE_PAR"
  by (simp add: EVENT_BRIDGE_ADD_def BRIDGE_PAR_def)

lemma port_ok_mono: "port_ok env A cmd \<Longrightarrow> A \<subseteq> B \<Longrightarrow> port_ok env B cmd"
  by (auto simp: port_ok_def)

lemma ports_bridge_add:
  assumes "ports_inv env known X s"
  shows "ports_inv env known (insert dev X) (snd (bridge_command br EVENT_BRIDGE_ADD (bridge_add_cmd env dev) s))"
proof -
  let ?s = "snd (bridge_command br EVENT_BRIDGE_ADD (bridge_add_cmd env dev) s)"
  have wf: "serializer_wf (shell_command_executor s)" using assms by (simp add: ports_inv_def)
  have cmds: "event_commands (shell_command_executor ?s) g e =
      (if g = ''bridge'' \<and> e = EVENT_BRIDGE_ADD then oset_add (event_commands (shell_command_executor s) g e) (bridge_add_cmd env dev)
       else event_commands (shell_command_executor s) g e)" for g e
    using event_commands_add [OF wf] by (simp add: bridge_command_def queue_def emodify_def)
  have grow: "insert dev (bridges_in env known s) \<subseteq> bridges_in env known ?s"
    unfolding bridges_in_def cmds by auto
  have "group_order (shell_command_executor ?s) = bb_groups env" "serializer_wf (shell_command_executor ?s)" "bb_bridges ?s = bb_bridges s"
    "event_names (shell_command_executor ?s) ''bridge'' = [EVENT_BRIDGE_ADD, BRIDGE_PAR]"
    using assms wf by (simp_all add: ports_inv_def bridge_command_def queue_def emodify_def wf_add event_names_add oset_add_def)
  moreover have "\<forall>cmd \<in> set (event_commands (shell_command_executor ?s) ''bridge'' EVENT_BRIDGE_ADD). \<exists>br. cmd = bridge_add_cmd env br"
    using assms unfolding cmds by (auto simp: ports_inv_def)
  moreover have "port_ok env (bridges_in env known ?s) cmd"
    if "cmd \<in> set (event_commands (shell_command_executor ?s) ''bridge'' BRIDGE_PAR)" for cmd
    using that assms port_ok_mono [of env "bridges_in env known s" cmd] grow event_names_distinct
    unfolding cmds by (auto simp: ports_inv_def)
  moreover have "bridge_dev_name ` snd ` set (bb_bridges s) \<union> insert dev X \<subseteq> bridges_in env known ?s"
  proof -
    have "bridge_dev_name ` snd ` set (bb_bridges s) \<union> X \<subseteq> bridges_in env known s" using assms by (simp add: ports_inv_def)
    then show ?thesis using grow by blast
  qed
  ultimately show ?thesis unfolding ports_inv_def by simp
qed

lemma ports_bridge_par:
  assumes "ports_inv env known X s" "port_ok env (bridges_in env known s) cmd"
  shows "ports_inv env known X (snd (bridge_command br BRIDGE_PAR cmd s))"
proof -
  let ?s = "snd (bridge_command br BRIDGE_PAR cmd s)"
  have wf: "serializer_wf (shell_command_executor s)" using assms by (simp add: ports_inv_def)
  have cmds: "event_commands (shell_command_executor ?s) g e =
      (if g = ''bridge'' \<and> e = BRIDGE_PAR then oset_add (event_commands (shell_command_executor s) g e) cmd
       else event_commands (shell_command_executor s) g e)" for g e
    using event_commands_add [OF wf] by (simp add: bridge_command_def queue_def emodify_def)
  have same: "bridges_in env known ?s = bridges_in env known s"
    unfolding bridges_in_def cmds using event_names_distinct by simp
  have "group_order (shell_command_executor ?s) = bb_groups env" "serializer_wf (shell_command_executor ?s)" "bb_bridges ?s = bb_bridges s"
    "event_names (shell_command_executor ?s) ''bridge'' = [EVENT_BRIDGE_ADD, BRIDGE_PAR]"
    using assms wf by (simp_all add: ports_inv_def bridge_command_def queue_def emodify_def wf_add event_names_add oset_add_def)
  moreover have "\<forall>c \<in> set (event_commands (shell_command_executor ?s) ''bridge'' EVENT_BRIDGE_ADD). \<exists>br. c = bridge_add_cmd env br"
    using assms(1) event_names_distinct unfolding cmds by (simp add: ports_inv_def)
  moreover have "\<forall>c \<in> set (event_commands (shell_command_executor ?s) ''bridge'' BRIDGE_PAR). port_ok env (bridges_in env known ?s) c"
    using assms unfolding cmds same by (auto simp: ports_inv_def)
  ultimately show ?thesis using assms(1) unfolding ports_inv_def same by simp
qed

lemma keeps_ports_par:
  assumes "\<And>brs. X \<subseteq> brs \<Longrightarrow> port_ok env brs cmd"
  shows "keeps (ports_inv env known X) (bridge_command br BRIDGE_PAR cmd)"
  unfolding keeps_def
proof (intro allI impI)
  fix s assume inv: "ports_inv env known X s"
  then have "X \<subseteq> bridges_in env known s" by (simp add: ports_inv_def)
  then show "ports_inv env known X (snd (bridge_command br BRIDGE_PAR cmd s))"
    using ports_bridge_par [OF inv] assms by blast
qed

lemma ports_add_if:
  assumes "bridge_dev_name br \<in> X"
  shows "keeps (ports_inv env known X) (add_if env br ifn)"
  unfolding add_if_def using assms
  by (intro keeps_ebind keeps_ports_par) (auto simp: port_ok_def)

lemma bridge_start_total: "\<exists>s'. bridge_start env br sw s = (Inr (), s')"
  by (simp add: bridge_start_def bridge_command_def queue_def ebind_def emodify_def ewhen_def ereturn_def)

lemma ports_bridge_start:
  assumes "ports_inv env known X s" "bridge_start env br sw s = (r, s')"
  shows "ports_inv env known (insert (bridge_dev_name br) X) s'"
proof -
  let ?dev = "bridge_dev_name br"
  obtain s1 where 1: "bridge_command br EVENT_BRIDGE_ADD (bridge_add_cmd env ?dev) s = (Inr (), s1)"
    by (simp add: bridge_command_def queue_def emodify_def)
  have inv: "ports_inv env known (insert ?dev X) s1" using ports_bridge_add [OF assms(1), of ?dev br] 1 by simp
  have "keeps (ports_inv env known (insert ?dev X)) (ewhen (\<not> sw) (bridge_command br BRIDGE_PAR (bridge_hub_cmd env ?dev)))"
    by (intro keeps_ewhen keeps_ports_par) (auto simp: port_ok_def)
  then show ?thesis using assms(2) 1 inv unfolding bridge_start_def keeps_def ebind_def by (metis (no_types, lifting) case_prod_conv snd_conv sum.case(2))
qed

section \<open>The notifications keep the order\<close>

lemma ports_same:
  assumes "\<And>s. shell_command_executor (snd (m s)) = shell_command_executor s \<and> bb_bridges (snd (m s)) = bb_bridges s"
  shows "keeps (ports_inv env known X) m"
  unfolding keeps_def using assms ports_inv_cong by blast

lemma ports_same_ops:
  "keeps (ports_inv env known X) (host e call)" "keeps (ports_inv env known X) (tap_name n i)"
  "keeps (ports_inv env known X) (state_getitem dev)" "keeps (ports_inv env known X) (add_device dev up)"
  "keeps (ports_inv env known X) (connection_getitem k)" "keeps (ports_inv env known X) (shaped_getitem dev)"
  "keeps (ports_inv env known X) (emodify (\<lambda>s. s\<lparr>new_bridges := f1 s\<rparr>))"
  "keeps (ports_inv env known X) (emodify (\<lambda>s. s\<lparr>bk_connections := f2 s\<rparr>))"
  "keeps (ports_inv env known X) (emodify (\<lambda>s. s\<lparr>shaped_ifaces := f3 s\<rparr>))"
  "keeps (ports_inv env known X) (emodify (\<lambda>s. s\<lparr>cleanup_commands := f4 s\<rparr>))"
  "keeps (ports_inv env known X) (emodify (\<lambda>s. s\<lparr>interface_states := f5 s\<rparr>))"
  by (rule ports_same; simp add: host_def tap_name_eval state_getitem_def add_device_def connection_getitem_def
      shaped_getitem_def ebind_def emodify_def elift_def split: option.split)+

lemma ports_connection_id: "keeps (ports_inv env known X) (get_connection_id e a b)"
  unfolding get_connection_id_def
  by (intro keeps_if keeps_case_option keeps_ereturn keeps_eraise ports_same)
    (simp add: eb_connection_id_def split: option.split)

lemmas ports_prim = keeps_ebind keeps_case_option keeps_ewhen keeps_if keeps_ereturn keeps_eraise keeps_elift keeps_eget
  ports_same_ops ports_connection_id

lemma ports_toggle_state: "keeps (ports_inv env known X) (toggle_state dev up)"
  unfolding toggle_state_def by (intro ports_prim)

lemma ports_other_groups:
  "keeps (ports_inv env known X) (conn_command c ev cmd)"
  "keeps (ports_inv env known X) (add_shell_ebtables_command ev cmd)"
  "keeps (ports_inv env known X) (tunnel_command ev cmd)"
  unfolding conn_command_def add_shell_ebtables_command_def tunnel_command_def by (rule ports_queue; simp)+

lemma ports_tap_link_up_single: "keeps (ports_inv env known X) (tap_link_up_single e c a b up)"
  unfolding tap_link_up_single_def get_ebtables_cmd_def by (intro ports_prim ports_other_groups)

lemma ports_set_connection_state: "keeps (ports_inv env known X) (set_connection_state e c up)"
  unfolding set_connection_state_def tap_link_up_def tap_link_up_multi_def tap_link_up_remote_def Let_def case_prod_beta
  by (intro ports_prim ports_other_groups ports_toggle_state ports_tap_link_up_single)

lemma ports_adjust: "keeps (ports_inv env known X) (adjust_conn_link_quality e c lq)"
  unfolding adjust_conn_link_quality_def shape_device_def add_filter_cmd_def add_cleanup_def tap_name_opt_def Let_def case_prod_beta
  by (intro ports_prim ports_other_groups)

lemma ports_bookkeeping:
  "keeps (ports_inv env known X) (should_create_new_connection x y ix iy)"
  "keeps (ports_inv env known X) (remember_bidirectional_connection x y ix iy)"
  "keeps (ports_inv env known X) (remember_unidirectional_connection tap)"
  unfolding should_create_new_connection_def remember_bidirectional_connection_def remember_unidirectional_connection_def
  by (intro ports_prim)+

lemma ports_bridge_start_keeps: "keeps (ports_inv env known X) (bridge_start env br sw)"
  unfolding keeps_def using ports_bridge_start ports_inv_mono by (metis prod.collapse subset_insertI)

lemma ports_switch_keeps: "keeps (ports_inv env known X) (create_n_store_switch env x y)"
  unfolding create_n_store_switch_def Let_def by (intro ports_prim ports_bridge_start_keeps)

lemma ports_switch_new:
  assumes inv: "ports_inv env known X s" and step: "create_n_store_switch env x y s = (Inr br, s')"
  shows "ports_inv env known (insert (bridge_dev_name br) X) s'"
proof -
  from step obtain u s1 where 1: "bridge_start env br False s = (Inr u, s1)" and s': "s' = s1\<lparr>new_bridges := oset_add (new_bridges s1) (sw_id br)\<rparr>"
    by (auto simp: create_n_store_switch_def Let_def ebind_Inr elift_def emodify_def ereturn_def)
  have "ports_inv env known (insert (bridge_dev_name br) X) s1" by (rule ports_bridge_start [OF inv 1])
  then show ?thesis using ports_inv_cong [of s' s1] by (simp add: s')
qed

lemma ports_get_bridge:
  assumes "ports_inv env known X s" "get_bridge env i s = (r, s')"
  shows "ports_inv env known X s' \<and> (\<forall>br. r = Inr br \<longrightarrow> ports_inv env known (insert (bridge_dev_name br) X) s')"
proof (cases "dget (bb_bridges s) (single_br_name (nr_host_interface i))")
  case (Some br)
  then have "s' = s" "r = Inr br" using assms(2) by (simp_all add: get_bridge_def Let_def ebind_def eget_def ereturn_def)
  moreover have "bridge_dev_name br \<in> bridges_in env known s"
  proof -
    have "br \<in> snd ` set (bb_bridges s)" using dget_SomeD [OF Some] by (rule image_eqI [rotated]) simp
    moreover have "bridge_dev_name ` snd ` set (bb_bridges s) \<subseteq> bridges_in env known s" using assms(1) by (simp add: ports_inv_def)
    ultimately show ?thesis by blast
  qed
  ultimately show ?thesis using assms(1) by (simp add: ports_inv_def)
next
  case None
  let ?n = "single_br_name (nr_host_interface i)"
  let ?br = "\<lparr>sw_id = ?n, bridge_dev_name = ?n\<rparr>"
  let ?q = "eseq (add_shell_ebtables_command EVENT_EBTABLES_CREATE_CHAINS (get_ebtables_chain_cmd env ?n))
      (add_shell_ebtables_command EVENT_EBTABLES_REDIRECT (get_ebtables_redirect_cmd env ?n))"
  obtain s1 where 1: "?q s = (Inr (), s1)" by (simp add: add_shell_ebtables_command_def queue_def ebind_def emodify_def)
  obtain s2 where 2: "bridge_start env ?br False s1 = (Inr (), s2)" using bridge_start_total by blast
  have "keeps (ports_inv env known X) ?q" by (intro keeps_ebind ports_other_groups)
  then have "ports_inv env known X s1" using assms(1) 1 by (rule keepsD)
  then have inv2: "ports_inv env known (insert ?n X) s2" using ports_bridge_start [OF _ 2] by simp
  have s': "s' = s2\<lparr>bb_bridges := dset (bb_bridges s) ?n ?br\<rparr>" "r = Inr ?br" "bb_bridges s2 = bb_bridges s"
    using assms(2) None 1 2 by (auto simp: get_bridge_def Let_def ebind_def eget_def emodify_def ereturn_def bridge_start_def
        bridge_command_def queue_def add_shell_ebtables_command_def ewhen_def)
  have "bridge_dev_name ` snd ` set (bb_bridges s') \<subseteq> insert ?n (bridge_dev_name ` snd ` set (bb_bridges s))"
    using image_mono [OF snd_set_kset [of "\<lambda>k. k" "bb_bridges s" ?n ?br], of bridge_dev_name] by (simp add: s')
  moreover have brs: "bridges_in env known s' = bridges_in env known s2" by (simp add: bridges_in_def s')
  moreover have "bridge_dev_name ` snd ` set (bb_bridges s) \<union> insert ?n X \<subseteq> bridges_in env known s2"
    using inv2 s'(3) by (simp add: ports_inv_def)
  ultimately have "bridge_dev_name ` snd ` set (bb_bridges s') \<union> insert ?n X \<subseteq> bridges_in env known s2" by blast
  then have "ports_inv env known (insert ?n X) s'"
    using inv2 brs unfolding ports_inv_def by (simp add: s')
  then show ?thesis using s'(2) ports_inv_mono [of env known "insert ?n X" s' X] by auto
qed

lemma ports_use_bridge:
  assumes "keeps (ports_inv env known X) m"
    and "\<And>s br s'. ports_inv env known X s \<Longrightarrow> m s = (Inr br, s') \<Longrightarrow> ports_inv env known (insert (bridge_dev_name br) X) s'"
    and "\<And>br. keeps (ports_inv env known (insert (bridge_dev_name br) X)) (k br)"
  shows "keeps (ports_inv env known X) (ebind m k)"
  using assms(1,2,3)
  by (rule keeps_ebind_yields [where P' = "\<lambda>br. ports_inv env known (insert (bridge_dev_name br) X)"])
    (auto intro: ports_inv_mono)

lemma ports_virtual_switch:
  assumes "switches_known env known" "ports_inv env known X s" "elift (virtual_switch env v) s = (Inr br, s')"
  shows "ports_inv env known (insert (bridge_dev_name br) X) s'"
proof -
  have "s' = s" "be_switch env v = Some br"
    using assms(3) by (auto simp: elift_def virtual_switch_def split: option.splits)
  moreover have "bridge_dev_name br \<in> bridges_in env known s"
    using calculation assms(1) by (auto simp: switches_known_def bridges_in_def)
  ultimately show ?thesis using assms(2) by (simp add: ports_inv_def)
qed

lemma ports_use_virtual:
  assumes "switches_known env known" "\<And>br. keeps (ports_inv env known (insert (bridge_dev_name br) X)) (k br)"
  shows "keeps (ports_inv env known X) (ebind (elift (virtual_switch env v)) k)"
  using keeps_elift ports_virtual_switch [OF assms(1)] assms(2) by (rule ports_use_bridge)

lemma ports_use_switch:
  assumes "\<And>br. keeps (ports_inv env known (insert (bridge_dev_name br) X)) (k br)"
  shows "keeps (ports_inv env known X) (ebind (create_n_store_switch env x y) k)"
  using ports_switch_keeps ports_switch_new assms by (rule ports_use_bridge)

lemma ports_create_connection:
  assumes "switches_known env known"
  shows "keeps (ports_inv env known X) (create_connection env x y ix iy)"
proof -
  have one: "keeps (ports_inv env known X) (ebind (elift (virtual_switch env v)) (\<lambda>br.
      eseq (add_if env br tap) (eseq (remember_unidirectional_connection tap) (ereturn (True, Some br)))))" for v tap
    by (rule ports_use_virtual [OF assms]) (intro keeps_ebind keeps_ereturn ports_add_if ports_bookkeeping insertI1)
  have two: "keeps (ports_inv env known X) (ebind (create_n_store_switch env x y) (\<lambda>br.
      eseq (add_if env br tap_x) (eseq (add_if env br tap_y)
        (eseq (remember_bidirectional_connection x y ix iy) (ereturn (True, Some br))))))" for tap_x tap_y
    by (rule ports_use_switch) (intro keeps_ebind keeps_ereturn ports_add_if ports_bookkeeping insertI1)
  have pair: "keeps (ports_inv env known X) (ebind (tap_name a i) (\<lambda>t. ebind (tap_name b j) (m t)))"
    if "\<And>t u. keeps (ports_inv env known X) (m t u)" for a i b j and m :: "string \<Rightarrow> string \<Rightarrow> (bool \<times> bridge option) bb"
    using that by (intro keeps_ebind ports_same_ops)
  show ?thesis
    unfolding create_connection_def Let_def case_prod_beta
    by (rule keeps_if, rule keeps_ebind [OF keeps_elift], rule keeps_ebind [OF ports_same_ops(2)], rule one,
        rule keeps_ebind [OF ports_bookkeeping(1)], rule keeps_if, rule pair, rule two, rule keeps_ereturn)
qed

lemma ports_attach_taps:
  assumes "switches_known env known" "bridge_dev_name br \<in> X"
  shows "keeps (ports_inv env known X) (attach_taps env br x y ix iy info)"
proof -
  have "keeps (ports_inv env known X)
      (ebind (elift (case v of None \<Rightarrow> Inl AttributeError | Some v \<Rightarrow> virtual_switch env v)) (\<lambda>br. eseq (add_if env br tap) (ereturn br)))" for v tap
  proof (cases v)
    case None
    show ?thesis unfolding None option.case ebind_elift by (rule keeps_eraise)
  next
    case (Some n)
    show ?thesis unfolding Some option.case
      by (rule ports_use_virtual [OF assms(1)]) (intro keeps_ebind keeps_ereturn ports_add_if insertI1)
  qed
  then have virt: "keeps (ports_inv env known X)
      (ebind (elift (pyindex es 0)) (\<lambda>p. ebind (tap_name (fst p) (snd p)) (\<lambda>tap.
        ebind (elift (case v of None \<Rightarrow> Inl AttributeError | Some v \<Rightarrow> virtual_switch env v)) (\<lambda>br. eseq (add_if env br tap) (ereturn br)))))" for es v
    by (rule keeps_ebind [OF keeps_elift keeps_ebind [OF ports_same_ops(2)]])
  have known: "keeps (ports_inv env known X) (add_if env br tap)" for tap by (rule ports_add_if [OF assms(2)])
  show ?thesis
    unfolding attach_taps_def Let_def case_prod_beta
    by (rule keeps_if, intro keeps_ebind ports_same_ops known keeps_ereturn, rule keeps_ebind [OF keeps_elift], rule keeps_if,
        intro keeps_ebind ports_same_ops known keeps_ereturn, rule virt)
qed

lemma ports_link_start:
  assumes "switches_known env known"
  shows "keeps (ports_inv env known X) (bb_before_link_start env x y ix iy info)"
proof -
  have "keeps (ports_inv env known X) (get_bridge env ix)"
    unfolding keeps_def using ports_get_bridge by (metis prod.collapse)
  then have "keeps (ports_inv env known X) (single_before_link_start env x y ix iy info)"
    unfolding single_before_link_start_def
  proof (rule ports_use_bridge)
    show "ports_inv env known (insert (bridge_dev_name br) X) s'" if "ports_inv env known X s" "get_bridge env ix s = (Inr br, s')" for s br s'
      using ports_get_bridge [OF that] by blast
    show "keeps (ports_inv env known (insert (bridge_dev_name br) X)) (ebind (attach_taps env br x y ix iy info) (\<lambda>br.
        ereturn (True, Some br, Some \<lparr>cn_x = x, cn_y = y, cn_ix = ix, cn_iy = iy, cn_info = info\<rparr>)))" for br
      by (intro keeps_ebind keeps_ereturn ports_attach_taps [OF assms] insertI1)
  qed
  then show ?thesis
    unfolding bb_before_link_start_def multi_before_link_start_def case_prod_beta
    by (intro keeps_if keeps_ebind keeps_ereturn ports_create_connection [OF assms])
qed

section \<open>A step\<close>

text \<open>The notifications of a step before the topology is changed.\<close>

inductive bb_queueing :: "bb_env \<Rightarrow> backend \<Rightarrow> backend \<Rightarrow> bool" for env where
  queue_refl: "bb_queueing env s s"
| queue_start: "bb_queueing env s s' \<Longrightarrow> bb_queueing env s (snd (bb_before_link_start env x y ix iy info s'))"
| queue_up: "bb_queueing env s s' \<Longrightarrow> bb_queueing env s (snd (bb_link_up env c s'))"
| queue_down: "bb_queueing env s s' \<Longrightarrow> bb_queueing env s (snd (bb_link_down env c s'))"
| queue_adjust: "bb_queueing env s s' \<Longrightarrow> bb_queueing env s (snd (bb_before_adjustment env c lq s'))"
| queue_before_step: "bb_queueing env s s' \<Longrightarrow> bb_queueing env s (snd (bb_before_step env k s'))"

lemma ports_queueing:
  assumes "bb_queueing env s s'" "switches_known env known" "ports_inv env known X s"
  shows "ports_inv env known X s'"
  using assms(1,3)
proof (induction rule: bb_queueing.induct)
  case (queue_start s s' x y ix iy info)
  show ?case using ports_link_start [OF assms(2)] queue_start.IH [OF queue_start.prems] by (rule keepsD')
next
  case (queue_up s s' c)
  have "keeps (ports_inv env known X) (bb_link_up env c)"
    unfolding bb_link_up_def by (intro keeps_case_option keeps_ereturn ports_set_connection_state)
  then show ?case using queue_up.IH [OF queue_up.prems] by (rule keepsD')
next
  case (queue_down s s' c)
  have "keeps (ports_inv env known X) (bb_link_down env c)"
    unfolding bb_link_down_def by (intro keeps_case_option keeps_ereturn ports_set_connection_state)
  then show ?case using queue_down.IH [OF queue_down.prems] by (rule keepsD')
next
  case (queue_adjust s s' c lq)
  have "keeps (ports_inv env known X) (bb_before_adjustment env c lq)"
    unfolding bb_before_adjustment_def by (intro keeps_case_option keeps_ereturn keeps_eraise ports_adjust)
  then show ?case using queue_adjust.IH [OF queue_adjust.prems] by (rule keepsD')
next
  case (queue_before_step s s' k)
  have "keeps (ports_inv env known X) (bb_before_step env k)"
    unfolding bb_before_step_def init_ebtables_def by (intro ports_prim ports_other_groups)
  then show ?case using queue_before_step.IH [OF queue_before_step.prems] by (rule keepsD')
qed

text \<open>The set-up of the queue.\<close>

lemma executor_setup:
  "serializer_wf (setup_shell_command_executor env serializer_init)
   \<and> group_order (setup_shell_command_executor env serializer_init) = bb_groups env
   \<and> event_names (setup_shell_command_executor env serializer_init) ''bridge'' = [EVENT_BRIDGE_ADD, BRIDGE_PAR]
   \<and> (\<forall>g e. event_commands (setup_shell_command_executor env serializer_init) g e = [])"
proof -
  have grp: "event_store (add_group g s) = event_store s" "event_names (add_group g s) = event_names s"
    "serializer_wf (add_group g s) = serializer_wf s" "group_order (add_group g s) = oset_add (group_order s) g" for g s
    by (simp_all add: fun_eq_iff add_group_def event_store_def event_names_def serializer_wf_def)
  have ord: "event_store (set_group_order gs s) = event_store s" "event_names (set_group_order gs s) = event_names s"
    "serializer_wf (set_group_order gs s) = serializer_wf s" "group_order (set_group_order gs s) = oset_of gs" for gs s
    by (simp_all add: fun_eq_iff set_group_order_def event_store_def event_names_def serializer_wf_def)
  have init: "serializer_wf serializer_init" "event_store serializer_init g e = command_store_init e"
    "event_names serializer_init g = []" "group_order serializer_init = []" for g e
    by (simp_all add: serializer_wf_def serializer_init_def event_store_def event_names_def groups_getitem_def events_getitem_def
        uniq_ok_def command_store_init_def get_shell_commands_def)
  have seo: "event_names (set_event_order g es s) g' = (if g = g' then foldl oset_add (event_names s g) es else event_names s g')"
    "event_store (set_event_order g es s) = event_store s" "group_order (set_event_order g es s) = group_order s"
    "serializer_wf s \<Longrightarrow> serializer_wf (set_event_order g es s)" for g es s g'
    using fold_touch [of g es s g'] by (auto simp: set_event_order_def fun_eq_iff fold_touch)
  show ?thesis
    by (simp add: setup_shell_command_executor_def Let_def seo grp ord init event_commands_store
        bb_groups_def oset_add_def oset_of_def event_names_distinct event_names_distinct [symmetric] command_store_init_def get_shell_commands_def)
qed

text \<open>C23: a device is never put into a bridge before the bridge is there. Take the backend after a step
  and any notifications of the next one, among them requests for new links in any order. In the
  list of queued commands, all creations of bridges are in one block and are followed by the commands
  that configure bridges and put devices into them; every such command names a bridge that existed
  before the step or is created by the block in front of it.
\<close>

theorem bridges_before_ports:
  assumes "switches_known env known" "bridge_dev_name ` snd ` set (bb_bridges s0) \<subseteq> known"
    and "bb_queueing env (snd (reset_simulation_step env s0)) s"
  shows "\<exists>pre adds ports. fst (get_all_commands (shell_command_executor s)) = pre @ adds @ ports
    \<and> adds = event_commands (shell_command_executor s) ''bridge'' EVENT_BRIDGE_ADD
    \<and> ports = event_commands (shell_command_executor s) ''bridge'' BRIDGE_PAR
    \<and> (\<forall>cmd \<in> set adds. \<exists>br. cmd = bridge_add_cmd env br)
    \<and> (\<forall>cmd \<in> set ports. (\<exists>dev. cmd = get_interface_up_cmd dev False)
         \<or> (\<exists>br ifn. (br \<in> known \<or> bridge_add_cmd env br \<in> set adds) \<and> cmd \<in> {bridge_hub_cmd env br, bridge_add_if_cmd env ifn br}))"
proof -
  let ?s = "snd (reset_simulation_step env s0)" and ?ex = "shell_command_executor s"
  have "shell_command_executor ?s = setup_shell_command_executor env serializer_init" "bb_bridges ?s = bb_bridges s0"
    by (simp_all add: reset_simulation_step_def reset_shell_command_executor_def ebind_def emodify_def)
  then have "ports_inv env known {} ?s"
    using executor_setup [of env] assms(2) by (simp add: ports_inv_def bridges_in_def)
  then have inv: "ports_inv env known {} s" by (rule ports_queueing [OF assms(3,1)])
  then have "fst (get_all_commands ?ex) = concat (map (\<lambda>g. concat (map (event_commands ?ex g) (event_names ?ex g))) (bb_groups env))"
    by (simp add: ports_inv_def get_all_commands_eq)
  also have "\<dots> = concat (map (\<lambda>g. concat (map (event_commands ?ex g) (event_names ?ex g))) (butlast (bb_groups env)))
      @ event_commands ?ex ''bridge'' EVENT_BRIDGE_ADD @ event_commands ?ex ''bridge'' BRIDGE_PAR"
    using inv by (simp add: ports_inv_def bb_groups_def)
  finally have "\<exists>pre. fst (get_all_commands ?ex) =
      pre @ event_commands ?ex ''bridge'' EVENT_BRIDGE_ADD @ event_commands ?ex ''bridge'' BRIDGE_PAR" by blast
  moreover have "\<forall>cmd \<in> set (event_commands ?ex ''bridge'' BRIDGE_PAR). (\<exists>dev. cmd = get_interface_up_cmd dev False)
      \<or> (\<exists>br ifn. (br \<in> known \<or> bridge_add_cmd env br \<in> set (event_commands ?ex ''bridge'' EVENT_BRIDGE_ADD))
         \<and> cmd \<in> {bridge_hub_cmd env br, bridge_add_if_cmd env ifn br})"
    using inv unfolding ports_inv_def port_ok_def bridges_in_def by blast
  ultimately show ?thesis using inv unfolding ports_inv_def by blast
qed

text \<open>Two links of the multi device mode: the first is made, the second needs a tap of the first.\<close>

theorem bridges_before_ports_witness:
  "\<exists>s pre adds ports. s = snd (bb_before_link_start ex_bb_env (ex_bb_node 1) (ex_bb_node 2) ex_bb_mesh ex_bb_mesh ex_bb_info
       (snd (reset_simulation_step ex_bb_env ex_backend)))
     \<and> fst (get_all_commands (shell_command_executor s)) = pre @ adds @ ports
     \<and> adds = event_commands (shell_command_executor s) ''bridge'' EVENT_BRIDGE_ADD
     \<and> ports = event_commands (shell_command_executor s) ''bridge'' BRIDGE_PAR"
proof -
  have "switches_known ex_bb_env {}" by (simp add: switches_known_def ex_bb_env_def)
  moreover have "bridge_dev_name ` snd ` set (bb_bridges ex_backend) \<subseteq> {}" by (simp add: ex_backend_def)
  ultimately show ?thesis
    using bridges_before_ports [OF _ _ queue_start [OF queue_refl, where x = "ex_bb_node 1" and y = "ex_bb_node 2"
        and ix = ex_bb_mesh and iy = ex_bb_mesh and info = ex_bb_info], of ex_bb_env "{}" ex_backend] by metis
qed

end
