(* ===== verification/Distributed.thy ===== *)
theory Distributed
  imports Zmq_Protocol Simulation
begin

text \<open>
  The distributed simulation managers of \<open>management/SimulationManager.py\<close>: which server runs a
  node, how the coordinator cuts the distance matrix for the servers and how a server cuts it for
  itself. There are three ways from the movement director to a server's \<open>step\<close>: the coordinator
  sends every server its own part, it sends every server the whole matrix, or it publishes the whole
  matrix. The theory shows that a server steps with the same matrix in all three.
\<close>

section \<open>Servers of nodes\<close>

text \<open>\<open>node_id in nodes\<close> for a value of the scenario configuration.\<close>

definition json_eq_int :: "int \<Rightarrow> json \<Rightarrow> bool" where
  "json_eq_int n v = (case v of JInt i \<Rightarrow> i = n | JBool b \<Rightarrow> of_bool b = n | JFloat f \<Rightarrow> f = of_int n | _ \<Rightarrow> False)"

definition int_in_json :: "int \<Rightarrow> json \<Rightarrow> bool res" where
  "int_in_json n v = (case v of JList xs \<Rightarrow> Inr (list_ex (json_eq_int n) xs) | JObj _ \<Rightarrow> Inr False | _ \<Rightarrow> Inl TypeError)"

fun server_loop :: "(int, json) dict \<Rightarrow> int \<Rightarrow> int option res" where
  "server_loop [] node_id = Inr None"
| "server_loop ((server, nodes) # m) node_id =
     rbind (int_in_json node_id nodes) (\<lambda>found. if found then Inr (Some server) else server_loop m node_id)"

definition get_server_for_node :: "json \<Rightarrow> int \<Rightarrow> int option res" where
  "get_server_for_node scenario node_id = rbind (get_distributed_server_node_mapping None scenario) (\<lambda>m.
     case m of None \<Rightarrow> Inl AttributeError | Some m \<Rightarrow> server_loop m node_id)"

section \<open>Coordinator\<close>

text \<open>
  \<open>map_distance_matrix_to_servers\<close>. The result is a \<open>defaultdict\<close>; a node without a server is
  filed under \<open>None\<close>.
\<close>

definition put_distance ::
  "int option \<Rightarrow> int \<times> int \<Rightarrow> rat \<Rightarrow> (int option, distance_matrix) dict \<Rightarrow> (int option, distance_matrix) dict" where
  "put_distance server xy distance res = dset res server (dset (ddget_set res server) xy distance)"

fun split_loop ::
  "json \<Rightarrow> distance_matrix \<Rightarrow> (int option, distance_matrix) dict \<Rightarrow> (int option, distance_matrix) dict res" where
  "split_loop scenario [] res = Inr res"
| "split_loop scenario (((x, y), distance) # m) res =
     rbind (get_server_for_node scenario x) (\<lambda>sx.
     rbind (get_server_for_node scenario y) (\<lambda>sy.
     split_loop scenario m (put_distance sy (x, y) distance (put_distance sx (x, y) distance res))))"

definition map_distance_matrix_to_servers ::
  "json \<Rightarrow> json \<Rightarrow> distance_matrix \<Rightarrow> (int option, distance_matrix) dict res" where
  "map_distance_matrix_to_servers config scenario m =
     rbind (is_publish_individual_distance_matrices None config) (\<lambda>individual.
     rbind (get_distributed_server_ids scenario) (\<lambda>ids.
       if \<not> truthy individual then Inr (fold (\<lambda>i res. dset res (Some i) m) ids [])
       else split_loop scenario m (fold (\<lambda>i res. dset res (Some i) []) ids [])))"

datatype matrix_message = WholeMatrix distance_matrix | PerServer "(int option, distance_matrix) dict"

definition coordinator_transform :: "json \<Rightarrow> json \<Rightarrow> distance_matrix \<Rightarrow> matrix_message res" where
  "coordinator_transform config scenario m =
     rbind (is_protocol_zeromq_mode_mcast config) (\<lambda>mcast.
       if mcast then Inr (WholeMatrix m)
       else rbind (map_distance_matrix_to_servers config scenario m) (\<lambda>res. Inr (PerServer res)))"

text \<open>
  \<open>SimulationManagerDistributedCoordinator.step\<close>: always one step, and the matrix goes to the
  group communication. The director and the communication are operations on a world, every director
  returns a matrix; a matrix that is handed in is passed on as it is.
\<close>

definition outside :: "('w, 'a) eff \<Rightarrow> (nat \<times> 'w, 'a) eff" where
  "outside m s = (let (r, w) = m (snd s) in (r, (fst s, w)))"

definition is_empty_message :: "matrix_message \<Rightarrow> bool" where
  "is_empty_message msg = (case msg of WholeMatrix m \<Rightarrow> m = [] | PerServer r \<Rightarrow> r = [])"

definition coordinator_step ::
  "json \<Rightarrow> json \<Rightarrow> ('w, distance_matrix) eff \<Rightarrow> (matrix_message \<Rightarrow> ('w, unit) eff) \<Rightarrow> matrix_message option
     \<Rightarrow> (nat \<times> 'w, matrix_message) eff" where
  "coordinator_step config scenario director handle given =
     ebind (case given of
              Some msg \<Rightarrow> if is_empty_message msg
                then ebind (outside director) (\<lambda>m. elift (coordinator_transform config scenario m)) else ereturn msg
            | None \<Rightarrow> ebind (outside director) (\<lambda>m. elift (coordinator_transform config scenario m)))
       (\<lambda>msg. eseq (outside (handle msg)) (eseq (emodify (\<lambda>(step, w). (step + 1, w))) (ereturn msg)))"

section \<open>Servers\<close>

text \<open>\<open>local_ids\<close> are the keys of \<open>nodes_id_mapping\<close>, the nodes the server has started.\<close>

definition is_local_node :: "int list \<Rightarrow> int \<Rightarrow> bool" where
  "is_local_node local_ids n \<longleftrightarrow> n \<in> set local_ids"

text \<open>The collection that is tested for real nodes contains the first node twice.\<close>

definition is_connection_among_servers :: "int list \<Rightarrow> emulation_node \<Rightarrow> emulation_node \<Rightarrow> bool" where
  "is_connection_among_servers local_ids x y =
     (if filter_real_emulation_nodes [x, x] = [] then False
      else is_local_node local_ids (en_id x) \<noteq> is_local_node local_ids (en_id y))"

definition get_local_distance_matrix_to_servers :: "int list \<Rightarrow> distance_matrix \<Rightarrow> distance_matrix" where
  "get_local_distance_matrix_to_servers local_ids whole =
     fold (\<lambda>((x, y), distance) res. if x \<in> set local_ids \<or> y \<in> set local_ids then dset res (x, y) distance else res) whole []"

text \<open>\<open>get_emulation_node_for_idx\<close>: a node of another server is taken from the table of all nodes.\<close>

definition node_for_idx :: "(int, emulation_node) dict \<Rightarrow> (int, emulation_node) dict \<Rightarrow> int \<Rightarrow> emulation_node res" where
  "node_for_idx local_nodes all_nodes i = (case dget local_nodes i of Some n \<Rightarrow> Inr n | None \<Rightarrow> getitem all_nodes i)"

text \<open>
  What a server steps with: the request client gets an answer of its own, which is the whole matrix
  unless individual matrices are configured; the subscriber always gets the whole matrix.
\<close>

definition request_client_matrix :: "json \<Rightarrow> int list \<Rightarrow> (int, (int \<times> rat) list) dict \<Rightarrow> distance_matrix res" where
  "request_client_matrix config local_ids answer =
     (let m = detransform_distance_matrix answer
      in rbind (is_publish_individual_distance_matrices None config) (\<lambda>individual.
           Inr (if \<not> truthy individual then get_local_distance_matrix_to_servers local_ids m else m)))"

definition subscriber_matrix :: "int list \<Rightarrow> (int, (int \<times> rat) list) dict \<Rightarrow> distance_matrix" where
  "subscriber_matrix local_ids published =
     get_local_distance_matrix_to_servers local_ids (detransform_distance_matrix published)"

text \<open>The way of a matrix from the director to the \<open>step\<close> of a server.\<close>

definition matrix_at_server :: "json \<Rightarrow> json \<Rightarrow> distance_matrix \<Rightarrow> int \<Rightarrow> int list \<Rightarrow> distance_matrix res" where
  "matrix_at_server config scenario m server local_ids =
     rbind (coordinator_transform config scenario m) (\<lambda>msg. case msg of
        WholeMatrix m \<Rightarrow> Inr (subscriber_matrix local_ids (transform_distance_matrix m))
      | PerServer res \<Rightarrow> rbind (getitem res (Some server)) (\<lambda>m.
          request_client_matrix config local_ids (transform_distance_matrix m)))"

section \<open>Lemmas\<close>

lemma int_in_json_ints [simp]: "int_in_json n (JList (map JInt ns)) = Inr (n \<in> set ns)"
  by (induction ns) (auto simp: int_in_json_def json_eq_int_def)

text \<open>Filling a matrix from the entries of another one that satisfy a predicate.\<close>

definition fill :: "(int \<Rightarrow> int \<Rightarrow> bool) \<Rightarrow> distance_matrix \<Rightarrow> distance_matrix \<Rightarrow> distance_matrix" where
  "fill P m res = fold (\<lambda>((x, y), distance) res. if P x y then dset res (x, y) distance else res) m res"

lemma fill_Cons: "fill P (((x, y), d) # m) res = fill P m (if P x y then dset res (x, y) d else res)"
  by (simp add: fill_def)

lemma dwf_fill [simp]: "dwf res \<Longrightarrow> dwf (fill P m res)"
  by (induction m arbitrary: res) (auto simp: fill_def)

lemma dget_fill:
  "dwf m \<Longrightarrow> dget (fill P m res) (x, y) =
     (case dget m (x, y) of Some d \<Rightarrow> if P x y then Some d else dget res (x, y) | None \<Rightarrow> dget res (x, y))"
proof (induction m arbitrary: res)
  case (Cons e m)
  obtain a b d where e: "e = ((a, b), d)" by (metis surj_pair)
  then show ?case using Cons by (auto simp: fill_Cons kwf_Cons kget_kset split: option.splits)
qed (simp add: fill_def)

lemma local_matrix_fill: "get_local_distance_matrix_to_servers ids m = fill (\<lambda>x y. x \<in> set ids \<or> y \<in> set ids) m []"
  by (simp add: get_local_distance_matrix_to_servers_def fill_def)

lemma dget_local_matrix:
  "dwf m \<Longrightarrow> dget (get_local_distance_matrix_to_servers ids m) (x, y) =
     (if x \<in> set ids \<or> y \<in> set ids then dget m (x, y) else None)"
  by (simp add: local_matrix_fill dget_fill split: option.splits)

lemma put_distance_ddget: "ddget_set (put_distance s xy d res) s' = (if s = s' then dset (ddget_set res s) xy d else ddget_set res s')"
  by (simp add: put_distance_def ddget_dset)

text \<open>The coordinator fills the matrix of each server with the entries that concern it.\<close>

lemma split_loop_spec:
  assumes "\<And>n. get_server_for_node scenario n = Inr (server n)"
  shows "\<exists>res'. split_loop scenario m res = Inr res'
    \<and> (\<forall>s. ddget_set res' s = fill (\<lambda>x y. server x = s \<or> server y = s) m (ddget_set res s))
    \<and> (\<forall>s. dget res s \<noteq> None \<longrightarrow> dget res' s \<noteq> None)"
proof (induction m arbitrary: res)
  case (Cons e m)
  obtain x y d where e: "e = ((x, y), d)" by (metis surj_pair)
  let ?res = "put_distance (server y) (x, y) d (put_distance (server x) (x, y) d res)"
  have "dget res s \<noteq> None \<longrightarrow> dget ?res s \<noteq> None" for s by (simp add: put_distance_def kget_kset)
  moreover have "ddget_set ?res s = (if server x = s \<or> server y = s then dset (ddget_set res s) (x, y) d else ddget_set res s)" for s
    by (auto simp: put_distance_ddget)
  ultimately show ?case using Cons [of ?res] by (auto simp: e assms fill_Cons)
qed (simp add: fill_def)

definition assignment_json :: "(int, int list) dict \<Rightarrow> (int, json) dict" where
  "assignment_json a = map (\<lambda>(server, ns). (server, JList (map JInt ns))) a"

text \<open>Every node is assigned to at most one server.\<close>

definition disjoint_assignment :: "(int, int list) dict \<Rightarrow> bool" where
  "disjoint_assignment a \<longleftrightarrow> dwf a \<and> (\<forall>s t ns ms. dget a s = Some ns \<longrightarrow> dget a t = Some ms \<longrightarrow> s \<noteq> t \<longrightarrow> set ns \<inter> set ms = {})"

fun server_of :: "(int, int list) dict \<Rightarrow> int \<Rightarrow> int option" where
  "server_of [] n = None"
| "server_of ((s, ns) # a) n = (if n \<in> set ns then Some s else server_of a n)"

lemma server_loop_assignment: "server_loop (assignment_json a) n = Inr (server_of a n)"
  by (induction a n rule: server_of.induct) (simp_all add: assignment_json_def)

lemma server_of_SomeD: "server_of a n = Some s \<Longrightarrow> dwf a \<Longrightarrow> \<exists>ns. dget a s = Some ns \<and> n \<in> set ns"
  by (induction a n rule: server_of.induct) (auto simp: kwf_Cons split: if_splits)

lemma server_of_total: "dget a s = Some ns \<Longrightarrow> n \<in> set ns \<Longrightarrow> server_of a n \<noteq> None"
  by (induction a n rule: server_of.induct) (auto split: if_splits)

lemma server_of_iff:
  assumes "disjoint_assignment a" "dget a s = Some ns"
  shows "server_of a n = Some s \<longleftrightarrow> n \<in> set ns"
proof
  assume "server_of a n = Some s"
  then show "n \<in> set ns" using server_of_SomeD [of a n s] assms by (auto simp: disjoint_assignment_def)
next
  assume n: "n \<in> set ns"
  then obtain t where t: "server_of a n = Some t" using server_of_total [OF assms(2)] by fastforce
  then obtain ms where "dget a t = Some ms" "n \<in> set ms" using server_of_SomeD [of a n t] assms by (auto simp: disjoint_assignment_def)
  then show "server_of a n = Some s" using t n assms unfolding disjoint_assignment_def by (metis disjoint_iff)
qed

lemma get_server_assignment:
  assumes "get_distributed_server_node_mapping None scenario = Inr (Some (assignment_json a))"
  shows "get_server_for_node scenario n = Inr (server_of a n)"
  using assms by (simp add: get_server_for_node_def server_loop_assignment)

lemma fold_dset_keys: "dget (fold (\<lambda>i res. dset res (Some i) v) ids res) (Some s) = (if s \<in> set ids then Some v else dget res (Some s))"
  by (induction ids arbitrary: res) (auto simp: kget_kset)

lemma dget_in_keys: "dget a s = Some v \<Longrightarrow> s \<in> fst ` set a"
  using dget_None_iff [of a s] by auto

lemma map_fst_assignment: "map fst (assignment_json a) = map fst a"
  by (simp add: assignment_json_def case_prod_beta)

text \<open>The matrix that the coordinator has for a server, and what the server makes of it.\<close>

lemma coordinator_part:
  assumes a: "get_distributed_server_node_mapping None scenario = Inr (Some (assignment_json a))" "disjoint_assignment a"
    and ind: "is_publish_individual_distance_matrices None config = Inr individual" and m: "dwf m" "dget a server = Some ids"
  shows "\<exists>res part. map_distance_matrix_to_servers config scenario m = Inr res \<and> dget res (Some server) = Some part \<and> dwf part
    \<and> (\<forall>x y. dget part (x, y) = (if truthy individual \<longrightarrow> x \<in> set ids \<or> y \<in> set ids then dget m (x, y) else None))"
proof (cases "truthy individual")
  case False
  let ?res = "fold (\<lambda>i res. dset res (Some i) m) (map fst a) []"
  have "map_distance_matrix_to_servers config scenario m = Inr ?res"
    using False ind a by (simp add: map_distance_matrix_to_servers_def get_distributed_server_ids_def map_fst_assignment)
  moreover have "dget ?res (Some server) = Some m" using dget_in_keys [OF m(2)] by (simp add: fold_dset_keys)
  ultimately show ?thesis using m(1) False by simp
next
  case True
  let ?init = "fold (\<lambda>i res. dset res (Some i) []) (map fst a) [] :: (int option, distance_matrix) dict"
  have init: "dget ?init (Some server) = Some []" using dget_in_keys [OF m(2)] by (simp add: fold_dset_keys)
  obtain res where res: "split_loop scenario m ?init = Inr res"
    "ddget_set res (Some server) = fill (\<lambda>x y. server_of a x = Some server \<or> server_of a y = Some server) m (ddget_set ?init (Some server))"
    "dget res (Some server) \<noteq> None"
    using split_loop_spec [of scenario "server_of a" m ?init, OF get_server_assignment [OF a(1)]] init by auto
  then obtain part where part: "dget res (Some server) = Some part" by blast
  then have fill: "part = fill (\<lambda>x y. x \<in> set ids \<or> y \<in> set ids) m []"
    using res(2) init by (simp add: ddget_set_def server_of_iff [OF a(2) m(2)])
  have "map_distance_matrix_to_servers config scenario m = Inr res"
    using True ind a res(1) by (simp add: map_distance_matrix_to_servers_def get_distributed_server_ids_def map_fst_assignment)
  moreover have "dget part (x, y) = (if x \<in> set ids \<or> y \<in> set ids then dget m (x, y) else None)" for x y
    using m(1) by (simp add: fill dget_fill split: option.splits)
  ultimately show ?thesis using part True by (auto simp: fill)
qed

lemma server_part:
  assumes "get_distributed_server_node_mapping None scenario = Inr (Some (assignment_json a))" "disjoint_assignment a"
    and "is_protocol_zeromq_mode_mcast config = Inr mcast" "is_publish_individual_distance_matrices None config = Inr individual"
    and "dwf m" "dget a server = Some ids"
  shows "\<exists>part. matrix_at_server config scenario m server ids = Inr part
      \<and> (\<forall>x y. dget part (x, y) = (if x \<in> set ids \<or> y \<in> set ids then dget m (x, y) else None))"
proof (cases mcast)
  case True
  then show ?thesis using assms(3,5)
    by (auto simp: matrix_at_server_def coordinator_transform_def subscriber_matrix_def
        dget_local_matrix dwf_detransform detransform_transform)
next
  case False
  obtain res part where part: "map_distance_matrix_to_servers config scenario m = Inr res" "dget res (Some server) = Some part" "dwf part"
    "\<forall>x y. dget part (x, y) = (if truthy individual \<longrightarrow> x \<in> set ids \<or> y \<in> set ids then dget m (x, y) else None)"
    using coordinator_part [OF assms(1,2,4,5,6)] by blast
  let ?m = "detransform_distance_matrix (transform_distance_matrix part)"
  have "matrix_at_server config scenario m server ids
    = Inr (if \<not> truthy individual then get_local_distance_matrix_to_servers ids ?m else ?m)"
    using False assms(3,4) part(1,2) by (simp add: matrix_at_server_def coordinator_transform_def request_client_matrix_def getitem_def Let_def)
  then show ?thesis using part(3,4) by (auto simp: dget_local_matrix dwf_detransform detransform_transform)
qed

section \<open>Properties\<close>

text \<open>C24: every server works on the same part of the distance matrix, whichever way the matrices are
  distributed. If the nodes are assigned to servers without overlap, a server steps with exactly those
  entries of the director's matrix that concern one of its nodes, for published matrices, for whole
  matrices sent as answers and for individual ones; and of the pairs in it, it takes those for
  connections between servers whose nodes are on different servers.
\<close>

theorem servers_share_the_matrix:
  assumes "get_distributed_server_node_mapping None scenario = Inr (Some (assignment_json a))" "disjoint_assignment a"
    and "is_protocol_zeromq_mode_mcast config = Inr mcast" "is_publish_individual_distance_matrices None config = Inr individual"
    and "dwf m" "dget a server = Some ids"
  shows "(\<exists>part. matrix_at_server config scenario m server ids = Inr part
      \<and> (\<forall>x y. dget part (x, y) = (if x \<in> set ids \<or> y \<in> set ids then dget m (x, y) else None)))
    \<and> (\<forall>nx ny. \<not> is_virtual_node nx \<longrightarrow> en_id nx \<in> set ids \<or> en_id ny \<in> set ids \<longrightarrow>
        (is_connection_among_servers ids nx ny \<longleftrightarrow> get_server_for_node scenario (en_id nx) \<noteq> get_server_for_node scenario (en_id ny)))"
proof
  show "\<exists>part. matrix_at_server config scenario m server ids = Inr part
      \<and> (\<forall>x y. dget part (x, y) = (if x \<in> set ids \<or> y \<in> set ids then dget m (x, y) else None))"
    by (rule server_part [OF assms])
  have "x \<in> set ids \<or> y \<in> set ids \<Longrightarrow> (x \<in> set ids) \<noteq> (y \<in> set ids) \<longleftrightarrow> server_of a x \<noteq> server_of a y" for x y
    using server_of_iff [OF assms(2,6)] by metis
  then show "\<forall>nx ny. \<not> is_virtual_node nx \<longrightarrow> en_id nx \<in> set ids \<or> en_id ny \<in> set ids \<longrightarrow>
        (is_connection_among_servers ids nx ny \<longleftrightarrow> get_server_for_node scenario (en_id nx) \<noteq> get_server_for_node scenario (en_id ny))"
    by (auto simp: is_connection_among_servers_def is_local_node_def filter_real_emulation_nodes_def filter_type_def
        get_server_assignment [OF assms(1)])
qed


definition ex_scenario :: json where
  "ex_scenario = JObj [(''distributed'', JObj [(''server_node_mapping'', int_keyed [(1, JList [JInt 1, JInt 2]), (2, JList [JInt 3])])])]"

definition ex_individual :: json where
  "ex_individual = JObj [(''network'', JObj [(''protocol'', JObj [(''zeromq'', JObj [(''mode'', PROTOCOL_ZMQ_MODE_P2P), (''publish_individual_distance_matrices'', JBool True)])])])]"

theorem servers_share_the_matrix_witness:
  "(\<exists>part. matrix_at_server ex_individual ex_scenario ex_near 2 [3] = Inr part
      \<and> dget part (1, 2) = None \<and> dget part (1, 3) = Some 100 \<and> dget part (2, 3) = Some 5)
    \<and> is_connection_among_servers [3] (ex_mesh_node 2) (ex_mesh_node 3)"
proof -
  let ?a = "[(1, [1, 2]), (2, [3])] :: (int, int list) dict"
  have "get_distributed_server_node_mapping None ex_scenario = Inr (Some (assignment_json ?a))" by code_simp
  moreover have "disjoint_assignment ?a" by (auto simp: disjoint_assignment_def kwf_def)
  moreover have "is_protocol_zeromq_mode_mcast ex_individual = Inr False" by code_simp
  moreover have "is_publish_individual_distance_matrices None ex_individual = Inr (JBool True)" by code_simp
  moreover have "dwf ex_near" by (simp add: ex_near_def kwf_def)
  moreover have "dget ?a 2 = Some [3]" by simp
  ultimately have at_2: "(\<exists>part. matrix_at_server ex_individual ex_scenario ex_near 2 [3] = Inr part
      \<and> (\<forall>x y. dget part (x, y) = (if x \<in> set [3] \<or> y \<in> set [3] then dget ex_near (x, y) else None)))
    \<and> (\<forall>nx ny. \<not> is_virtual_node nx \<longrightarrow> en_id nx \<in> set [3] \<or> en_id ny \<in> set [3] \<longrightarrow>
        (is_connection_among_servers [3] nx ny \<longleftrightarrow> get_server_for_node ex_scenario (en_id nx) \<noteq> get_server_for_node ex_scenario (en_id ny)))"
    by (rule servers_share_the_matrix)
  moreover have "get_server_for_node ex_scenario 2 = Inr (Some 1)" "get_server_for_node ex_scenario 3 = Inr (Some 2)" by code_simp+
  ultimately show ?thesis by (auto simp: ex_near_def ex_mesh_node_def is_virtual_node_def)
qed


text \<open>
  A server none of whose nodes occurs in the matrix is handed an empty matrix, which \<open>step\<close> takes
  for none at all: it asks the movement director, which a server does not have, and raises.
\<close>

lemma empty_part_raises:
  assumes "se_director env" "se_simulate env = eraise AttributeError"
  shows "sim_step env 1 (Some []) s = (Inl AttributeError, s\<lparr>sm_connected_event := True\<rparr>)"
  using assms by (simp add: sim_step_def efinally_def sim_step_once_def obtain_matrix_def in_world_def eraise_def ebind_def)

text \<open>
  The coordinator hands the transformed matrix of the director to the group communication exactly
  once; the step is counted only if this succeeds.
\<close>

lemma coordinator_step_cases:
  assumes "director w = (Inr m, w1)" "coordinator_transform config scenario m = Inr msg"
  shows "coordinator_step config scenario director handle None (k, w) = (case handle msg w1 of
      (Inl e, w2) \<Rightarrow> (Inl e, (k, w2)) | (Inr _, w2) \<Rightarrow> (Inr msg, (k + 1, w2)))"
  using assms by (simp add: coordinator_step_def ebind_def outside_def elift_def emodify_def ereturn_def split: prod.split sum.split)

end
