(* ===== verification/Zmq_Pubsub.thy ===== *)
theory Zmq_Pubsub
  imports Zmq_Group Distributed
begin

text \<open>
  The publish/subscribe mode of the group communication: the run loop of \<open>ZeroMQClientSub\<close>
  (\<open>rpc/zeromq/ZeroMQProtoClient.py\<close>) against \<open>ZeroMQCServerPubSub\<close>
  (\<open>rpc/zeromq/ZeroMQProtoServer.py\<close>), after the start-up of \<open>Zmq_Group\<close>. The coordinator
  publishes the whole distance matrix and then collects one synchronisation request of every server;
  a server waits for a matrix or for a reset, steps with its part of the matrix, sends its request
  and waits for the answer or for a reset. Coordinator and servers interleave arbitrarily.

  A subscription is in place before the first synchronisation, so no publication is lost. A
  request socket refuses to send while an answer is outstanding (\<open>ZMQError\<close>).
\<close>

section \<open>Matrices on the wire\<close>

text \<open>
  What \<open>detransform_distance_matrix\<close> reads from a deserialised message: the keys are converted
  with \<open>int\<close>, every entry is unpacked into two values. The coordinator sends integers and numbers.
\<close>

definition entry_of_json :: "json \<Rightarrow> (int \<times> rat) res" where
  "entry_of_json v = (case v of
      JList [JInt y, JFloat d] \<Rightarrow> Inr (y, d)
    | JList [JInt y, JInt d] \<Rightarrow> Inr (y, of_int d)
    | JList [_, _] \<Rightarrow> Inl TypeError
    | JList _ \<Rightarrow> Inl ValueError
    | _ \<Rightarrow> Inl TypeError)"

definition matrix_of_json :: "json \<Rightarrow> (int, (int \<times> rat) list) dict res" where
  "matrix_of_json v = (case v of
      JObj o' \<Rightarrow> rmap (\<lambda>(x, entries). rbind (py_int x) (\<lambda>x. case entries of
          JList es \<Rightarrow> rbind (rmap entry_of_json es) (\<lambda>es. Inr (x, es))
        | _ \<Rightarrow> Inl TypeError)) o'
    | _ \<Rightarrow> Inl AttributeError)"

section \<open>Subscribers\<close>

text \<open>
  Where a subscriber is in \<open>enter_run_loop\<close>: before and after the request of the initial
  \<open>sync\<close>, at the outer \<open>select\<close>, after \<open>step\<close> and before \<open>send_sync\<close>, at the inner \<open>select\<close>; it has
  left the loop when it was reset and registers anew, or by an exception.
\<close>

datatype sub_pc = AtInitialSync | AtInitialReply | AtSelect | AtSync | AtReply | Restarted | Raised py_error

record subscriber =
  sb_client :: client
  sb_pc :: sub_pc
  sb_stepped :: "distance_matrix list"

datatype branch = TakeReset | TakeMatrix | TakeSync | TakeNothing

text \<open>\<open>handle_select\<close>: which of the sockets that are ready is read.\<close>

definition handle_select :: "bool \<Rightarrow> bool \<Rightarrow> bool \<Rightarrow> bool \<Rightarrow> branch res" where
  "handle_select xlist reset_socket sub_socket svc =
     (if xlist then Inl ZeroMQException else if reset_socket then Inr TakeReset
      else if sub_socket then Inr TakeMatrix else if svc then Inr TakeSync else Inr TakeNothing)"

text \<open>Sending on the request socket; \<open>c_waiting\<close> is an outstanding answer.\<close>

definition req_send :: "(json \<Rightarrow> 'w) \<Rightarrow> json list \<Rightarrow> client \<Rightarrow> ('w frame list \<times> client) res" where
  "req_send ser parts c =
     (if c_waiting c then Inl ZMQError else Inr (send_multi_part ser parts, c\<lparr>c_waiting := True\<rparr>))"

definition send_sync :: "(json \<Rightarrow> 'w) \<Rightarrow> subscriber \<Rightarrow> 'w frame list option \<times> subscriber" where
  "send_sync ser s = (case req_send ser (send_server_id STATE_DISTANCE_MATRIX (sb_client s) []) (sb_client s) of
      Inl e \<Rightarrow> (None, s\<lparr>sb_pc := Raised e\<rparr>)
    | Inr (frames, c) \<Rightarrow> (Some frames,
        s\<lparr>sb_client := c, sb_pc := if sb_pc s = AtInitialSync then AtInitialReply else AtReply\<rparr>))"

definition recv_sync :: "('w \<Rightarrow> json res) \<Rightarrow> 'w frame list \<Rightarrow> subscriber \<Rightarrow> subscriber" where
  "recv_sync des frames s = (case deserialize_frame des (hd (tl frames)) of
      Inl e \<Rightarrow> s\<lparr>sb_pc := Raised e\<rparr>
    | Inr _ \<Rightarrow> s\<lparr>sb_client := (sb_client s)\<lparr>c_waiting := False\<rparr>, sb_pc := AtSelect\<rparr>)"

definition recv_distance_matrix :: "('w \<Rightarrow> json res) \<Rightarrow> int list \<Rightarrow> 'w \<Rightarrow> distance_matrix res" where
  "recv_distance_matrix des local_ids w =
     rbind (rbind (des w) matrix_of_json) (\<lambda>published. Inr (subscriber_matrix local_ids published))"

text \<open>
  The branch of a matrix up to \<open>send_sync\<close>. \<open>step\<close> is that of the simulation manager on the
  matrices of this run, of which it only matters whether it raises.
\<close>

definition sub_step ::
  "('w \<Rightarrow> json res) \<Rightarrow> int list \<Rightarrow> (distance_matrix list \<Rightarrow> unit res) \<Rightarrow> 'w \<Rightarrow> subscriber \<Rightarrow> subscriber" where
  "sub_step des local_ids step w s = (case recv_distance_matrix des local_ids w of
      Inl e \<Rightarrow> s\<lparr>sb_pc := Raised e\<rparr>
    | Inr m \<Rightarrow> (case step (sb_stepped s @ [m]) of
        Inl e \<Rightarrow> s\<lparr>sb_pc := Raised e\<rparr>
      | Inr _ \<Rightarrow> s\<lparr>sb_stepped := sb_stepped s @ [m], sb_pc := AtSync\<rparr>))"

text \<open>
  \<open>reset\<close>: the simulation is aborted and \<open>start\<close> is called again, which registers on the same request
  socket.
\<close>

definition sub_reset :: "(json \<Rightarrow> 'w) \<Rightarrow> subscriber \<Rightarrow> 'w frame list option \<times> subscriber" where
  "sub_reset ser s = (case req_send ser [JStr STATE_REGISTER] (sb_client s) of
      Inl e \<Rightarrow> (None, s\<lparr>sb_pc := Raised e\<rparr>)
    | Inr (frames, c) \<Rightarrow> (Some frames, s\<lparr>sb_client := c\<lparr>c_log := []\<rparr>, sb_pc := Restarted\<rparr>))"

section \<open>The group\<close>

text \<open>
  Where the coordinator is: between two steps, in the initial synchronisation with the first matrix
  at hand, before the publication, in the synchronisation after it, or after \<open>shutdown\<close>.
\<close>

datatype coord_pc = Ready | InitialSync distance_matrix | Publishing distance_matrix | Syncing | Stopped

text \<open>The way of the reset message to a subscriber.\<close>

datatype reset_msg = NoReset | OnTheWay | Arrived | Received

record ('a, 'w) pubsub =
  ps_clients :: "'a \<Rightarrow> subscriber"
  ps_mail :: "'a \<Rightarrow> 'w frame list list"
  ps_feed :: "'a \<Rightarrow> 'w list"
  ps_reset :: "'a \<Rightarrow> reset_msg"
  ps_inbox :: "('a, 'w) message list"
  ps_storage :: "('a \<times> json list) list"
  ps_pc :: coord_pc
  ps_current_step :: nat
  ps_published :: "distance_matrix list"

text \<open>
  The environment: the protocol, the servers with their client after \<open>ZeroMQClient.start\<close> and their
  nodes, the matrix of the director in every step, and the steps of the servers.
\<close>

record ('a, 'w) pubsub_env =
  pe_ser :: "json \<Rightarrow> 'w"
  pe_des :: "'w \<Rightarrow> json res"
  pe_peers :: "'a set"
  pe_client :: "'a \<Rightarrow> client"
  pe_nodes :: "'a \<Rightarrow> int list"
  pe_matrix :: "nat \<Rightarrow> distance_matrix"
  pe_step :: "'a \<Rightarrow> distance_matrix list \<Rightarrow> unit res"

definition initial_pubsub :: "('a, 'w) pubsub_env \<Rightarrow> ('a, 'w) pubsub" where
  "initial_pubsub env = \<lparr>ps_clients = (\<lambda>a. \<lparr>sb_client = pe_client env a, sb_pc = AtInitialSync, sb_stepped = []\<rparr>),
     ps_mail = (\<lambda>_. []), ps_feed = (\<lambda>_. []), ps_reset = (\<lambda>_. NoReset), ps_inbox = [], ps_storage = [],
     ps_pc = Ready, ps_current_step = 0, ps_published = []\<rparr>"

text \<open>The sockets that the outer and the inner \<open>select\<close> watch.\<close>

definition sub_select :: "('a, 'w) pubsub \<Rightarrow> 'a \<Rightarrow> branch res" where
  "sub_select g a = (case sb_pc (ps_clients g a) of
      AtSelect \<Rightarrow> handle_select False (ps_reset g a = Arrived) (ps_feed g a \<noteq> []) False
    | AtReply \<Rightarrow> handle_select False (ps_reset g a = Arrived) False (ps_mail g a \<noteq> [])
    | _ \<Rightarrow> Inr TakeNothing)"

definition posted :: "'a \<Rightarrow> 'w frame list option \<Rightarrow> ('a, 'w) message list \<Rightarrow> ('a, 'w) message list" where
  "posted a out inbox = (case out of None \<Rightarrow> inbox | Some frames \<Rightarrow> inbox @ [(a, frames)])"

definition sync_expecter :: "('a, 'w) pubsub_env \<Rightarrow> ('a, 'w) pubsub \<Rightarrow> 'a expecter" where
  "sync_expecter env g = (new_expecter (card (pe_peers env)) STATE_DISTANCE_MATRIX 1)\<lparr>expect_storage := ps_storage g\<rparr>"

definition collecting :: "coord_pc \<Rightarrow> bool" where
  "collecting pc = (case pc of InitialSync _ \<Rightarrow> True | Syncing \<Rightarrow> True | _ \<Rightarrow> False)"

text \<open>What follows a synchronisation: the publication, or the end of the step.\<close>

definition after_sync :: "coord_pc \<Rightarrow> coord_pc" where
  "after_sync pc = (case pc of InitialSync m \<Rightarrow> Publishing m | _ \<Rightarrow> Ready)"

inductive ps_step :: "('a, 'w) pubsub_env \<Rightarrow> ('a, 'w) pubsub \<Rightarrow> ('a, 'w) pubsub \<Rightarrow> bool" for env where
  sub_sends: "\<lbrakk> a \<in> pe_peers env; sb_pc (ps_clients g a) \<in> {AtInitialSync, AtSync};
      send_sync (pe_ser env) (ps_clients g a) = (out, s) \<rbrakk> \<Longrightarrow>
    ps_step env g (g\<lparr>ps_clients := (ps_clients g)(a := s), ps_inbox := posted a out (ps_inbox g)\<rparr>)"
| sub_syncs: "\<lbrakk> a \<in> pe_peers env; ps_mail g a = fr # mail;
      sb_pc (ps_clients g a) = AtInitialReply \<or> sub_select g a = Inr TakeSync \<rbrakk> \<Longrightarrow>
    ps_step env g (g\<lparr>ps_clients := (ps_clients g)(a := recv_sync (pe_des env) fr (ps_clients g a)),
      ps_mail := (ps_mail g)(a := mail)\<rparr>)"
| sub_steps: "\<lbrakk> a \<in> pe_peers env; sub_select g a = Inr TakeMatrix; ps_feed g a = w # feed \<rbrakk> \<Longrightarrow>
    ps_step env g (g\<lparr>ps_clients := (ps_clients g)(a :=
        sub_step (pe_des env) (pe_nodes env a) (pe_step env a) w (ps_clients g a)),
      ps_feed := (ps_feed g)(a := feed)\<rparr>)"
| sub_resets: "\<lbrakk> a \<in> pe_peers env; sub_select g a = Inr TakeReset; sub_reset (pe_ser env) (ps_clients g a) = (out, s) \<rbrakk> \<Longrightarrow>
    ps_step env g (g\<lparr>ps_clients := (ps_clients g)(a := s), ps_inbox := posted a out (ps_inbox g),
      ps_reset := (ps_reset g)(a := Received)\<rparr>)"
| begins: "ps_pc g = Ready \<Longrightarrow>
    ps_step env g (g\<lparr>ps_pc := (if ps_current_step g = 0 then InitialSync else Publishing) (pe_matrix env (ps_current_step g))\<rparr>)"
| collects: "\<lbrakk> collecting (ps_pc g); length (ps_storage g) < card (pe_peers env); ps_inbox g = m # inbox;
      expect (pe_des env) (sync_expecter env g) m = Inr (valid, e) \<rbrakk> \<Longrightarrow>
    ps_step env g (g\<lparr>ps_inbox := inbox, ps_storage := expect_storage e\<rparr>)"
| answers: "\<lbrakk> collecting (ps_pc g); length (ps_storage g) = card (pe_peers env) \<rbrakk> \<Longrightarrow>
    ps_step env g (g\<lparr>ps_mail := deliver (respond_argument (pe_ser env) (JStr []) (sync_expecter env g)) (ps_mail g),
      ps_storage := [], ps_pc := after_sync (ps_pc g),
      ps_current_step := ps_current_step g + (if ps_pc g = Syncing then 1 else 0)\<rparr>)"
| publishes: "ps_pc g = Publishing m \<Longrightarrow>
    ps_step env g (g\<lparr>ps_feed := (\<lambda>a. ps_feed g a @ [pe_ser env (matrix_json m)]), ps_published := ps_published g @ [m],
      ps_pc := Syncing\<rparr>)"
| aborts: "ps_pc g = Ready \<Longrightarrow> ps_step env g (g\<lparr>ps_pc := Stopped, ps_reset := (\<lambda>_. OnTheWay)\<rparr>)"
| arrives: "\<lbrakk> a \<in> pe_peers env; ps_reset g a = OnTheWay \<rbrakk> \<Longrightarrow> ps_step env g (g\<lparr>ps_reset := (ps_reset g)(a := Arrived)\<rparr>)"

inductive ps_reachable :: "('a, 'w) pubsub_env \<Rightarrow> ('a, 'w) pubsub \<Rightarrow> bool" for env where
  ps_init: "ps_reachable env (initial_pubsub env)"
| ps_next: "\<lbrakk> ps_reachable env g; ps_step env g g' \<rbrakk> \<Longrightarrow> ps_reachable env g'"

text \<open>What the layers around the group have to promise.\<close>

definition ps_ok :: "('a, 'w) pubsub_env \<Rightarrow> bool" where
  "ps_ok env \<longleftrightarrow> finite (pe_peers env) \<and> pe_peers env \<noteq> {} \<and> (\<forall>v. pe_des env (pe_ser env v) = Inr v)
     \<and> (\<forall>a ms. pe_step env a ms = Inr ()) \<and> (\<forall>k. dwf (pe_matrix env k)) \<and> (\<forall>a. \<not> c_waiting (pe_client env a))"

section \<open>The coordinator's handler as steps of the group\<close>

text \<open>One step of the coordinator in its sequential form: the phases the relation passes through.\<close>

lemma pubsub_phases:
  "pubsub_distance_matrix ser des k m s =
     and_then (if k = 0 then and_then (expect_state des STATE_DISTANCE_MATRIX 1 s)
         (\<lambda>e s. Some (Inr (), send_all (respond_argument ser (JStr []) e) s)) else Some (Inr (), s))
       (\<lambda>_ s. and_then (expect_state des STATE_DISTANCE_MATRIX 1 (s\<lparr>sv_published := sv_published s @ [ser (matrix_json m)]\<rparr>))
         (\<lambda>e s. Some (Inr (), send_all (respond_argument ser (JStr []) e) s)))"
  by (simp add: pubsub_distance_matrix_def sync_subscribers_def)

section \<open>Lemmas on messages\<close>

lemma matrix_round_trip: "matrix_of_json (matrix_json m) = Inr (transform_distance_matrix m)"
proof -
  have entries: "rmap entry_of_json (map (\<lambda>(y, d). JList [JInt y, JFloat d]) ys) = Inr ys" for ys
    by (induction ys) (auto simp: entry_of_json_def)
  have "rmap (\<lambda>(x, entries). rbind (py_int x) (\<lambda>x. case entries of
          JList es \<Rightarrow> rbind (rmap entry_of_json es) (\<lambda>es. Inr (x, es))
        | _ \<Rightarrow> Inl TypeError)) (map (\<lambda>(x, ys). (int_dec x, JList (map (\<lambda>(y, d). JList [JInt y, JFloat d]) ys))) t) = Inr t" for t
    by (induction t) (auto simp: entries)
  then show ?thesis by (simp add: matrix_of_json_def matrix_json_def int_keyed_def comp_def case_prod_unfold)
qed

definition local_part :: "int list \<Rightarrow> distance_matrix \<Rightarrow> distance_matrix" where
  "local_part local_ids m = subscriber_matrix local_ids (transform_distance_matrix m)"

lemma recv_published:
  "ps_ok env \<Longrightarrow> recv_distance_matrix (pe_des env) ids (pe_ser env (matrix_json m)) = Inr (local_part ids m)"
  by (simp add: recv_distance_matrix_def ps_ok_def matrix_round_trip local_part_def)

lemma dget_local_part:
  "dwf m \<Longrightarrow> dget (local_part ids m) (x, y) = (if x \<in> set ids \<or> y \<in> set ids then dget m (x, y) else None)"
  by (simp add: local_part_def subscriber_matrix_def dget_local_matrix dwf_detransform detransform_transform)

definition sync_parts :: "('a, 'w) pubsub_env \<Rightarrow> 'a \<Rightarrow> json list" where
  "sync_parts env a = [JStr STATE_DISTANCE_MATRIX, c_server_id (pe_client env a)]"

lemma rmap_deserialize_ps:
  "ps_ok env \<Longrightarrow> rmap (deserialize_frame (pe_des env)) (map (\<lambda>p. Some (pe_ser env p)) ps) = Inr ps"
  by (induction ps) (simp_all add: deserialize_frame_def ps_ok_def)

lemma expect_sync:
  assumes "ps_ok env"
  shows "expect (pe_des env) (sync_expecter env g) (a, send_multi_part (pe_ser env) (sync_parts env a))
    = Inr (True, (sync_expecter env g)\<lparr>expect_storage := ps_storage g @ [(a, [c_server_id (pe_client env a)])]\<rparr>)"
  using assms rmap_deserialize_ps [OF assms, of "sync_parts env a"]
  by (simp add: expect_def send_multi_part_def sync_expecter_def new_expecter_def sync_parts_def)

section \<open>Invariant\<close>

text \<open>How many synchronisations the coordinator has answered.\<close>

definition answered :: "coord_pc \<Rightarrow> nat \<Rightarrow> nat" where
  "answered pc k = (case pc of
      InitialSync _ \<Rightarrow> 0 | Publishing _ \<Rightarrow> k + 1 | Syncing \<Rightarrow> k + 1 | _ \<Rightarrow> if k = 0 then 0 else k + 1)"

definition ps_queued :: "('a, 'w) pubsub \<Rightarrow> 'a \<Rightarrow> bool" where
  "ps_queued g a \<longleftrightarrow> a \<in> fst ` set (ps_inbox g) \<or> a \<in> fst ` set (ps_storage g)"

text \<open>
  A subscriber in the loop has an answer less than the coordinator gave only if it is in its mail;
  the publications it has not yet worked on are in its feed.
\<close>

definition in_loop :: "('a, 'w) pubsub_env \<Rightarrow> bool \<Rightarrow> nat \<Rightarrow> nat \<Rightarrow> bool \<Rightarrow> 'w frame list list \<Rightarrow> sub_pc \<Rightarrow> bool \<Rightarrow> bool" where
  "in_loop env stopped r i q mail pc waiting = (case pc of
      AtInitialSync \<Rightarrow> i = 0 \<and> r = 0 \<and> mail = [] \<and> \<not> waiting \<and> (\<not> stopped \<longrightarrow> \<not> q)
    | AtSync \<Rightarrow> 0 < i \<and> r = i \<and> mail = [] \<and> \<not> waiting \<and> (\<not> stopped \<longrightarrow> \<not> q)
    | AtSelect \<Rightarrow> r = i + 1 \<and> mail = [] \<and> \<not> waiting \<and> (\<not> stopped \<longrightarrow> \<not> q)
    | AtInitialReply \<Rightarrow> i = 0 \<and> waiting \<and> (r = 0 \<and> mail = [] \<and> (\<not> stopped \<longrightarrow> q)
          \<or> r = 1 \<and> mail = [[None, Some (pe_ser env (JStr []))]] \<and> (\<not> stopped \<longrightarrow> \<not> q))
    | AtReply \<Rightarrow> 0 < i \<and> waiting \<and> (r = i \<and> mail = [] \<and> (\<not> stopped \<longrightarrow> q)
          \<or> r = i + 1 \<and> mail = [[None, Some (pe_ser env (JStr []))]] \<and> (\<not> stopped \<longrightarrow> \<not> q))
    | Restarted \<Rightarrow> stopped \<and> r = i + 1 \<and> waiting \<and> mail = []
    | Raised e \<Rightarrow> stopped \<and> r = i + 1 \<and> e = ZMQError)"

definition works_on :: "('a, 'w) pubsub_env \<Rightarrow> 'a \<Rightarrow> distance_matrix list \<Rightarrow> distance_matrix list \<Rightarrow> bool" where
  "works_on env a published ms \<longleftrightarrow> ms = map (local_part (pe_nodes env a)) (take (length ms) published)"

definition sub_inv ::
  "('a, 'w) pubsub_env \<Rightarrow> 'a \<Rightarrow> bool \<Rightarrow> nat \<Rightarrow> distance_matrix list \<Rightarrow> bool \<Rightarrow> 'w frame list list \<Rightarrow> 'w list \<Rightarrow> reset_msg
     \<Rightarrow> subscriber \<Rightarrow> bool" where
  "sub_inv env a stopped r published q mail feed rst s \<longleftrightarrow> (let i = length (sb_stepped s) in
     c_server_id (sb_client s) = c_server_id (pe_client env a)
     \<and> i \<le> length published \<and> works_on env a published (sb_stepped s)
     \<and> feed = map (\<lambda>m. pe_ser env (matrix_json m)) (drop i published)
     \<and> in_loop env stopped r i q mail (sb_pc s) (c_waiting (sb_client s))
     \<and> (stopped \<longleftrightarrow> rst \<noteq> NoReset) \<and> (rst = Received \<longleftrightarrow> sb_pc s = Restarted \<or> (\<exists>e. sb_pc s = Raised e)))"

definition group_sub_inv :: "('a, 'w) pubsub_env \<Rightarrow> ('a, 'w) pubsub \<Rightarrow> 'a \<Rightarrow> bool" where
  "group_sub_inv env g a \<longleftrightarrow> sub_inv env a (ps_pc g = Stopped) (answered (ps_pc g) (ps_current_step g)) (ps_published g)
     (ps_queued g a) (ps_mail g a) (ps_feed g a) (ps_reset g a) (ps_clients g a)"

definition coord_inv :: "('a, 'w) pubsub_env \<Rightarrow> ('a, 'w) pubsub \<Rightarrow> bool" where
  "coord_inv env g \<longleftrightarrow>
     ps_published g = map (pe_matrix env) [0..<ps_current_step g + (if ps_pc g = Syncing then 1 else 0)]
     \<and> (\<forall>m. ps_pc g = InitialSync m \<or> ps_pc g = Publishing m \<longrightarrow> m = pe_matrix env (ps_current_step g))
     \<and> (\<forall>m. ps_pc g = InitialSync m \<longrightarrow> ps_current_step g = 0)
     \<and> (\<not> collecting (ps_pc g) \<longrightarrow> ps_storage g = [])"

definition sync_queue_inv :: "('a, 'w) pubsub_env \<Rightarrow> ('a, 'w) pubsub \<Rightarrow> bool" where
  "sync_queue_inv env g \<longleftrightarrow> (ps_pc g \<noteq> Stopped \<longrightarrow> distinct (map fst (ps_inbox g) @ map fst (ps_storage g))
     \<and> fst ` set (ps_inbox g) \<union> fst ` set (ps_storage g) \<subseteq> pe_peers env
     \<and> (\<forall>(a, fr) \<in> set (ps_inbox g). fr = send_multi_part (pe_ser env) (sync_parts env a)))"

definition ps_inv :: "('a, 'w) pubsub_env \<Rightarrow> ('a, 'w) pubsub \<Rightarrow> bool" where
  "ps_inv env g \<longleftrightarrow> coord_inv env g \<and> sync_queue_inv env g \<and> (\<forall>a \<in> pe_peers env. group_sub_inv env g a)"

lemma works_on_snoc: "works_on env a published ms \<Longrightarrow> length ms \<le> length published \<Longrightarrow> works_on env a (published @ [m]) ms"
  by (simp add: works_on_def)

lemma ps_invD:
  assumes "ps_inv env g"
  shows "coord_inv env g" "sync_queue_inv env g" "a \<in> pe_peers env \<Longrightarrow> group_sub_inv env g a"
  using assms by (simp_all add: ps_inv_def)

lemma ps_inv_initial: "ps_ok env \<Longrightarrow> ps_inv env (initial_pubsub env)"
  by (simp add: ps_inv_def initial_pubsub_def coord_inv_def sync_queue_inv_def group_sub_inv_def sub_inv_def in_loop_def
      works_on_def answered_def ps_queued_def ps_ok_def)

lemmas sub_inv_defs = group_sub_inv_def sub_inv_def in_loop_def Let_def

subsection \<open>Steps of the subscribers\<close>

text \<open>A step of one subscriber leaves the others and the coordinator as they are.\<close>

lemma sub_step_preserves:
  assumes inv: "ps_inv env g" and a: "a \<in> pe_peers env" and "group_sub_inv env g' a"
    and "\<And>b. b \<noteq> a \<Longrightarrow> ps_clients g' b = ps_clients g b \<and> ps_mail g' b = ps_mail g b \<and> ps_feed g' b = ps_feed g b
      \<and> ps_reset g' b = ps_reset g b"
    and "ps_pc g' = ps_pc g" "ps_current_step g' = ps_current_step g" "ps_published g' = ps_published g"
    and "ps_storage g' = ps_storage g" "ps_inbox g' = posted a out (ps_inbox g)"
    and "ps_pc g \<noteq> Stopped \<Longrightarrow> out \<noteq> None \<Longrightarrow> out = Some (send_multi_part (pe_ser env) (sync_parts env a)) \<and> \<not> ps_queued g a"
  shows "ps_inv env g'"
proof -
  have "coord_inv env g'" using ps_invD(1) [OF inv] unfolding coord_inv_def assms(5-8) .
  moreover have "sync_queue_inv env g'"
    using ps_invD(2) [OF inv] a assms(10) unfolding sync_queue_inv_def assms(5-9)
    by (cases out) (auto simp: posted_def ps_queued_def)
  moreover have "group_sub_inv env g' b" if "b \<in> pe_peers env" for b
  proof (cases "b = a")
    case False
    then have "ps_queued g' b \<longleftrightarrow> ps_queued g b" by (cases out) (auto simp: ps_queued_def assms(8,9) posted_def)
    then show ?thesis using ps_invD(3) [OF inv that] assms(4) [OF False] by (simp add: group_sub_inv_def assms(5-7))
  qed (use assms(3) in simp)
  ultimately show ?thesis by (simp add: ps_inv_def)
qed

lemma sends_result:
  assumes "ps_inv env g" "a \<in> pe_peers env" "sb_pc (ps_clients g a) \<in> {AtInitialSync, AtSync}"
  shows "send_sync (pe_ser env) (ps_clients g a) = (Some (send_multi_part (pe_ser env) (sync_parts env a)),
    (ps_clients g a)\<lparr>sb_client := (sb_client (ps_clients g a))\<lparr>c_waiting := True\<rparr>,
      sb_pc := if sb_pc (ps_clients g a) = AtInitialSync then AtInitialReply else AtReply\<rparr>)"
  using ps_invD(3) [OF assms(1,2)] assms(3)
  by (auto simp: sub_inv_defs send_sync_def req_send_def send_server_id_def sync_parts_def)

lemma sends_preserves:
  assumes inv: "ps_inv env g" and a: "a \<in> pe_peers env" "sb_pc (ps_clients g a) \<in> {AtInitialSync, AtSync}"
    and send: "send_sync (pe_ser env) (ps_clients g a) = (out, s)"
  shows "ps_inv env (g\<lparr>ps_clients := (ps_clients g)(a := s), ps_inbox := posted a out (ps_inbox g)\<rparr>)" (is "ps_inv env ?g")
proof (rule sub_step_preserves [OF inv a(1)])
  note s = sends_result [OF inv a] send
  have "ps_queued ?g a" using s by (auto simp: ps_queued_def posted_def)
  then show "group_sub_inv env ?g a"
    using ps_invD(3) [OF inv a(1)] a(2) s by (auto simp: sub_inv_defs)
  show "out = Some (send_multi_part (pe_ser env) (sync_parts env a)) \<and> \<not> ps_queued g a" if "ps_pc g \<noteq> Stopped"
    using that ps_invD(3) [OF inv a(1)] a(2) s by (auto simp: sub_inv_defs)
qed auto

lemma select_cases:
  "sub_select g a = Inr TakeSync \<Longrightarrow> sb_pc (ps_clients g a) = AtReply \<and> ps_reset g a \<noteq> Arrived"
  "sub_select g a = Inr TakeMatrix \<Longrightarrow> sb_pc (ps_clients g a) = AtSelect \<and> ps_reset g a \<noteq> Arrived \<and> ps_feed g a \<noteq> []"
  "sub_select g a = Inr TakeReset \<Longrightarrow> sb_pc (ps_clients g a) \<in> {AtSelect, AtReply} \<and> ps_reset g a = Arrived"
  by (auto simp: sub_select_def handle_select_def split: sub_pc.splits if_splits)

lemma syncs_result:
  assumes "ps_ok env" "ps_inv env g" "a \<in> pe_peers env" "ps_mail g a = fr # mail"
    "sb_pc (ps_clients g a) \<in> {AtInitialReply, AtReply}"
  shows "mail = []" and "recv_sync (pe_des env) fr (ps_clients g a)
    = (ps_clients g a)\<lparr>sb_client := (sb_client (ps_clients g a))\<lparr>c_waiting := False\<rparr>, sb_pc := AtSelect\<rparr>"
  using ps_invD(3) [OF assms(2,3)] assms(1,4,5)
  by (auto simp: sub_inv_defs recv_sync_def deserialize_frame_def ps_ok_def)

lemma syncs_preserves:
  assumes ok: "ps_ok env" and inv: "ps_inv env g" and a: "a \<in> pe_peers env" "ps_mail g a = fr # mail"
    and pc: "sb_pc (ps_clients g a) \<in> {AtInitialReply, AtReply}"
  shows "ps_inv env (g\<lparr>ps_clients := (ps_clients g)(a := recv_sync (pe_des env) fr (ps_clients g a)),
      ps_mail := (ps_mail g)(a := mail)\<rparr>)" (is "ps_inv env ?g")
proof (rule sub_step_preserves [OF inv a(1), where out = None])
  have "ps_queued ?g a = ps_queued g a" by (simp add: ps_queued_def)
  then show "group_sub_inv env ?g a"
    using ps_invD(3) [OF inv a(1)] pc a(2) unfolding syncs_result(2) [OF ok inv a pc] syncs_result(1) [OF ok inv a pc]
    by (auto simp: sub_inv_defs)
qed (auto simp: posted_def)

lemma steps_result:
  assumes "ps_ok env" "ps_inv env g" "a \<in> pe_peers env" "ps_feed g a = w # feed"
  defines "i \<equiv> length (sb_stepped (ps_clients g a))"
  shows "i < length (ps_published g)" and "feed = map (\<lambda>m. pe_ser env (matrix_json m)) (drop (Suc i) (ps_published g))"
    and "sub_step (pe_des env) (pe_nodes env a) (pe_step env a) w (ps_clients g a) = (ps_clients g a)\<lparr>
      sb_stepped := map (local_part (pe_nodes env a)) (take (Suc i) (ps_published g)), sb_pc := AtSync\<rparr>"
proof -
  note inv = ps_invD(3) [OF assms(2,3), unfolded group_sub_inv_def sub_inv_def Let_def, folded i_def]
  show less: "i < length (ps_published g)" using inv assms(4) by (cases "i < length (ps_published g)") auto
  have "w # feed = map (\<lambda>m. pe_ser env (matrix_json m)) (ps_published g ! i # drop (Suc i) (ps_published g))"
    using inv assms(4) Cons_nth_drop_Suc [OF less] by metis
  then have w: "w = pe_ser env (matrix_json (ps_published g ! i))"
    and "feed = map (\<lambda>m. pe_ser env (matrix_json m)) (drop (Suc i) (ps_published g))" by auto
  then show "feed = map (\<lambda>m. pe_ser env (matrix_json m)) (drop (Suc i) (ps_published g))" by blast
  have "sb_stepped (ps_clients g a) = map (local_part (pe_nodes env a)) (take i (ps_published g))" using inv unfolding works_on_def i_def by blast
  then have "sb_stepped (ps_clients g a) @ [local_part (pe_nodes env a) (ps_published g ! i)]
      = map (local_part (pe_nodes env a)) (take (Suc i) (ps_published g))"
    using less by (simp add: take_Suc_conv_app_nth)
  then show "sub_step (pe_des env) (pe_nodes env a) (pe_step env a) w (ps_clients g a) = (ps_clients g a)\<lparr>
      sb_stepped := map (local_part (pe_nodes env a)) (take (Suc i) (ps_published g)), sb_pc := AtSync\<rparr>"
    using assms(1) by (simp add: sub_step_def w recv_published ps_ok_def)
qed

text \<open>The coordinator has published at most as many matrices as it has answered synchronisations.\<close>

lemma published_answered: "ps_inv env g \<Longrightarrow> length (ps_published g) \<le> answered (ps_pc g) (ps_current_step g)
    \<and> answered (ps_pc g) (ps_current_step g) \<le> Suc (length (ps_published g))"
  using ps_invD(1) [of env g] by (auto simp: coord_inv_def answered_def split: coord_pc.splits)

lemma idle_answered: "ps_inv env g \<Longrightarrow> ps_pc g = Ready \<or> ps_pc g = Stopped \<Longrightarrow>
    length (ps_published g) = ps_current_step g
    \<and> answered (ps_pc g) (ps_current_step g) = (if ps_current_step g = 0 then 0 else Suc (ps_current_step g))"
  using ps_invD(1) [of env g] by (auto simp: coord_inv_def answered_def)

lemma steps_preserves:
  assumes ok: "ps_ok env" and inv: "ps_inv env g" and a: "a \<in> pe_peers env"
    and sel: "sub_select g a = Inr TakeMatrix" and feed: "ps_feed g a = w # feed"
  shows "ps_inv env (g\<lparr>ps_clients := (ps_clients g)(a :=
        sub_step (pe_des env) (pe_nodes env a) (pe_step env a) w (ps_clients g a)),
      ps_feed := (ps_feed g)(a := feed)\<rparr>)" (is "ps_inv env ?g")
proof (rule sub_step_preserves [OF inv a, where out = None])
  let ?i = "length (sb_stepped (ps_clients g a))"
  note res = steps_result [OF ok inv a feed] and old = ps_invD(3) [OF inv a] select_cases(2) [OF sel]
  have "ps_queued ?g a = ps_queued g a" by (simp add: ps_queued_def)
  moreover have "answered (ps_pc g) (ps_current_step g) = Suc ?i" using old by (auto simp: sub_inv_defs)
  ultimately show "group_sub_inv env ?g a"
    using old res(1,2) unfolding res(3) by (auto simp: sub_inv_defs works_on_def min_def)
qed (auto simp: posted_def)

lemma resets_result:
  assumes "ps_inv env g" "a \<in> pe_peers env" "sub_select g a = Inr TakeReset"
  shows "sub_reset (pe_ser env) (ps_clients g a) =
    (if sb_pc (ps_clients g a) = AtReply then (None, (ps_clients g a)\<lparr>sb_pc := Raised ZMQError\<rparr>)
     else (Some (send_multi_part (pe_ser env) [JStr STATE_REGISTER]),
       (ps_clients g a)\<lparr>sb_client := (sb_client (ps_clients g a))\<lparr>c_waiting := True, c_log := []\<rparr>, sb_pc := Restarted\<rparr>))"
    and "ps_pc g = Stopped"
  using ps_invD(3) [OF assms(1,2)] select_cases(3) [OF assms(3)]
  by (auto simp: sub_inv_defs sub_reset_def req_send_def)

lemma resets_preserves:
  assumes inv: "ps_inv env g" and a: "a \<in> pe_peers env" and sel: "sub_select g a = Inr TakeReset"
    and res: "sub_reset (pe_ser env) (ps_clients g a) = (out, s)"
  shows "ps_inv env (g\<lparr>ps_clients := (ps_clients g)(a := s), ps_inbox := posted a out (ps_inbox g),
      ps_reset := (ps_reset g)(a := Received)\<rparr>)" (is "ps_inv env ?g")
proof (rule sub_step_preserves [OF inv a])
  note s = resets_result [OF inv a sel]
  show "group_sub_inv env ?g a"
    using ps_invD(3) [OF inv a] select_cases(3) [OF sel] res s idle_answered [OF inv disjI2 [OF s(2)]]
    by (auto simp: sub_inv_defs split: if_splits)
  show "out = Some (send_multi_part (pe_ser env) (sync_parts env a)) \<and> \<not> ps_queued g a" if "ps_pc g \<noteq> Stopped"
    using that s(2) by simp
qed auto

subsection \<open>Steps of the coordinator\<close>

lemma begins_preserves:
  assumes inv: "ps_inv env g" and pc: "ps_pc g = Ready"
  shows "ps_inv env (g\<lparr>ps_pc := (if ps_current_step g = 0 then InitialSync else Publishing) (pe_matrix env (ps_current_step g))\<rparr>)"
    (is "ps_inv env ?g")
proof -
  have "coord_inv env ?g" using ps_invD(1) [OF inv] pc by (auto simp: coord_inv_def collecting_def)
  moreover have "sync_queue_inv env ?g" using ps_invD(2) [OF inv] pc by (auto simp: sync_queue_inv_def)
  moreover have "group_sub_inv env ?g b" if "b \<in> pe_peers env" for b
    using ps_invD(3) [OF inv that] pc by (auto simp: group_sub_inv_def answered_def ps_queued_def)
  ultimately show ?thesis by (simp add: ps_inv_def)
qed

lemma collects_result:
  assumes "ps_ok env" "ps_inv env g" "ps_pc g \<noteq> Stopped" "ps_inbox g = m # inbox"
  obtains a where "a \<in> pe_peers env" "m = (a, send_multi_part (pe_ser env) (sync_parts env a))"
    and "expect (pe_des env) (sync_expecter env g) m
      = Inr (True, (sync_expecter env g)\<lparr>expect_storage := ps_storage g @ [(a, [c_server_id (pe_client env a)])]\<rparr>)"
proof -
  obtain a fr where m: "m = (a, fr)" by (cases m)
  have "a \<in> pe_peers env" "fr = send_multi_part (pe_ser env) (sync_parts env a)"
    using ps_invD(2) [OF assms(2)] assms(3,4) m by (auto simp: sync_queue_inv_def)
  then show ?thesis using that m expect_sync [OF assms(1)] by blast
qed

lemma collecting_not: "collecting pc \<Longrightarrow> pc \<noteq> Stopped" "collecting pc \<Longrightarrow> pc \<noteq> Ready" "collecting pc \<Longrightarrow> pc \<noteq> Publishing m"
  by (auto simp: collecting_def)

lemma collects_preserves:
  assumes ok: "ps_ok env" and inv: "ps_inv env g" and pc: "collecting (ps_pc g)" and inbox: "ps_inbox g = m # inbox"
    and exp: "expect (pe_des env) (sync_expecter env g) m = Inr (valid, e)"
  shows "ps_inv env (g\<lparr>ps_inbox := inbox, ps_storage := expect_storage e\<rparr>)" (is "ps_inv env ?g")
proof -
  obtain a where a: "a \<in> pe_peers env" "m = (a, send_multi_part (pe_ser env) (sync_parts env a))"
    and st: "expect_storage e = ps_storage g @ [(a, [c_server_id (pe_client env a)])]"
    by (rule collects_result [OF ok inv collecting_not(1) [OF pc] inbox]) (use exp in auto)
  have "coord_inv env ?g" using ps_invD(1) [OF inv] pc by (auto simp: coord_inv_def)
  moreover have "sync_queue_inv env ?g"
    using ps_invD(2) [OF inv] inbox a st by (auto simp: sync_queue_inv_def)
  moreover have "ps_queued ?g b = ps_queued g b" for b using inbox a st by (auto simp: ps_queued_def)
  then have "group_sub_inv env ?g b" if "b \<in> pe_peers env" for b
    using ps_invD(3) [OF inv that] by (simp add: group_sub_inv_def)
  ultimately show ?thesis by (simp add: ps_inv_def)
qed

lemma full_sync:
  assumes "ps_ok env" "ps_inv env g" "ps_pc g \<noteq> Stopped" "length (ps_storage g) = card (pe_peers env)"
  shows "distinct (map fst (ps_storage g))" and "fst ` set (ps_storage g) = pe_peers env" and "ps_inbox g = []"
proof -
  note q = ps_invD(2) [OF assms(2), unfolded sync_queue_inv_def, rule_format, OF assms(3)]
  show dist: "distinct (map fst (ps_storage g))" using q by simp
  then have "card (fst ` set (ps_storage g)) = card (pe_peers env)" using distinct_card [OF dist] assms(4) by simp
  then show all: "fst ` set (ps_storage g) = pe_peers env"
    using assms(1) q by (intro card_subset_eq) (auto simp: ps_ok_def)
  show "ps_inbox g = []" using q all by (cases "ps_inbox g") auto
qed

lemma deliver_answers:
  assumes "distinct (map fst (ps_storage g))" "a \<in> fst ` set (ps_storage g)"
  shows "deliver (respond_argument (pe_ser env) v (sync_expecter env g)) mail a = mail a @ [[None, Some (pe_ser env v)]]"
  using deliver_map [OF assms(1), of a "\<lambda>_. [None, Some (pe_ser env v)]" mail] assms(2)
  by (simp add: respond_argument_def reply_def get_addresses_def sync_expecter_def)

lemma answers_preserves:
  assumes ok: "ps_ok env" and inv: "ps_inv env g" and pc: "collecting (ps_pc g)"
    and full: "length (ps_storage g) = card (pe_peers env)"
  shows "ps_inv env (g\<lparr>ps_mail := deliver (respond_argument (pe_ser env) (JStr []) (sync_expecter env g)) (ps_mail g),
      ps_storage := [], ps_pc := after_sync (ps_pc g),
      ps_current_step := ps_current_step g + (if ps_pc g = Syncing then 1 else 0)\<rparr>)" (is "ps_inv env ?g")
proof -
  note st = full_sync [OF ok inv collecting_not(1) [OF pc] full]
  have ph: "ps_pc g = Syncing \<and> ps_pc ?g = Ready \<or> (\<exists>m. ps_pc g = InitialSync m \<and> ps_pc ?g = Publishing m \<and> ps_current_step g = 0)"
    using pc ps_invD(1) [OF inv] by (auto simp: collecting_def after_sync_def coord_inv_def split: coord_pc.splits)
  then have "coord_inv env ?g" using ps_invD(1) [OF inv] by (auto simp: coord_inv_def collecting_def)
  moreover have "sync_queue_inv env ?g" using st(3) by (simp add: sync_queue_inv_def)
  moreover have "group_sub_inv env ?g b" if b: "b \<in> pe_peers env" for b
  proof -
    have q: "ps_queued g b" using b st(2) by (simp add: ps_queued_def)
    have "\<not> ps_queued ?g b" using st(3) by (simp add: ps_queued_def)
    moreover have "ps_pc g \<noteq> Stopped" "ps_pc ?g \<noteq> Stopped" using ph by auto
    moreover have "answered (ps_pc ?g) (ps_current_step ?g) = Suc (answered (ps_pc g) (ps_current_step g))"
      using ph by (auto simp: answered_def)
    moreover have "ps_mail ?g b = ps_mail g b @ [[None, Some (pe_ser env (JStr []))]]"
      using deliver_answers [OF st(1)] st(2) b by simp
    ultimately show ?thesis using ps_invD(3) [OF inv b] q
      unfolding group_sub_inv_def sub_inv_def in_loop_def Let_def by (auto split: sub_pc.splits)
  qed
  ultimately show ?thesis by (simp add: ps_inv_def)
qed

lemma publishes_preserves:
  assumes inv: "ps_inv env g" and pc: "ps_pc g = Publishing m"
  shows "ps_inv env (g\<lparr>ps_feed := (\<lambda>a. ps_feed g a @ [pe_ser env (matrix_json m)]), ps_published := ps_published g @ [m],
      ps_pc := Syncing\<rparr>)" (is "ps_inv env ?g")
proof -
  have "coord_inv env ?g" using ps_invD(1) [OF inv] pc by (auto simp: coord_inv_def collecting_def)
  moreover have "sync_queue_inv env ?g" using ps_invD(2) [OF inv] pc by (auto simp: sync_queue_inv_def)
  moreover have "group_sub_inv env ?g b" if "b \<in> pe_peers env" for b
    using ps_invD(3) [OF inv that] pc by (auto simp: group_sub_inv_def sub_inv_def Let_def answered_def ps_queued_def intro: works_on_snoc)
  ultimately show ?thesis by (simp add: ps_inv_def)
qed

lemma aborts_preserves:
  assumes inv: "ps_inv env g" and pc: "ps_pc g = Ready"
  shows "ps_inv env (g\<lparr>ps_pc := Stopped, ps_reset := (\<lambda>_. OnTheWay)\<rparr>)" (is "ps_inv env ?g")
proof -
  have "coord_inv env ?g" using ps_invD(1) [OF inv] pc by (auto simp: coord_inv_def collecting_def)
  moreover have "sync_queue_inv env ?g" by (simp add: sync_queue_inv_def)
  moreover have "group_sub_inv env ?g b" if "b \<in> pe_peers env" for b
    using ps_invD(3) [OF inv that] pc
    by (auto simp: group_sub_inv_def sub_inv_def in_loop_def Let_def answered_def split: sub_pc.splits if_splits)
  ultimately show ?thesis by (simp add: ps_inv_def)
qed

lemma arrives_preserves:
  assumes inv: "ps_inv env g" and a: "a \<in> pe_peers env" "ps_reset g a = OnTheWay"
  shows "ps_inv env (g\<lparr>ps_reset := (ps_reset g)(a := Arrived)\<rparr>)" (is "ps_inv env ?g")
proof (rule sub_step_preserves [OF inv a(1), where out = None])
  have "ps_queued ?g a = ps_queued g a" by (simp add: ps_queued_def)
  then show "group_sub_inv env ?g a" using ps_invD(3) [OF inv a(1)] a(2) by (auto simp: group_sub_inv_def sub_inv_def Let_def)
qed (auto simp: posted_def)

lemma ps_step_preserves:
  assumes "ps_ok env" "ps_inv env g" "ps_step env g g'"
  shows "ps_inv env g'"
  using assms(3)
proof cases
  case (sub_syncs a fr mail)
  then show ?thesis using syncs_preserves [OF assms(1,2)] select_cases(1) [of g a] by auto
next
  case (begins)
  then show ?thesis using begins_preserves [OF assms(2)] by simp
next
  case (answers)
  then show ?thesis using answers_preserves [OF assms(1,2)] by simp
qed (simp_all only: sends_preserves [OF assms(2)] steps_preserves [OF assms(1,2)] resets_preserves [OF assms(2)]
    collects_preserves [OF assms(1,2)] publishes_preserves [OF assms(2)] aborts_preserves [OF assms(2)]
    arrives_preserves [OF assms(2)])

lemma ps_reachable_inv: "ps_reachable env g \<Longrightarrow> ps_ok env \<Longrightarrow> ps_inv env g"
  by (induction rule: ps_reachable.induct) (blast intro: ps_inv_initial ps_step_preserves)+

section \<open>Progress\<close>

text \<open>The steps that a subscriber and the coordinator have done, as they can be read off the state.\<close>

definition sub_done :: "subscriber \<Rightarrow> nat" where
  "sub_done s = 3 * length (sb_stepped s) + (case sb_pc s of
      AtInitialSync \<Rightarrow> 0 | AtSync \<Rightarrow> 0 | AtInitialReply \<Rightarrow> 1 | AtReply \<Rightarrow> 1 | _ \<Rightarrow> 2)"

definition coord_done :: "nat \<Rightarrow> coord_pc \<Rightarrow> nat \<Rightarrow> nat \<Rightarrow> nat" where
  "coord_done n pc k stored = (case pc of
      InitialSync _ \<Rightarrow> 1 + stored
    | Publishing _ \<Rightarrow> 3 * k + 2 + n * (k + 1)
    | Syncing \<Rightarrow> 3 * k + 3 + n * (k + 1) + stored
    | _ \<Rightarrow> if k = 0 then 0 else 3 * k + 1 + n * (k + 1))"

definition ps_done :: "('a, 'w) pubsub_env \<Rightarrow> ('a, 'w) pubsub \<Rightarrow> nat" where
  "ps_done env g = (\<Sum>a \<in> pe_peers env. sub_done (ps_clients g a))
     + coord_done (card (pe_peers env)) (ps_pc g) (ps_current_step g) (length (ps_storage g))"

lemma sum_update:
  fixes f :: "'b \<Rightarrow> nat"
  assumes "finite A" "a \<in> A"
  shows "(\<Sum>b \<in> A. f ((c(a := s)) b)) + f (c a) = (\<Sum>b \<in> A. f (c b)) + f s"
proof -
  have "(\<Sum>b \<in> A - {a}. f ((c(a := s)) b)) = (\<Sum>b \<in> A - {a}. f (c b))" by (rule sum.cong) auto
  then show ?thesis using assms by (simp add: sum.remove [of A a])
qed

lemma sub_advances:
  assumes "ps_ok env" "a \<in> pe_peers env" "sub_done s = Suc (sub_done (ps_clients g a))"
    and "ps_clients g' = (ps_clients g)(a := s)" "ps_pc g' = ps_pc g" "ps_current_step g' = ps_current_step g"
    "ps_storage g' = ps_storage g"
  shows "ps_done env g' = Suc (ps_done env g)"
  using sum_update [of "pe_peers env" a sub_done "ps_clients g" s] assms by (simp add: ps_done_def ps_ok_def)

text \<open>Every step of a running group is one unit of work.\<close>

lemma step_done:
  assumes ok: "ps_ok env" and inv: "ps_inv env g" and step: "ps_step env g g'" and run: "ps_pc g' \<noteq> Stopped"
  shows "ps_done env g' = Suc (ps_done env g)"
  using step
proof cases
  case (sub_sends a out s)
  show ?thesis
    by (rule sub_advances [OF ok sub_sends(2), of s])
      (use sub_sends sends_result [OF inv sub_sends(2,3)] in \<open>auto simp: sub_done_def\<close>)
next
  case (sub_syncs a fr mail)
  then have pc: "sb_pc (ps_clients g a) \<in> {AtInitialReply, AtReply}" using select_cases(1) [of g a] by auto
  show ?thesis
    by (rule sub_advances [OF ok sub_syncs(2)])
      (use sub_syncs(1) pc syncs_result(2) [OF ok inv sub_syncs(2,3) pc] in \<open>auto simp: sub_done_def\<close>)
next
  case (sub_steps a w feed)
  show ?thesis
    by (rule sub_advances [OF ok sub_steps(2)])
      (use sub_steps(1) steps_result [OF ok inv sub_steps(2,4)] select_cases(2) [OF sub_steps(3)] in
        \<open>auto simp: sub_done_def min_def\<close>)
next
  case (sub_resets a out s)
  then show ?thesis using resets_result(2) [OF inv sub_resets(2,3)] run by simp
next
  case (collects m inbox valid e)
  obtain a where "expect_storage e = ps_storage g @ [(a, [c_server_id (pe_client env a)])]"
    by (rule collects_result [OF ok inv collecting_not(1) [OF collects(2)] collects(4)]) (use collects(5) in auto)
  then show ?thesis using collects(1,2) by (auto simp: ps_done_def coord_done_def collecting_def split: coord_pc.splits)
next
  case answers
  then show ?thesis using ps_invD(1) [OF inv]
    by (auto simp: ps_done_def coord_done_def collecting_def after_sync_def coord_inv_def split: coord_pc.splits)
next
  case (arrives a)
  then have "ps_pc g = Stopped" using ps_invD(3) [OF inv arrives(2)] by (auto simp: group_sub_inv_def sub_inv_def Let_def)
  then show ?thesis using arrives(1) run by simp
next
  case begins
  then show ?thesis using ps_invD(1) [OF inv] by (auto simp: ps_done_def coord_done_def coord_inv_def collecting_def)
next
  case (publishes m)
  then show ?thesis using ps_invD(1) [OF inv] by (auto simp: ps_done_def coord_done_def coord_inv_def collecting_def)
qed (use run in auto)

lemma unqueued_sub_moves:
  assumes ok: "ps_ok env" and inv: "ps_inv env g" and pc: "collecting (ps_pc g)"
    and a: "a \<in> pe_peers env" "\<not> ps_queued g a"
  shows "\<exists>g'. ps_step env g g'"
proof -
  let ?s = "ps_clients g a" and ?r = "answered (ps_pc g) (ps_current_step g)"
  have run: "ps_pc g \<noteq> Stopped" and r: "?r = length (ps_published g)"
    using pc ps_invD(1) [OF inv] by (auto simp: collecting_def coord_inv_def answered_def split: coord_pc.splits)
  note old = ps_invD(3) [OF inv a(1)]
  consider "sb_pc ?s \<in> {AtInitialSync, AtSync}" | "ps_mail g a \<noteq> []" "sb_pc ?s \<in> {AtInitialReply, AtReply}" "ps_reset g a = NoReset"
    | "sb_pc ?s = AtSelect" "ps_reset g a = NoReset" "ps_feed g a \<noteq> []"
    using old a(2) run r by (auto simp: group_sub_inv_def sub_inv_def in_loop_def Let_def split: sub_pc.splits)
  then show ?thesis
  proof cases
    case 1
    obtain out s where "send_sync (pe_ser env) ?s = (out, s)" by fastforce
    then show ?thesis using sub_sends [OF a(1) 1] by blast
  next
    case 2
    then obtain fr mail where mail: "ps_mail g a = fr # mail" by (cases "ps_mail g a") auto
    moreover have "sb_pc ?s = AtInitialReply \<or> sub_select g a = Inr TakeSync"
      using 2 by (auto simp: sub_select_def handle_select_def)
    ultimately show ?thesis using sub_syncs [OF a(1)] by blast
  next
    case 3
    then obtain w feed where "ps_feed g a = w # feed" by (cases "ps_feed g a") auto
    moreover have "sub_select g a = Inr TakeMatrix" using 3 by (simp add: sub_select_def handle_select_def)
    ultimately show ?thesis using sub_steps [OF a(1)] by blast
  qed
qed

lemma ps_step_exists:
  assumes ok: "ps_ok env" and inv: "ps_inv env g" and run: "ps_pc g \<noteq> Stopped"
  shows "\<exists>g'. ps_step env g g'"
proof (cases "collecting (ps_pc g)")
  case False
  then show ?thesis
    using begins [of g env] publishes [of g _ env] run by (cases "ps_pc g") (auto simp: collecting_def)
next
  case True
  note q = ps_invD(2) [OF inv, unfolded sync_queue_inv_def, rule_format, OF run]
  have stored: "length (ps_storage g) = card (fst ` set (ps_storage g))"
    using q distinct_card [of "map fst (ps_storage g)"] by simp
  consider (full) "length (ps_storage g) = card (pe_peers env)" | (missing) "length (ps_storage g) < card (pe_peers env)"
    using stored q ok card_mono [of "pe_peers env" "fst ` set (ps_storage g)"] by (fastforce simp: ps_ok_def)
  then show ?thesis
  proof cases
    case full
    then show ?thesis using ps_step.answers [OF True] by blast
  next
    case missing
    show ?thesis
    proof (cases "ps_inbox g")
      case Nil
      have "fst ` set (ps_storage g) \<noteq> pe_peers env" using missing stored by auto
      then obtain a where "a \<in> pe_peers env" "\<not> ps_queued g a" using q Nil by (auto simp: ps_queued_def)
      then show ?thesis using unqueued_sub_moves [OF ok inv True] by blast
    next
      case (Cons m inbox)
      obtain valid e where "expect (pe_des env) (sync_expecter env g) m = Inr (valid, e)"
        by (rule collects_result [OF ok inv run Cons]) blast
      then show ?thesis using collects [OF True missing Cons] by blast
    qed
  qed
qed

lemma stopped_stays: "ps_step env g g' \<Longrightarrow> ps_pc g = Stopped \<Longrightarrow> ps_pc g' = Stopped"
  by (induction rule: ps_step.induct) (auto simp: collecting_def)

lemma run_done:
  assumes ok: "ps_ok env" and run: "(ps_step env ^^ m) (initial_pubsub env) g" "ps_pc g \<noteq> Stopped"
  shows "ps_inv env g \<and> ps_done env g = m"
  using run
proof (induction m arbitrary: g)
  case 0
  then have g: "g = initial_pubsub env" by simp
  show ?case unfolding g using ps_inv_initial [OF ok] by (simp add: ps_done_def initial_pubsub_def sub_done_def coord_done_def)
next
  case (Suc m)
  then obtain h where h: "(ps_step env ^^ m) (initial_pubsub env) h" "ps_step env h g" by auto
  then have "ps_pc h \<noteq> Stopped" using Suc.prems(2) stopped_stays by blast
  then show ?case using Suc.IH [OF h(1)] ps_step_preserves [OF ok _ h(2)] step_done [OF ok _ h(2)] Suc.prems(2) by blast
qed

lemma sub_round:
  assumes "ps_inv env g" "a \<in> pe_peers env"
  shows "ps_current_step g \<le> length (sb_stepped (ps_clients g a))"
    "length (sb_stepped (ps_clients g a)) \<le> length (ps_published g)" "length (ps_published g) \<le> Suc (ps_current_step g)"
  using ps_invD(1) [OF assms(1)] ps_invD(3) [OF assms]
  by (auto simp: group_sub_inv_def sub_inv_def in_loop_def Let_def coord_inv_def answered_def
      split: sub_pc.splits coord_pc.splits if_splits)

lemma done_bound:
  assumes "ps_ok env" "ps_inv env g"
  shows "ps_done env g \<le> (4 * card (pe_peers env) + 3) * (ps_current_step g + 1) + 3 * card (pe_peers env)"
proof -
  let ?n = "card (pe_peers env)" and ?k = "ps_current_step g"
  have "sub_done (ps_clients g a) \<le> 3 * ?k + 5" if "a \<in> pe_peers env" for a
    using sub_round [OF assms(2) that] by (auto simp: sub_done_def split: sub_pc.splits)
  then have subs: "(\<Sum>a \<in> pe_peers env. sub_done (ps_clients g a)) \<le> ?n * (3 * ?k + 5)"
    using sum_bounded_above [of "pe_peers env" "\<lambda>a. sub_done (ps_clients g a)" "3 * ?k + 5"] by simp
  have "length (ps_storage g) \<le> ?n" if "ps_pc g \<noteq> Stopped"
  proof -
    note q = ps_invD(2) [OF assms(2), unfolded sync_queue_inv_def, rule_format, OF that]
    have "length (ps_storage g) = card (fst ` set (ps_storage g))" using q distinct_card [of "map fst (ps_storage g)"] by simp
    then show ?thesis using q assms(1) card_mono [of "pe_peers env" "fst ` set (ps_storage g)"] by (simp add: ps_ok_def)
  qed
  moreover have "coord_done ?n (ps_pc g) ?k (length (ps_storage g)) \<le> 3 * ?k + 3 + ?n * (?k + 1) + ?n"
    using calculation by (auto simp: coord_done_def split: coord_pc.splits)
  ultimately show ?thesis using subs by (simp add: ps_done_def algebra_simps)
qed

section \<open>After an abort\<close>

text \<open>Where the subscribers can be when the coordinator has stopped.\<close>

lemma stopped_sub:
  assumes inv: "ps_inv env g" and stop: "ps_pc g = Stopped" and a: "a \<in> pe_peers env"
  shows "if ps_current_step g = 0
    then sb_pc (ps_clients g a) \<in> {AtInitialSync, AtInitialReply} \<and> ps_mail g a = [] \<and> ps_feed g a = []
    else sb_pc (ps_clients g a) \<in> {AtSelect, AtReply, Restarted, Raised ZMQError} \<and> ps_feed g a = []
      \<and> (sb_pc (ps_clients g a) = AtReply \<longrightarrow> ps_mail g a \<noteq> [])"
  using ps_invD(3) [OF inv a] idle_answered [OF inv disjI2 [OF stop]] stop
  by (auto simp: group_sub_inv_def sub_inv_def in_loop_def Let_def split: sub_pc.splits if_splits)

definition stop_work :: "('a, 'w) pubsub \<Rightarrow> 'a \<Rightarrow> nat" where
  "stop_work g a = (case ps_reset g a of OnTheWay \<Rightarrow> 2 | Arrived \<Rightarrow> 1 | _ \<Rightarrow> 0)
     + (if sb_pc (ps_clients g a) \<in> {AtInitialSync, AtReply} then 1 else 0)"

lemma stopped_step:
  assumes ok: "ps_ok env" and inv: "ps_inv env g" and stop: "ps_pc g = Stopped" and step: "ps_step env g g'"
  obtains a where "a \<in> pe_peers env" "stop_work g' a < stop_work g a" "\<And>b. b \<noteq> a \<Longrightarrow> stop_work g' b = stop_work g b"
  using step
proof cases
  case (sub_sends a out s)
  then show ?thesis
    using that [of a] sends_result [OF inv sub_sends(2,3)] stopped_sub [OF inv stop sub_sends(2)]
    by (auto simp: stop_work_def split: if_splits)
next
  case (sub_syncs a fr mail)
  then have pc: "sb_pc (ps_clients g a) = AtReply"
    using select_cases(1) [of g a] stopped_sub [OF inv stop sub_syncs(2)] by (auto split: if_splits)
  then show ?thesis
    using that [of a] sub_syncs(1,2) syncs_result(2) [OF ok inv sub_syncs(2,3)] by (auto simp: stop_work_def)
next
  case (sub_steps a w feed)
  then show ?thesis using stopped_sub [OF inv stop sub_steps(2)] by (auto split: if_splits)
next
  case (sub_resets a out s)
  then show ?thesis
    using that [of a] resets_result(1) [OF inv sub_resets(2,3)] select_cases(3) [OF sub_resets(3)]
    by (auto simp: stop_work_def split: if_splits)
next
  case (arrives a)
  then show ?thesis using that [of a] by (auto simp: stop_work_def)
qed (use stop in \<open>auto simp: collecting_def\<close>)

lemma stopped_run:
  assumes ok: "ps_ok env" and "ps_inv env g" "ps_pc g = Stopped" "(ps_step env ^^ m) g g'"
  shows "m \<le> 3 * card (pe_peers env)"
proof -
  have "m + (\<Sum>a \<in> pe_peers env. stop_work g' a) \<le> (\<Sum>a \<in> pe_peers env. stop_work g a) \<and> ps_inv env g' \<and> ps_pc g' = Stopped"
    using assms(4)
  proof (induction m arbitrary: g')
    case 0
    then show ?case using assms(2,3) by auto
  next
    case (Suc m)
    then obtain h where h: "(ps_step env ^^ m) g h" "ps_step env h g'" by auto
    note IH = Suc.IH [OF h(1)]
    obtain a where a: "a \<in> pe_peers env" "stop_work g' a < stop_work h a" "\<And>b. b \<noteq> a \<Longrightarrow> stop_work g' b = stop_work h b"
      using stopped_step [OF ok _ _ h(2)] IH by blast
    have "(\<Sum>a \<in> pe_peers env. stop_work g' a) < (\<Sum>a \<in> pe_peers env. stop_work h a)"
      by (rule sum_strict_mono_ex1) (use a ok in \<open>auto simp: ps_ok_def intro: order_eq_refl less_imp_le\<close>, metis order.order_iff_strict)
    then show ?case using IH ps_step_preserves [OF ok _ h(2)] stopped_stays [OF h(2)] by simp
  qed
  moreover have "(\<Sum>a \<in> pe_peers env. stop_work g a) \<le> (\<Sum>a \<in> pe_peers env. 3)"
    by (rule sum_mono) (auto simp: stop_work_def split: reset_msg.splits)
  ultimately show ?thesis by simp
qed

lemma stopped_end:
  assumes ok: "ps_ok env" and inv: "ps_inv env g" and stop: "ps_pc g = Stopped" and "\<nexists>g'. ps_step env g g'"
    and a: "a \<in> pe_peers env"
  shows "if ps_current_step g = 0 then sb_pc (ps_clients g a) = AtInitialReply \<and> ps_mail g a = [] \<and> ps_reset g a = Arrived
    else sb_pc (ps_clients g a) \<in> {Restarted, Raised ZMQError}"
proof -
  let ?pc = "sb_pc (ps_clients g a)"
  have way: "ps_reset g a \<noteq> OnTheWay" using arrives [OF a] assms(4) by blast
  have rst: "ps_reset g a = Arrived \<or> ps_reset g a = Received" "ps_reset g a = Received \<longleftrightarrow> ?pc = Restarted \<or> (\<exists>e. ?pc = Raised e)"
    using way ps_invD(3) [OF inv a] stop by (auto simp: group_sub_inv_def sub_inv_def Let_def) (metis reset_msg.exhaust)
  obtain out s where "send_sync (pe_ser env) (ps_clients g a) = (out, s)" by fastforce
  then have "?pc \<notin> {AtInitialSync, AtSync}" using sub_sends [OF a] assms(4) by blast
  moreover have "sub_select g a \<noteq> Inr TakeReset"
  proof
    assume "sub_select g a = Inr TakeReset"
    then show False using sub_resets [OF a] assms(4) by (metis surj_pair)
  qed
  then have "ps_reset g a = Arrived \<Longrightarrow> ?pc \<notin> {AtSelect, AtReply}" by (auto simp: sub_select_def handle_select_def)
  ultimately show ?thesis using stopped_sub [OF inv stop a] rst by (auto split: if_splits)
qed

section \<open>Runs on concrete groups\<close>

text \<open>A schedule names the steps of a run; \<open>ps_exec\<close> does one of them if its guard holds.\<close>

datatype 'a ps_event =
    Send 'a | Sync 'a | Work 'a | Reset 'a | Arrive 'a | Begin | Collect | Answer | Publish | Abort

definition ps_exec :: "('a, 'w) pubsub_env \<Rightarrow> 'a ps_event \<Rightarrow> ('a, 'w) pubsub \<Rightarrow> ('a, 'w) pubsub option" where
  "ps_exec env ev g = (case ev of
      Send a \<Rightarrow> if a \<in> pe_peers env \<and> (sb_pc (ps_clients g a) = AtInitialSync \<or> sb_pc (ps_clients g a) = AtSync)
        then (let (out, s) = send_sync (pe_ser env) (ps_clients g a)
              in Some (g\<lparr>ps_clients := (ps_clients g)(a := s), ps_inbox := posted a out (ps_inbox g)\<rparr>)) else None
    | Sync a \<Rightarrow> (case ps_mail g a of [] \<Rightarrow> None | fr # mail \<Rightarrow>
        if a \<in> pe_peers env \<and> (sb_pc (ps_clients g a) = AtInitialReply \<or> sub_select g a = Inr TakeSync)
        then Some (g\<lparr>ps_clients := (ps_clients g)(a := recv_sync (pe_des env) fr (ps_clients g a)),
          ps_mail := (ps_mail g)(a := mail)\<rparr>) else None)
    | Work a \<Rightarrow> (case ps_feed g a of [] \<Rightarrow> None | w # feed \<Rightarrow>
        if a \<in> pe_peers env \<and> sub_select g a = Inr TakeMatrix
        then Some (g\<lparr>ps_clients := (ps_clients g)(a :=
            sub_step (pe_des env) (pe_nodes env a) (pe_step env a) w (ps_clients g a)),
          ps_feed := (ps_feed g)(a := feed)\<rparr>) else None)
    | Reset a \<Rightarrow> if a \<in> pe_peers env \<and> sub_select g a = Inr TakeReset
        then (let (out, s) = sub_reset (pe_ser env) (ps_clients g a)
              in Some (g\<lparr>ps_clients := (ps_clients g)(a := s), ps_inbox := posted a out (ps_inbox g),
                ps_reset := (ps_reset g)(a := Received)\<rparr>)) else None
    | Arrive a \<Rightarrow> if a \<in> pe_peers env \<and> ps_reset g a = OnTheWay
        then Some (g\<lparr>ps_reset := (ps_reset g)(a := Arrived)\<rparr>) else None
    | Begin \<Rightarrow> if ps_pc g = Ready then Some (g\<lparr>ps_pc :=
        (if ps_current_step g = 0 then InitialSync else Publishing) (pe_matrix env (ps_current_step g))\<rparr>) else None
    | Collect \<Rightarrow> (case ps_inbox g of [] \<Rightarrow> None | m # inbox \<Rightarrow>
        if collecting (ps_pc g) \<and> length (ps_storage g) < card (pe_peers env)
        then (case expect (pe_des env) (sync_expecter env g) m of Inl _ \<Rightarrow> None
          | Inr (valid, e) \<Rightarrow> Some (g\<lparr>ps_inbox := inbox, ps_storage := expect_storage e\<rparr>)) else None)
    | Answer \<Rightarrow> if collecting (ps_pc g) \<and> length (ps_storage g) = card (pe_peers env)
        then Some (g\<lparr>ps_mail := deliver (respond_argument (pe_ser env) (JStr []) (sync_expecter env g)) (ps_mail g),
          ps_storage := [], ps_pc := after_sync (ps_pc g),
          ps_current_step := ps_current_step g + (if ps_pc g = Syncing then 1 else 0)\<rparr>) else None
    | Publish \<Rightarrow> (case ps_pc g of Publishing m \<Rightarrow>
        Some (g\<lparr>ps_feed := (\<lambda>a. ps_feed g a @ [pe_ser env (matrix_json m)]), ps_published := ps_published g @ [m],
          ps_pc := Syncing\<rparr>) | _ \<Rightarrow> None)
    | Abort \<Rightarrow> if ps_pc g = Ready then Some (g\<lparr>ps_pc := Stopped, ps_reset := (\<lambda>_. OnTheWay)\<rparr>) else None)"

lemma ps_exec_step:
  assumes "ps_exec env ev g = Some g'"
  shows "ps_step env g g'"
proof (cases ev)
  case Begin
  then show ?thesis using assms ps_step.begins [of g env] by (auto simp: ps_exec_def split: if_splits)
next
  case Answer
  then show ?thesis using assms ps_step.answers [of g env] by (auto simp: ps_exec_def split: if_splits)
next
  case (Send a)
  then show ?thesis using assms sub_sends [of a env g] by (auto simp: ps_exec_def split: if_splits prod.splits)
qed (use assms in \<open>auto simp: ps_exec_def intro: ps_step.intros
      split: if_splits list.splits sum.splits coord_pc.splits prod.splits\<close>)

fun ps_run :: "('a, 'w) pubsub_env \<Rightarrow> 'a ps_event list \<Rightarrow> ('a, 'w) pubsub \<Rightarrow> ('a, 'w) pubsub option" where
  "ps_run env [] g = Some g"
| "ps_run env (ev # evs) g = (case ps_exec env ev g of None \<Rightarrow> None | Some g \<Rightarrow> ps_run env evs g)"

lemma ps_run_steps: "ps_run env evs g = Some g' \<Longrightarrow> (ps_step env ^^ length evs) g g'"
proof (induction evs arbitrary: g)
  case (Cons ev evs)
  then obtain h where "ps_exec env ev g = Some h" "(ps_step env ^^ length evs) h g'" by (auto split: option.splits)
  then show ?case using ps_exec_step relpowp_Suc_I2 by (metis length_Cons)
qed simp

lemma steps_reachable: "(ps_step env ^^ m) (initial_pubsub env) g \<Longrightarrow> ps_reachable env g"
proof (induction m arbitrary: g)
  case 0
  then show ?case using ps_init by auto
next
  case (Suc m)
  then show ?case using ps_next by auto
qed

lemmas ps_run_reachable = steps_reachable [OF ps_run_steps]

text \<open>Two servers with two nodes and one node; the protocol passes values on unchanged.\<close>

definition ex_pubsub :: "(nat, json) pubsub_env" where
  "ex_pubsub = \<lparr>pe_ser = (\<lambda>v. v), pe_des = Inr, pe_peers = {0, 1},
     pe_client = (\<lambda>a. \<lparr>c_server_id = JInt (int a + 1), c_waiting = False, c_log = []\<rparr>),
     pe_nodes = (\<lambda>a. if a = 0 then [1, 2] else [3]), pe_matrix = (\<lambda>k. [((1, 2), of_nat k), ((2, 3), 5)]),
     pe_step = (\<lambda>_ _. Inr ())\<rparr>"

lemma ex_pubsub_ok: "ps_ok ex_pubsub"
  by (simp add: ps_ok_def ex_pubsub_def kwf_def)

definition ex_sync :: "nat ps_event list" where
  "ex_sync = [Send 0, Begin, Send 1, Collect, Collect, Answer, Sync 1, Sync 0]"

definition ex_round :: "nat ps_event list" where
  "ex_round = [Publish, Work 1, Send 1, Work 0, Collect, Send 0, Collect, Answer]"

section \<open>Properties\<close>

text \<open>C17: in the publish/subscribe mode every server works on every published matrix, once and in the
  order of publication, and always on exactly the entries that concern its nodes; two servers are at
  most one matrix apart, and a matrix is published only when every server has finished the one before.
  While the group runs no synchronisation request is refused.\<close>

theorem pubsub_lockstep:
  assumes "ps_ok env" "ps_reachable env g" "a \<in> pe_peers env" "b \<in> pe_peers env"
  shows "length (sb_stepped (ps_clients g a)) \<le> Suc (length (sb_stepped (ps_clients g b)))
    \<and> (\<forall>k x y. k < length (sb_stepped (ps_clients g a)) \<longrightarrow> dget (sb_stepped (ps_clients g a) ! k) (x, y) =
        (if x \<in> set (pe_nodes env a) \<or> y \<in> set (pe_nodes env a) then dget (pe_matrix env k) (x, y) else None))
    \<and> (\<forall>m. ps_pc g = Publishing m \<longrightarrow> length (sb_stepped (ps_clients g a)) = ps_current_step g \<and> ps_feed g a = [])
    \<and> (\<forall>msg \<in> set (ps_inbox g). ps_pc g \<noteq> Stopped \<longrightarrow> (\<exists>e. expect (pe_des env) (sync_expecter env g) msg = Inr (True, e)))"
proof (intro conjI allI impI ballI)
  have inv: "ps_inv env g" using ps_reachable_inv assms(1,2) by blast
  note sub = ps_invD(3) [OF inv assms(3), unfolded group_sub_inv_def sub_inv_def Let_def] and
    coord = ps_invD(1) [OF inv, unfolded coord_inv_def]
  let ?i = "length (sb_stepped (ps_clients g a))"
  show "?i \<le> Suc (length (sb_stepped (ps_clients g b)))"
    using sub_round [OF inv assms(3)] sub_round [OF inv assms(4)] by simp
  show "?i = ps_current_step g" if "ps_pc g = Publishing m" for m
    using sub_round [OF inv assms(3)] coord that by simp
  then show "ps_feed g a = []" if "ps_pc g = Publishing m" for m
    using sub coord that by simp
  show "dget (sb_stepped (ps_clients g a) ! k) (x, y) =
      (if x \<in> set (pe_nodes env a) \<or> y \<in> set (pe_nodes env a) then dget (pe_matrix env k) (x, y) else None)" if "k < ?i" for k x y
  proof -
    have k: "k < length (ps_published g)" using that sub by simp
    have "sb_stepped (ps_clients g a) = map (local_part (pe_nodes env a)) (take ?i (ps_published g))"
      using sub unfolding works_on_def by blast
    then have "sb_stepped (ps_clients g a) ! k = local_part (pe_nodes env a) (ps_published g ! k)"
      using that k by (metis nth_map nth_take length_map length_take)
    moreover have "ps_published g ! k = pe_matrix env k"
      using k coord by (metis add_0 length_map length_upt minus_nat.diff_0 nth_map_upt)
    ultimately show ?thesis using assms(1) by (simp add: dget_local_part ps_ok_def)
  qed
  show "\<exists>e. expect (pe_des env) (sync_expecter env g) msg = Inr (True, e)" if "msg \<in> set (ps_inbox g)" "ps_pc g \<noteq> Stopped" for msg
  proof -
    obtain c fr where "msg = (c, fr)" by (cases msg)
    then have "msg = (c, send_multi_part (pe_ser env) (sync_parts env c))"
      using that ps_invD(2) [OF inv] by (auto simp: sync_queue_inv_def)
    then show ?thesis using expect_sync [OF assms(1)] by blast
  qed
qed

text \<open>C18: the publish/subscribe group does not deadlock while the coordinator has not stopped, and no
  schedule keeps a step of the coordinator from ending: after \<open>m\<close> steps of a group of \<open>n\<close> servers, at
  least \<open>k\<close> matrices are distributed and worked on by all, if \<open>m\<close> exceeds \<open>(4 n + 3) k + 3 n\<close>.\<close>

theorem pubsub_progress:
  assumes "ps_ok env" "(ps_step env ^^ m) (initial_pubsub env) g" "ps_pc g \<noteq> Stopped"
  shows "(\<exists>g'. ps_step env g g')
    \<and> m \<le> (4 * card (pe_peers env) + 3) * (ps_current_step g + 1) + 3 * card (pe_peers env)
    \<and> (\<forall>a \<in> pe_peers env. ps_current_step g \<le> length (sb_stepped (ps_clients g a)))"
  using run_done [OF assms] ps_step_exists [OF assms(1) _ assms(3)] done_bound [OF assms(1), of g] sub_round(1) [of env g]
  by auto

text \<open>C37: what an abort does to the servers of a publish/subscribe group. The group comes to rest within
  \<open>3 n\<close> steps. If the coordinator had begun a step before, every server ends up registering again, unless
  it sees the reset before it has read the answer of its last synchronisation: then the request socket
  refuses the registration and the server fails with a \<open>ZMQError\<close>. If the abort comes before the
  first step, no server ever notices the reset: all of them wait for the answer of the initial
  synchronisation for ever.\<close>

theorem pubsub_abort:
  assumes "ps_ok env" "ps_reachable env g" "ps_pc g = Stopped"
  shows "(\<forall>m g'. (ps_step env ^^ m) g g' \<longrightarrow> m \<le> 3 * card (pe_peers env))
    \<and> (\<forall>a \<in> pe_peers env. sub_select g a = Inr TakeReset \<longrightarrow>
        sb_pc (snd (sub_reset (pe_ser env) (ps_clients g a)))
          = (if sb_pc (ps_clients g a) = AtReply then Raised ZMQError else Restarted))
    \<and> ((\<nexists>g'. ps_step env g g') \<longrightarrow> (\<forall>a \<in> pe_peers env.
        if ps_current_step g = 0 then sb_pc (ps_clients g a) = AtInitialReply \<and> ps_mail g a = [] \<and> ps_reset g a = Arrived
        else sb_pc (ps_clients g a) \<in> {Restarted, Raised ZMQError}))"
proof (intro conjI allI impI ballI)
  have inv: "ps_inv env g" using ps_reachable_inv assms(1,2) by blast
  show "m \<le> 3 * card (pe_peers env)" if "(ps_step env ^^ m) g g'" for m g'
    using stopped_run [OF assms(1) inv assms(3) that] .
  show "sb_pc (snd (sub_reset (pe_ser env) (ps_clients g a)))
      = (if sb_pc (ps_clients g a) = AtReply then Raised ZMQError else Restarted)"
    if "a \<in> pe_peers env" "sub_select g a = Inr TakeReset" for a
    using resets_result(1) [OF inv that] by simp
  show "if ps_current_step g = 0 then sb_pc (ps_clients g a) = AtInitialReply \<and> ps_mail g a = [] \<and> ps_reset g a = Arrived
      else sb_pc (ps_clients g a) \<in> {Restarted, Raised ZMQError}" if "\<nexists>g'. ps_step env g g'" "a \<in> pe_peers env" for a
    using stopped_end [OF assms(1) inv assms(3) that] .
qed

subsection \<open>Witnesses\<close>

definition ex_after :: "nat ps_event list \<Rightarrow> (nat, json) pubsub" where
  "ex_after evs = the (ps_run ex_pubsub evs (initial_pubsub ex_pubsub))"

lemma ex_after_steps:
  "\<not> Option.is_none (ps_run ex_pubsub evs (initial_pubsub ex_pubsub)) \<Longrightarrow>
    (ps_step ex_pubsub ^^ length evs) (initial_pubsub ex_pubsub) (ex_after evs)"
  by (rule ps_run_steps) (auto simp: ex_after_def Option.is_none_def)

text \<open>Server 1 is one matrix ahead of server 0.\<close>

definition ex_ahead :: "nat ps_event list" where
  "ex_ahead = ex_sync @ ex_round @ [Sync 0, Sync 1, Begin, Publish, Work 1]"

theorem pubsub_lockstep_witness:
  "length (sb_stepped (ps_clients (ex_after ex_ahead) 1)) = 2 \<and> length (sb_stepped (ps_clients (ex_after ex_ahead) 0)) = 1
    \<and> dget (sb_stepped (ps_clients (ex_after ex_ahead) 1) ! 1) (2, 3) = Some 5
    \<and> dget (sb_stepped (ps_clients (ex_after ex_ahead) 1) ! 1) (1, 2) = None"
proof -
  have run: "\<not> Option.is_none (ps_run ex_pubsub ex_ahead (initial_pubsub ex_pubsub))" by code_simp
  have peers: "1 \<in> pe_peers ex_pubsub" "0 \<in> pe_peers ex_pubsub" by (simp_all add: ex_pubsub_def)
  have nodes: "pe_nodes ex_pubsub 1 = [3]" "dget (pe_matrix ex_pubsub 1) (2, 3) = Some 5"
    by (simp_all add: ex_pubsub_def)
  note lock = pubsub_lockstep [OF ex_pubsub_ok steps_reachable [OF ex_after_steps [OF run]] peers]
  have len: "length (sb_stepped (ps_clients (ex_after ex_ahead) 1)) = 2" "length (sb_stepped (ps_clients (ex_after ex_ahead) 0)) = 1"
    by code_simp+
  have "dget (sb_stepped (ps_clients (ex_after ex_ahead) 1) ! 1) (x, y) =
      (if x \<in> set [3] \<or> y \<in> set [3] then dget (pe_matrix ex_pubsub 1) (x, y) else None)" for x y
    using lock len(1) nodes(1) by auto
  then show ?thesis using len nodes(2) by simp
qed

theorem pubsub_progress_witness:
  "ps_current_step (ex_after (ex_sync @ ex_round)) = 1 \<and> (\<exists>g'. ps_step ex_pubsub (ex_after (ex_sync @ ex_round)) g')
    \<and> (16 :: nat) \<le> 11 * 2 + 6"
proof -
  have run: "\<not> Option.is_none (ps_run ex_pubsub (ex_sync @ ex_round) (initial_pubsub ex_pubsub))" by code_simp
  have pc: "ps_pc (ex_after (ex_sync @ ex_round)) = Ready" "ps_current_step (ex_after (ex_sync @ ex_round)) = 1" by code_simp+
  have "length (ex_sync @ ex_round) = 16" "card (pe_peers ex_pubsub) = 2" by (simp_all add: ex_sync_def ex_round_def ex_pubsub_def)
  then show ?thesis
    using pubsub_progress [OF ex_pubsub_ok ex_after_steps [OF run]] pc by simp
qed

text \<open>Server 0 sees the reset before the answer, server 1 after it.\<close>

definition ex_crash :: "nat ps_event list" where
  "ex_crash = ex_sync @ ex_round @ [Sync 1, Abort, Arrive 0, Arrive 1]"

theorem pubsub_abort_witness:
  "sb_pc (snd (sub_reset (pe_ser ex_pubsub) (ps_clients (ex_after ex_crash) 0))) = Raised ZMQError
    \<and> sb_pc (snd (sub_reset (pe_ser ex_pubsub) (ps_clients (ex_after ex_crash) 1))) = Restarted"
proof -
  have run: "\<not> Option.is_none (ps_run ex_pubsub ex_crash (initial_pubsub ex_pubsub))" by code_simp
  have peers: "0 \<in> pe_peers ex_pubsub" "1 \<in> pe_peers ex_pubsub" by (simp_all add: ex_pubsub_def)
  have stop: "ps_pc (ex_after ex_crash) = Stopped" by code_simp
  have "sub_select (ex_after ex_crash) 0 = Inr TakeReset" "sub_select (ex_after ex_crash) 1 = Inr TakeReset"
    "sb_pc (ps_clients (ex_after ex_crash) 0) = AtReply" "sb_pc (ps_clients (ex_after ex_crash) 1) = AtSelect" by code_simp+
  then show ?thesis
    using pubsub_abort [OF ex_pubsub_ok steps_reachable [OF ex_after_steps [OF run]] stop] peers by simp
qed

end
