(* ===== verification/Core_Topology.thy ===== *)
theory Core_Topology
  imports Scenario_Config Effects
begin

text \<open>
  Topologies that come from CORE: reading the XML files (\<open>util/CoreConfigFileParser.py\<close>), the
  movement director that switches from one file to the next (\<open>model/spatial/CoreConfigNodes.py\<close>,
  \<open>management/spatial/MovementDirectorCoreConfig.py\<close>), the distance matrices of the other directors
  and the choice of the director (\<open>management/spatial/MovementDirectorFactory.py\<close>). Opening a file
  and reading a float are parameters; a document is a tree of elements.
\<close>

section \<open>Documents\<close>

datatype xml = Elem string "(string, string) dict" "xml list" | TextNode string

fun descendants :: "xml \<Rightarrow> xml list" where
  "descendants (TextNode t) = []"
| "descendants (Elem tag attrs children) = Elem tag attrs children # concat (map descendants children)"

fun tag_name :: "xml \<Rightarrow> string" where
  "tag_name (Elem tag _ _) = tag"
| "tag_name (TextNode _) = ''#text''"

fun child_nodes :: "xml \<Rightarrow> xml list" where
  "child_nodes (Elem _ _ children) = children"
| "child_nodes (TextNode _) = []"

definition getElementsByTagName :: "xml \<Rightarrow> string \<Rightarrow> xml list" where
  "getElementsByTagName e tag = filter (\<lambda>d. tag_name d = tag) (concat (map descendants (child_nodes e)))"

fun getAttribute :: "xml \<Rightarrow> string \<Rightarrow> string" where
  "getAttribute (Elem _ attrs _) name = (case dget attrs name of Some v \<Rightarrow> v | None \<Rightarrow> [])"
| "getAttribute (TextNode _) name = []"

text \<open>\<open>str.split\<close> with a separator that is not empty.\<close>

function split_str :: "string \<Rightarrow> string \<Rightarrow> string \<Rightarrow> string list" where
  "split_str sep acc [] = [rev acc]"
| "split_str sep acc (c # cs) =
     (if sep \<noteq> [] \<and> take (length sep) (c # cs) = sep then rev acc # split_str sep [] (drop (length sep - 1) cs)
      else split_str sep (c # acc) cs)"
  by pat_completeness auto
termination by (relation "measure (\<lambda>(sep, acc, cs). length cs)") auto

section \<open>Reading a CORE file\<close>

fun rfold :: "('x \<Rightarrow> 'd \<Rightarrow> 'd res) \<Rightarrow> 'x list \<Rightarrow> 'd \<Rightarrow> 'd res" where
  "rfold f [] d = Inr d"
| "rfold f (x # xs) d = rbind (f x d) (rfold f xs)"

definition check_version :: "(string \<Rightarrow> rat res) \<Rightarrow> xml \<Rightarrow> unit res" where
  "check_version parse_float scenario =
     rbind (parse_float (getAttribute scenario ''version'')) (\<lambda>v. if v < 1 then Inl ValueError else Inr ())"

text \<open>A member such as \<open>n1/eth0\<close>: the node id and the number of the interface, counted from 1.\<close>

definition member_endpoint :: "xml \<Rightarrow> (int \<times> int) res" where
  "member_endpoint m = (case child_nodes m of
      [] \<Rightarrow> Inl IndexError
    | Elem _ _ _ # _ \<Rightarrow> Inl AttributeError
    | TextNode t # _ \<Rightarrow> (case split_str ''/'' [] t of
          [node, interface] \<Rightarrow> rbind (py_int (drop 1 node)) (\<lambda>n.
            rbind (pyindex (split_str ''eth'' [] interface) 1) (\<lambda>nr. rbind (py_int nr) (\<lambda>i. Inr (n, i + 1))))
        | _ \<Rightarrow> Inl ValueError))"

fun channel_loop ::
  "(int \<times> int \<Rightarrow> int \<times> int \<Rightarrow> 'd \<Rightarrow> 'd) \<Rightarrow> (int \<times> int) option \<Rightarrow> xml list \<Rightarrow> 'd \<Rightarrow> 'd res" where
  "channel_loop put cur [] d = Inr d"
| "channel_loop put cur (m # ms) d =
     (if getAttribute m ''type'' \<noteq> ''interface'' then channel_loop put cur ms d
      else rbind (member_endpoint m) (\<lambda>e. case cur of
          None \<Rightarrow> channel_loop put (Some e) ms d
        | Some c \<Rightarrow>
            (let d = put c e d; d = (if fst c \<ge> fst e then put e c d else d)
             in channel_loop put cur ms d)))"

definition parse_channels ::
  "(int \<times> int \<Rightarrow> int \<times> int \<Rightarrow> 'd \<Rightarrow> 'd) \<Rightarrow> (string \<Rightarrow> rat res) \<Rightarrow> 'd \<Rightarrow> xml \<Rightarrow> 'd res" where
  "parse_channels put parse_float d0 scenario =
     rbind (check_version parse_float scenario) (\<lambda>_.
     rfold (\<lambda>network. rfold (\<lambda>channel. channel_loop put None (getElementsByTagName channel ''member''))
              (getElementsByTagName network ''channel''))
       (getElementsByTagName scenario ''network'') d0)"

text \<open>\<open>connections\<close> is a \<open>defaultdict(set)\<close> of node ids, or a dict of interfaces.\<close>

type_synonym lan = "(int, int list) dict"

definition add_peer :: "int \<times> int \<Rightarrow> int \<times> int \<Rightarrow> lan \<Rightarrow> lan" where
  "add_peer c e d = dset d (fst c) (oset_add (ddget_set d (fst c)) (fst e))"

definition parse_core_config_file :: "(string \<Rightarrow> rat res) \<Rightarrow> xml \<Rightarrow> lan res" where
  "parse_core_config_file parse_float = parse_channels add_peer parse_float []"

definition parse_core_config_file_interfaces :: "(string \<Rightarrow> rat res) \<Rightarrow> xml \<Rightarrow> (int \<times> int, int \<times> int) dict res" where
  "parse_core_config_file_interfaces parse_float = parse_channels (\<lambda>c e d. dset d c e) parse_float []"

text \<open>The hosts are numbered from 1 in the order of the document.\<close>

definition host_position :: "(string \<Rightarrow> rat res) \<Rightarrow> int \<times> xml \<Rightarrow> (int, rat \<times> rat) dict \<Rightarrow> (int, rat \<times> rat) dict res" where
  "host_position parse_float host = rfold (\<lambda>point positions.
     rbind (parse_float (getAttribute point ''lat'')) (\<lambda>lat.
     rbind (parse_float (getAttribute point ''lon'')) (\<lambda>lon. Inr (dset positions (fst host) (lat, lon)))))
     (getElementsByTagName (snd host) ''point'')"

definition parse_core_config_file_positions :: "(string \<Rightarrow> rat res) \<Rightarrow> xml \<Rightarrow> (int, rat \<times> rat) dict res" where
  "parse_core_config_file_positions parse_float scenario =
     rbind (check_version parse_float scenario) (\<lambda>_.
     (let hosts = getElementsByTagName scenario ''host''
      in rfold (host_position parse_float) (zip [1..int (length hosts)] hosts) []))"

section \<open>Switching topologies\<close>

text \<open>
  \<open>CoreConfigNodes\<close>. \<open>scenario_changes\<close> is a stack with the next file last; the topology is what
  the subclass makes of a file.
\<close>

record 'top core_nodes =
  orig_scenario_changes :: "(json \<times> string) list"
  scenario_changes :: "(json \<times> string) list"
  remaining_seconds :: "rat option"
  crnt_core_config_file :: "string option"
  crnt_topology :: "'top option"

definition core_reset :: "'top core_nodes \<Rightarrow> 'top core_nodes" where
  "core_reset s = s\<lparr>scenario_changes := rev (orig_scenario_changes s), remaining_seconds := None, crnt_core_config_file := None\<rparr>"

definition core_init :: "(json \<times> string) list \<Rightarrow> 'top core_nodes" where
  "core_init changes = core_reset \<lparr>orig_scenario_changes = changes, scenario_changes = [], remaining_seconds = None,
     crnt_core_config_file = None, crnt_topology = None\<rparr>"

text \<open>
  The time step is that of the run loop; there is none if steps are taken by hand. (Seconds that
  cannot be read raise; the code then also keeps the unread value, which is not recorded here.)
\<close>

definition core_walk :: "(string \<Rightarrow> 'top res) \<Rightarrow> bool res \<Rightarrow> rat option \<Rightarrow> ('top core_nodes, unit) eff" where
  "core_walk read loop time_step =
     ebind (eget (\<lambda>s. (remaining_seconds s, scenario_changes s))) (\<lambda>(remaining, changes).
       if remaining = None \<or> the remaining \<le> 0 then
         (if changes \<noteq> [] then
            (let (seconds, file) = last changes
             in eseq (emodify (\<lambda>s. s\<lparr>scenario_changes := butlast changes, crnt_core_config_file := Some file\<rparr>))
                (ebind (elift (py_int_json seconds)) (\<lambda>seconds.
                 eseq (emodify (\<lambda>s. s\<lparr>remaining_seconds := Some (of_int seconds)\<rparr>))
                (ebind (elift (read file)) (\<lambda>top. emodify (\<lambda>s. s\<lparr>crnt_topology := Some top\<rparr>))))))
          else ebind (elift loop) (\<lambda>loop. ewhen loop (emodify core_reset)))
       else (case time_step of
           None \<Rightarrow> eraise AttributeError
         | Some ts \<Rightarrow> emodify (\<lambda>s. s\<lparr>remaining_seconds := map_option (\<lambda>r. r - ts) (remaining_seconds s)\<rparr>)))"

section \<open>Distance matrices\<close>

text \<open>
  Both matrices run over the node ids up to the last one. Reading the peers of a node inserts an
  empty set for a node without peers, which no later read can tell from a missing one.
\<close>

definition upper_triangle :: "(int \<Rightarrow> int \<Rightarrow> distance_matrix \<Rightarrow> distance_matrix res) \<Rightarrow> int list \<Rightarrow> distance_matrix res" where
  "upper_triangle f ids = rfold (\<lambda>n. rfold (f n) [n + 1..last ids]) ids []"

definition lan_distance_matrix :: "int list \<Rightarrow> lan core_nodes \<Rightarrow> distance_matrix res" where
  "lan_distance_matrix ids s = upper_triangle (\<lambda>n i m. case crnt_topology s of
      None \<Rightarrow> Inl TypeError
    | Some connections \<Rightarrow> Inr (if i \<in> set (ddget_set connections n) then set_distance n i 1 m else set_unlimited_distance n i m)) ids"

text \<open>\<open>metres\<close> is the distance of two locations in metres.\<close>

definition wifi_distance_matrix ::
  "(rat \<times> rat \<Rightarrow> rat \<times> rat \<Rightarrow> rat) \<Rightarrow> int list \<Rightarrow> (int, rat \<times> rat) dict core_nodes \<Rightarrow> distance_matrix res" where
  "wifi_distance_matrix metres ids s = upper_triangle (\<lambda>n i m. case crnt_topology s of
      None \<Rightarrow> Inl TypeError
    | Some positions \<Rightarrow> rbind (getitem positions n) (\<lambda>p. rbind (getitem positions i) (\<lambda>q. Inr (set_distance n i (metres p q) m)))) ids"

text \<open>\<open>CoreConfigNodesWiFi._walk\<close> refuses a file without positions.\<close>

definition read_wifi :: "(string \<Rightarrow> xml res) \<Rightarrow> (string \<Rightarrow> rat res) \<Rightarrow> string \<Rightarrow> (int, rat \<times> rat) dict res" where
  "read_wifi open_xml parse_float file = rbind (open_xml file) (\<lambda>doc.
     rbind (parse_core_config_file_positions parse_float doc) (\<lambda>positions.
       if positions = [] then Inl ValueError else Inr positions))"

definition read_lan :: "(string \<Rightarrow> xml res) \<Rightarrow> (string \<Rightarrow> rat res) \<Rightarrow> string \<Rightarrow> lan res" where
  "read_lan open_xml parse_float file = rbind (open_xml file) (parse_core_config_file parse_float)"

text \<open>
  \<open>Nodes.get_distance_matrix\<close> of the walking nodes, which are numbered from 0 while the matrix
  counts from 1; \<open>cnt\<close> is the configured number of nodes.
\<close>

definition walking_distance_matrix :: "('n \<Rightarrow> 'n \<Rightarrow> rat) \<Rightarrow> int \<Rightarrow> (int, 'n) dict \<Rightarrow> distance_matrix res" where
  "walking_distance_matrix metres cnt nodes =
     rfold (\<lambda>n. rfold (\<lambda>i m. rbind (getitem nodes n) (\<lambda>x. rbind (getitem nodes i) (\<lambda>y.
        Inr (set_distance (n + 1) (i + 1) (metres x y) m)))) [n + 1..cnt - 1]) [0..cnt - 2] []"

section \<open>Choice of the director\<close>

datatype director = DirectorCore json | DirectorWalk json | DirectorNoMobility

text \<open>\<open>open_arma\<close> creates the nodes of the Arma director from its file.\<close>

definition director_factory :: "(string \<Rightarrow> string) \<Rightarrow> (string \<Rightarrow> unit res) \<Rightarrow> json \<Rightarrow> director res" where
  "director_factory abspath open_arma scenario = rbind (get_walk_model_name None scenario) (\<lambda>name.
     if name = JNull then Inr DirectorNoMobility
     else if name = WALK_MODEL_NAME_ARMA then rbind (get_walk_model_arma_filepath abspath scenario) (\<lambda>file.
       rbind (open_arma file) (\<lambda>_. Inl NotImplementedError))
     else if name = WALK_MODEL_NAME_CORE then rbind (get_core_scenarios None scenario) (\<lambda>changes. Inr (DirectorCore changes))
     else Inr (DirectorWalk name))"

section \<open>Lemmas\<close>

lemma split_str_absent: "hd sep \<notin> set xs \<Longrightarrow> split_str sep acc xs = [rev acc @ xs]"
  by (induction sep acc xs rule: split_str.induct) (auto split: if_splits dest: arg_cong [of _ _ hd])

lemma split_str_first:
  "hd sep \<notin> set xs \<Longrightarrow> sep \<noteq> [] \<Longrightarrow> split_str sep acc (xs @ sep @ ys) = (rev acc @ xs) # split_str sep [] ys"
proof (induction xs arbitrary: acc)
  case Nil
  then show ?case by (cases sep) auto
next
  case (Cons x xs)
  have "take (length sep) (x # xs @ sep @ ys) \<noteq> sep" using Cons.prems by (auto dest: arg_cong [of _ _ hd])
  then show ?case using Cons by simp
qed

subsection \<open>The CORE format\<close>

definition core_member :: "int \<times> nat \<Rightarrow> xml" where
  "core_member e = Elem ''member'' [(''type'', ''interface'')] [TextNode (''n'' @ int_dec (fst e) @ ''/eth'' @ nat_dec (snd e))]"

definition core_network :: "(int \<times> nat) list \<Rightarrow> xml" where
  "core_network members = Elem ''network'' []
     [Elem ''type'' [] [TextNode ''ethernet''], Elem ''channel'' [] (Elem ''type'' [] [TextNode ''ethernet''] # map core_member members)]"

definition core_document :: "string \<Rightarrow> (int \<times> nat) list list \<Rightarrow> xml" where
  "core_document version channels = Elem ''scenario'' [(''version'', version)] (map core_network channels)"

text \<open>The first member of a channel is linked to the others.\<close>

definition channel_links :: "(int \<times> nat) list \<Rightarrow> (int \<times> int) set" where
  "channel_links members = {(fst (hd members), fst e) |e. e \<in> set (tl members)}"

definition linked :: "(int \<times> nat) list list \<Rightarrow> int \<Rightarrow> int \<Rightarrow> bool" where
  "linked channels x y \<longleftrightarrow> (\<exists>members \<in> set channels. (x, y) \<in> channel_links members \<or> (y, x) \<in> channel_links members)"

lemma dec_chars: "c \<in> {CHR ''/'', CHR ''e''} \<Longrightarrow> c \<notin> set (nat_dec n) \<and> c \<notin> set (int_dec i)"
  using nat_dec_chars [of c n] int_dec_chars [of c i] by (auto simp: of_char_def)

lemma py_int_nat_dec [simp]: "py_int (nat_dec n) = Inr (int n)"
  using py_int_int_dec [of "int n"] by (simp add: int_dec_def)

lemma core_member_endpoint: "member_endpoint (core_member (n, i)) = Inr (n, int i + 1)"
proof -
  have "split_str ''/'' [] ((''n'' @ int_dec n) @ ''/'' @ (''eth'' @ nat_dec i)) = [''n'' @ int_dec n, ''eth'' @ nat_dec i]"
    using split_str_first [of "''/''" "''n'' @ int_dec n" "[]" "''eth'' @ nat_dec i"] split_str_absent [of "''/''" "''eth'' @ nat_dec i" "[]"]
      dec_chars [of "CHR ''/''" i n] by simp
  moreover have "split_str ''eth'' [] ([] @ ''eth'' @ nat_dec i) = [[], nat_dec i]"
    using split_str_first [of "''eth''" "[]" "[]" "nat_dec i"] split_str_absent [of "''eth''" "nat_dec i" "[]"]
      dec_chars [of "CHR ''e''" i n] by simp
  ultimately show ?thesis by (simp add: member_endpoint_def core_member_def pyindex_def)
qed

lemma ddget_add_peer: "j \<in> set (ddget_set (add_peer c e d) x) \<longleftrightarrow> x = fst c \<and> j = fst e \<or> j \<in> set (ddget_set d x)"
  by (auto simp: add_peer_def ddget_dset)

text \<open>What a link adds to the parsed connections.\<close>

definition peer_of :: "int \<Rightarrow> int \<Rightarrow> int \<times> int \<Rightarrow> bool" where
  "peer_of x j l \<longleftrightarrow> (x, j) = l \<or> (fst l \<ge> snd l \<and> (j, x) = l)"

lemma channel_loop_first:
  "\<exists>d'. channel_loop add_peer (Some (c, k)) (map core_member es) d = Inr d'
    \<and> (\<forall>x j. j \<in> set (ddget_set d' x) \<longleftrightarrow> (\<exists>e \<in> set es. peer_of x j (c, fst e)) \<or> j \<in> set (ddget_set d x))"
proof (induction es arbitrary: d)
  case (Cons e es)
  obtain n i where e: "e = (n, i)" by fastforce
  have "getAttribute (core_member e) ''type'' = ''interface''" by (simp add: core_member_def)
  then show ?case
    using Cons [of "if c \<ge> n then add_peer (n, int i + 1) (c, k) (add_peer (c, k) (n, int i + 1) d) else add_peer (c, k) (n, int i + 1) d"]
    by (auto simp: e core_member_endpoint Let_def ddget_add_peer peer_of_def)
qed simp

lemma channel_loop_members:
  "\<exists>d'. channel_loop add_peer None (map core_member es) d = Inr d'
    \<and> (\<forall>x j. j \<in> set (ddget_set d' x) \<longleftrightarrow> (\<exists>l \<in> channel_links es. peer_of x j l) \<or> j \<in> set (ddget_set d x))"
proof (cases es)
  case (Cons e es')
  obtain n i where e: "e = (n, i)" by fastforce
  have "getAttribute (core_member e) ''type'' = ''interface''" by (simp add: core_member_def)
  moreover have "(\<exists>l \<in> channel_links es. peer_of x j l) \<longleftrightarrow> (\<exists>e \<in> set es'. peer_of x j (n, fst e))" for x j
    by (force simp: Cons e channel_links_def)
  ultimately show ?thesis using channel_loop_first [of n "int i + 1" es' d] by (simp add: Cons e core_member_endpoint)
qed (simp add: channel_links_def)

lemma core_member_tags: "concat (map descendants (map core_member es)) = map core_member es"
  by (induction es) (simp_all add: core_member_def)

lemma tag_core_member [simp]: "tag_name (core_member e) = ''member''"
  by (simp add: core_member_def)

lemma network_channel:
  "getElementsByTagName (core_network es) ''channel'' =
     [Elem ''channel'' [] (Elem ''type'' [] [TextNode ''ethernet''] # map core_member es)]"
  using core_member_tags [of es] by (simp add: getElementsByTagName_def core_network_def filter_empty_conv)

lemma channel_member:
  "getElementsByTagName (Elem ''channel'' [] (Elem ''type'' [] [TextNode ''ethernet''] # map core_member es)) ''member'' = map core_member es"
  using core_member_tags [of es] by (simp add: getElementsByTagName_def filter_id_conv)

lemma document_networks: "getElementsByTagName (core_document v chans) ''network'' = map core_network chans"
proof -
  have "filter (\<lambda>d. tag_name d = ''network'') (descendants (core_network es)) = [core_network es]" for es
    using core_member_tags [of es] by (simp add: core_network_def filter_empty_conv)
  then have "filter (\<lambda>d. tag_name d = ''network'') (concat (map descendants (map core_network cs))) = map core_network cs" for cs
    by (induction cs) simp_all
  then show ?thesis by (simp add: getElementsByTagName_def core_document_def)
qed

lemma parse_networks:
  "\<exists>d'. rfold (\<lambda>network. rfold (\<lambda>channel. channel_loop add_peer None (getElementsByTagName channel ''member''))
        (getElementsByTagName network ''channel'')) (map core_network chans) d = Inr d'
    \<and> (\<forall>x j. j \<in> set (ddget_set d' x) \<longleftrightarrow> (\<exists>es \<in> set chans. \<exists>l \<in> channel_links es. peer_of x j l) \<or> j \<in> set (ddget_set d x))"
proof (induction chans arbitrary: d)
  case (Cons es chans)
  obtain d1 where d1: "channel_loop add_peer None (map core_member es) d = Inr d1"
    "\<forall>x j. j \<in> set (ddget_set d1 x) \<longleftrightarrow> (\<exists>l \<in> channel_links es. peer_of x j l) \<or> j \<in> set (ddget_set d x)"
    using channel_loop_members by blast
  show ?case using Cons [of d1] d1 by (auto simp: network_channel channel_member)
qed simp

lemma parse_document:
  assumes "parse_float version = Inr v" "1 \<le> v"
  obtains d where "parse_core_config_file parse_float (core_document version chans) = Inr d"
    "\<And>x y. x < y \<Longrightarrow> y \<in> set (ddget_set d x) \<longleftrightarrow> linked chans x y"
proof -
  obtain d where d: "rfold (\<lambda>network. rfold (\<lambda>channel. channel_loop add_peer None (getElementsByTagName channel ''member''))
        (getElementsByTagName network ''channel'')) (map core_network chans) [] = Inr d"
    "\<And>x j. j \<in> set (ddget_set d x) \<longleftrightarrow> (\<exists>es \<in> set chans. \<exists>l \<in> channel_links es. peer_of x j l) \<or> j \<in> set (ddget_set [] x)"
    using parse_networks [of chans "[]"] by blast
  have "check_version parse_float (core_document version chans) = Inr ()"
    using assms by (simp add: check_version_def core_document_def)
  then have "parse_core_config_file parse_float (core_document version chans) = Inr d"
    using d(1) by (simp add: parse_core_config_file_def parse_channels_def document_networks)
  moreover have "y \<in> set (ddget_set d x) \<longleftrightarrow> linked chans x y" if "x < y" for x y
  proof -
    have "y \<in> set (ddget_set d x) \<longleftrightarrow> (\<exists>es \<in> set chans. \<exists>l \<in> channel_links es. peer_of x y l)" by (simp add: d(2)) (simp add: ddget_set_def)
    then show ?thesis using that by (auto simp: peer_of_def linked_def)
  qed
  ultimately show thesis using that by blast
qed

lemma rfold_Inr: "rfold (\<lambda>x d. Inr (g x d)) xs = (\<lambda>d. Inr (fold g xs d))"
  by (induction xs) (simp_all add: fun_eq_iff)

lemma fold_row:
  "dget (fold (\<lambda>i m. dset m (n, i) (w n i)) is m) (x, y) = (if x = n \<and> y \<in> set is then Some (w n y) else dget m (x, y))"
  for m :: distance_matrix
  by (induction "is" arbitrary: m) (auto simp: kget_kset)

lemma fold_rows:
  "dget (fold (\<lambda>n m. fold (\<lambda>i m. dset m (n, i) (w n i)) [n + 1..k] m) ns m) (x, y) =
     (if x \<in> set ns \<and> x < y \<and> y \<le> k then Some (w x y) else dget m (x, y))"
  for m :: distance_matrix
  by (induction ns arbitrary: m) (auto simp: fold_row)

lemma upper_triangle_entries:
  "\<exists>m. upper_triangle (\<lambda>n i m. Inr (dset m (n, i) (w n i))) ids = Inr m
    \<and> (\<forall>x y. dget m (x, y) = (if x \<in> set ids \<and> x < y \<and> y \<le> last ids then Some (w x y) else None))"
  using fold_rows [of w "last ids" ids "[]"] by (simp add: upper_triangle_def rfold_Inr)

lemma lan_matrix_entries:
  assumes "crnt_topology s = Some d"
  shows "\<exists>m. lan_distance_matrix ids s = Inr m
    \<and> (\<forall>x y. dget m (x, y) = (if x \<in> set ids \<and> x < y \<and> y \<le> last ids
         then Some (if y \<in> set (ddget_set d x) then 1 else UNLIMITED_DISTANCE) else None))"
proof -
  have "lan_distance_matrix ids s =
    upper_triangle (\<lambda>n i m. Inr (dset m (n, i) (if i \<in> set (ddget_set d n) then 1 else UNLIMITED_DISTANCE))) ids"
    using assms by (simp add: lan_distance_matrix_def set_distance_def set_unlimited_distance_def dm_get_key_def
        if_distrib [of "\<lambda>v. dset _ _ v"] if_distribR cong: if_cong)
  then show ?thesis using upper_triangle_entries [of "\<lambda>n i. if i \<in> set (ddget_set d n) then 1 else UNLIMITED_DISTANCE" ids] by simp
qed

subsection \<open>Schedule\<close>

text \<open>
  The reference: which file is in force after each walk. A file stays for one walk and as many more
  as time steps fit into its seconds, rounded up.
\<close>

fun schedule :: "rat \<Rightarrow> (json \<times> string) list \<Rightarrow> string list" where
  "schedule ts [] = []"
| "schedule ts ((t, file) # changes) =
     replicate (1 + (case py_int_json t of Inr secs \<Rightarrow> nat \<lceil>of_int secs / ts\<rceil> | Inl _ \<Rightarrow> 0)) file @ schedule ts changes"

definition upcoming :: "rat \<Rightarrow> 'top core_nodes \<Rightarrow> string list" where
  "upcoming ts s = (case (remaining_seconds s, crnt_core_config_file s) of
      (Some r, Some file) \<Rightarrow> replicate (nat \<lceil>r / ts\<rceil>) file | _ \<Rightarrow> []) @ schedule ts (rev (scenario_changes s))"

definition core_inv :: "(string \<Rightarrow> 'top) \<Rightarrow> (json \<times> string) list \<Rightarrow> 'top core_nodes \<Rightarrow> bool" where
  "core_inv topo changes s \<longleftrightarrow> orig_scenario_changes s = changes \<and> set (scenario_changes s) \<subseteq> set changes
     \<and> (remaining_seconds s \<noteq> None \<longrightarrow> (\<exists>file. crnt_core_config_file s = Some file \<and> crnt_topology s = Some (topo file)))"

fun walks :: "(string \<Rightarrow> 'top res) \<Rightarrow> bool res \<Rightarrow> rat option \<Rightarrow> nat \<Rightarrow> ('top core_nodes, unit) eff" where
  "walks read loop ts 0 = ereturn ()"
| "walks read loop ts (Suc k) = eseq (walks read loop ts k) (core_walk read loop ts)"

lemma walk_upcoming:
  assumes inv: "core_inv topo changes s" and ts: "0 < ts" and up: "upcoming ts s = file # rest"
    and ok: "\<forall>(t, file) \<in> set changes. (\<exists>i. py_int_json t = Inr i) \<and> read file = Inr (topo file)"
  shows "\<exists>s'. core_walk read loop (Some ts) s = (Inr (), s') \<and> core_inv topo changes s' \<and> upcoming ts s' = rest
    \<and> crnt_topology s' = Some (topo file)"
proof (cases "remaining_seconds s = None \<or> the (remaining_seconds s) \<le> 0")
  case True
  then have "schedule ts (rev (scenario_changes s)) = file # rest"
    using up ts by (auto simp: upcoming_def ceiling_le_zero divide_nonpos_pos split: option.splits)
  then obtain t f cs where cs: "scenario_changes s = cs @ [(t, f)]" by (cases "scenario_changes s" rule: rev_cases) auto
  then obtain i where i: "py_int_json t = Inr i" "read f = Inr (topo f)" using inv ok by (auto simp: core_inv_def)
  then have "f = file" "replicate (nat \<lceil>of_int i / ts\<rceil>) f @ schedule ts (rev cs) = rest"
    using \<open>schedule ts _ = _\<close> by (auto simp: cs)
  then show ?thesis using True inv i
    by (auto simp: core_walk_def ebind_def eget_def emodify_def elift_def cs core_inv_def upcoming_def)
next
  case False
  then obtain r where r: "remaining_seconds s = Some r" "0 < r" by (cases "remaining_seconds s") auto
  then obtain f where f: "crnt_core_config_file s = Some f" "crnt_topology s = Some (topo f)" using inv by (auto simp: core_inv_def)
  have "\<lceil>(r - ts) / ts\<rceil> = \<lceil>r / ts\<rceil> - 1" using ts by (simp add: diff_divide_distrib)
  moreover have "0 < \<lceil>r / ts\<rceil>" using r ts by simp
  ultimately have "nat \<lceil>r / ts\<rceil> = Suc (nat \<lceil>(r - ts) / ts\<rceil>)" by linarith
  then have "f = file" "replicate (nat \<lceil>(r - ts) / ts\<rceil>) f @ schedule ts (rev (scenario_changes s)) = rest"
    using up r f by (auto simp: upcoming_def)
  then show ?thesis using False inv r f
    by (auto simp: core_walk_def ebind_def eget_def emodify_def core_inv_def upcoming_def)
qed

lemma walk_exhausted:
  assumes "core_inv topo changes s" "0 < ts" "upcoming ts s = []"
  shows "core_walk read (Inr loop) (Some ts) s = (Inr (), if loop then core_reset s else s)"
proof -
  have "scenario_changes s = []" using assms(3) by (cases "scenario_changes s" rule: rev_cases) (auto simp: upcoming_def)
  moreover have "remaining_seconds s = None \<or> the (remaining_seconds s) \<le> 0"
    using assms by (cases "remaining_seconds s") (auto simp: upcoming_def core_inv_def zero_less_divide_iff divide_le_0_iff)
  ultimately show ?thesis by (auto simp: core_walk_def ebind_def eget_def elift_def emodify_def ewhen_def ereturn_def)
qed

text \<open>
  The position in the schedule after \<open>k\<close> walks: at the end it stays there, or, with the loop, one
  walk is spent on starting over.
\<close>

definition schedule_pos :: "bool \<Rightarrow> nat \<Rightarrow> nat \<Rightarrow> nat" where
  "schedule_pos loop n k = (if loop then k mod (n + 1) else min k n)"

lemma schedule_pos_le: "schedule_pos loop n k \<le> n"
  using mod_less_divisor [of "Suc n" k] by (auto simp: schedule_pos_def less_Suc_eq_le)

lemma schedule_pos_Suc:
  "schedule_pos loop n (Suc k) =
     (if schedule_pos loop n k < n then Suc (schedule_pos loop n k) else if loop then 0 else n)"
  using mod_less_divisor [of "Suc n" k] by (auto simp: schedule_pos_def mod_Suc min_def less_Suc_eq)

lemma core_init_inv: "core_inv topo changes (core_init changes)" "upcoming ts (core_init changes) = schedule ts changes"
  by (simp_all add: core_inv_def core_init_def core_reset_def upcoming_def)

lemma core_reset_inv:
  assumes "core_inv topo changes s"
  shows "core_inv topo changes (core_reset s)" "upcoming ts (core_reset s) = schedule ts changes"
  using assms by (simp_all add: core_inv_def core_reset_def upcoming_def)

lemma walks_follow:
  fixes changes ts loop
  defines "sched \<equiv> schedule ts changes"
  defines "pos \<equiv> schedule_pos loop (length sched)"
  assumes ts: "0 < ts" and ne: "changes \<noteq> []"
    and ok: "\<forall>(t, file) \<in> set changes. (\<exists>i. py_int_json t = Inr i) \<and> read file = Inr (topo file)"
  shows "\<exists>s. walks read (Inr loop) (Some ts) k (core_init changes) = (Inr (), s) \<and> core_inv topo changes s
    \<and> upcoming ts s = drop (pos k) sched \<and> (pos k = length sched \<longrightarrow> crnt_topology s = Some (topo (last sched)))
    \<and> (\<forall>j. k = Suc j \<longrightarrow> crnt_topology s = Some (topo ((sched @ [last sched]) ! pos j)))"
proof (induction k)
  case 0
  have "0 < length sched" using ne by (cases changes) (auto simp: sched_def)
  then show ?case using core_init_inv(1) [of topo changes] core_init_inv(2) [of ts changes] by (simp add: ereturn_def pos_def schedule_pos_def sched_def)
next
  case (Suc k)
  then obtain s where s: "walks read (Inr loop) (Some ts) k (core_init changes) = (Inr (), s)" "core_inv topo changes s"
    "upcoming ts s = drop (pos k) sched" "pos k = length sched \<longrightarrow> crnt_topology s = Some (topo (last sched))" by blast
  have le: "pos k \<le> length sched" by (simp add: pos_def schedule_pos_le)
  show ?case
  proof (cases "pos k < length sched")
    case True
    then have "upcoming ts s = sched ! pos k # drop (Suc (pos k)) sched" by (simp add: s(3) Cons_nth_drop_Suc)
    then obtain s' where s': "core_walk read (Inr loop) (Some ts) s = (Inr (), s')" "core_inv topo changes s'"
      "upcoming ts s' = drop (Suc (pos k)) sched" "crnt_topology s' = Some (topo (sched ! pos k))"
      using walk_upcoming [OF s(2) ts _ ok] by blast
    have "pos (Suc k) = Suc (pos k)" using True by (simp add: pos_def schedule_pos_Suc)
    moreover have "last sched = sched ! pos k" if "Suc (pos k) = length sched"
    proof -
      have "length sched - 1 = pos k" "sched \<noteq> []" using that True by auto
      then show ?thesis by (simp add: last_conv_nth)
    qed
    ultimately show ?thesis using s(1) s' True by (auto simp: ebind_def nth_append)
  next
    case False
    then have end_pos: "pos k = length sched" using le by simp
    then have walk: "core_walk read (Inr loop) (Some ts) s = (Inr (), if loop then core_reset s else s)"
      by (intro walk_exhausted [OF s(2) ts]) (simp add: s(3))
    have "pos (Suc k) = (if loop then 0 else length sched)" using False by (simp add: pos_def schedule_pos_Suc)
    moreover have "crnt_topology s = Some (topo (last sched))" "crnt_topology (core_reset s) = crnt_topology s"
      using s(4) end_pos by (simp_all add: core_reset_def)
    moreover have "0 < length sched" using ne by (cases changes) (auto simp: sched_def)
    ultimately show ?thesis using s(1-3) walk end_pos core_reset_inv [OF s(2)]
      by (auto simp: ebind_def nth_append sched_def)
  qed
qed

section \<open>Properties\<close>


text \<open>C30: a CORE file is read as it is drawn. For a document with one channel per network, each listing
  the interfaces of its nodes in CORE's format, the nodes of a channel are linked to its first one.
  The distance matrix made from the file has an entry for every pair of the nodes \<open>1..n\<close>, smaller id
  first: distance 1 if they are linked in the document, in whatever order they are listed there, and
  the unlimited distance otherwise.
\<close>

theorem core_links_become_distances:
  assumes "parse_float version = Inr v" "1 \<le> v" "open_xml file = Inr (core_document version channels)"
  shows "\<exists>lan m. read_lan open_xml parse_float file = Inr lan
    \<and> lan_distance_matrix [1..n] ((core_init changes)\<lparr>crnt_topology := Some lan\<rparr>) = Inr m
    \<and> (\<forall>x y. dget m (x, y) = (if 1 \<le> x \<and> x < y \<and> y \<le> n then Some (if linked channels x y then 1 else UNLIMITED_DISTANCE) else None))"
proof -
  obtain d where d: "parse_core_config_file parse_float (core_document version channels) = Inr d"
    "\<And>x y. x < y \<Longrightarrow> y \<in> set (ddget_set d x) \<longleftrightarrow> linked channels x y"
    using parse_document [of parse_float version v channels] assms(1,2) by blast
  have last: "1 \<le> n \<Longrightarrow> last [1..n] = n" by (simp add: upto_rec2)
  obtain m where m: "lan_distance_matrix [1..n] ((core_init changes)\<lparr>crnt_topology := Some d\<rparr>) = Inr m"
    "\<And>x y. dget m (x, y) = (if x \<in> set [1..n] \<and> x < y \<and> y \<le> last [1..n]
         then Some (if y \<in> set (ddget_set d x) then 1 else UNLIMITED_DISTANCE) else None)"
    using lan_matrix_entries [of "(core_init changes)\<lparr>crnt_topology := Some d\<rparr>" d "[1..n]"] by auto
  have "dget m (x, y) = (if 1 \<le> x \<and> x < y \<and> y \<le> n then Some (if linked channels x y then 1 else UNLIMITED_DISTANCE) else None)" for x y
    using last by (auto simp: m(2) d(2))
  moreover have "read_lan open_xml parse_float file = Inr d" using assms(3) d(1) by (simp add: read_lan_def)
  ultimately show ?thesis using m(1) by blast
qed


theorem core_links_become_distances_witness:
  "\<exists>lan m. read_lan (\<lambda>_. Inr (core_document ''1.0'' [[(1, 0), (2, 0)], [(3, 0), (2, 1)]])) (\<lambda>_. Inr 1) ''chain.xml'' = Inr lan
    \<and> lan_distance_matrix [1..3] ((core_init [])\<lparr>crnt_topology := Some lan\<rparr>) = Inr m
    \<and> dget m (2, 3) = Some 1 \<and> dget m (1, 3) = Some UNLIMITED_DISTANCE"
proof -
  let ?cs = "[[(1, 0), (2, 0)], [(3, 0), (2, 1)]] :: (int \<times> nat) list list"
  have "linked ?cs 2 3" "\<not> linked ?cs 1 3" by (auto simp: linked_def channel_links_def)
  then show ?thesis
    using core_links_become_distances [of "\<lambda>_. Inr 1" "''1.0''" 1 "\<lambda>_. Inr (core_document ''1.0'' ?cs)" "''chain.xml''" ?cs 3 "[]"]
    by auto
qed

end
