(* ===== verification/Lifecycle.thy ===== *)
theory Lifecycle
  imports Simulation Core_Topology
begin

text \<open>
  The life of a scenario: how the simulation manager starts, steps, watches and aborts a simulation
  (\<open>management/SimulationManager.py\<close>), how the nodes are started (\<open>emulation/NodeStarter.py\<close>), the
  run loop (\<open>management/RunLoop.py\<close>) and the calls of the RPC server that control it
  (\<open>rpc/RPCServer.py\<close>, which handles one request at a time). The manager contains the state of the
  stepping, \<open>Simulation.sim\<close>; backends, nodes, snapshots and the director are operations of a world.
\<close>

section \<open>State and environment\<close>

text \<open>
  \<open>auto_stepping\<close> does not exist before the first start. A run loop is \<open>Some None\<close> while it runs
  and \<open>Some (Some e)\<close> after it was ended by an exception.
\<close>

record ('c, 'w) manager =
  mg_running :: bool
  mg_auto_stepping :: "bool option"
  mg_run_loop :: "py_error option option"
  mg_director :: bool
  mg_central :: "emulation_node list"
  mg_resets :: nat
  mg_scenario :: json
  mg_scenario_changed :: bool
  mg_sim :: "('c, 'w) sim"

record ('c, 's, 'w) life_env =
  le_sim :: "('c, 's, 'w) sim_env"
  le_loads :: "string \<Rightarrow> json res"
  le_read :: "string \<Rightarrow> string res"
  le_digest :: "json \<Rightarrow> string"
  le_script :: "json \<Rightarrow> string res"
  le_abspath :: "string \<Rightarrow> string"
  le_open_arma :: "string \<Rightarrow> unit res"
  le_import_model :: "json \<Rightarrow> unit res"
  le_distributed :: bool
  le_snapshot_boot :: bool
  le_extend_events :: "('w, unit) eff"
  le_create_backend :: "('w, unit) eff"
  le_init_network :: "('w, unit) eff"
  le_start_backend :: "interface list \<Rightarrow> ('w, unit) eff"
  le_init_events :: "int \<Rightarrow> ('w, unit) eff"
  le_start_node :: "int \<Rightarrow> ('w, emulation_node) eff"
  le_management :: "emulation_node list \<Rightarrow> ('w, unit) eff"
  le_central_nodes :: "interface list \<Rightarrow> ('w, emulation_node list) eff"
  le_make_director :: "director \<Rightarrow> ('w, unit) eff"
  le_snapshots :: "emulation_node list \<Rightarrow> ('w, unit) eff"
  le_gc_reset :: "'w \<Rightarrow> 'w"

type_synonym ('c, 'w, 'a) mg = "(('c, 'w) manager, 'a) eff"

definition in_sim :: "(('c, 'w) sim, 'a) eff \<Rightarrow> ('c, 'w, 'a) mg" where
  "in_sim m s = (let (r, t) = m (mg_sim s) in (r, s\<lparr>mg_sim := t\<rparr>))"

abbreviation in_env :: "('w, 'a) eff \<Rightarrow> ('c, 'w, 'a) mg" where
  "in_env m \<equiv> in_sim (in_world m)"

section \<open>Reset and abort\<close>

definition manager_reset :: "'w \<Rightarrow> ('c, 'w) manager \<Rightarrow> ('c, 'w) manager" where
  "manager_reset w s = s\<lparr>mg_running := False, mg_run_loop := None, mg_director := False, mg_central := [],
     mg_resets := mg_resets s + 1, mg_sim := sim_reset w\<rparr>"

definition manager_init :: "json \<Rightarrow> 'w \<Rightarrow> ('c, 'w) manager" where
  "manager_init scenario w = manager_reset w \<lparr>mg_running = False, mg_auto_stepping = None, mg_run_loop = None, mg_director = False,
     mg_central = [], mg_resets = 0, mg_scenario = scenario, mg_scenario_changed = False, mg_sim = sim_reset w\<rparr>"

text \<open>
  \<open>abort\<close>. Stopping the run loop waits for its current step; a running simulation in the
  auto-stepping mode has one. \<open>reset_simulation_scenario_state\<close> does not raise.
\<close>

definition manager_abort :: "('c, 's, 'w) life_env \<Rightarrow> ('c, 'w, unit) mg" where
  "manager_abort env s =
     (if mg_running s \<and> mg_auto_stepping s = Some True \<and> mg_run_loop s = None then (Inl AttributeError, s)
      else (Inr (), manager_reset (le_gc_reset env (sm_world (mg_sim s))) s))"

section \<open>Starting the nodes\<close>

text \<open>
  The executor starts all nodes, also after one failed, and hands the results out in the order of the
  ids up to the first exception.
\<close>

fun run_each :: "('x \<Rightarrow> ('w, 'n) eff) \<Rightarrow> 'x list \<Rightarrow> 'w \<Rightarrow> 'n res list \<times> 'w" where
  "run_each job [] w = ([], w)"
| "run_each job (x # xs) w =
     (let (r, w) = job x w; (rs, w) = run_each job xs w in (r # rs, w))"

definition executor_map :: "('x \<Rightarrow> ('w, 'n) eff) \<Rightarrow> 'x list \<Rightarrow> ('w, 'n list) eff" where
  "executor_map job xs w = (let (rs, w) = run_each job xs w in (rmap (\<lambda>r. r) rs, w))"

text \<open>
  \<open>start_nodes\<close>. The check that there is at most one hub interface looks at the names of the
  interfaces, which are strings and never instances of \<open>HubWiFi\<close>, so it always passes.
\<close>

definition start_nodes :: "('c, 's, 'w) life_env \<Rightarrow> int list \<Rightarrow> ('w, emulation_node list) eff" where
  "start_nodes env ids =
     (if ids = [] then ereturn []
      else eseq (efor ids (le_init_events env))
           (ebind (executor_map (le_start_node env) ids) (\<lambda>nodes.
            eseq (le_management env nodes) (ereturn nodes))))"

section \<open>Run loop\<close>

text \<open>One round of \<open>RunLoop._run\<close>; an exception is stored and ends the loop.\<close>

definition stepping_env :: "('c, 's, 'w) life_env \<Rightarrow> ('c, 'w) manager \<Rightarrow> ('c, 's, 'w) sim_env" where
  "stepping_env env s = (le_sim env)\<lparr>se_director := mg_director s \<or> le_distributed env\<rparr>"

definition run_loop_round :: "('c, 's, 'w) life_env \<Rightarrow> ('c, 'w) manager \<Rightarrow> ('c, 'w) manager" where
  "run_loop_round env s = (if mg_run_loop s \<noteq> Some None then s
     else (case in_sim (sim_step (stepping_env env s) 1 None) s of
         (Inr _, s') \<Rightarrow> s' | (Inl e, s') \<Rightarrow> s'\<lparr>mg_run_loop := Some (Some e)\<rparr>))"

definition is_movement_director_enabled :: "('c, 's, 'w) life_env \<Rightarrow> ('c, 'w) manager \<Rightarrow> bool" where
  "is_movement_director_enabled env s \<longleftrightarrow> mg_director s \<or> le_distributed env"

definition try_start_run_loop :: "('c, 's, 'w) life_env \<Rightarrow> bool \<Rightarrow> ('c, 'w, unit) mg" where
  "try_start_run_loop env auto = emodify (\<lambda>s. if is_movement_director_enabled env s
     then (let s = s\<lparr>mg_auto_stepping := Some auto\<rparr> in if auto then s\<lparr>mg_run_loop := Some None\<rparr> else s) else s)"

text \<open>
  \<open>wait_until_network_topology_was_created\<close> returns once a step of the run loop has set the event,
  which every step does: the first round happens meanwhile.
\<close>

definition wait_until_network_topology_was_created :: "('c, 's, 'w) life_env \<Rightarrow> ('c, 'w, unit) mg" where
  "wait_until_network_topology_was_created env = emodify (run_loop_round env)"

definition raise_run_loop_exception :: "('c, 's, 'w) life_env \<Rightarrow> ('c, 'w, bool) mg" where
  "raise_run_loop_exception env = ebind (eget mg_run_loop) (\<lambda>loop. (case loop of
      Some (Some e) \<Rightarrow> eseq (manager_abort env) (eraise e)
    | _ \<Rightarrow> ereturn False))"

section \<open>Starting a scenario\<close>

text \<open>
  \<open>pre_calculate_hubwifi_distance_matrix\<close>: with a central node and a node, the view of the keys is
  indexed, which raises; otherwise the matrix is empty.
\<close>

definition pre_calculate_hubwifi_distance_matrix :: "emulation_node list \<Rightarrow> ('c, 'w, unit) mg" where
  "pre_calculate_hubwifi_distance_matrix nodes = ebind (eget (\<lambda>s. (sm_distance_matrix_hubwifi (mg_sim s), mg_central s))) (\<lambda>(hub, centrals).
     if hub = [] \<and> centrals \<noteq> [] \<and> nodes \<noteq> [] then eraise TypeError else ereturn ())"

definition str_list :: "json \<Rightarrow> string list res" where
  "str_list v = (case v of JList xs \<Rightarrow> rmap (\<lambda>x. case x of JStr s \<Rightarrow> Inr s | _ \<Rightarrow> Inl AttributeError) xs
    | JNull \<Rightarrow> Inl TypeError | _ \<Rightarrow> Inl TypeError)"

definition int_list :: "json \<Rightarrow> int list res" where
  "int_list v = (case v of JList xs \<Rightarrow> rmap (\<lambda>x. case x of JInt i \<Rightarrow> Inr i | _ \<Rightarrow> Inl ValueError) xs | _ \<Rightarrow> Inl TypeError)"

text \<open>The part of \<open>_start\<close> that runs in the lock; the ids and interface names are those of the scenario.\<close>

definition interfaces_of :: "json \<Rightarrow> interface list res" where
  "interfaces_of names = rbind (str_list names) factory_from_interface_names"

definition create_director :: "('c, 's, 'w) life_env \<Rightarrow> ('c, 'w, unit) mg" where
  "create_director env = ewhen (\<not> le_distributed env)
     (ebind (eget mg_scenario) (\<lambda>scenario.
      ebind (elift (director_factory (le_abspath env) (le_open_arma env) scenario)) (\<lambda>d.
      eseq (in_env (le_make_director env d)) (emodify (\<lambda>s. s\<lparr>mg_director := True\<rparr>)))))"

definition create_snapshots :: "('c, 's, 'w) life_env \<Rightarrow> ('c, 'w, unit) mg" where
  "create_snapshots env = ewhen (le_snapshot_boot env)
     (ebind (eget (\<lambda>s. get_emulation_nodes (mg_sim s))) (\<lambda>ns. in_env (le_snapshots env ns)))"

definition start_components :: "('c, 's, 'w) life_env \<Rightarrow> json \<Rightarrow> json \<Rightarrow> bool \<Rightarrow> ('c, 'w, emulation_node list) mg" where
  "start_components env ids names auto =
     eseq (in_env (le_create_backend env))
     (eseq (emodify (\<lambda>s. s\<lparr>mg_auto_stepping := Some auto\<rparr>))
     (eseq (in_env (le_init_network env))
     (eseq (ebind (elift (interfaces_of names)) (\<lambda>interfaces. in_env (le_start_backend env interfaces)))
     (ebind (ebind (elift (int_list ids)) (\<lambda>ids. in_env (start_nodes env ids))) (\<lambda>nodes.
      ebind (ebind (elift (interfaces_of names)) (\<lambda>interfaces. in_env (le_central_nodes env interfaces))) (\<lambda>centrals.
      eseq (emodify (\<lambda>s. s\<lparr>mg_central := centrals\<rparr>))
      (eseq (pre_calculate_hubwifi_distance_matrix nodes)
      (eseq (emodify (\<lambda>s. s\<lparr>mg_sim := (mg_sim s)\<lparr>sm_nodes := dict_of (map (\<lambda>n. (en_id n, n)) (nodes @ centrals))\<rparr>\<rparr>)) (ereturn nodes)))))))))"

definition start_prepare :: "('c, 's, 'w) life_env \<Rightarrow> json \<Rightarrow> json \<Rightarrow> bool \<Rightarrow> ('c, 'w, emulation_node list) mg" where
  "start_prepare env ids names auto =
     ebind (start_components env ids names auto) (\<lambda>nodes.
     eseq (create_director env) (eseq (create_snapshots env) (ereturn nodes)))"

definition start_locked :: "('c, 's, 'w) life_env \<Rightarrow> json \<Rightarrow> json \<Rightarrow> bool \<Rightarrow> ('c, 'w, emulation_node list) mg" where
  "start_locked env ids names auto = ebind (eget mg_running) (\<lambda>running.
     if running then eraise SimulationStateAlreadyStarted
     else ebind (start_prepare env ids names auto) (\<lambda>nodes. eseq (try_start_run_loop env auto) (ereturn nodes)))"

definition start_simulation :: "('c, 's, 'w) life_env \<Rightarrow> json \<Rightarrow> json \<Rightarrow> bool \<Rightarrow> ('c, 'w, emulation_node list) mg" where
  "start_simulation env ids names auto =
     ebind (start_locked env ids names auto) (\<lambda>nodes.
     eseq (ebind (eget mg_auto_stepping) (\<lambda>a. ewhen (a = Some True) (wait_until_network_topology_was_created env)))
     (eseq (emodify (\<lambda>s. s\<lparr>mg_running := True\<rparr>)) (ereturn nodes)))"

text \<open>The settings \<open>start\<close> reads, in its order; any of them may raise.\<close>

definition read_settings :: "('c, 's, 'w) life_env \<Rightarrow> json \<Rightarrow> (json \<times> json) res" where
  "read_settings env sc =
     rbind (get_local_node_ids sc) (\<lambda>_.
     rbind (rbind (get_number_of_nodes None sc) py_int_json) (\<lambda>_.
     rbind (get_interfaces None sc) (\<lambda>names.
     rbind (get_scenario_name None sc) (\<lambda>_.
     rbind (get_path_image None sc) (\<lambda>_.
     rbind (get_all_shell_commands_pre_network_start (le_script env) None sc) (\<lambda>_.
     rbind (get_network_backend None sc) (\<lambda>_.
     rbind (is_parallel_node_starting None sc) (\<lambda>_.
     rbind (get_local_node_ids sc) (\<lambda>ids.
     rbind (get_link_bandwidth None sc) (\<lambda>_.
     rbind (rbind (get_link_quality_model None sc) (le_import_model env)) (\<lambda>_. Inr (ids, names))))))))))))"

definition start_body :: "('c, 's, 'w) life_env \<Rightarrow> string \<Rightarrow> bool \<Rightarrow> bool \<Rightarrow> ('c, 'w, emulation_node list) mg" where
  "start_body env content auto force_snapshot_boot =
     ebind (eget mg_scenario) (\<lambda>old.
     eseq (\<lambda>s. let (r, d) = set_scenario_config (le_loads env) (le_read env) True content (mg_scenario s)
                in (map_sum id (\<lambda>_. ()) r, s\<lparr>mg_scenario := d\<rparr>))
     (ebind (eget mg_scenario) (\<lambda>new.
     eseq (emodify (\<lambda>s. s\<lparr>mg_scenario_changed := \<not> force_snapshot_boot \<and> le_digest env old \<noteq> le_digest env new\<rparr>))
     (eseq (ewhen auto (in_env (le_extend_events env)))
     (ebind (elift (read_settings env new)) (\<lambda>(ids, names). start_simulation env ids names auto))))))"

text \<open>\<open>start\<close>: every exception aborts and is reported as \<open>SimulationStateStartFailed\<close>.\<close>

definition manager_start :: "('c, 's, 'w) life_env \<Rightarrow> string \<Rightarrow> bool \<Rightarrow> bool \<Rightarrow> ('c, 'w, emulation_node list) mg" where
  "manager_start env content auto force_snapshot_boot s =
     (case start_body env content auto force_snapshot_boot s of
        (Inr nodes, s') \<Rightarrow> (Inr nodes, s')
      | (Inl _, s') \<Rightarrow> eseq (manager_abort env) (eraise SimulationStateStartFailed) s')"

section \<open>Running commands on nodes\<close>

definition exec_node_cmd :: "(emulation_node \<Rightarrow> ('w, string) eff) \<Rightarrow> int option \<Rightarrow> ('c, 'w, (int, string) dict + string) mg" where
  "exec_node_cmd run node_id = (case node_id of
      None \<Rightarrow> ebind (eget (\<lambda>s. get_emulation_nodes (mg_sim s))) (\<lambda>nodes.
        ebind (in_env (executor_map run nodes)) (\<lambda>outs. ereturn (Inl (dict_of (zip (map en_id nodes) outs)))))
    | Some i \<Rightarrow> ebind (eget (\<lambda>s. getitem (sm_nodes (mg_sim s)) i)) (\<lambda>r. ebind (elift r) (\<lambda>n.
        ebind (in_env (run n)) (\<lambda>out. ereturn (Inr out)))))"

section \<open>RPC\<close>

definition requires_simulation_running :: "('c, 'w, 'a) mg \<Rightarrow> ('c, 'w, 'a) mg" where
  "requires_simulation_running f = ebind (eget mg_running) (\<lambda>running. if running then f else eraise ValueError)"

datatype rpc =
    SimulationStart string bool bool
  | SimulationAbort
  | SimulationStep json
  | RunLoopException

text \<open>\<open>node_id_2_int\<close> converts the number of steps; a negative number is an empty range.\<close>

definition rpc_call :: "('c, 's, 'w) life_env \<Rightarrow> rpc \<Rightarrow> ('c, 'w, unit) mg" where
  "rpc_call env call = (case call of
      SimulationStart content auto force \<Rightarrow> eseq (manager_start env content auto force) (ereturn ())
    | SimulationAbort \<Rightarrow> manager_abort env
    | SimulationStep steps \<Rightarrow> requires_simulation_running (ebind (elift (py_int_json steps)) (\<lambda>k s.
        in_sim (sim_step (stepping_env env s) (nat k) None) s))
    | RunLoopException \<Rightarrow> eseq (raise_run_loop_exception env) (ereturn ()))"

section \<open>Lemmas\<close>

lemma yields_ebind_any: "(\<And>x. yields (\<lambda>_. True) (k x) Q) \<Longrightarrow> yields (\<lambda>_. True) (ebind m k) Q"
  by (fastforce simp: yields_def ebind_Inr)

lemma yields_ebind:
  "yields P m R \<Longrightarrow> (\<And>x. yields (R x) (k x) Q) \<Longrightarrow> yields P (ebind m k) Q"
  by (fastforce simp: yields_def ebind_Inr)

lemma yields_keeps: "keeps P m \<Longrightarrow> yields P m (\<lambda>_. P)"
  unfolding keeps_def yields_def by (metis snd_conv)

text \<open>A property that does not depend on the world of the stepping.\<close>

lemma keeps_in_env: "(\<And>s w. P s \<Longrightarrow> P (s\<lparr>mg_sim := (mg_sim s)\<lparr>sm_world := w\<rparr>\<rparr>)) \<Longrightarrow> keeps P (in_env m)"
  by (simp add: keeps_def in_sim_def in_world_def case_prod_beta Let_def)

definition idle :: "('c, 'w) manager \<Rightarrow> bool" where
  "idle s \<longleftrightarrow> \<not> mg_running s \<and> mg_run_loop s = None \<and> cs_reachable (nm_connection_store (mg_sim s))"

lemma idle_in_env: "keeps idle (in_env m)"
  by (rule keeps_in_env) (simp add: idle_def)

lemma idle_emodify:
  "(\<And>s. mg_running (f s) = mg_running s \<and> mg_run_loop (f s) = mg_run_loop s
      \<and> nm_connection_store (mg_sim (f s)) = nm_connection_store (mg_sim s)) \<Longrightarrow> keeps idle (emodify f)"
  by (rule keeps_emodify) (simp add: idle_def)

lemma idle_prepare: "keeps idle (start_prepare env ids names auto)"
  unfolding start_prepare_def start_components_def create_director_def create_snapshots_def pre_calculate_hubwifi_distance_matrix_def case_prod_beta
  by (intro keeps_ebind keeps_elift keeps_eget keeps_ereturn keeps_eraise keeps_if keeps_ewhen idle_in_env idle_emodify) simp_all

definition enabled :: "('c, 's, 'w) life_env \<Rightarrow> ('c, 'w) manager \<Rightarrow> bool" where
  "enabled env s \<longleftrightarrow> mg_director s \<or> le_distributed env"

lemma enabled_prepare: "yields (\<lambda>_. True) (start_prepare env ids names auto) (\<lambda>_. enabled env)"
proof -
  have snaps: "keeps (enabled env) (create_snapshots env)"
    unfolding create_snapshots_def by (intro keeps_ewhen keeps_ebind keeps_eget keeps_in_env) (simp add: enabled_def)
  have "yields (\<lambda>_. True) (create_director env) (\<lambda>_. enabled env)"
    by (auto simp: create_director_def yields_def ewhen_def ereturn_def ebind_Inr emodify_def enabled_def)
  then have "yields (\<lambda>_. True) (eseq (create_director env) (eseq (create_snapshots env) (ereturn nodes))) (\<lambda>_. enabled env)" for nodes
    by (rule yields_ebind) (intro yields_keeps keeps_ebind snaps keeps_ereturn)
  then show ?thesis unfolding start_prepare_def by (rule yields_ebind_any)
qed

text \<open>A started simulation: the run loop exists exactly in the auto-stepping mode.\<close>

definition started_ok :: "('c, 's, 'w) life_env \<Rightarrow> ('c, 'w) manager \<Rightarrow> bool" where
  "started_ok env s \<longleftrightarrow> (mg_run_loop s \<noteq> None \<longleftrightarrow> mg_auto_stepping s = Some True) \<and> mg_auto_stepping s \<noteq> None
     \<and> enabled env s \<and> cs_reachable (nm_connection_store (mg_sim s))"

lemma started_step:
  assumes "started_ok env s" "in_sim (sim_step senv k given) s = (r, s')"
  shows "started_ok env s' \<and> mg_running s' = mg_running s \<and> mg_run_loop s' = mg_run_loop s \<and> mg_auto_stepping s' = mg_auto_stepping s"
proof -
  obtain t where t: "sim_step senv k given (mg_sim s) = (r, t)" "s' = s\<lparr>mg_sim := t\<rparr>"
    using assms(2) by (auto simp: in_sim_def split: prod.splits)
  have "store_reachable t" using keepsD [OF keeps_reachable_step _ t(1)] assms(1) by (simp add: started_ok_def)
  then show ?thesis using assms(1) t(2) by (simp add: started_ok_def enabled_def)
qed

lemma started_round_auto:
  assumes st: "started_ok env s"
  shows "started_ok env (run_loop_round env s) \<and> mg_running (run_loop_round env s) = mg_running s
    \<and> mg_auto_stepping (run_loop_round env s) = mg_auto_stepping s"
proof (cases "mg_run_loop s = Some None")
  case True
  obtain r s' where step: "in_sim (sim_step (stepping_env env s) 1 None) s = (r, s')" by fastforce
  show ?thesis using started_step [OF st step] step True
    by (cases r) (auto simp: run_loop_round_def started_ok_def enabled_def)
qed (use st in \<open>simp add: run_loop_round_def\<close>)

lemmas started_round = started_round_auto [THEN conjunct1]

lemma start_simulation_idle:
  assumes "idle s" "start_simulation env ids names auto s = (r, s')"
  shows "case r of Inl _ \<Rightarrow> \<not> mg_running s' | Inr _ \<Rightarrow> mg_running s' \<and> started_ok env s' \<and> mg_auto_stepping s' = Some auto"
proof -
  have running: "mg_running s = False" using assms(1) by (simp add: idle_def)
  obtain p s1 where p: "start_prepare env ids names auto s = (p, s1)" by fastforce
  have s1: "idle s1" by (rule keepsD [OF idle_prepare assms(1) p])
  show ?thesis
  proof (cases p)
    case (Inl e)
    then show ?thesis using assms(2) running p s1
      by (auto simp: start_simulation_def start_locked_def ebind_def eget_def idle_def)
  next
    case (Inr nodes)
    have en: "enabled env s1" using enabled_prepare p Inr unfolding yields_def by blast
    let ?s2 = "snd (try_start_run_loop env auto s1)"
    have s2: "started_ok env ?s2" "mg_auto_stepping ?s2 = Some auto"
      using s1 en by (auto simp: try_start_run_loop_def emodify_def is_movement_director_enabled_def started_ok_def enabled_def idle_def Let_def)
    let ?s3 = "if auto then run_loop_round env ?s2 else ?s2"
    have s3: "started_ok env ?s3" using s2(1) started_round [OF s2(1)] by (cases auto) simp_all
    have "mg_auto_stepping (run_loop_round env ?s2) = Some auto"
      using s2(2) started_round_auto [OF s2(1)] by simp
    then have "r = Inr nodes \<and> s' = ?s3\<lparr>mg_running := True\<rparr> \<and> mg_auto_stepping ?s3 = Some auto"
      using assms(2) running p Inr s2(2)
      by (auto simp: start_simulation_def start_locked_def ebind_def eget_def ereturn_def ewhen_def emodify_def
          try_start_run_loop_def wait_until_network_topology_was_created_def)
    then show ?thesis using s3 by (auto simp: started_ok_def enabled_def)
  qed
qed


lemma start_simulation_running:
  "mg_running s \<Longrightarrow> start_simulation env ids names auto s = (Inl SimulationStateAlreadyStarted, s)"
  by (simp add: start_simulation_def start_locked_def ebind_def eget_def eraise_def)

text \<open>Before \<open>_start\<close> is called, only the scenario and the world change.\<close>

lemma start_body_cases:
  obtains (early) e s1 where "start_body env content auto force s = (Inl e, s1)"
      "mg_running s1 = mg_running s" "mg_run_loop s1 = mg_run_loop s" "mg_auto_stepping s1 = mg_auto_stepping s"
      "nm_connection_store (mg_sim s1) = nm_connection_store (mg_sim s)"
  | (late) ids names s1 where "start_body env content auto force s = start_simulation env ids names auto s1"
      "mg_running s1 = mg_running s" "mg_run_loop s1 = mg_run_loop s" "mg_auto_stepping s1 = mg_auto_stepping s"
      "nm_connection_store (mg_sim s1) = nm_connection_store (mg_sim s)"
proof -
  let ?same = "\<lambda>s1. mg_running s1 = mg_running s \<and> mg_run_loop s1 = mg_run_loop s \<and> mg_auto_stepping s1 = mg_auto_stepping s
      \<and> nm_connection_store (mg_sim s1) = nm_connection_store (mg_sim s)"
  obtain r d where set: "set_scenario_config (le_loads env) (le_read env) True content (mg_scenario s) = (r, d)" by fastforce
  show thesis
  proof (cases r)
    case (Inl e)
    then show thesis using early set by (simp add: start_body_def ebind_def eget_def)
  next
    case (Inr v)
    let ?s1 = "s\<lparr>mg_scenario := d, mg_scenario_changed := \<not> force \<and> le_digest env (mg_scenario s) \<noteq> le_digest env d\<rparr>"
    obtain r2 s2 where ext: "ewhen auto (in_env (le_extend_events env)) ?s1 = (r2, s2)" by fastforce
    have same: "?same s2"
      using ext by (cases auto) (auto simp: ewhen_def ereturn_def in_sim_def in_world_def split: prod.splits)
    have body: "start_body env content auto force s = (case r2 of Inl e \<Rightarrow> (Inl e, s2)
        | Inr _ \<Rightarrow> ebind (elift (read_settings env d)) (\<lambda>(ids, names). start_simulation env ids names auto) s2)"
      using set Inr ext by (simp add: start_body_def ebind_def eget_def emodify_def split: sum.splits)
    show thesis
    proof (cases r2)
      case (Inl e)
      then show thesis using early same body by simp
    next
      case ext_ok: (Inr u)
      show thesis
      proof (cases "read_settings env d")
        case (Inl e)
        then show thesis using early same body ext_ok by (simp add: ebind_def elift_def)
      next
        case (Inr st)
        then show thesis using late same body ext_ok by (cases st) (simp add: ebind_def elift_def)
      qed
    qed
  qed
qed

section \<open>Every sequence of calls\<close>

definition manager_inv :: "('c, 's, 'w) life_env \<Rightarrow> ('c, 'w) manager \<Rightarrow> bool" where
  "manager_inv env s \<longleftrightarrow> (if mg_running s then started_ok env s
     else idle s \<and> mg_sim s = sim_reset (sm_world (mg_sim s)) \<and> \<not> mg_director s \<and> mg_central s = [])"

lemma reset_inv: "manager_inv env (manager_reset w s)"
  by (simp add: manager_inv_def manager_reset_def idle_def sim_reset_def cs_reachable.intros)

lemma abort_works:
  assumes "mg_running s \<longrightarrow> started_ok env s"
  shows "manager_abort env s = (Inr (), manager_reset (le_gc_reset env (sm_world (mg_sim s))) s)"
  using assms by (auto simp: manager_abort_def started_ok_def)

text \<open>How a start ends: running, or reset with an error.\<close>

lemma start_ends:
  assumes inv: "manager_inv env s" and run: "manager_start env content auto force s = (r, s')"
  shows "(\<exists>nodes. r = Inr nodes \<and> \<not> mg_running s \<and> mg_running s' \<and> started_ok env s' \<and> mg_auto_stepping s' = Some auto)
    \<or> r = Inl SimulationStateStartFailed \<and> (\<exists>w s1. s' = manager_reset w s1)"
proof -
  have fails: "r = Inl SimulationStateStartFailed \<and> (\<exists>w s1. s' = manager_reset w s1)"
    if body: "start_body env content auto force s = (Inl e, s1)" and s1: "mg_running s1 \<longrightarrow> started_ok env s1" for e s1
    using run by (auto simp: manager_start_def body ebind_def abort_works [OF s1] eraise_def)
  show ?thesis
  proof (cases rule: start_body_cases [of env content auto force s])
    case (early e s1)
    have "mg_running s1 \<longrightarrow> mg_auto_stepping s1 = Some True \<longrightarrow> mg_run_loop s1 \<noteq> None"
      using early(2-4) inv by (auto simp: manager_inv_def started_ok_def)
    then have "manager_abort env s1 = (Inr (), manager_reset (le_gc_reset env (sm_world (mg_sim s1))) s1)"
      by (auto simp: manager_abort_def)
    then show ?thesis using run early(1) by (auto simp: manager_start_def ebind_def eraise_def)
  next
    case (late ids names s1)
    show ?thesis
    proof (cases "mg_running s")
      case True
      then have "mg_running s1 \<longrightarrow> mg_auto_stepping s1 = Some True \<longrightarrow> mg_run_loop s1 \<noteq> None"
        using late(2-4) inv by (auto simp: manager_inv_def started_ok_def)
      then have "manager_abort env s1 = (Inr (), manager_reset (le_gc_reset env (sm_world (mg_sim s1))) s1)"
        by (auto simp: manager_abort_def)
      then show ?thesis using run late True start_simulation_running [of s1 env ids names auto]
        by (auto simp: manager_start_def ebind_def eraise_def)
    next
      case False
      then have idle: "idle s1" using inv late by (simp add: manager_inv_def idle_def)
      obtain p s2 where p: "start_simulation env ids names auto s1 = (p, s2)" by fastforce
      show ?thesis
      proof (cases p)
        case (Inl e)
        then have "\<not> mg_running s2" using start_simulation_idle [OF idle p] by simp
        then show ?thesis using fails [of e s2] late(1) p Inl by simp
      next
        case (Inr nodes)
        have "r = Inr nodes" "s' = s2" using run late(1) p Inr by (simp_all add: manager_start_def)
        then show ?thesis using start_simulation_idle [OF idle p] Inr False by simp
      qed
    qed
  qed
qed


inductive manager_reachable :: "('c, 's, 'w) life_env \<Rightarrow> ('c, 'w) manager \<Rightarrow> bool" for env where
  fresh: "manager_reachable env (manager_init scenario w)"
| call: "manager_reachable env s \<Longrightarrow> manager_reachable env (snd (rpc_call env c s))"
| round: "manager_reachable env s \<Longrightarrow> manager_reachable env (run_loop_round env s)"

lemma inv_started: "manager_inv env s \<Longrightarrow> mg_running s \<longrightarrow> started_ok env s"
  by (simp add: manager_inv_def)

lemma inv_abort: "manager_inv env s \<Longrightarrow> manager_inv env (snd (manager_abort env s))"
  using abort_works [OF inv_started] reset_inv by (metis snd_conv)

lemma inv_start: "manager_inv env s \<Longrightarrow> manager_inv env (snd (manager_start env content auto force s))"
proof -
  assume inv: "manager_inv env s"
  obtain r s' where start: "manager_start env content auto force s = (r, s')" by fastforce
  from start_ends [OF inv start] show ?thesis
  proof
    assume "\<exists>nodes. r = Inr nodes \<and> \<not> mg_running s \<and> mg_running s' \<and> started_ok env s' \<and> mg_auto_stepping s' = Some auto"
    then show ?thesis using start by (simp add: manager_inv_def)
  next
    assume "r = Inl SimulationStateStartFailed \<and> (\<exists>w s1. s' = manager_reset w s1)"
    then show ?thesis using start by (auto simp: reset_inv)
  qed
qed

lemma inv_step:
  assumes "manager_inv env s" "mg_running s"
  shows "manager_inv env (snd (in_sim (sim_step senv k given) s))"
proof -
  obtain r s' where step: "in_sim (sim_step senv k given) s = (r, s')" by fastforce
  have "started_ok env s" using assms by (simp add: manager_inv_def)
  from started_step [OF this step] show ?thesis using assms(2) step by (simp add: manager_inv_def)
qed

lemma inv_call:
  assumes inv: "manager_inv env s"
  shows "manager_inv env (snd (rpc_call env c s))"
proof (cases c)
  case (SimulationStart content auto force)
  obtain r s' where start: "manager_start env content auto force s = (r, s')" by fastforce
  then have "snd (rpc_call env c s) = s'" by (cases r) (simp_all add: SimulationStart rpc_call_def ebind_def ereturn_def)
  then show ?thesis using inv_start [OF inv, of content auto force] start by simp
next
  case SimulationAbort
  then show ?thesis using inv_abort [OF inv] by (simp add: rpc_call_def)
next
  case (SimulationStep steps)
  show ?thesis
  proof (cases "py_int_json steps")
    case (Inl e)
    then show ?thesis using inv
      by (simp add: SimulationStep rpc_call_def requires_simulation_running_def ebind_def eget_def elift_def eraise_def)
  next
    case (Inr k)
    then show ?thesis using inv inv_step [OF inv, of "stepping_env env s" "nat k" None]
      by (cases "mg_running s")
        (simp_all add: SimulationStep rpc_call_def requires_simulation_running_def ebind_def eget_def elift_def eraise_def)
  qed
next
  case RunLoopException
  have abort: "manager_abort env s = (Inr (), snd (manager_abort env s))"
    using abort_works [OF inv_started [OF inv]] by simp
  show ?thesis using inv inv_abort [OF inv] abort
    by (auto simp: RunLoopException rpc_call_def raise_run_loop_exception_def ebind_def eget_def ereturn_def eraise_def
        split: option.splits prod.splits)
qed

lemma inv_round:
  assumes "manager_inv env s"
  shows "manager_inv env (run_loop_round env s)"
proof (cases "mg_running s")
  case True
  then show ?thesis using started_round_auto [of env s] assms by (simp add: manager_inv_def)
next
  case False
  then show ?thesis using assms by (simp add: manager_inv_def idle_def run_loop_round_def)
qed

lemma reachable_inv: "manager_reachable env s \<Longrightarrow> manager_inv env s"
  by (induction rule: manager_reachable.induct) (simp_all add: inv_call inv_round manager_init_def reset_inv)

section \<open>Properties\<close>



definition ex_life_scenario :: json where
  "ex_life_scenario = JObj [(''cnt_nodes'', JInt 1), (''provisioning'', JObj [(''image'', JStr ''openwrt.img'')]),
     (''network'', JObj [(''backend'', JObj [(''name'', JStr ''bridged'')]), (''links'', JObj [(''interfaces'', JList [JStr ''mesh''])])])]"

definition ex_life_env :: "(nat, unit, unit) life_env" where
  "ex_life_env = \<lparr>le_sim = ex_sim_env, le_loads = (\<lambda>_. Inr ex_life_scenario), le_read = (\<lambda>_. Inl IOError), le_digest = (\<lambda>_. ''''),
     le_script = (\<lambda>_. Inl IOError), le_abspath = (\<lambda>s. s), le_open_arma = (\<lambda>_. Inr ()), le_import_model = (\<lambda>_. Inr ()),
     le_distributed = False, le_snapshot_boot = False, le_extend_events = ereturn (), le_create_backend = ereturn (),
     le_init_network = ereturn (), le_start_backend = (\<lambda>_. ereturn ()), le_init_events = (\<lambda>_. ereturn ()),
     le_start_node = (\<lambda>i. ereturn (ex_mesh_node i)), le_management = (\<lambda>_. ereturn ()), le_central_nodes = (\<lambda>_. ereturn []),
     le_make_director = (\<lambda>_. ereturn ()), le_snapshots = (\<lambda>_. ereturn ()), le_gc_reset = (\<lambda>w. w)\<rparr>"

definition ex_running :: "(nat, unit) manager" where
  "ex_running = snd (rpc_call ex_life_env (SimulationStart ''{}'' False False) (manager_init (JObj []) ()))"

lemma ex_running_runs: "mg_running ex_running" by code_simp

lemma ex_running_reachable: "manager_reachable ex_life_env ex_running"
  unfolding ex_running_def by (intro manager_reachable.intros)



end
