(* ===== verification/Backends.thy ===== *)
theory Backends
  imports Core_Topology
begin

text \<open>
  Glue around the backends: which classes make up the network backend of a scenario
  (\<open>model/network/backends/NetworkBackends.py\<close>, \<open>NetworkBackendBootStrapper.py\<close>), the connections a
  static backend knows beforehand (\<open>NetworkBackendStatic.py\<close>), the nodes of the walking directors and
  their distance matrix (\<open>model/spatial/Nodes.py\<close>), the scenario of the command line
  (\<open>util/CliUtil.py\<close>) and the text of exceptions with a cause (\<open>errors/WrapperException.py\<close>).
\<close>

section \<open>Choice of the backend\<close>

datatype tool = Iproute2 | Brctl | Pyroute2

datatype tunnel_type = VLANTunnel | GreTapTunnel | VXLanTunnel

datatype node_backend = NodeBackendVDE | NodeBackend | NodeBackendMultiDevice

datatype machine_type = QemuVDE | QemuTap

datatype configurator_type = SameSubnet | P2P

text \<open>
  \<open>NetworkBackendBootStrapper\<close>: the fields that differ between backends. \<open>None\<close> as a tool stands for the
  classes of VDE. The connections of \<open>brctl\<close> are those of \<open>iproute2\<close>.
\<close>

record boot_strapper =
  bs_network_backend :: "tool option"
  bs_node_backend :: node_backend
  bs_machine :: machine_type
  bs_connection :: "tool option"
  bs_switch :: "tool option"
  bs_configurator :: configurator_type
  bs_tunnel :: "tunnel_type option"

definition tunnel_factory :: "json \<Rightarrow> tunnel_type option res" where
  "tunnel_factory sc =
     rbind (is_network_backend_bridged_distributed_mode_vlan sc) (\<lambda>vlan.
     if vlan then Inr (Some VLANTunnel)
     else rbind (is_network_backend_bridged_distributed_mode_gretap sc) (\<lambda>gretap.
     if gretap then Inr (Some GreTapTunnel)
     else rbind (is_network_backend_bridged_distributed_mode_vxlan sc) (\<lambda>vxlan.
     if vxlan then Inr (Some VXLanTunnel) else Inr None)))"

definition boot_strapper_backend_bridged :: "json \<Rightarrow> tool \<Rightarrow> tool \<Rightarrow> boot_strapper res" where
  "boot_strapper_backend_bridged sc tool connection =
     rbind (tunnel_factory sc) (\<lambda>tunnel.
     rbind (is_network_backend_bridged_connection_mode_single sc) (\<lambda>single.
     Inr \<lparr>bs_network_backend = Some tool, bs_node_backend = (if single then NodeBackend else NodeBackendMultiDevice),
       bs_machine = QemuTap, bs_connection = Some connection, bs_switch = Some tool, bs_configurator = P2P, bs_tunnel = tunnel\<rparr>))"

definition get_network_backend_bootstrapper_for_string :: "json \<Rightarrow> json \<Rightarrow> boot_strapper res" where
  "get_network_backend_bootstrapper_for_string sc name =
     (if name = JStr ''vde'' then
        Inr \<lparr>bs_network_backend = None, bs_node_backend = NodeBackendVDE, bs_machine = QemuVDE, bs_connection = None,
          bs_switch = None, bs_configurator = SameSubnet, bs_tunnel = None\<rparr>
      else if name = JStr ''bridged'' then
        rbind (is_network_backend_bridged_execution_mode_iproute2 sc) (\<lambda>iproute2.
        if iproute2 then boot_strapper_backend_bridged sc Iproute2 Iproute2
        else rbind (is_network_backend_bridged_execution_mode_brctl sc) (\<lambda>brctl.
        if brctl then boot_strapper_backend_bridged sc Brctl Iproute2
        else rbind (is_network_backend_bridged_execution_mode_pyroute2 sc) (\<lambda>pyroute2.
        if pyroute2 then boot_strapper_backend_bridged sc Pyroute2 Pyroute2 else Inl ValueError)))
      else Inl NetworkBackendUnknown)"

definition get_current_network_backend_bootstrapper :: "json \<Rightarrow> boot_strapper res" where
  "get_current_network_backend_bootstrapper sc = rbind (get_network_backend None sc) (get_network_backend_bootstrapper_for_string sc)"

section \<open>Static connections\<close>

text \<open>\<open>get_all_connections\<close> reads the files once; \<open>parse\<close> opens and parses the file of a scenario.\<close>

definition add_connections :: "lan \<Rightarrow> (int, int list) dict \<Rightarrow> (int, int list) dict" where
  "add_connections lan all = fold (\<lambda>(k, vs) all. dset all k (foldl oset_add (ddget_set all k) vs)) lan all"

definition get_all_connections :: "('f \<Rightarrow> lan res) \<Rightarrow> 'f list res \<Rightarrow> (int, int list) dict option \<Rightarrow> (int, int list) dict res \<times> (int, int list) dict option" where
  "get_all_connections parse core_scenarios cached = (case cached of
      Some c \<Rightarrow> (Inr c, cached)
    | None \<Rightarrow> (case rbind core_scenarios (rmap parse) of
        Inl e \<Rightarrow> (Inl e, None)
      | Inr lans \<Rightarrow> (let all = to_fully_staffed_matrix (fold add_connections lans []) in (Inr all, Some all))))"

section \<open>Walking nodes\<close>

text \<open>
  \<open>Nodes.__init__\<close> numbers the nodes from 0 over all types; a node gets its position within its type as
  its own id. Types are given in the order of the dictionary.
\<close>

datatype walker = DefaultNode nat | MoveOnBigStreetsNode nat | ArmaNode nat | ReplayNode nat

definition get_node_for_name :: "string \<Rightarrow> nat \<Rightarrow> walker" where
  "get_node_for_name name i =
     (if name = ''RandomWalk'' then DefaultNode i
      else if name = ''MoveOnBigStreets'' then MoveOnBigStreetsNode i
      else if name = ''Arma'' then ArmaNode i
      else if name = ''Replay'' then ReplayNode i
      else DefaultNode i)"

definition nodes_init :: "(string \<times> nat) list \<Rightarrow> (int, walker) dict" where
  "nodes_init types = map (\<lambda>(i, w). (int i, w))
     (enumerate 0 (concat (map (\<lambda>(name, number). map (get_node_for_name name) [0..<number]) types)))"

text \<open>\<open>get_distance_matrix\<close>; \<open>metres\<close> is the distance of two nodes, computed by a library.\<close>

definition walker_distances :: "(walker \<Rightarrow> walker \<Rightarrow> rat) \<Rightarrow> (int, walker) dict \<Rightarrow> int \<Rightarrow> distance_matrix res" where
  "walker_distances dist_m nodes number =
     rfold (\<lambda>n. rfold (\<lambda>i m. rbind (getitem nodes n) (\<lambda>a. rbind (getitem nodes i) (\<lambda>b.
         Inr (set_distance (n + 1) (i + 1) (dist_m a b) m)))) [n + 1..number - 1])
       [0..number - 2] []"

section \<open>Command line\<close>

text \<open>
  \<open>parse_scenario_config\<close>. Without a customisation the name \<open>custom_scenario\<close> is not bound in the
  \<open>return\<close>, an \<open>UnboundLocalError\<close>, which is a \<open>NameError\<close>.
\<close>

datatype cli_error = Raised py_error | UnboundLocal

definition parse_scenario_config ::
  "(string \<Rightarrow> json res) \<Rightarrow> (string \<Rightarrow> string res) \<Rightarrow> string \<Rightarrow> string \<Rightarrow> cli_error + (json \<times> json)" where
  "parse_scenario_config loads read path customize =
     (case (if path = [] then Inr (JStr []) else read_json_config loads read False path) of
        Inl e \<Rightarrow> Inl (Raised e)
      | Inr sc \<Rightarrow>
          if customize = '''' then Inl UnboundLocal
          else (case read_json_config loads read True customize of
              Inl e \<Rightarrow> Inl (Raised (if e = ValueError then ConfigMalformed else e))
            | Inr custom \<Rightarrow> Inr (merge_recursive_in_place sc custom, custom)))"

section \<open>Exceptions\<close>

text \<open>An exception with its class, its message and, for a \<open>WrapperException\<close>, its cause.\<close>

datatype exception =
    Plain string string
  | Wrapper string "string option" string "exception option"

fun exception_str :: "exception \<Rightarrow> string" where
  "exception_str (Plain cls msg) = msg"
| "exception_str (Wrapper cls msg default_msg caused_by) =
     (let base = cls @ '': '' @ (case msg of Some m \<Rightarrow> m | None \<Rightarrow> default_msg) in
      (case caused_by of
         None \<Rightarrow> base
       | Some (Plain c m) \<Rightarrow> base @ [CHR 0x0A, CHR 0x09] @ ''Caused by: '' @ c @ '': '' @ m
       | Some (Wrapper c m d b) \<Rightarrow> base @ [CHR 0x0A, CHR 0x09] @ ''Caused by: '' @ exception_str (Wrapper c m d b)))"

section \<open>Lemmas\<close>

text \<open>
  Whenever the modes of the bridged backend can be read, its classes are determined, with a kind of
  tunnel: the branch for an unknown execution mode is not reached.
\<close>

lemma tunnel_chosen:
  assumes "get_network_backend_bridged_distributed_mode None sc = Inr t"
  shows "\<exists>tt. tunnel_factory sc = Inr (Some tt)"
  using distributed_mode_exclusive [OF assms] by (auto simp: exactly_one_def tunnel_factory_def split: if_splits)

lemma bridged_backend_chosen:
  assumes "get_network_backend_bridged_execution_mode None sc = Inr e" "get_network_backend_bridged_distributed_mode None sc = Inr t"
    "get_network_backend_bridged_connection_mode None sc = Inr c"
  shows "\<exists>b. get_network_backend_bootstrapper_for_string sc (JStr ''bridged'') = Inr b \<and> bs_tunnel b \<noteq> None \<and> bs_configurator b = P2P"
proof -
  obtain tt where "tunnel_factory sc = Inr (Some tt)" using tunnel_chosen [OF assms(2)] by blast
  then have "\<exists>b. boot_strapper_backend_bridged sc tool con = Inr b \<and> bs_tunnel b \<noteq> None \<and> bs_configurator b = P2P" for tool con
    by (simp add: boot_strapper_backend_bridged_def is_network_backend_bridged_connection_mode_single_def assms(3))
  then show ?thesis using execution_mode_exclusive [OF assms(1)]
    by (auto simp: exactly_one_def get_network_backend_bootstrapper_for_string_def split: if_splits)
qed

text \<open>The nodes are numbered without gaps, and the matrix of the director is the upper triangle over them.\<close>

lemma nodes_init_keys: "map fst (nodes_init types) = map int [0..<sum_list (map snd types)]"
proof -
  have "length (concat (map (\<lambda>(name, number). map (get_node_for_name name) [0..<number]) types)) = sum_list (map snd types)"
    by (induction types) auto
  moreover have "map fst (map (\<lambda>(i, w). (int i, w)) (enumerate 0 xs)) = map int [0..<length xs]" for xs :: "walker list"
    by (rule nth_equalityI) (auto simp: nth_enumerate_eq case_prod_beta)
  ultimately show ?thesis by (simp only: nodes_init_def)
qed

lemma nodes_init_total:
  assumes "0 \<le> n" "n < int (sum_list (map snd types))"
  shows "\<exists>w. dget (nodes_init types) n = Some w"
proof -
  have "n \<in> set (map fst (nodes_init types))" using assms by (simp add: nodes_init_keys image_iff) (metis atLeastLessThan_iff nat_0_le of_nat_0_le_iff of_nat_less_iff le0)
  then have "dget (nodes_init types) n \<noteq> None" using dget_None_iff [of "nodes_init types" n] by force
  then show ?thesis by blast
qed

lemma rfold_cong: "(\<And>x d. x \<in> set xs \<Longrightarrow> f x d = g x d) \<Longrightarrow> rfold f xs d = rfold g xs d"
  by (induction xs arbitrary: d) (auto simp: rbind_def split: sum.splits)

lemma walker_matrix:
  assumes "number \<le> int (sum_list (map snd types))"
  shows "\<exists>m. walker_distances dist_m (nodes_init types) number = Inr m
    \<and> (\<forall>x y. dget m (x, y) \<noteq> None \<longleftrightarrow> 1 \<le> x \<and> x < y \<and> y \<le> number)"
proof -
  let ?node = "\<lambda>n. the (dget (nodes_init types) n)"
  let ?put = "\<lambda>n i m. dset m (n + 1, i + 1) (dist_m (?node n) (?node i))"
  have item: "getitem (nodes_init types) n = Inr (?node n)" if "0 \<le> n" "n < number" for n
    using nodes_init_total [of n types] that assms by (auto simp: getitem_def)
  have row: "rfold (\<lambda>i m. rbind (getitem (nodes_init types) n) (\<lambda>a. rbind (getitem (nodes_init types) i) (\<lambda>b.
      Inr (set_distance (n + 1) (i + 1) (dist_m a b) m)))) [n + 1..number - 1] m = Inr (fold (?put n) [n + 1..number - 1] m)"
    if "n \<in> set [0..number - 2]" for n m
    using that item [of n] item by (subst rfold_Inr [symmetric, THEN fun_cong], intro rfold_cong) (auto simp: set_distance_def dm_get_key_def)
  have "walker_distances dist_m (nodes_init types) number = rfold (\<lambda>n m. Inr (fold (?put n) [n + 1..number - 1] m)) [0..number - 2] []"
    unfolding walker_distances_def using row by (intro rfold_cong) auto
  then have run: "walker_distances dist_m (nodes_init types) number = Inr (fold (\<lambda>n. fold (?put n) [n + 1..number - 1]) [0..number - 2] [])"
    by (simp add: rfold_Inr)
  have entries: "dget (fold (?put n) is m) (x, y) \<noteq> None \<longleftrightarrow> (x = n + 1 \<and> y - 1 \<in> set is) \<or> dget m (x, y) \<noteq> None" for n "is" m x y
    by (induction "is" arbitrary: m) (auto simp: kget_kset)
  have "dget (fold (\<lambda>n. fold (?put n) [n + 1..number - 1]) ns m) (x, y) \<noteq> None
      \<longleftrightarrow> (x - 1 \<in> set ns \<and> x < y \<and> y \<le> number) \<or> dget m (x, y) \<noteq> None" for ns m x y
  proof (induction ns arbitrary: m)
    case (Cons a ns)
    show ?case by (simp only: fold_simps Cons.IH entries) auto
  qed simp
  from this [of "[0..number - 2]" "[]"] show ?thesis using run by auto
qed

end
