(* ===== verification/Node_Start.thy ===== *)
theory Node_Start
  imports Lifecycle Backends Event_System Ip_Networks
begin

text \<open>
  How a node is started: \<open>EmulationNode.factory\<close>, \<open>_start\<close> and the shell commands around the network
  set-up (\<open>model/emulation/nodes/EmulationNode.py\<close>), the configuration of the interfaces
  (\<open>EmulationNodeNetworkBackend.py\<close>), the parts of \<open>NodeStarter\<close> that \<open>Lifecycle\<close> takes as parameters
  (\<open>_start_node\<close>, \<open>nodes_not_ready\<close>, \<open>start_management_node\<close>) and the management node of the
  two backends. The machine and its console, the node's own switches and the bridge of a virtual node are
  operations on a world.
\<close>

section \<open>Addresses of interfaces\<close>

text \<open>
  \<open>subnet_for_type\<close>: the types are a set, whose order is a parameter. The management network is fixed.
\<close>

definition subnet_for_type :: "iface_type list \<Rightarrow> (iface_type, ipv4_network) dict res" where
  "subnet_for_type types =
     rbind (get_slash_x (subnets \<lparr>network_address = 10 * 2 ^ 24, prefixlen = 8\<rparr>) 24) (\<lambda>nets.
       Inr (dset (dict_of (zip types nets)) Management \<lparr>network_address = 172 * 2 ^ 24 + 21 * 2 ^ 16, prefixlen = 16\<rparr>))"

definition get_ip_network :: "iface_type list \<Rightarrow> interface \<Rightarrow> ipv4_network res" where
  "get_ip_network types i = rbind (subnet_for_type types) (\<lambda>nets. getitem nets (if_type i))"

definition interface_get_ip :: "iface_type list \<Rightarrow> interface \<Rightarrow> int \<Rightarrow> nat res" where
  "interface_get_ip types i node_id = rbind (get_ip_network types i) (\<lambda>net. net_getitem net node_id)"

definition interface_get_netmask :: "iface_type list \<Rightarrow> interface \<Rightarrow> nat res" where
  "interface_get_netmask types i = rbind (get_ip_network types i) (\<lambda>net. Inr (netmask net))"

section \<open>State and environment\<close>

record 'w boot =
  bo_events :: event_system
  bo_running :: "int list"
  bo_world :: 'w

record 'w boot_env =
  be_config :: json
  be_scenario :: json
  be_read :: "json \<Rightarrow> string res"
  be_types :: "iface_type list"
  be_connections :: "(int, int list) dict"
  be_mixin_start :: "emulation_node \<Rightarrow> ('w, unit) eff"
  be_vm_start :: "int \<Rightarrow> string \<Rightarrow> ('w, unit) eff"
  be_run_commands :: "int \<Rightarrow> string \<Rightarrow> ('w, unit) eff"
  be_after_pre :: "emulation_node \<Rightarrow> ('w, unit) eff"
  be_switch_start :: "emulation_node \<Rightarrow> interface \<Rightarrow> bool \<Rightarrow> string \<Rightarrow> ('w, unit) eff"

type_synonym ('w, 'a) bt = "('w boot, 'a) eff"

definition boot_world :: "('w, 'a) eff \<Rightarrow> ('w, 'a) bt" where
  "boot_world m s = (let (r, w) = m (bo_world s) in (r, s\<lparr>bo_world := w\<rparr>))"

definition boot_events :: "(event_system \<Rightarrow> 'a res \<times> event_system) \<Rightarrow> ('w, 'a) bt" where
  "boot_events m s = (let (r, e) = m (bo_events s) in (r, s\<lparr>bo_events := e\<rparr>))"

text \<open>A value of the configuration that is formatted into a command.\<close>

definition str_value :: "json \<Rightarrow> string res" where
  "str_value v = (case v of JStr s \<Rightarrow> Inr s | _ \<Rightarrow> Inl TypeError)"

section \<open>Creation\<close>

text \<open>
  \<open>EmulationNode.factory\<close> with the constructor of the node's network backend; the class on which
  \<open>factory\<close> is called plays no role. The interfaces are those of the network backend.
\<close>

definition emulation_node_factory :: "'w boot_env \<Rightarrow> int \<Rightarrow> emulation_node res" where
  "emulation_node_factory env i =
     rbind (rbind (get_interfaces (Some i) (be_scenario env)) interfaces_of) (\<lambda>interfaces.
     rbind (get_network_backend None (be_scenario env)) (\<lambda>name.
     rbind (get_network_backend_bootstrapper_for_string (be_scenario env) name) (\<lambda>bs.
     rbind (is_management_switch_enabled None (be_config env)) (\<lambda>mgmt.
       emulation_node_init RealNode (PyInt i)
         (if bs_node_backend bs = NodeBackendMultiDevice then adjust_interfaces_to_number_of_links (be_connections env) i interfaces
          else interfaces) (truthy mgmt)))))"

text \<open>
  \<open>all_nodes_id_mapping\<close> of the distributed managers: the nodes of all servers, created on the
  first use and kept until a reset; and the lookup of a node that may be on another server.
\<close>

definition all_nodes_id_mapping ::
  "'w boot_env \<Rightarrow> (int, emulation_node) dict \<Rightarrow> (int, emulation_node) dict res \<times> (int, emulation_node) dict" where
  "all_nodes_id_mapping env cache = (if cache \<noteq> [] then (Inr cache, cache) else
     case rbind (get_current_network_backend_bootstrapper (be_scenario env)) (\<lambda>_.
          rbind (rbind (rbind (get_number_of_nodes None (be_scenario env)) range_from_1) int_list)
            (rmap (\<lambda>i. rbind (emulation_node_factory env i) (\<lambda>n. Inr (i, n))))) of
       Inl e \<Rightarrow> (Inl e, cache) | Inr d \<Rightarrow> (Inr d, d))"

definition distributed_get_emulation_node_for_idx ::
  "'w boot_env \<Rightarrow> (int, emulation_node) dict \<Rightarrow> (int, emulation_node) dict \<Rightarrow> int \<Rightarrow> emulation_node res \<times> (int, emulation_node) dict" where
  "distributed_get_emulation_node_for_idx env local_nodes cache i = (case dget local_nodes i of
      Some n \<Rightarrow> (Inr n, cache)
    | None \<Rightarrow> let (r, cache) = all_nodes_id_mapping env cache in (rbind r (\<lambda>all. getitem all i), cache))"

section \<open>Network configuration of a node\<close>

definition get_cmd_rename_mgmt_interface :: "string \<Rightarrow> string \<Rightarrow> string" where
  "get_cmd_rename_mgmt_interface mgmt_iface iface_prefix =
     [CHR 0x0A] @ ''# name management interface'' @ [CHR 0x0A]
     @ ''last_eth=$(ls -1 /sys/class/net/|grep '' @ iface_prefix @ ''|tail -n 1)'' @ [CHR 0x0A]
     @ ''ip link set name '' @ mgmt_iface @ '' $last_eth'' @ [CHR 0x0A]
     @ ''ifconfig '' @ mgmt_iface @ '' up'' @ [CHR 0x0A]"

definition ip_change_cmd :: "iface_type list \<Rightarrow> string \<Rightarrow> interface \<Rightarrow> int \<Rightarrow> string res" where
  "ip_change_cmd types dev i node_id =
     rbind (interface_get_ip types i node_id) (\<lambda>ip. rbind (interface_get_netmask types i) (\<lambda>nmask.
     Inr (get_ip_addr_change_cmd dev ip nmask True)))"

text \<open>
  \<open>_nic_ipv4_config\<close>, which no class of the program calls, and \<open>_nic_mgmt_ipv4_config\<close>.
\<close>

definition nic_ipv4_config_all :: "'w boot_env \<Rightarrow> emulation_node \<Rightarrow> ('w, unit) eff" where
  "nic_ipv4_config_all env n = efor (filter_normal_interfaces (en_interfaces n)) (\<lambda>i.
     ebind (elift (rbind (get_network_links_nic_prefix None (be_scenario env)) str_value)) (\<lambda>nic.
     ebind (elift (ip_change_cmd (be_types env)
         (nic @ nat_dec (length (takeWhile (\<lambda>j. \<not> interface_eq j i) (en_interfaces n)))) i (en_id n))) (\<lambda>cmd.
     be_run_commands env (en_id n) cmd)))"

definition nic_mgmt_ipv4_config :: "'w boot_env \<Rightarrow> emulation_node \<Rightarrow> ('w, unit) eff" where
  "nic_mgmt_ipv4_config env n = efor (filter_mgmt (en_interfaces n)) (\<lambda>i.
     ebind (elift (rbind (get_bridge_tap_name None (be_config env)) str_value)) (\<lambda>dev.
     ebind (elift (ip_change_cmd (be_types env) dev i (en_id n))) (\<lambda>cmd.
     be_run_commands env (en_id n) cmd)))"

text \<open>\<open>nic_ipv4_config\<close> is empty in every class.\<close>

definition do_network_config_after_pre_shell_commands :: "'w boot_env \<Rightarrow> emulation_node \<Rightarrow> ('w, unit) eff" where
  "do_network_config_after_pre_shell_commands env n =
     ebind (elift (is_management_switch_enabled None (be_config env))) (\<lambda>mgmt.
     ewhen (truthy mgmt)
       (ebind (elift (rbind (get_bridge_tap_name None (be_config env)) str_value)) (\<lambda>dev.
        ebind (elift (rbind (get_network_links_nic_prefix None (be_scenario env)) str_value)) (\<lambda>nic.
        eseq (be_run_commands env (en_id n) (get_cmd_rename_mgmt_interface dev nic))
             (nic_mgmt_ipv4_config env n)))))"

section \<open>Starting a node\<close>

text \<open>\<open>with es.event_no_init(event, finish_ids=ids): body\<close> around an operation on the whole state.\<close>

definition with_event :: "string \<Rightarrow> int list \<Rightarrow> ('w, unit) bt \<Rightarrow> ('w, unit) bt" where
  "with_event event ids body =
     eseq (boot_events (event_start event [])) (eseq body (boot_events (event_finish event ids)))"

definition PRE_COMMANDS :: string where "PRE_COMMANDS = ''vm_shell_pre_network_commands''"
definition POST_COMMANDS :: string where "POST_COMMANDS = ''vm_shell_post_network_commands''"

definition run_pre_network_shell_commands :: "'w boot_env \<Rightarrow> emulation_node \<Rightarrow> string option \<Rightarrow> ('w, unit) eff" where
  "run_pre_network_shell_commands env n script =
     (if is_virtual_node n then ereturn ()
      else case script of None \<Rightarrow> ereturn () | Some s \<Rightarrow> be_run_commands env (en_id n) s)"

definition run_post_network_shell_commands :: "'w boot_env \<Rightarrow> emulation_node \<Rightarrow> ('w, unit) bt" where
  "run_post_network_shell_commands env n =
     (if is_virtual_node n then ereturn ()
      else with_event POST_COMMANDS [en_id n] (boot_world
        (ebind (elift (get_all_shell_commands_post_network_start (be_read env) (Some (en_id n)) (be_scenario env))) (\<lambda>commands.
         ewhen (commands \<noteq> []) (be_run_commands env (en_id n) commands)))))"

definition emulation_node_start :: "'w boot_env \<Rightarrow> string \<Rightarrow> string option \<Rightarrow> emulation_node \<Rightarrow> ('w, unit) bt" where
  "emulation_node_start env img script n =
     eseq (boot_world (be_mixin_start env n))
     (eseq (boot_world (be_vm_start env (en_id n) img))
     (eseq (with_event PRE_COMMANDS [en_id n] (boot_world (run_pre_network_shell_commands env n script)))
     (eseq (boot_world (be_after_pre env n))
           (boot_world (do_network_config_after_pre_shell_commands env n)))))"

text \<open>\<open>NodeStarter._start_node\<close>: every node has a copy of the script.\<close>

definition start_node :: "'w boot_env \<Rightarrow> string \<Rightarrow> string \<Rightarrow> int \<Rightarrow> ('w, emulation_node) bt" where
  "start_node env img script i =
     ebind (elift (emulation_node_factory env i)) (\<lambda>n.
     eseq (emulation_node_start env img (Some script) n)
     (eseq (emodify (\<lambda>s. s\<lparr>bo_running := bo_running s @ [en_id n]\<rparr>)) (ereturn n)))"

definition nodes_not_ready :: "int list \<Rightarrow> 'w boot \<Rightarrow> int set" where
  "nodes_not_ready node_ids s = set node_ids - set (bo_running s)"

section \<open>Virtual nodes\<close>

text \<open>
  \<open>VirtualNodeNetworkBackend\<close>: one switch for every interface, in a dict from interfaces to switches.
  A management node has its management interface twice when the management switch is enabled.
\<close>

definition switch_interfaces :: "interface list \<Rightarrow> interface list" where
  "switch_interfaces ifs = map fst (foldl (\<lambda>d i. kset eq__comp_attrs d i ()) [] ifs)"

text \<open>\<open>VirtualNode._start\<close>; the node's switch is the first one.\<close>

definition virtual_node_start :: "'w boot_env \<Rightarrow> bool \<Rightarrow> string \<Rightarrow> emulation_node \<Rightarrow> ('w, interface) eff" where
  "virtual_node_start env switch bridge_dev_name n =
     eseq (efor (switch_interfaces (en_interfaces n)) (\<lambda>i. be_switch_start env n i switch bridge_dev_name))
     (case switch_interfaces (en_interfaces n) of [] \<Rightarrow> eraise StopIteration | i # _ \<Rightarrow> ereturn i)"

text \<open>\<open>ManagementNodeVDE\<close> takes the name of the management device, a string, for its id.\<close>

definition create_management_node :: "'w boot_env \<Rightarrow> boot_strapper \<Rightarrow> emulation_node res" where
  "create_management_node env bs =
     rbind (is_management_switch_enabled None (be_config env)) (\<lambda>mgmt.
     if bs_node_backend bs = NodeBackendVDE then
       rbind (rbind (get_bridge_tap_name None (be_config env)) str_value) (\<lambda>dev. management_node_init (Some (PyStr dev)) (truthy mgmt))
     else management_node_init None (truthy mgmt))"

definition start_management_node ::
  "'w boot_env \<Rightarrow> ('c, 's, 'w boot) sim_env \<Rightarrow> emulation_node list \<Rightarrow> (('c, 'w boot) sim, emulation_node option) eff" where
  "start_management_node env senv nodes =
     ebind (elift (get_current_network_backend_bootstrapper (be_scenario env))) (\<lambda>bs.
     ebind (elift (is_management_switch_enabled None (be_config env))) (\<lambda>mgmt.
     if \<not> truthy mgmt then ereturn None
     else ebind (elift (create_management_node env bs)) (\<lambda>n.
       ebind (elift (rbind (get_bridge_tap_name None (be_config env)) str_value)) (\<lambda>dev.
       let n = (if bs_node_backend bs = NodeBackendVDE then n else set_node_name (Some dev) n) in
       eseq (in_world (boot_world (virtual_node_start env True dev n)))
       (eseq (efor nodes (\<lambda>emu. connect_to_emu_node senv n emu)) (ereturn (Some n)))))))"

section \<open>Central nodes\<close>

text \<open>
  \<open>create_n_connect_central_nodes\<close> of the bridged backend: one central node for the hub interface,
  then a tunnel between neighbours. The class counts its instances, and the new bridges are
  remembered for the event monitor. Tunnels are asked for without the address they lead to, which is
  a required argument.
\<close>

record 'w centrals =
  ce_instances :: int
  ce_new_bridges :: "string list"
  ce_world :: 'w

fun create_centrals :: "'w boot_env \<Rightarrow> bool \<Rightarrow> nat \<Rightarrow> interface list \<Rightarrow> ('w centrals, emulation_node list) eff" where
  "create_centrals env mgmt cnt [] = ereturn []"
| "create_centrals env mgmt cnt (i # is) = (if cnt = 1 then eraise ValueError else
     ebind (\<lambda>s. let (r, c) = central_bridge_node_init (ce_instances s) ''1'' mgmt in (r, s\<lparr>ce_instances := c\<rparr>)) (\<lambda>n.
     eseq (\<lambda>s. let (r, w) = virtual_node_start env False (int_dec (en_id n)) n (ce_world s) in (r, s\<lparr>ce_world := w\<rparr>))
     (eseq (emodify (\<lambda>s. s\<lparr>ce_new_bridges := ce_new_bridges s @ [int_dec (en_id n)]\<rparr>))
     (ebind (create_centrals env mgmt (cnt + 1) is) (\<lambda>ns. ereturn (n # ns))))))"

definition create_n_connect_central_nodes ::
  "'w boot_env \<Rightarrow> bool \<Rightarrow> (int, emulation_node) dict \<Rightarrow> int list \<Rightarrow> interface list \<Rightarrow> ('w centrals, emulation_node list) eff" where
  "create_n_connect_central_nodes env mgmt nodes node_ids interfaces =
     ebind (create_centrals env mgmt 0 (filter is_central_node_interface interfaces)) (\<lambda>ns.
     eseq (efor (zip node_ids (tl node_ids)) (\<lambda>(x, y). if dmem nodes x \<and> dmem nodes y then eraise TypeError else eraise KeyError))
     (ereturn ns))"

section \<open>Lemmas\<close>

subsection \<open>Management addresses\<close>

definition mgmt_net :: ipv4_network where
  "mgmt_net = \<lparr>network_address = 172 * 2 ^ 24 + 21 * 2 ^ 16, prefixlen = 16\<rparr>"

lemma mgmt_network:
  "get_ip_network types i = Inr net \<Longrightarrow> if_type i = Management \<Longrightarrow> net = mgmt_net"
  by (auto simp: get_ip_network_def subnet_for_type_def getitem_def rbind_Inr_iff dict_simps mgmt_net_def)

lemma mgmt_cmd:
  assumes "ip_change_cmd types dev i node_id = Inr cmd" "if_type i = Management" "0 \<le> node_id"
  shows "node_id < 2 ^ 16 \<and> cmd = get_ip_addr_change_cmd dev (network_address mgmt_net + nat node_id) (netmask mgmt_net) True"
proof -
  obtain net where net: "get_ip_network types i = Inr net"
    using assms(1) by (auto simp: ip_change_cmd_def interface_get_ip_def rbind_Inr_iff)
  then show ?thesis using assms mgmt_network [OF net assms(2)]
    by (auto simp: ip_change_cmd_def interface_get_ip_def interface_get_netmask_def rbind_Inr_iff net_getitem_def Let_def
        mgmt_net_def broadcast_address_def net_size_def nat_add_distrib split: if_splits)
qed

lemma mixin_has_management: "filter_mgmt (network_mixin_interfaces ifs True) \<noteq> []"
proof -
  have "interfaces_factory [Management] ! 0 \<in> set (network_mixin_interfaces ifs True)"
    by (auto simp: network_mixin_interfaces_def Let_def)
  moreover have "if_type (interfaces_factory [Management] ! 0) = Management"
    by (simp add: interfaces_factory_def)
  ultimately show ?thesis by (auto simp: filter_mgmt_def filter_type_def filter_empty_conv)
qed

subsection \<open>Operations that succeed\<close>

lemma ebind_InrE:
  assumes "ebind m k s = (Inr y, s')"
  obtains x s1 where "m s = (Inr x, s1)" "k x s1 = (Inr y, s')"
  using assms by (auto simp: ebind_def split: prod.splits sum.splits)

lemma boot_world_Inr: "boot_world m s = (Inr x, s') \<Longrightarrow>
    m (bo_world s) = (Inr x, bo_world s') \<and> bo_events s' = bo_events s \<and> bo_running s' = bo_running s"
  by (auto simp: boot_world_def split: prod.splits)

lemma boot_events_Inr: "boot_events m s = (Inr x, s') \<Longrightarrow>
    m (bo_events s) = (Inr x, bo_events s') \<and> bo_world s' = bo_world s \<and> bo_running s' = bo_running s"
  by (auto simp: boot_events_def split: prod.splits)

lemma elift_Inr: "elift r s = (Inr x, s') \<longleftrightarrow> r = Inr x \<and> s' = s"
  by (auto simp: elift_def)

lemma ereturn_Inr: "ereturn x s = (Inr y, s') \<longleftrightarrow> y = x \<and> s' = s"
  by (auto simp: ereturn_def)

text \<open>What the shells of the nodes were sent: the only operation that sends something is \<open>run_commands\<close>.\<close>

definition logs_shell :: "'w boot_env \<Rightarrow> ('w \<Rightarrow> (int \<times> string) list) \<Rightarrow> bool" where
  "logs_shell env sent \<longleftrightarrow>
     (\<forall>i c w w'. be_run_commands env i c w = (Inr (), w') \<longrightarrow> sent w' = sent w @ [(i, c)])
     \<and> (\<forall>n w w'. be_mixin_start env n w = (Inr (), w') \<longrightarrow> sent w' = sent w)
     \<and> (\<forall>i img w w'. be_vm_start env i img w = (Inr (), w') \<longrightarrow> sent w' = sent w)
     \<and> (\<forall>n w w'. be_after_pre env n w = (Inr (), w') \<longrightarrow> sent w' = sent w)"

lemma nic_mgmt_sent:
  assumes "logs_shell env sent" "0 \<le> en_id n"
    and "get_bridge_tap_name None (be_config env) = Inr (JStr dev)"
    and "nic_mgmt_ipv4_config env n w = (Inr (), w')"
  shows "sent w' = sent w @ replicate (length (filter_mgmt (en_interfaces n)))
      (en_id n, get_ip_addr_change_cmd dev (network_address mgmt_net + nat (en_id n)) (netmask mgmt_net) True)
    \<and> (filter_mgmt (en_interfaces n) \<noteq> [] \<longrightarrow> en_id n < 2 ^ 16)"
proof -
  let ?step = "\<lambda>i. ebind (elift (rbind (get_bridge_tap_name None (be_config env)) str_value)) (\<lambda>dev.
     ebind (elift (ip_change_cmd (be_types env) dev i (en_id n))) (\<lambda>cmd. be_run_commands env (en_id n) cmd))"
  have step: "en_id n < 2 ^ 16 \<and> sent w2 = sent w1 @ [(en_id n,
      get_ip_addr_change_cmd dev (network_address mgmt_net + nat (en_id n)) (netmask mgmt_net) True)]"
    if run: "?step i w1 = (Inr (), w2)" and i: "if_type i = Management" for i w1 w2
  proof -
    obtain cmd where cmd: "ip_change_cmd (be_types env) dev i (en_id n) = Inr cmd" "be_run_commands env (en_id n) cmd w1 = (Inr (), w2)"
      using run assms(3) by (auto elim!: ebind_InrE simp: elift_Inr str_value_def)
    then show ?thesis using mgmt_cmd [OF cmd(1) i assms(2)] assms(1) unfolding logs_shell_def by metis
  qed
  have "sent w' = sent w @ replicate (length xs)
      (en_id n, get_ip_addr_change_cmd dev (network_address mgmt_net + nat (en_id n)) (netmask mgmt_net) True)
    \<and> (xs \<noteq> [] \<longrightarrow> en_id n < 2 ^ 16)"
    if "efor xs ?step w = (Inr (), w')" "\<forall>i \<in> set xs. if_type i = Management" for xs w
    using that
  proof (induction xs arbitrary: w)
    case (Cons i xs)
    from Cons.prems(1) obtain u w1 where "?step i w = (Inr u, w1)" and rest: "efor xs ?step w1 = (Inr (), w')"
      unfolding efor.simps by (rule ebind_InrE)
    then have w1: "?step i w = (Inr (), w1)" by simp
    show ?case using step [OF w1] Cons.IH [OF rest] Cons.prems(2) by simp
  qed (auto simp: ereturn_Inr)
  then show ?thesis using assms(4) unfolding nic_mgmt_ipv4_config_def
    by (auto simp: filter_mgmt_def filter_type_def)
qed

lemma finish_progress:
  assumes "event_finish event ids e = (Inr (), e')"
  shows "progress_of e' n ev = (if n \<in> set ids \<and> ev = event then 1 else progress_of e n ev)"
proof -
  obtain ps where "update_nodes event 1 False ids e = (Inr ps, e')"
    using assms by (auto simp: event_finish_def event_update_def update_event_def split: prod.splits sum.splits)
  then show ?thesis using update_nodes_plain [of 1 event ids e] by simp
qed

lemma start_event_nothing: "event_start event [] e = (Inr (), e)"
  by (simp add: event_start_def event_update_def update_event_def)

lemma with_event_Inr:
  assumes "with_event event ids (boot_world m) s = (Inr (), s')"
  shows "m (bo_world s) = (Inr (), bo_world s') \<and> bo_running s' = bo_running s
    \<and> (\<forall>n ev. progress_of (bo_events s') n ev = (if n \<in> set ids \<and> ev = event then 1 else progress_of (bo_events s) n ev))"
proof -
  have "boot_events (event_start event []) s = (Inr (), s)" by (simp add: boot_events_def start_event_nothing)
  then have "eseq (boot_world m) (boot_events (event_finish event ids)) s = (Inr (), s')"
    using assms by (simp add: with_event_def ebind_def)
  then obtain s1 where "boot_world m s = (Inr (), s1)" "boot_events (event_finish event ids) s1 = (Inr (), s')"
    by (auto elim: ebind_InrE)
  then show ?thesis
    using boot_world_Inr [of m s "()" s1] boot_events_Inr [of _ s1 "()" s'] finish_progress by fastforce
qed

text \<open>What a node's shell is sent when it is started with the management switch.\<close>

definition boot_commands :: "string \<Rightarrow> string \<Rightarrow> string \<Rightarrow> emulation_node \<Rightarrow> string list" where
  "boot_commands dev nic script n = [script, get_cmd_rename_mgmt_interface dev nic]
     @ replicate (length (filter_mgmt (en_interfaces n)))
         (get_ip_addr_change_cmd dev (network_address mgmt_net + nat (en_id n)) (netmask mgmt_net) True)"

text \<open>The management switch is on, with the names that are formatted into the commands.\<close>

definition managed :: "'w boot_env \<Rightarrow> string \<Rightarrow> string \<Rightarrow> bool" where
  "managed env dev nic \<longleftrightarrow> (\<exists>v. is_management_switch_enabled None (be_config env) = Inr v \<and> truthy v)
     \<and> get_bridge_tap_name None (be_config env) = Inr (JStr dev)
     \<and> get_network_links_nic_prefix None (be_scenario env) = Inr (JStr nic)"

lemma factory_managed:
  assumes "managed env dev nic" "emulation_node_factory env i = Inr n"
  shows "en_id n = i \<and> filter_mgmt (en_interfaces n) \<noteq> [] \<and> \<not> is_virtual_node n"
proof -
  obtain ifs where "emulation_node_init RealNode (PyInt i) ifs True = Inr n"
    using assms by (auto simp: managed_def emulation_node_factory_def rbind_Inr_iff)
  then show ?thesis using mixin_has_management [of "Some ifs"]
    by (auto simp: emulation_node_init_def Let_def is_virtual_node_def)
qed

lemma config_sent:
  assumes "logs_shell env sent" "managed env dev nic" "0 \<le> en_id n" "filter_mgmt (en_interfaces n) \<noteq> []"
    and run: "do_network_config_after_pre_shell_commands env n w = (Inr (), w')"
  shows "sent w' = sent w @ map (Pair (en_id n)) (tl (boot_commands dev nic script n)) \<and> en_id n < 2 ^ 16"
proof -
  obtain w1 where w1: "be_run_commands env (en_id n) (get_cmd_rename_mgmt_interface dev nic) w = (Inr (), w1)"
      "nic_mgmt_ipv4_config env n w1 = (Inr (), w')"
    using run assms(2)
    by (auto simp: do_network_config_after_pre_shell_commands_def managed_def elift_Inr str_value_def ewhen_def elim!: ebind_InrE)
  have "sent w1 = sent w @ [(en_id n, get_cmd_rename_mgmt_interface dev nic)]"
    using w1(1) assms(1) unfolding logs_shell_def by blast
  moreover have "get_bridge_tap_name None (be_config env) = Inr (JStr dev)" using assms(2) by (simp add: managed_def)
  ultimately show ?thesis
    using nic_mgmt_sent [OF assms(1,3) _ w1(2)] assms(4) by (simp add: boot_commands_def map_replicate)
qed

lemma start_node_result:
  assumes logs: "logs_shell env sent" and mgmt: "managed env dev nic" and i: "0 \<le> i"
    and run: "start_node env img script i s = (Inr n, s')"
  shows "en_id n = i \<and> i < 2 ^ 16 \<and> bo_running s' = bo_running s @ [i] \<and> filter_mgmt (en_interfaces n) \<noteq> []
    \<and> sent (bo_world s') = sent (bo_world s) @ map (Pair i) (boot_commands dev nic script n)
    \<and> (\<forall>j ev. progress_of (bo_events s') j ev = (if j = i \<and> ev = PRE_COMMANDS then 1 else progress_of (bo_events s) j ev))"
proof -
  obtain s5 where f: "emulation_node_factory env i = Inr n" and st: "emulation_node_start env img (Some script) n s = (Inr (), s5)"
    and s': "s' = s5\<lparr>bo_running := bo_running s5 @ [en_id n]\<rparr>"
    using run by (auto simp: start_node_def elift_Inr ereturn_Inr emodify_def elim!: ebind_InrE)
  note n = factory_managed [OF mgmt f]
  obtain s1 s2 s3 s4 where steps: "boot_world (be_mixin_start env n) s = (Inr (), s1)"
      "boot_world (be_vm_start env (en_id n) img) s1 = (Inr (), s2)"
      "with_event PRE_COMMANDS [en_id n] (boot_world (run_pre_network_shell_commands env n (Some script))) s2 = (Inr (), s3)"
      "boot_world (be_after_pre env n) s3 = (Inr (), s4)"
      "boot_world (do_network_config_after_pre_shell_commands env n) s4 = (Inr (), s5)"
    using st by (auto simp: emulation_node_start_def elim!: ebind_InrE)
  have pre: "be_run_commands env (en_id n) script (bo_world s2) = (Inr (), bo_world s3)"
    using with_event_Inr [OF steps(3)] n by (simp add: run_pre_network_shell_commands_def)
  have sent: "sent (bo_world s1) = sent (bo_world s)" "sent (bo_world s2) = sent (bo_world s1)"
    "sent (bo_world s3) = sent (bo_world s2) @ [(en_id n, script)]" "sent (bo_world s4) = sent (bo_world s3)"
    using boot_world_Inr [OF steps(1)] boot_world_Inr [OF steps(2)] pre boot_world_Inr [OF steps(4)] logs
    unfolding logs_shell_def by metis+
  have "sent (bo_world s5) = sent (bo_world s4) @ map (Pair (en_id n)) (tl (boot_commands dev nic script n)) \<and> en_id n < 2 ^ 16"
    using config_sent [OF logs mgmt] n i boot_world_Inr [OF steps(5)] by blast
  then have "sent (bo_world s5) = sent (bo_world s) @ map (Pair i) (boot_commands dev nic script n) \<and> i < 2 ^ 16"
    using sent n by (simp add: boot_commands_def)
  moreover have "bo_running s5 = bo_running s"
    using boot_world_Inr [OF steps(1)] boot_world_Inr [OF steps(2)] with_event_Inr [OF steps(3)]
      boot_world_Inr [OF steps(4)] boot_world_Inr [OF steps(5)] by simp
  moreover have "\<forall>j ev. progress_of (bo_events s5) j ev = (if j = i \<and> ev = PRE_COMMANDS then 1 else progress_of (bo_events s) j ev)"
    using boot_world_Inr [OF steps(1)] boot_world_Inr [OF steps(2)] with_event_Inr [OF steps(3)]
      boot_world_Inr [OF steps(4)] boot_world_Inr [OF steps(5)] n by simp
  ultimately show ?thesis using n s' by simp
qed

lemma executor_Cons:
  assumes "executor_map job (x # xs) w = (Inr ys, w')"
  obtains y w1 zs where "job x w = (Inr y, w1)" "executor_map job xs w1 = (Inr zs, w')" "ys = y # zs"
  using assms by (auto simp: executor_map_def rbind_Inr_iff split: prod.splits)

section \<open>Management node\<close>

text \<open>With the VDE backend the management switch cannot be used: the id of its management node is a string.\<close>

lemma vde_management_fails:
  assumes "get_current_network_backend_bootstrapper (be_scenario env) = Inr bs" "bs_node_backend bs = NodeBackendVDE"
    and "is_management_switch_enabled None (be_config env) = Inr v" "truthy v"
    and "get_bridge_tap_name None (be_config env) = Inr (JStr dev)"
  shows "start_management_node env senv nodes s = (Inl ValueError, s)"
  using assms by (simp add: start_management_node_def create_management_node_def management_node_init_def
      emulation_node_init_def ebind_def elift_def str_value_def)

text \<open>The management node of the bridged backend has two management interfaces and one bridge.\<close>

lemma management_bridge:
  "management_node_init None True = Inr n \<Longrightarrow>
    switch_interfaces (en_interfaces n) = [\<lparr>if_type = Management, nr_host_interface = 1\<rparr>]"
  by (auto simp: management_node_init_def emulation_node_init_def Let_def network_mixin_interfaces_def interfaces_factory_def
      counter_get_def switch_interfaces_def pysorted_def eq__comp_attrs_def interface_lt_def)

text \<open>A management node that was started is connected to every node, in the order they were started.\<close>

lemma management_connects:
  assumes "start_management_node env senv nodes s = (Inr (Some n), s')"
  shows "\<exists>s1. efor nodes (\<lambda>emu. connect_to_emu_node senv n emu) s1 = (Inr (), s') \<and> is_management_node n
    \<and> (\<exists>v. is_management_switch_enabled None (be_config env) = Inr v \<and> truthy v)"
proof -
  obtain bs v m dev s1 where "is_management_switch_enabled None (be_config env) = Inr v" "truthy v"
    and m: "create_management_node env bs = Inr m"
    and n: "n = (if bs_node_backend bs = NodeBackendVDE then m else set_node_name (Some dev) m)"
    and "efor nodes (\<lambda>emu. connect_to_emu_node senv n emu) s1 = (Inr (), s')"
    using assms by (auto simp: start_management_node_def elift_Inr ereturn_Inr Let_def elim!: ebind_InrE split: if_splits)
  moreover have "en_kind m = ManagementNode"
    using m by (auto simp: create_management_node_def management_node_init_def emulation_node_init_def Let_def rbind_Inr_iff
        split: if_splits py_id.splits)
  ultimately show ?thesis by (auto simp: is_management_node_def set_node_name_def)
qed

text \<open>
  Every node of a scenario is found, on whatever server it is, and the table is filled only once.
\<close>

lemma factory_id: "emulation_node_factory env i = Inr n \<Longrightarrow> en_id n = i"
  by (auto simp: emulation_node_factory_def emulation_node_init_def Let_def rbind_Inr_iff)

lemma int_list_JInt: "int_list (JList (map JInt is)) = Inr is"
proof -
  have "rmap (\<lambda>x. case x of JInt i \<Rightarrow> Inr i | _ \<Rightarrow> Inl ValueError) (map JInt is) = Inr is" by (induction "is") simp_all
  then show ?thesis by (simp add: int_list_def)
qed

lemma remote_node_found:
  assumes "get_number_of_nodes None (be_scenario env) = Inr (JInt k)" and "all_nodes_id_mapping env [] = (Inr all, cache)"
    and "1 \<le> i" "i \<le> k"
  shows "\<exists>n. distributed_get_emulation_node_for_idx env [] cache i = (Inr n, cache) \<and> en_id n = i"
proof -
  let ?f = "\<lambda>i. rbind (emulation_node_factory env i) (\<lambda>n. Inr (i, n))"
  from assms(1,2) have all: "rmap ?f [1..k] = Inr all" and cache: "cache = all"
    by (auto simp: all_nodes_id_mapping_def range_from_1_def int_list_JInt rbind_Inr_iff split: sum.splits)
  have nodes: "rmap ?f is = Inr d \<Longrightarrow> j \<in> set is \<Longrightarrow> \<exists>n. dget d j = Some n \<and> en_id n = j" for "is" d j
    by (induction "is" arbitrary: d) (auto simp: rbind_Inr_iff dest: factory_id)
  obtain n where n: "dget all i = Some n" "en_id n = i" using nodes [OF all, of i] assms(3,4) by auto
  then have "all \<noteq> []" by auto
  with n cache show ?thesis
    by (simp add: distributed_get_emulation_node_for_idx_def all_nodes_id_mapping_def getitem_def)
qed

text \<open>
  The call succeeds only where it has nothing to do: without a hub interface and with at most one
  node known so far. During a start the nodes are entered after it, so there is none.
\<close>

lemma central_nodes_fail:
  "create_n_connect_central_nodes env mgmt nodes node_ids interfaces s = (Inr ns, s') \<Longrightarrow>
   ns = [] \<and> s' = s \<and> \<not> (\<exists>i \<in> set interfaces. is_central_node_interface i) \<and> length node_ids \<le> 1"
proof -
  assume run: "create_n_connect_central_nodes env mgmt nodes node_ids interfaces s = (Inr ns, s')"
  then obtain s1 where centrals: "create_centrals env mgmt 0 (filter is_central_node_interface interfaces) s = (Inr ns, s1)"
    and loop: "efor (zip node_ids (tl node_ids)) (\<lambda>(x, y). if dmem nodes x \<and> dmem nodes y then eraise TypeError else eraise KeyError) s1 = (Inr (), s')"
    by (auto simp: create_n_connect_central_nodes_def ebind_Inr ereturn_def)
  have none: "filter is_central_node_interface interfaces = []"
    using centrals by (cases "filter is_central_node_interface interfaces") (auto simp: ebind_def central_node_ids)
  have "zip node_ids (tl node_ids) = []"
    using loop by (cases "zip node_ids (tl node_ids)") (auto simp: ebind_def eraise_def split: if_splits)
  then have "length node_ids \<le> 1" by (cases node_ids rule: remdups_adj.cases) simp_all
  moreover have "ns = []" "s' = s" using centrals loop none \<open>zip node_ids (tl node_ids) = []\<close> by (simp_all add: ereturn_def)
  ultimately show ?thesis using none by (auto simp: filter_empty_conv)
qed

section \<open>Properties\<close>


subsection \<open>Witness\<close>

lemma mgmt_cmd_ok:
  assumes "if_type i = Management" "0 \<le> node_id" "node_id < 2 ^ 16"
  shows "\<exists>cmd. ip_change_cmd types dev i node_id = Inr cmd"
proof -
  have "\<exists>nets. get_slash_x (subnets \<lparr>network_address = 10 * 2 ^ 24, prefixlen = 8\<rparr>) 24 = Inr nets"
    by (simp add: get_slash_x_def subnets_def Let_def)
  then have "get_ip_network types i = Inr mgmt_net"
    using assms(1) by (auto simp: get_ip_network_def subnet_for_type_def getitem_def dict_simps mgmt_net_def)
  moreover from this have "\<exists>ip. net_getitem mgmt_net node_id = Inr ip"
    using assms(2,3) by (simp add: net_getitem_def Let_def mgmt_net_def broadcast_address_def net_size_def)
  ultimately show ?thesis by (auto simp: ip_change_cmd_def interface_get_ip_def interface_get_netmask_def)
qed

lemma event_finish_returns: "event_finish event ids e = (Inr (), snd (event_finish event ids e))"
  using update_nodes_plain [of 1 event ids e]
  by (auto simp: event_finish_def event_update_def update_event_def split: prod.splits sum.splits)

definition ex_boot_env :: "(int \<times> string) list boot_env" where
  "ex_boot_env = \<lparr>be_config = JObj [(''management'', JObj [(''use'', JBool True), (''device'', JStr ''mgmt0'')])],
     be_scenario = JObj [], be_read = (\<lambda>_. Inl IOError), be_types = [Mesh, Management], be_connections = [],
     be_mixin_start = (\<lambda>_. ereturn ()), be_vm_start = (\<lambda>_ _. ereturn ()),
     be_run_commands = (\<lambda>i c. emodify (\<lambda>w. w @ [(i, c)])), be_after_pre = (\<lambda>_. ereturn ()),
     be_switch_start = (\<lambda>_ _ _ _. ereturn ())\<rparr>"

definition ex_boot :: "(int \<times> string) list boot" where
  "ex_boot = \<lparr>bo_events = my_event_system_init, bo_running = [], bo_world = []\<rparr>"

lemma ex_boot_env_managed: "managed ex_boot_env ''mgmt0'' ''eth''"
proof -
  have "is_management_switch_enabled None (be_config ex_boot_env) = Inr (JBool True)"
    "get_bridge_tap_name None (be_config ex_boot_env) = Inr (JStr ''mgmt0'')"
    "get_network_links_nic_prefix None (be_scenario ex_boot_env) = Inr (JStr ''eth'')" by code_simp+
  then show ?thesis by (simp add: managed_def truthy_def)
qed

lemma ex_start_node:
  assumes n: "emulation_node_factory ex_boot_env i = Inr n" "en_id n = i" "0 \<le> i" "i < 2 ^ 16"
    "filter_mgmt (en_interfaces n) = [\<lparr>if_type = Management, nr_host_interface = 1\<rparr>]" "en_kind n = RealNode"
  shows "\<exists>s'. start_node ex_boot_env ''img'' ''ls'' i s = (Inr n, s')"
proof -
  obtain cmd where cmd: "ip_change_cmd (be_types ex_boot_env) ''mgmt0'' \<lparr>if_type = Management, nr_host_interface = 1\<rparr> i = Inr cmd"
    using mgmt_cmd_ok [of "\<lparr>if_type = Management, nr_host_interface = 1\<rparr>" i] n(3,4) by auto
  have world: "be_mixin_start ex_boot_env = (\<lambda>_. ereturn ())" "be_vm_start ex_boot_env = (\<lambda>_ _. ereturn ())"
    "be_run_commands ex_boot_env = (\<lambda>i c. emodify (\<lambda>w. w @ [(i, c)]))" "be_after_pre ex_boot_env = (\<lambda>_. ereturn ())"
    by (simp_all add: ex_boot_env_def)
  obtain v where mgmt: "is_management_switch_enabled None (be_config ex_boot_env) = Inr v" "truthy v"
    "get_bridge_tap_name None (be_config ex_boot_env) = Inr (JStr ''mgmt0'')"
    "get_network_links_nic_prefix None (be_scenario ex_boot_env) = Inr (JStr ''eth'')"
    using ex_boot_env_managed by (auto simp: managed_def)
  have finish: "fst (event_finish ev ids e) = Inr ()" for ev ids e by (metis event_finish_returns fst_conv)
  show ?thesis
    by (simp add: start_node_def emulation_node_start_def n(1,2,5,6) world with_event_def boot_events_def boot_world_def
        start_event_nothing run_pre_network_shell_commands_def is_virtual_node_def
        do_network_config_after_pre_shell_commands_def nic_mgmt_ipv4_config_def mgmt str_value_def cmd
        ebind_def elift_def ereturn_def emodify_def ewhen_def case_prod_beta finish del: One_nat_def)
qed


end
