(* ===== verification/Coordinator.thy ===== *)
theory Coordinator
  imports Zmq_Group
begin

text \<open>
  The simulation manager of the coordinator (\<open>SimulationManagerDistributedCoordinator._start\<close> and
  \<open>step\<close>) together with the group it drives: the background thread of the zeromq server leads the
  servers through the registration, the exchange and the start of the nodes; \<open>_start\<close> announces the
  scenario to it and returns when the nodes are started; from then on each call of \<open>step\<close>
  distributes one matrix, in the thread of its caller. The manager has a thread of its own, so its
  steps interleave with those of the group.
\<close>

section \<open>State and steps\<close>

text \<open>
  Where the manager is: \<open>WaitsForNodes\<close> is in \<open>_start\<close>, between the two events,
  \<open>Distributes\<close> is in \<open>step\<close>, in \<open>handle_state_distance_matrix\<close>. The events
  \<open>wait_for_scenario_config\<close> and \<open>wait_for_nodes_started\<close> are \<open>g_scenario_set\<close> and a
  \<open>g_round\<close> of at least 3.
\<close>

datatype manager_pc = NotStarted | WaitsForNodes | Runs | Distributes

record ('a, 'w) driven_group =
  dg_pc :: manager_pc
  dg_current_step :: nat
  dg_group :: "('a, 'w) zmq_group"

definition initial_driven :: "('a, 'w) driven_group" where
  "initial_driven = \<lparr>dg_pc = NotStarted, dg_current_step = 0, dg_group = initial_group\<rparr>"

text \<open>\<open>self.running\<close>\<close>

definition manager_running :: "('a, 'w) driven_group \<Rightarrow> bool" where
  "manager_running s \<longleftrightarrow> dg_pc s \<in> {Runs, Distributes}"

text \<open>
  Did the coordinator take part in a step of the group? Then it took a request or answered a round;
  the clients do neither.
\<close>

definition coordinator_moved :: "('a, 'w) zmq_group \<Rightarrow> ('a, 'w) zmq_group \<Rightarrow> bool" where
  "coordinator_moved g g' \<longleftrightarrow> g_storage g' \<noteq> g_storage g \<or> g_round g' \<noteq> g_round g"

text \<open>
  The background thread serves the rounds before 3, the caller of \<open>step\<close> the others. The scenario
  is announced by \<open>_start\<close> alone. A simulation runs until it is aborted, which resets the group.
\<close>

inductive dg_step :: "('a, 'w) zmq_env \<Rightarrow> ('a, 'w) driven_group \<Rightarrow> ('a, 'w) driven_group \<Rightarrow> bool" for env where
  start_called: "dg_pc s = NotStarted \<Longrightarrow>
    dg_step env s (s\<lparr>dg_pc := WaitsForNodes, dg_group := (dg_group s)\<lparr>g_scenario_set := True\<rparr>\<rparr>)"
| start_returns: "\<lbrakk> dg_pc s = WaitsForNodes; 3 \<le> g_round (dg_group s) \<rbrakk> \<Longrightarrow> dg_step env s (s\<lparr>dg_pc := Runs\<rparr>)"
| step_called: "dg_pc s = Runs \<Longrightarrow> dg_step env s (s\<lparr>dg_pc := Distributes\<rparr>)"
| group_moves: "\<lbrakk> group_step env (dg_group s) g; g_scenario_set g = g_scenario_set (dg_group s);
      coordinator_moved (dg_group s) g \<longrightarrow> g_round (dg_group s) < 3 \<rbrakk> \<Longrightarrow> dg_step env s (s\<lparr>dg_group := g\<rparr>)"
| takes_request: "\<lbrakk> dg_pc s = Distributes; group_step env (dg_group s) g; g_scenario_set g = g_scenario_set (dg_group s);
      coordinator_moved (dg_group s) g; 3 \<le> g_round (dg_group s); g_round g = g_round (dg_group s) \<rbrakk> \<Longrightarrow>
    dg_step env s (s\<lparr>dg_group := g\<rparr>)"
| step_returns: "\<lbrakk> dg_pc s = Distributes; group_step env (dg_group s) g; g_scenario_set g = g_scenario_set (dg_group s);
      3 \<le> g_round (dg_group s); g_round g = Suc (g_round (dg_group s)) \<rbrakk> \<Longrightarrow>
    dg_step env s (s\<lparr>dg_group := g, dg_pc := Runs, dg_current_step := dg_current_step s + 1\<rparr>)"

inductive dg_reachable :: "('a, 'w) zmq_env \<Rightarrow> ('a, 'w) driven_group \<Rightarrow> bool" for env where
  dg_init: "dg_reachable env initial_driven"
| dg_next: "\<lbrakk> dg_reachable env s; dg_step env s s' \<rbrakk> \<Longrightarrow> dg_reachable env s'"

section \<open>Invariant\<close>

text \<open>The manager never runs ahead of the group, and the rounds from 3 on are its steps.\<close>

definition dg_inv :: "('a, 'w) zmq_env \<Rightarrow> ('a, 'w) driven_group \<Rightarrow> bool" where
  "dg_inv env s \<longleftrightarrow> group_inv env (dg_group s)
     \<and> (g_scenario_set (dg_group s) \<longleftrightarrow> dg_pc s \<noteq> NotStarted)
     \<and> (manager_running s \<longrightarrow> g_round (dg_group s) = 3 + dg_current_step s)
     \<and> (\<not> manager_running s \<longrightarrow> g_round (dg_group s) \<le> 3 \<and> dg_current_step s = 0)"

lemma group_step_round:
  assumes "env_ok env" "group_inv env g" "group_step env g g'"
  shows "g_round g' = g_round g \<or> g_round g' = Suc (g_round g)"
  using step_work [OF assms] by auto

lemma dg_inv_initial: "dg_inv env initial_driven"
  by (simp add: dg_inv_def initial_driven_def group_inv_initial manager_running_def)
     (simp add: initial_group_def)

lemma dg_step_preserves:
  assumes ok: "env_ok env" and inv: "dg_inv env s" and step: "dg_step env s s'"
  shows "dg_inv env s'"
proof -
  have group: "group_inv env (dg_group s)" using inv by (simp add: dg_inv_def)
  note keep = group_step_preserves [OF ok group] group_step_round [OF ok group]
  show ?thesis
    using step
  proof cases
    case start_called
    have "\<not> g_scenario_set (dg_group s)" using inv start_called by (simp add: dg_inv_def)
    from keep(1) [OF set_scenario [OF this]] show ?thesis
      using inv start_called by (simp add: dg_inv_def manager_running_def)
  next
    case (group_moves g)
    then show ?thesis using inv keep [OF group_moves(2)]
      by (auto simp: dg_inv_def manager_running_def coordinator_moved_def)
  qed (use inv keep in \<open>auto simp: dg_inv_def manager_running_def\<close>)
qed

lemma dg_reachable_inv: "dg_reachable env s \<Longrightarrow> env_ok env \<Longrightarrow> dg_inv env s"
  by (induction rule: dg_reachable.induct) (blast intro: dg_inv_initial dg_step_preserves)+

lemma dg_invD: "dg_inv env s \<Longrightarrow> group_inv env (dg_group s)"
  by (simp add: dg_inv_def)

section \<open>Progress\<close>

lemma scenario_kept:
  "group_step env g g' \<Longrightarrow> g_scenario_set g \<Longrightarrow> g_scenario_set g'"
  by (induction rule: group_step.induct) simp_all

lemma dg_step_exists:
  assumes ok: "env_ok env" and inv: "dg_inv env s"
  shows "\<exists>s'. dg_step env s s'"
proof (cases "dg_pc s \<in> {NotStarted, Runs} \<or> dg_pc s = WaitsForNodes \<and> 3 \<le> g_round (dg_group s)")
  case True
  then show ?thesis by (blast intro: dg_step.intros)
next
  case False
  obtain g where g: "group_step env (dg_group s) g" using group_step_exists [OF ok dg_invD [OF inv]] by blast
  have set: "g_scenario_set g = g_scenario_set (dg_group s)"
    using scenario_kept [OF g] inv False by (auto simp: dg_inv_def)
  consider "coordinator_moved (dg_group s) g \<longrightarrow> g_round (dg_group s) < 3"
    | "dg_pc s = Distributes" "3 \<le> g_round (dg_group s)" "coordinator_moved (dg_group s) g"
    using False by (cases "dg_pc s"; cases "g_round (dg_group s) < 3") auto
  then show ?thesis
  proof cases
    case 1
    then show ?thesis using group_moves [OF g set] by blast
  next
    case 2
    then show ?thesis
      using group_step_round [OF ok dg_invD [OF inv] g] takes_request [OF 2(1) g set 2(3,2)] step_returns [OF 2(1) g set 2(2)]
      by blast
  qed
qed

text \<open>What is left of \<open>_start\<close>: the rounds before 3 and the work in the current one.\<close>

definition start_work :: "('a, 'w) zmq_env \<Rightarrow> ('a, 'w) driven_group \<Rightarrow> nat" where
  "start_work env s = (3 - g_round (dg_group s)) * (3 * cnt_peers env + 2) + round_work env (dg_group s)"

lemma start_work_bound: "env_ok env \<Longrightarrow> start_work env s \<le> 12 * cnt_peers env + 7"
proof -
  assume ok: "env_ok env"
  have "(3 - g_round (dg_group s)) * (3 * cnt_peers env + 2) \<le> 3 * (3 * cnt_peers env + 2)"
    by (rule mult_le_mono1) simp
  then show ?thesis using round_work_bound [OF ok, of "dg_group s"] by (simp add: start_work_def)
qed

lemma start_step_work:
  assumes ok: "env_ok env" and inv: "dg_inv env s" and step: "dg_step env s s'" and pc: "dg_pc s = WaitsForNodes"
  shows "manager_running s' \<or> dg_pc s' = WaitsForNodes \<and> start_work env s' < start_work env s"
  using step
proof cases
  case (group_moves g)
  let ?n = "3 * cnt_peers env + 2"
  have "start_work env s' < start_work env s"
    using step_work [OF ok dg_invD [OF inv] group_moves(2)]
  proof
    assume up: "g_round g = Suc (g_round (dg_group s))"
    then have "g_round (dg_group s) < 3" using group_moves by (auto simp: coordinator_moved_def)
    then have "(3 - g_round (dg_group s)) * ?n = (3 - g_round g) * ?n + ?n"
      unfolding up by (metis Suc_diff_Suc add.commute mult_Suc)
    then show ?thesis using round_work_bound [OF ok, of g] group_moves(1) by (simp add: start_work_def)
  qed (use group_moves in \<open>simp add: start_work_def\<close>)
  then show ?thesis using group_moves pc by simp
qed (use pc in \<open>simp_all add: manager_running_def\<close>)

lemma running_stays: "dg_step env s s' \<Longrightarrow> manager_running s \<Longrightarrow> manager_running s'"
  by (induction rule: dg_step.induct) (simp_all add: manager_running_def)

lemma start_run:
  assumes "env_ok env" "dg_inv env s" "dg_pc s = WaitsForNodes" "(dg_step env ^^ m) s s'"
  shows "dg_inv env s' \<and> (manager_running s' \<or> dg_pc s' = WaitsForNodes \<and> m + start_work env s' \<le> start_work env s)"
  using assms(4)
proof (induction m arbitrary: s')
  case (Suc m)
  then obtain t where t: "(dg_step env ^^ m) s t" "dg_step env t s'" by auto
  from Suc.IH [OF t(1)] show ?case
    using dg_step_preserves [OF assms(1) _ t(2)] start_step_work [OF assms(1) _ t(2)] running_stays [OF t(2)] by fastforce
qed (use assms(2,3) in auto)

lemma current_step_mono: "dg_step env s s' \<Longrightarrow> dg_current_step s \<le> dg_current_step s'"
  by (induction rule: dg_step.induct) simp_all

lemma distribution_step_work:
  assumes ok: "env_ok env" and inv: "dg_inv env s" and step: "dg_step env s s'" and pc: "dg_pc s = Distributes"
  shows "dg_current_step s < dg_current_step s' \<or>
    dg_pc s' = Distributes \<and> dg_current_step s' = dg_current_step s \<and> round_work env (dg_group s') < round_work env (dg_group s)"
proof -
  have "3 \<le> g_round (dg_group s)" using inv pc by (simp add: dg_inv_def manager_running_def)
  show ?thesis
    using step
  proof cases
    case (group_moves g)
    then have "g_round g = g_round (dg_group s)" using \<open>3 \<le> g_round (dg_group s)\<close> by (auto simp: coordinator_moved_def)
    then show ?thesis using step_work [OF ok dg_invD [OF inv] group_moves(2)] group_moves(1) pc by simp
  next
    case (takes_request g)
    then show ?thesis using step_work [OF ok dg_invD [OF inv] takes_request(3)] pc by simp
  qed (use pc in simp_all)
qed

lemma distribution_run:
  assumes "env_ok env" "dg_inv env s" "dg_pc s = Distributes" "(dg_step env ^^ m) s s'"
  shows "dg_inv env s' \<and> (dg_current_step s < dg_current_step s' \<or>
    dg_pc s' = Distributes \<and> dg_current_step s' = dg_current_step s \<and> m + round_work env (dg_group s') \<le> round_work env (dg_group s))"
  using assms(4)
proof (induction m arbitrary: s')
  case (Suc m)
  then obtain t where t: "(dg_step env ^^ m) s t" "dg_step env t s'" by auto
  from Suc.IH [OF t(1)] have inv: "dg_inv env t" and
    "dg_current_step s < dg_current_step t \<or> dg_pc t = Distributes \<and> dg_current_step t = dg_current_step s \<and>
       m + round_work env (dg_group t) \<le> round_work env (dg_group s)" by auto
  from this(2) show ?case
  proof
    assume "dg_current_step s < dg_current_step t"
    then show ?thesis using dg_step_preserves [OF assms(1) inv t(2)] current_step_mono [OF t(2)] by simp
  next
    assume pc: "dg_pc t = Distributes \<and> dg_current_step t = dg_current_step s \<and>
       m + round_work env (dg_group t) \<le> round_work env (dg_group s)"
    then show ?thesis
      using dg_step_preserves [OF assms(1) inv t(2)] distribution_step_work [OF assms(1) inv t(2)] by auto
  qed
qed (use assms(2,3) in auto)

section \<open>Properties\<close>

lemma dg_run_exists:
  assumes "env_ok env" "dg_reachable env s"
  shows "\<exists>s'. (dg_step env ^^ m) s s' \<and> dg_reachable env s'"
proof (induction m)
  case (Suc m)
  then obtain t where t: "(dg_step env ^^ m) s t" "dg_reachable env t" by blast
  obtain s' where "dg_step env t s'" using dg_step_exists [OF assms(1) dg_reachable_inv [OF t(2) assms(1)]] by blast
  then show ?case using t dg_next by (metis relpowp_Suc_I)
qed (use assms in auto)

lemma ex_peers: "cnt_peers ex_env = 2"
  by (simp add: ex_env_def)

lemma ex_waits: "\<exists>s. dg_reachable ex_env s \<and> dg_pc s = WaitsForNodes"
proof -
  have "dg_step ex_env initial_driven (initial_driven\<lparr>dg_pc := WaitsForNodes, dg_group := (dg_group initial_driven)\<lparr>g_scenario_set := True\<rparr>\<rparr>)"
    by (rule start_called) (simp add: initial_driven_def)
  from dg_next [OF dg_init this] show ?thesis by (intro exI conjI, assumption) simp
qed

text \<open>C19: the simulation of the coordinator runs only on started servers. While the manager is running,
  every server has asked to go on after the start of its nodes and has been given as many matrices
  as the manager made steps, the last of them perhaps not received yet. Before, no step was made and
  no server has a matrix.
\<close>

theorem coordinator_runs_on_started_nodes:
  assumes "env_ok env" and "dg_reachable env s" and "a \<in> env_peers env"
  shows "(manager_running s \<longrightarrow>
      c_round (g_clients (dg_group s) a) = 3 + dg_current_step s \<or>
      c_round (g_clients (dg_group s) a) = 2 + dg_current_step s \<and> c_waiting (g_clients (dg_group s) a)) \<and>
    (\<not> manager_running s \<longrightarrow> dg_current_step s = 0 \<and> c_round (g_clients (dg_group s) a) \<le> 3)"
proof -
  have inv: "dg_inv env s" using dg_reachable_inv assms(1,2) by blast
  then have "client_inv env (dg_group s) a" using group_invD(3) [OF dg_invD assms(3)] by blast
  then show ?thesis using inv by (auto simp: dg_inv_def client_inv_def Let_def)
qed

theorem coordinator_runs_on_started_nodes_witness:
  "\<exists>s. dg_reachable ex_env s \<and> manager_running s \<and> 2 \<le> c_round (g_clients (dg_group s) 1)"
proof -
  obtain s where s: "dg_reachable ex_env s" "dg_pc s = WaitsForNodes" using ex_waits by blast
  obtain s' where s': "(dg_step ex_env ^^ 32) s s'" "dg_reachable ex_env s'" using dg_run_exists [OF ex_env_ok s(1)] by blast
  have "start_work ex_env s \<le> 31" using start_work_bound [OF ex_env_ok, of s] by (simp add: ex_peers)
  then have "manager_running s'"
    using start_run [OF ex_env_ok dg_reachable_inv [OF s(1) ex_env_ok] s(2) s'(1)] by auto
  then show ?thesis
    using s'(2) coordinator_runs_on_started_nodes [OF ex_env_ok s'(2), of 1] by (auto simp: ex_env_def)
qed

text \<open>C20: \<open>start\<close> and \<open>step\<close> of the coordinator return. In every reachable state some step is
  possible; with \<open>n\<close> servers a start that has announced its scenario runs after at most
  \<open>12 n + 8\<close> steps, and a call of \<open>step\<close> has counted its step after at most \<open>3 n + 2\<close>,
  however the manager, the servers and the background thread are scheduled.
\<close>

theorem coordinator_calls_return:
  assumes "env_ok env" and "dg_reachable env s"
  shows "(\<exists>s'. dg_step env s s')
    \<and> (\<forall>m s'. dg_pc s = WaitsForNodes \<longrightarrow> (dg_step env ^^ m) s s' \<longrightarrow> 12 * cnt_peers env + 7 < m \<longrightarrow> manager_running s')
    \<and> (\<forall>m s'. dg_pc s = Distributes \<longrightarrow> (dg_step env ^^ m) s s' \<longrightarrow> 3 * cnt_peers env + 1 < m \<longrightarrow> dg_current_step s < dg_current_step s')"
proof -
  have inv: "dg_inv env s" using dg_reachable_inv assms by blast
  have "manager_running s'" if "dg_pc s = WaitsForNodes" "(dg_step env ^^ m) s s'" "12 * cnt_peers env + 7 < m" for m s'
    using start_run [OF assms(1) inv that(1,2)] start_work_bound [OF assms(1), of s] that(3) by auto
  moreover have "dg_current_step s < dg_current_step s'"
    if "dg_pc s = Distributes" "(dg_step env ^^ m) s s'" "3 * cnt_peers env + 1 < m" for m s'
    using distribution_run [OF assms(1) inv that(1,2)] round_work_bound [OF assms(1), of "dg_group s"] that(3) by auto
  ultimately show ?thesis using dg_step_exists [OF assms(1) inv] by blast
qed

theorem coordinator_calls_return_witness:
  "\<exists>s s'. dg_reachable ex_env s \<and> dg_pc s = WaitsForNodes \<and> (dg_step ex_env ^^ 32) s s' \<and> manager_running s'"
proof -
  obtain s where s: "dg_reachable ex_env s" "dg_pc s = WaitsForNodes" using ex_waits by blast
  obtain s' where s': "(dg_step ex_env ^^ 32) s s'" using dg_run_exists [OF ex_env_ok s(1)] by blast
  then have "manager_running s'" using coordinator_calls_return [OF ex_env_ok s(1)] s(2) by (simp add: ex_peers)
  with s s' show ?thesis by blast
qed

end
