(* ===== verification/Queries.thy ===== *)
theory Queries
  imports Lifecycle Distributed Network_Configurator
begin

text \<open>
  What the outside sees: the set-up of the network manager for a scenario and its views of the network
  (\<open>network/manager/NetworkManager.py\<close>), the queries and decorators of the RPC server
  (\<open>rpc/RPCServer.py\<close>), and the threads that record exceptions (\<open>concurrency\<close>).
\<close>

section \<open>Set-up of the network manager\<close>

datatype backend_class = BackendVDE | BackendBridgedSingle | BackendBridgedMulti | BackendOther

datatype provisioner = ProvisionerP2P | ProvisionerSameSubnet

text \<open>\<open>NetworkBackend.get_network_provisioner\<close> and its overrides.\<close>

definition backend_provisioner :: "backend_class \<Rightarrow> provisioner option" where
  "backend_provisioner b = (case b of
      BackendVDE \<Rightarrow> Some ProvisionerSameSubnet
    | BackendBridgedSingle \<Rightarrow> Some ProvisionerSameSubnet
    | BackendBridgedMulti \<Rightarrow> Some ProvisionerP2P
    | BackendOther \<Rightarrow> None)"

definition get_network_provisioner :: "backend_class \<Rightarrow> json \<Rightarrow> provisioner option res" where
  "get_network_provisioner b scenario = (case backend_provisioner b of
      Some p \<Rightarrow> Inr (Some p)
    | None \<Rightarrow> rbind (get_network_provisioner_name None scenario) (\<lambda>name.
        Inr (if name = JStr ''p2p'' then Some ProvisionerP2P
             else if name = JStr ''same_subnet'' then Some ProvisionerSameSubnet else None)))"

definition append_event :: "string \<Rightarrow> (event_system, unit) eff" where
  "append_event ev = emodify (\<lambda>es. es\<lparr>es_events := es_events es @ [ev]\<rparr>)"

text \<open>
  \<open>init_for_next_scenario\<close>, after the reset of the book keeping: the events of the scenario, then the
  event system is ready. \<open>auto_stepping\<close> is an attribute of the simulation manager that may be missing.
\<close>

definition init_for_next_scenario :: "backend_class \<Rightarrow> json \<Rightarrow> bool option \<Rightarrow> (event_system, provisioner option) eff" where
  "init_for_next_scenario b scenario auto_stepping =
     ebind (elift (get_network_provisioner b scenario)) (\<lambda>net_configurator.
     ebind (elift (case auto_stepping of None \<Rightarrow> Inl AttributeError | Some auto \<Rightarrow> Inr auto)) (\<lambda>auto.
     eseq (ewhen auto (ebind (elift (is_network_links_auto_ipv4 None scenario)) (\<lambda>ipv4.
            ewhen (truthy ipv4 \<and> net_configurator \<noteq> None)
              (eseq (append_event EVENT_NETWORK_SETUP)
              (ebind (elift (is_connectivity_check_enabled None scenario)) (\<lambda>check.
               ewhen (truthy check) (append_event EVENT_NETWORK_CHECK)))))))
     (eseq (emodify (\<lambda>es. es\<lparr>es_ready := True\<rparr>)) (ereturn net_configurator))))"

section \<open>Views of the network\<close>

text \<open>
  \<open>transform_distance_matrix\<close>: the entries of every node in the order of their keys, filled up on the
  left with empty strings (\<open>None\<close>).
\<close>

definition key_lt :: "(int \<times> int) \<times> 'v \<Rightarrow> (int \<times> int) \<times> 'v \<Rightarrow> bool" where
  "key_lt a b \<longleftrightarrow> fst (fst a) < fst (fst b) \<or> (fst (fst a) = fst (fst b) \<and> snd (fst a) < snd (fst b))"

definition matrix_by_node :: "(int \<times> int, 'v) dict \<Rightarrow> (int, 'v list) dict" where
  "matrix_by_node m = fold (\<lambda>((x, y), val) d. dset d x (ddget_set d x @ [val])) (pysorted key_lt m) []"

definition transform_distance_matrix_rows :: "(int \<times> int, 'v) dict \<Rightarrow> int list \<Rightarrow> 'v option list list" where
  "transform_distance_matrix_rows m ids =
     (let by_node = matrix_by_node m
      in map (\<lambda>i. replicate (length ids - length (ddget_set by_node i)) None @ map Some (ddget_set by_node i)) ids)"

text \<open>\<open>to_id_matrix\<close>\<close>

definition to_id_matrix :: "(emulation_node \<times> emulation_node, 'v) dict \<Rightarrow> (int \<times> int, 'v) dict" where
  "to_id_matrix d = dict_of (map (\<lambda>((x, y), item). ((en_id x, en_id y), item)) d)"

text \<open>
  \<open>create_vde_switch_topology\<close>: the calls on the graph object of \<open>networkx\<close>. Nodes are named by their
  id, interfaces by a string.
\<close>

datatype graph_name = GNode int | GIface string

datatype graph_call = AddNode graph_name nat | AddEdge graph_name graph_name nat

definition group_node :: nat where "group_node = 1"
definition group_interface :: nat where "group_interface = 2"

definition get_interface_name :: "emulation_node \<Rightarrow> interface \<Rightarrow> graph_name" where
  "get_interface_name n i = GIface (int_dec (en_id n) @ ''_'' @ node_class_name (if_type i))"

definition get_interface_group :: "interface \<Rightarrow> nat" where
  "get_interface_group i = group_interface + node_class (if_type i)"

definition end_calls :: "bool \<Rightarrow> emulation_node \<Rightarrow> interface \<Rightarrow> graph_call list" where
  "end_calls include_nodes n i =
     AddNode (get_interface_name n i) (get_interface_group i)
     # (if include_nodes then [AddEdge (GNode (en_id n)) (get_interface_name n i) (get_interface_group i)] else [])"

definition connection_calls :: "bool \<Rightarrow> emulation_node \<Rightarrow> emulation_node \<Rightarrow> interface list \<Rightarrow> graph_call list res" where
  "connection_calls include_nodes x y conn = (case conn of
      [ix, iy] \<Rightarrow> Inr (end_calls include_nodes x ix @ end_calls include_nodes y iy
        @ [AddEdge (get_interface_name x ix) (get_interface_name y iy) (get_interface_group ix)])
    | _ \<Rightarrow> Inl ValueError)"

definition pair_calls :: "bool \<Rightarrow> bool \<Rightarrow> emulation_node list \<times> nic_store \<Rightarrow> graph_call list res" where
  "pair_calls include_management_node include_nodes entry = (case entry of
      ([x, y], nic) \<Rightarrow>
        (if \<not> include_management_node \<and> (is_management_node x \<or> is_management_node y) then Inr []
         else rbind (rmap (connection_calls include_nodes x y) (map fst nic)) (\<lambda>calls.
           Inr ((if include_nodes then [AddNode (GNode (en_id x)) group_node, AddNode (GNode (en_id y)) group_node] else []) @ concat calls)))
    | _ \<Rightarrow> Inl ValueError)"

definition create_vde_switch_topology :: "bool \<Rightarrow> bool \<Rightarrow> 'c connection_store \<Rightarrow> graph_call list res" where
  "create_vde_switch_topology include_management_node include_nodes st =
     rbind (rmap (pair_calls include_management_node include_nodes) (get_active_node_connection_store st)) (\<lambda>calls. Inr (concat calls))"

section \<open>RPC server\<close>

definition escape :: "char \<Rightarrow> string" where
  "escape c = (if (of_char c :: nat) \<ge> 32 then [c] else [])"

definition escape_decorator :: "string \<Rightarrow> string" where
  "escape_decorator res = concat (map escape res)"

definition assert_node_id_is_int :: "json \<Rightarrow> ('c, 'w, 'a) mg \<Rightarrow> ('c, 'w, 'a) mg" where
  "assert_node_id_is_int node_id f = (case node_id of JInt _ \<Rightarrow> f | JBool _ \<Rightarrow> f | _ \<Rightarrow> eraise ValueError)"

definition node_id_2_int :: "json \<Rightarrow> (int \<Rightarrow> ('c, 'w, 'a) mg) \<Rightarrow> ('c, 'w, 'a) mg" where
  "node_id_2_int node_id f = ebind (elift (py_int_json node_id)) f"

definition rpc_get_server_for_node :: "json \<Rightarrow> ('c, 'w, int option) mg" where
  "rpc_get_server_for_node node_id = node_id_2_int node_id (\<lambda>i. ebind (eget mg_scenario) (\<lambda>sc. elift (get_server_for_node sc i)))"

definition LOCAL_IP_V4 :: string where "LOCAL_IP_V4 = ''127.0.0.1''"

definition get_distributed_address_mapping :: "('c, 'w, (int, json) dict) mg" where
  "get_distributed_address_mapping = requires_simulation_running (ebind (eget mg_scenario) (\<lambda>sc.
     ebind (elift (get_network_backend_bridged_tunnel_endpoints None sc)) (\<lambda>res. ereturn (case res of
        None \<Rightarrow> [(1, JStr LOCAL_IP_V4)] | Some [] \<Rightarrow> [(1, JStr LOCAL_IP_V4)] | Some m \<Rightarrow> m))))"

definition get_links :: "bool \<Rightarrow> string option \<Rightarrow> ('c, 'w, (emulation_node list, lq_matrix_val) dict) mg" where
  "get_links include_interfaces key = requires_simulation_running
     (ebind (eget (\<lambda>s. get_link_quality_matrix (nm_connection_store (mg_sim s)) include_interfaces key)) elift)"

definition rpc_get_distance_matrix :: "('c, 'w, distance_matrix) mg" where
  "rpc_get_distance_matrix = requires_simulation_running (eget (\<lambda>s. pysorted key_lt (sm_distance_matrix (mg_sim s))))"

text \<open>
  The complete matrix is computed but not returned; the two views of a node iterate over nothing or
  call a method that does not exist.
\<close>

definition node_get_complete_distance_matrix :: "('w, 'm) eff \<Rightarrow> ('c, 'w, unit) mg" where
  "node_get_complete_distance_matrix distances = requires_simulation_running (eseq (in_env distances) (ereturn ()))"

definition node_get_distances :: "('w, 'm) eff \<Rightarrow> ('c, 'w, 'r) mg" where
  "node_get_distances distances = requires_simulation_running (eseq (node_get_complete_distance_matrix distances) (eraise TypeError))"

definition node_get_link_qualities :: "('c, 'w, 'r) mg" where
  "node_get_link_qualities = requires_simulation_running (eraise AttributeError)"

definition get_max_connected_distance :: "rat option \<Rightarrow> rat" where
  "get_max_connected_distance d = (case d of None \<Rightarrow> 0 | Some d \<Rightarrow> d)"

section \<open>Threads\<close>

text \<open>
  \<open>ExceptionStopThread.run\<close> for a thread that catches \<open>Exception\<close>: the exception is stored and handed
  to a handler, and the thread is told to end.
\<close>

record stop_thread =
  shall_terminate :: bool
  raise_objects :: "py_error option"

definition thread_init :: stop_thread where
  "thread_init = \<lparr>shall_terminate = False, raise_objects = None\<rparr>"

definition terminate :: "stop_thread \<Rightarrow> stop_thread" where
  "terminate t = t\<lparr>shall_terminate := True\<rparr>"

definition thread_run :: "('s, unit) eff \<Rightarrow> (py_error \<Rightarrow> 's \<Rightarrow> 's) \<Rightarrow> stop_thread \<Rightarrow> 's \<Rightarrow> stop_thread \<times> 's" where
  "thread_run run handler t s = (case run s of
      (Inr _, s) \<Rightarrow> (t, s)
    | (Inl e, s) \<Rightarrow> (terminate (t\<lparr>raise_objects := Some e\<rparr>), handler e s))"

text \<open>
  The handler of \<open>run_fun_threaded_n_log_exception\<close> records a triple of the exception, nothing and the
  traceback, which is no exception itself.
\<close>

definition log_exception :: "py_error \<Rightarrow> py_error list \<Rightarrow> py_error list" where
  "log_exception e errors = errors @ [e]"

text \<open>\<open>simulation_encountered_exception\<close>: raising a recorded triple is a \<open>TypeError\<close>.\<close>

definition simulation_encountered_exception :: "('c, 's, 'w) life_env \<Rightarrow> py_error list \<Rightarrow> ('c, 'w, unit) mg" where
  "simulation_encountered_exception env errors =
     (if errors \<noteq> [] then eraise TypeError else eseq (raise_run_loop_exception env) (ereturn ()))"

section \<open>Lemmas\<close>

subsection \<open>Set-up\<close>

text \<open>Every backend of the program brings its own provisioner: the scenario's choice has no effect.\<close>

lemma configured_provisioner_ignored:
  "b \<noteq> BackendOther \<Longrightarrow> \<exists>p. \<forall>scenario. get_network_provisioner b scenario = Inr (Some p)"
  by (cases b) (simp_all add: get_network_provisioner_def backend_provisioner_def)

text \<open>
  The network check is only announced together with the network set-up, and both only for a
  simulation that steps by itself.
\<close>

lemma init_announces_events:
  assumes "get_network_provisioner b scenario = Inr p"
    and "is_network_links_auto_ipv4 None scenario = Inr ipv4" and "is_connectivity_check_enabled None scenario = Inr check"
  shows "init_for_next_scenario b scenario (Some auto) es =
    (Inr p, es\<lparr>es_ready := True, es_events := es_events es @
       (if auto \<and> truthy ipv4 \<and> p \<noteq> None then EVENT_NETWORK_SETUP # (if truthy check then [EVENT_NETWORK_CHECK] else []) else [])\<rparr>)"
  using assms by (simp add: init_for_next_scenario_def ebind_def elift_def ewhen_def ereturn_def emodify_def append_event_def)

text \<open>If the set-up fails, the event system is not declared ready.\<close>

lemma failed_init_not_ready:
  "fst (init_for_next_scenario b scenario auto es) = Inl e \<Longrightarrow> es_ready (snd (init_for_next_scenario b scenario auto es)) = es_ready es"
  by (auto simp: init_for_next_scenario_def ebind_def elift_def ewhen_def ereturn_def emodify_def append_event_def
      split: sum.splits option.splits if_splits)

subsection \<open>Matrices\<close>

lemma matrix_by_node_row:
  "ddget_set (fold (\<lambda>((x, y), val) d. dset d x (ddget_set d x @ [val])) es d) i =
     ddget_set d i @ map snd (filter (\<lambda>e. fst (fst e) = i) es)"
proof (induction es arbitrary: d)
  case (Cons e es)
  obtain x y v where "e = ((x, y), v)" by (metis prod.collapse)
  then show ?case using Cons by (simp add: ddget_dset)
qed simp

lemma distinct_keys_pysorted: "dwf m \<Longrightarrow> distinct (map fst (pysorted lt m))"
proof -
  assume "dwf m"
  then have "distinct (map fst m)" by (simp add: kwf_def)
  moreover have "card (fst ` set (pysorted lt m)) = card (fst ` set m)" by simp
  ultimately show ?thesis
    by (metis card_distinct distinct_card length_map length_pysorted list.set_map)
qed

text \<open>For the distances of the given nodes, the result is a square table.\<close>

lemma transform_rows_square:
  assumes "dwf m" and "\<forall>((x, y), val) \<in> set m. y \<in> set ids"
  shows "length (transform_distance_matrix_rows m ids) = length ids \<and> (\<forall>row \<in> set (transform_distance_matrix_rows m ids). length row = length ids)"
proof -
  have "length (ddget_set (matrix_by_node m) i) \<le> length ids" for i
  proof -
    let ?row = "filter (\<lambda>e. fst (fst e) = i) (pysorted key_lt m)"
    have "distinct (map fst ?row)" using distinct_keys_pysorted [OF assms(1)] by (simp add: distinct_map_filter)
    moreover have "inj_on snd (fst ` set ?row)" by (auto simp: inj_on_def)
    ultimately have "distinct (map snd (map fst ?row))" by (subst distinct_map) simp
    moreover have "set (map snd (map fst ?row)) \<subseteq> set ids" using assms(2) by auto
    ultimately have "length ?row \<le> card (set ids)" by (metis card_mono distinct_card length_map List.finite_set)
    then show ?thesis
      using card_length [of ids] matrix_by_node_row [of "pysorted key_lt m" "[]" i]
      by (simp add: matrix_by_node_def ddget_set_def)
  qed
  then show ?thesis by (auto simp: transform_distance_matrix_rows_def Let_def)
qed

subsection \<open>Topology\<close>

text \<open>The names that were added, and that every edge joins two of them.\<close>

definition added_names :: "graph_call list \<Rightarrow> graph_name set" where
  "added_names calls = {n. \<exists>g. AddNode n g \<in> set calls}"

fun edges_join :: "graph_name set \<Rightarrow> graph_call list \<Rightarrow> bool" where
  "edges_join known [] = True"
| "edges_join known (AddNode n g # calls) = edges_join (insert n known) calls"
| "edges_join known (AddEdge a b g # calls) = (a \<in> known \<and> b \<in> known \<and> edges_join known calls)"

lemma edges_join_append: "edges_join known (xs @ ys) \<longleftrightarrow> edges_join known xs \<and> edges_join (known \<union> added_names xs) ys"
proof (induction known xs rule: edges_join.induct)
  case (2 known n g calls)
  have "insert n known \<union> added_names calls = known \<union> added_names (AddNode n g # calls)" by (auto simp: added_names_def)
  then show ?case using 2 by simp
next
  case (3 known a b g calls)
  have "added_names (AddEdge a b g # calls) = added_names calls" by (auto simp: added_names_def)
  then show ?case using 3 by auto
qed (simp add: added_names_def)

lemma edges_join_mono: "edges_join known calls \<Longrightarrow> known \<subseteq> known' \<Longrightarrow> edges_join known' calls"
  by (induction known calls arbitrary: known' rule: edges_join.induct) (auto simp: insert_mono)

lemma edges_join_concat: "(\<And>calls. calls \<in> set css \<Longrightarrow> edges_join known calls) \<Longrightarrow> edges_join known (concat css)"
  by (induction css) (auto simp: edges_join_append intro: edges_join_mono)

lemma rmap_Inr_mem: "rmap f xs = Inr ys \<Longrightarrow> y \<in> set ys \<Longrightarrow> \<exists>x \<in> set xs. f x = Inr y"
  using rmap_Inr_nth [of f xs ys] rmap_Inr_length [of f xs ys] by (fastforce simp: in_set_conv_nth)

lemma connection_calls_join:
  assumes "connection_calls inc x y conn = Inr calls" and "inc \<longrightarrow> {GNode (en_id x), GNode (en_id y)} \<subseteq> known"
  shows "edges_join known calls"
proof -
  obtain ix iy where "conn = [ix, iy]" using assms(1) by (auto simp: connection_calls_def split: list.splits)
  then show ?thesis using assms by (auto simp: connection_calls_def end_calls_def)
qed

lemma pair_calls_join:
  assumes "pair_calls mgmt inc entry = Inr calls"
  shows "edges_join {} calls"
proof -
  obtain x y nic where entry: "entry = ([x, y], nic)" using assms by (auto simp: pair_calls_def split: prod.splits list.splits)
  show ?thesis
  proof (cases "\<not> mgmt \<and> (is_management_node x \<or> is_management_node y)")
    case False
    let ?nodes = "if inc then [AddNode (GNode (en_id x)) group_node, AddNode (GNode (en_id y)) group_node] else []"
    obtain css where css: "rmap (connection_calls inc x y) (map fst nic) = Inr css" "calls = ?nodes @ concat css"
      using assms False by (auto simp: pair_calls_def entry rbind_Inr_iff)
    have "edges_join (added_names ?nodes) c" if c: "c \<in> set css" for c
    proof -
      obtain conn where "connection_calls inc x y conn = Inr c"
        using rmap_Inr_mem [OF css(1) c] by blast
      then show ?thesis by (rule connection_calls_join) (auto simp: added_names_def)
    qed
    from edges_join_concat [OF this] show ?thesis using css(2) by (simp add: edges_join_append)
  qed (use assms in \<open>simp add: pair_calls_def entry\<close>)
qed

text \<open>Every edge of the exported topology joins two nodes that were added before it.\<close>

lemma topology_edges_join:
  assumes "create_vde_switch_topology mgmt inc st = Inr calls"
  shows "edges_join {} calls"
proof -
  obtain css where css: "rmap (pair_calls mgmt inc) (get_active_node_connection_store st) = Inr css" "calls = concat css"
    using assms by (auto simp: create_vde_switch_topology_def rbind_Inr_iff)
  show ?thesis unfolding css(2)
  proof (rule edges_join_concat)
    fix c assume "c \<in> set css"
    then obtain entry where "pair_calls mgmt inc entry = Inr c"
      using rmap_Inr_mem [OF css(1)] by blast
    then show "edges_join {} c" by (rule pair_calls_join)
  qed
qed

text \<open>The number of an interface is not part of its name: two interfaces of a class become one node.\<close>

lemma interfaces_of_class_collapse: "if_type i = if_type j \<Longrightarrow> get_interface_name n i = get_interface_name n j"
  by (simp add: get_interface_name_def)

subsection \<open>RPC server and threads\<close>

text \<open>An escaped text has no control characters, and a text without them is not changed.\<close>

lemma escape_removes_controls: "escape_decorator s = filter (\<lambda>c. (of_char c :: nat) \<ge> 32) s"
  by (induction s) (simp_all add: escape_decorator_def escape_def)

text \<open>The views of one node fail for every running simulation.\<close>

lemma node_views_fail:
  assumes "mg_running s"
  shows "\<exists>e. fst (node_get_distances distances s) = Inl e" and "fst (node_get_link_qualities s) = Inl AttributeError"
proof -
  show "fst (node_get_link_qualities s) = Inl AttributeError"
    using assms by (simp add: node_get_link_qualities_def requires_simulation_running_def ebind_def eget_def eraise_def)
  show "\<exists>e. fst (node_get_distances distances s) = Inl e"
    using assms by (auto simp: node_get_distances_def requires_simulation_running_def ebind_def eget_def eraise_def split: prod.splits sum.splits)
qed

text \<open>A thread keeps its exception, ends, and its handler sees the exception; otherwise it is left alone.\<close>

lemma thread_run_outcome:
  "raise_objects t = None \<Longrightarrow> thread_run run handler t s = (t', s') \<Longrightarrow>
     (case fst (run s) of
        Inl e \<Rightarrow> raise_objects t' = Some e \<and> shall_terminate t' \<and> s' = handler e (snd (run s))
      | Inr _ \<Rightarrow> t' = t \<and> s' = snd (run s))"
  by (cases "run s"; cases "fst (run s)") (auto simp: thread_run_def terminate_def)

end
