(* ===== verification/Repl.thy ===== *)
theory Repl
  imports Effects Interfaces Core_Topology
begin

text \<open>
  Commands on the consoles of virtual machines, the monitor of Qemu, switches and wire filters:
  reading from a socket until a prompt appears (\<open>util/NetUtil.py\<close>), running a script line by line
  (\<open>repl/CommandRunner.py\<close>, \<open>repl/REPLable.py\<close>), and the checks of return values of Qemu and of its
  monitor (\<open>model/emulation/Qemu.py\<close>, \<open>QemuMonitorRepl.py\<close>).

  The other end of the socket is a parameter: what it sends on connecting and after every line is a
  list of pieces, each with the time one waits for it after the piece before. A piece is what one
  \<open>recv\<close> returns. Once nothing more comes, or the other end has closed the connection, a reader waits
  until its timeout.
\<close>

section \<open>State and environment\<close>

type_synonym pieces = "(rat \<times> string) list"

record 'p repl =
  rp_peer :: 'p
  rp_pending :: pieces
  rp_open :: bool
  rp_sent :: "string list"

text \<open>
  \<open>re_connect\<close> is a connect that may raise and \<open>re_react\<close> a send that may; \<open>re_prompt\<close> is the search
  for the regular expression of the prompt and \<open>re_render\<close> the template engine of the subclass.
\<close>

record 'p repl_env =
  re_connect :: "'p \<Rightarrow> pieces res \<times> 'p"
  re_react :: "string \<Rightarrow> 'p \<Rightarrow> pieces res \<times> 'p"
  re_decode :: "string \<Rightarrow> string res"
  re_render :: "string \<Rightarrow> string res"
  re_prompt :: "string \<Rightarrow> bool"
  re_timeout :: rat
  re_send_newline :: bool
  re_checker :: "(string \<Rightarrow> string \<Rightarrow> unit res) option"

section \<open>Sockets\<close>

definition wait_until_uds_reachable :: "'p repl_env \<Rightarrow> ('p repl, unit) eff" where
  "wait_until_uds_reachable env s = (case re_connect env (rp_peer s) of
      (Inl e, p) \<Rightarrow> (Inl e, s\<lparr>rp_peer := p\<rparr>)
    | (Inr greeting, p) \<Rightarrow> (Inr (), s\<lparr>rp_peer := p, rp_pending := greeting, rp_open := True\<rparr>))"

definition sock_send :: "'p repl_env \<Rightarrow> string \<Rightarrow> ('p repl, unit) eff" where
  "sock_send env data s = (case re_react env data (rp_peer s) of
      (Inl e, p) \<Rightarrow> (Inl e, s\<lparr>rp_peer := p\<rparr>)
    | (Inr answer, p) \<Rightarrow> (Inr (), s\<lparr>rp_peer := p, rp_pending := rp_pending s @ answer, rp_sent := rp_sent s @ [data]\<rparr>))"

text \<open>
  \<open>SocketExpect.read\<close>: the time is compared before the data is read, so a piece that arrives after the
  timeout is not looked at.
\<close>

fun expect_read :: "'p repl_env \<Rightarrow> rat \<Rightarrow> string \<Rightarrow> pieces \<Rightarrow> string res \<times> pieces" where
  "expect_read env elapsed output [] = (Inl Timeout, [])"
| "expect_read env elapsed output ((wait, data) # rest) =
     (if elapsed + wait > re_timeout env then (Inl Timeout, (0, data) # rest)
      else (case re_decode env data of
          Inl e \<Rightarrow> (Inl e, rest)
        | Inr text \<Rightarrow> (if re_prompt env (output @ text) then (Inr (output @ text), rest)
            else expect_read env (elapsed + wait) (output @ text) rest)))"

definition wait_for_socket_result :: "'p repl_env \<Rightarrow> ('p repl, string) eff" where
  "wait_for_socket_result env s = (if re_timeout env < 0 then (Inl ValueError, s)
     else (let (r, rest) = expect_read env 0 '''' (rp_pending s) in (r, s\<lparr>rp_pending := rest\<rparr>)))"

text \<open>
  \<open>read_remaining_data\<close> adds the bytes it receives to a string, which raises, and returns from its
  \<open>finally\<close> block, which drops the exception: one piece that is already there is lost, and the result
  is always empty.
\<close>

definition read_remaining_data :: "('p repl, string) eff" where
  "read_remaining_data s = (case rp_pending s of
      (wait, data) # rest \<Rightarrow> (Inr '''', if wait \<le> 0 then s\<lparr>rp_pending := rest\<rparr> else s)
    | [] \<Rightarrow> (Inr '''', s))"

section \<open>Command runner\<close>

definition wait_for_command_execution :: "'p repl_env \<Rightarrow> ('p repl, string) eff" where
  "wait_for_command_execution env = wait_for_socket_result env"

text \<open>A wait that returns has read something, so the loop of \<open>enter_shell\<close> ends after one round.\<close>

definition enter_shell :: "'p repl_env \<Rightarrow> ('p repl, unit) eff" where
  "enter_shell env = eseq (ewhen (re_send_newline env) (sock_send env [CHR 0x0A]))
     (eseq (wait_for_command_execution env) (ereturn ()))"

definition execute_line :: "'p repl_env \<Rightarrow> string \<Rightarrow> ('p repl, string) eff" where
  "execute_line env cmd =
     eseq (sock_send env (cmd @ [CHR 0x0A]))
     (ebind (wait_for_command_execution env) (\<lambda>res.
      ebind read_remaining_data (\<lambda>rest.
      (let res = res @ rest in
       case re_checker env of
         None \<Rightarrow> ereturn res
       | Some check \<Rightarrow> (case check (cmd @ [CHR 0x0A]) res of
           Inl _ \<Rightarrow> eraise REPLUnexpectedResult | Inr _ \<Rightarrow> ereturn res)))))"

text \<open>A generator: what it yielded before an exception is kept.\<close>

fun execute_lines :: "'p repl_env \<Rightarrow> string list \<Rightarrow> 'p repl \<Rightarrow> string list \<times> unit res \<times> 'p repl" where
  "execute_lines env [] s = ([], Inr (), s)"
| "execute_lines env (cmd # cmds) s = (if cmd = '''' then execute_lines env cmds s
     else (case execute_line env cmd s of
         (Inl e, s) \<Rightarrow> ([], Inl e, s)
       | (Inr res, s) \<Rightarrow> (let (outs, r, s) = execute_lines env cmds s in (res # outs, r, s))))"

definition execute_script :: "'p repl_env \<Rightarrow> string \<Rightarrow> 'p repl \<Rightarrow> string list \<times> unit res \<times> 'p repl" where
  "execute_script env flo s = (case re_render env flo of
      Inl e \<Rightarrow> ([], Inl e, s)
    | Inr script \<Rightarrow> execute_lines env (split_str [CHR 0x0A] [] script) s)"

definition close_sockets :: "'p repl \<Rightarrow> 'p repl" where
  "close_sockets s = s\<lparr>rp_open := False\<rparr>"

text \<open>
  \<open>CommandRunner.__call__\<close>. Without a socket the clean-up raises. An \<open>IOError\<close> of the socket ends
  the script without an exception.
\<close>

definition command_runner :: "'p repl_env \<Rightarrow> string \<Rightarrow> 'p repl \<Rightarrow> string list \<times> unit res \<times> 'p repl" where
  "command_runner env flo s = (case wait_until_uds_reachable env s of
      (Inl e, s) \<Rightarrow> ([], Inl ValueError, s)
    | (Inr _, s) \<Rightarrow> (let (outs, r, s) = (case enter_shell env s of
          (Inl e, s) \<Rightarrow> ([], Inl e, s) | (Inr _, s) \<Rightarrow> execute_script env flo s)
        in (case r of
          Inr _ \<Rightarrow> (outs, Inr (), close_sockets s)
        | Inl e \<Rightarrow> (if e = IOError then (outs, Inr (), close_sockets s)
            else if e = Timeout then (outs, Inl REPLTimeout, close_sockets (snd (sock_send env [CHR 0x03] s)))
            else (outs, Inl e, close_sockets s)))))"

section \<open>Running commands\<close>

text \<open>\<open>run_commands\<close> enumerates socket and outputs, and yields only the element with index 1.\<close>

definition run_commands_eager :: "'p repl_env \<Rightarrow> string \<Rightarrow> ('p repl, string) eff" where
  "run_commands_eager env flo s = (let (outs, r, s) = command_runner env flo s in
     (rbind r (\<lambda>_. Inr (pyjoin [CHR 0x0A] (take 1 outs))), s))"

definition repl_timeout :: "rat option \<Rightarrow> rat \<Rightarrow> rat" where
  "repl_timeout given configured = (case given of None \<Rightarrow> configured | Some t \<Rightarrow> if t = 0 then configured else t)"

definition str_contains :: "string \<Rightarrow> string \<Rightarrow> bool" where
  "str_contains pat s \<longleftrightarrow> list_ex (\<lambda>n. take (length pat) (drop n s) = pat) [0..<Suc (length s)]"

definition exit_code_shell_cmd_checker :: string where
  "exit_code_shell_cmd_checker = '' ; echo -n exit code:$?''"

definition check_zero_ret_code :: "string \<Rightarrow> string \<Rightarrow> unit res" where
  "check_zero_ret_code cmd res = (if str_contains ''exit code:0'' res then Inr () else Inl ValueError)"

definition with_exit_code :: "string \<Rightarrow> string" where
  "with_exit_code flo = pyjoin [CHR 0x0A] (map (\<lambda>cmd. cmd @ exit_code_shell_cmd_checker) (split_str [CHR 0x0A] [] flo))"

definition qemu_run_commands_eager_check_ret_val :: "'p repl_env \<Rightarrow> string \<Rightarrow> ('p repl, string) eff" where
  "qemu_run_commands_eager_check_ret_val env flo =
     run_commands_eager (env\<lparr>re_checker := Some check_zero_ret_code\<rparr>) (with_exit_code flo)"

text \<open>The monitor does not send a newline first; \<open>missing\<close> is its regular expression for a missing snapshot.\<close>

definition monitor_run_commands_eager_check_ret_val :: "(string \<Rightarrow> bool) \<Rightarrow> 'p repl_env \<Rightarrow> string \<Rightarrow> ('p repl, string) eff" where
  "monitor_run_commands_eager_check_ret_val missing env flo =
     run_commands_eager (env\<lparr>re_send_newline := False, re_render := Inr,
       re_checker := Some (\<lambda>cmd res. if missing res then Inl ValueError else Inr ())\<rparr>) flo"

definition make_snapshot :: "(string \<Rightarrow> bool) \<Rightarrow> 'p repl_env \<Rightarrow> string \<Rightarrow> ('p repl, unit) eff" where
  "make_snapshot missing env name =
     eseq (monitor_run_commands_eager_check_ret_val missing env (''savevm '' @ name)) (ereturn ())"

definition loadvm :: "(string \<Rightarrow> bool) \<Rightarrow> 'p repl_env \<Rightarrow> string \<Rightarrow> ('p repl, unit) eff" where
  "loadvm missing env name s = (case monitor_run_commands_eager_check_ret_val missing env (''loadvm '' @ name) s of
      (Inl e, s) \<Rightarrow> (Inl (if e = REPLUnexpectedResult then QemuMonitorSnapshotLoadError else e), s)
    | (Inr _, s) \<Rightarrow> (Inr (), s))"

definition set_link_mtu :: "'p repl_env \<Rightarrow> string \<Rightarrow> string \<Rightarrow> ('p repl, unit) eff" where
  "set_link_mtu env iface mtu =
     eseq (qemu_run_commands_eager_check_ret_val env (''ifconfig '' @ iface @ '' mtu '' @ mtu)) (ereturn ())"

definition get_ifaces :: "string \<Rightarrow> interface list \<Rightarrow> string list" where
  "get_ifaces nic interfaces = map (\<lambda>i. nic @ nat_dec i) [0..<length (filter_normal_interfaces interfaces)]"

definition set_link_mtus :: "'p repl_env \<Rightarrow> string \<Rightarrow> interface list \<Rightarrow> string \<Rightarrow> ('p repl, unit) eff" where
  "set_link_mtus env nic interfaces mtu = efor (get_ifaces nic interfaces) (\<lambda>iface. set_link_mtu env iface mtu)"

section \<open>Dialogue with a shell\<close>

text \<open>
  A shell answers every line within the timeout, shows its prompt at the end of the answer and only
  there, and sends nothing else. \<open>answer\<close> and \<open>after\<close> describe it.
\<close>

definition shell_answers :: "'p repl_env \<Rightarrow> ('p \<Rightarrow> string \<Rightarrow> string) \<Rightarrow> ('p \<Rightarrow> string \<Rightarrow> 'p) \<Rightarrow> bool" where
  "shell_answers env answer after \<longleftrightarrow> re_timeout env \<ge> 0
     \<and> (\<forall>p line. \<exists>pieces. re_react env line p = (Inr pieces, after p line)
          \<and> expect_read env 0 '''' pieces = (Inr (answer p line), []))"

fun dialogue :: "('p \<Rightarrow> string \<Rightarrow> string) \<Rightarrow> ('p \<Rightarrow> string \<Rightarrow> 'p) \<Rightarrow> 'p \<Rightarrow> string list \<Rightarrow> (string \<times> string) list" where
  "dialogue answer after p [] = []"
| "dialogue answer after p (line # lines) = (line, answer p line) # dialogue answer after (after p line) lines"

fun until_failure :: "('a \<Rightarrow> bool) \<Rightarrow> 'a list \<Rightarrow> 'a list" where
  "until_failure ok [] = []"
| "until_failure ok (x # xs) = x # (if ok x then until_failure ok xs else [])"

definition passes :: "'p repl_env \<Rightarrow> string \<times> string \<Rightarrow> bool" where
  "passes env qa = (case re_checker env of None \<Rightarrow> True | Some check \<Rightarrow> check (fst qa) (snd qa) = Inr ())"

definition script_lines :: "string \<Rightarrow> string list" where
  "script_lines script = map (\<lambda>cmd. cmd @ [CHR 0x0A]) (filter (\<lambda>cmd. cmd \<noteq> '''') (split_str [CHR 0x0A] [] script))"

lemma send_and_wait:
  assumes "shell_answers env answer after" "rp_pending s = []"
  shows "eseq (sock_send env line) (wait_for_command_execution env) s
    = (Inr (answer (rp_peer s) line), s\<lparr>rp_peer := after (rp_peer s) line, rp_sent := rp_sent s @ [line]\<rparr>)"
proof -
  obtain pieces where "re_react env line (rp_peer s) = (Inr pieces, after (rp_peer s) line)"
    "expect_read env 0 '''' pieces = (Inr (answer (rp_peer s) line), [])"
    using assms(1) unfolding shell_answers_def by blast
  then show ?thesis using assms
    by (simp add: ebind_def sock_send_def wait_for_command_execution_def wait_for_socket_result_def shell_answers_def)
qed

lemma execute_line_answer:
  assumes "shell_answers env answer after" "rp_pending s = []" and line_def: "line = cmd @ [CHR 0x0A]"
  shows "execute_line env cmd s
    = (if passes env (line, answer (rp_peer s) line) then Inr (answer (rp_peer s) line) else Inl REPLUnexpectedResult,
       s\<lparr>rp_peer := after (rp_peer s) line, rp_sent := rp_sent s @ [line]\<rparr>)"
  unfolding execute_line_def
  by (subst ebind_assoc [symmetric])
    (auto simp: ebind_def [of "ebind _ _"] send_and_wait [OF assms(1,2)] line_def read_remaining_data_def ebind_def [of read_remaining_data]
      assms(2) passes_def ereturn_def eraise_def Let_def split: option.splits sum.splits)

lemma execute_lines_dialogue:
  fixes cmds
  assumes shell: "shell_answers env answer after" and "rp_pending s = []"
  defines "d \<equiv> dialogue answer after (rp_peer s) (map (\<lambda>cmd. cmd @ [CHR 0x0A]) (filter (\<lambda>cmd. cmd \<noteq> '''') cmds))"
  shows "\<exists>p. execute_lines env cmds s = (map snd (takeWhile (passes env) d),
      if list_all (passes env) d then Inr () else Inl REPLUnexpectedResult,
      s\<lparr>rp_peer := p, rp_sent := rp_sent s @ map fst (until_failure (passes env) d)\<rparr>)"
  using assms(2) unfolding d_def
proof (induction cmds arbitrary: s)
  case Nil
  show ?case by (rule exI [of _ "rp_peer s"]) simp
next
  case (Cons cmd cmds)
  show ?case
  proof (cases "cmd = ''''")
    case True
    then show ?thesis using Cons by simp
  next
    case False
    let ?line = "cmd @ [CHR 0x0A]"
    let ?s = "s\<lparr>rp_peer := after (rp_peer s) ?line, rp_sent := rp_sent s @ [?line]\<rparr>"
    have "rp_pending ?s = []" using Cons.prems by simp
    from Cons.IH [OF this] False show ?thesis
      by (auto simp: execute_line_answer [OF shell Cons.prems refl])
  qed
qed

section \<open>Properties\<close>

text \<open>C26: a script for a virtual machine is run line by line, and checked line by line. With a shell that
  answers every line: after the newline that wakes the shell, the non-empty lines of the script, each
  extended by the output of its exit code, are sent one after the other, each only after the answer to
  the line before it, up to the first answer that does not report the exit code 0; no later line is
  sent. The call raises \<open>REPLUnexpectedResult\<close> if and only if there is such an answer, and the
  connection is closed in any case. If it returns, its result is the answer to the first line only, not
  the output of all commands.
\<close>

theorem script_checked_line_by_line:
  assumes shell: "shell_answers env answer after"
    and connect: "re_connect env (rp_peer s) = (Inr [], p)" and newline: "re_send_newline env"
    and render: "re_render env (with_exit_code flo) = Inr script"
  defines "ok \<equiv> \<lambda>(line, res). str_contains ''exit code:0'' res"
    and "d \<equiv> dialogue answer after (after p [CHR 0x0A]) (script_lines script)"
  shows "\<exists>s'. qemu_run_commands_eager_check_ret_val env flo s =
      (if list_all ok d then Inr (case d of [] \<Rightarrow> '''' | (line, res) # _ \<Rightarrow> res) else Inl REPLUnexpectedResult, s')
    \<and> rp_sent s' = rp_sent s @ [[CHR 0x0A]] @ map fst (until_failure ok d) \<and> \<not> rp_open s'"
proof -
  let ?env = "env\<lparr>re_checker := Some check_zero_ret_code\<rparr>"
  have same: "expect_read ?env t out ps = expect_read env t out ps" for t out ps
    by (induction env t out ps rule: expect_read.induct) (simp_all split: sum.splits)
  have shell': "shell_answers ?env answer after"
    using shell by (simp add: shell_answers_def same)
  have ok: "passes ?env = ok"
    by (auto simp: fun_eq_iff passes_def ok_def check_zero_ret_code_def)
  let ?s1 = "s\<lparr>rp_peer := p, rp_pending := [], rp_open := True\<rparr>"
  define s2 where "s2 = ?s1\<lparr>rp_peer := after p [CHR 0x0A], rp_sent := rp_sent s @ [[CHR 0x0A]]\<rparr>"
  have s2: "rp_peer s2 = after p [CHR 0x0A]" "rp_pending s2 = []" "rp_sent s2 = rp_sent s @ [[CHR 0x0A]]"
    by (simp_all add: s2_def)
  have enter: "enter_shell ?env ?s1 = (Inr (), s2)"
    unfolding s2_def using send_and_wait [OF shell', of ?s1 "[CHR 0x0A]"] newline
    by (simp add: enter_shell_def ewhen_def ebind_assoc [symmetric]) (simp add: ebind_def [of "ebind _ _"] ereturn_def)
  obtain p' where run: "execute_lines ?env (split_str [CHR 0x0A] [] script) s2 = (map snd (takeWhile ok d),
      if list_all ok d then Inr () else Inl REPLUnexpectedResult,
      s2\<lparr>rp_peer := p', rp_sent := rp_sent s2 @ map fst (until_failure ok d)\<rparr>)"
    using execute_lines_dialogue [OF shell' s2(2), of "split_str [CHR 0x0A] [] script"]
    by (auto simp: ok d_def script_lines_def s2(1))
  have first: "pyjoin [CHR 0x0A] (take 1 (map snd (takeWhile ok d))) = (case d of [] \<Rightarrow> '''' | (line, res) # _ \<Rightarrow> res)"
    if "list_all ok d" using that by (cases d) auto
  show ?thesis
    using first by (simp add: qemu_run_commands_eager_check_ret_val_def run_commands_eager_def command_runner_def
        wait_until_uds_reachable_def connect enter execute_script_def render run close_sockets_def s2(3))
qed

definition ex_answer :: "string \<Rightarrow> string" where
  "ex_answer line = (if str_contains ''false'' line then ''exit code:1 #'' else ''exit code:0 #'')"

definition ex_shell :: "unit repl_env" where
  "ex_shell = \<lparr>re_connect = (\<lambda>p. (Inr [], p)), re_react = (\<lambda>line p. (Inr [(1, ex_answer line)], p)), re_decode = Inr, re_render = Inr,
     re_prompt = str_contains ''#'', re_timeout = 10, re_send_newline = True, re_checker = None\<rparr>"

lemma ex_shell_answers: "shell_answers ex_shell (\<lambda>_. ex_answer) (\<lambda>p _. p)"
proof -
  have "str_contains ''#'' ''exit code:1 #''" "str_contains ''#'' ''exit code:0 #''" by code_simp+
  then show ?thesis by (simp add: shell_answers_def ex_shell_def ex_answer_def)
qed

definition ex_script :: string where
  "ex_script = ''true'' @ [CHR 0x0A] @ ''false'' @ [CHR 0x0A] @ ''true''"

theorem script_checked_line_by_line_witness:
  "\<exists>s'. qemu_run_commands_eager_check_ret_val ex_shell ex_script \<lparr>rp_peer = (), rp_pending = [], rp_open = False, rp_sent = []\<rparr>
      = (Inl REPLUnexpectedResult, s') \<and> length (rp_sent s') = 3"
proof -
  let ?d = "dialogue (\<lambda>_. ex_answer) (\<lambda>p _. p) () (script_lines (with_exit_code ex_script))"
  let ?ok = "\<lambda>(line, res). str_contains ''exit code:0'' res"
  have "\<not> list_all ?ok ?d \<and> length (until_failure ?ok ?d) = 2" by code_simp
  then show ?thesis
    using script_checked_line_by_line [OF ex_shell_answers, of "\<lparr>rp_peer = (), rp_pending = [], rp_open = False, rp_sent = []\<rparr>" "()"
        ex_script "with_exit_code ex_script"]
    by (auto simp: ex_shell_def)
qed

end
