(* ===== verification/Movement.thy ===== *)
theory Movement
  imports Effects
begin

text \<open>
  Nodes that walk on a road map: roads (\<open>model/spatial/Road.py\<close>, \<open>Roads.py\<close>), the movement
  patterns \<open>RandomWalk\<close> and \<open>MoveOnBigStreets\<close> and the walk they share
  (\<open>MovementPattern/AbstractMovementPattern.py\<close>). Points of the map are known by their ids. The
  geometry (distances, headings, offsets) comes from the package \<open>LatLon\<close> and random numbers from
  \<open>random.randint\<close>; both are parameters.
\<close>

section \<open>Roads\<close>

record road =
  start_point :: int
  end_point :: int
  car_reverse :: bool
  car_quality :: int
  bike_reverse :: bool
  bike_quality :: int
  foot_quality :: int

definition road_for_car :: "int \<Rightarrow> int \<Rightarrow> road \<Rightarrow> bool" where
  "road_for_car p quality r \<longleftrightarrow>
     p = start_point r \<and> car_quality r \<ge> quality \<or> p = end_point r \<and> car_quality r \<ge> quality \<and> car_reverse r"

definition road_for_bike :: "int \<Rightarrow> int \<Rightarrow> road \<Rightarrow> bool" where
  "road_for_bike p quality r \<longleftrightarrow>
     p = start_point r \<and> bike_quality r \<ge> quality \<or> p = end_point r \<and> bike_quality r \<ge> quality \<and> bike_reverse r"

definition next_roads_for_cars :: "road list \<Rightarrow> int \<Rightarrow> int \<Rightarrow> road list" where
  "next_roads_for_cars roads p quality = filter (road_for_car p quality) roads"

definition next_roads_for_bike :: "road list \<Rightarrow> int \<Rightarrow> int \<Rightarrow> road list" where
  "next_roads_for_bike roads p quality = filter (road_for_bike p quality) roads"

section \<open>Choosing the next point\<close>

text \<open>
  \<open>randint lo hi\<close> is an operation on a world. What the code relies on: it raises a \<open>ValueError\<close>
  for an empty range and returns a number of the range otherwise.
\<close>

type_synonym 'w randint = "int \<Rightarrow> int \<Rightarrow> ('w, int) eff"

definition randint_ok :: "'w randint \<Rightarrow> bool" where
  "randint_ok rnd \<longleftrightarrow> (\<forall>lo hi w. if lo \<le> hi then \<exists>i w'. rnd lo hi w = (Inr i, w') \<and> lo \<le> i \<and> i \<le> hi
     else fst (rnd lo hi w) = Inl ValueError)"

text \<open>\<open>MoveOnBigStreets.get_next_map_node\<close>: the loop over the qualities, then the choice.\<close>

function street_loop :: "road list \<Rightarrow> int \<Rightarrow> int \<Rightarrow> road list \<Rightarrow> road list option" where
  "street_loop roads p quality possible =
     (if possible = [] \<and> quality > 0 then
        (let quality = quality - 1;
             possible = next_roads_for_cars roads p quality @ next_roads_for_cars roads p (quality - 1)
         in if quality = 1 \<and> possible = [] then None else street_loop roads p quality possible)
      else Some possible)"
  by pat_completeness auto
termination by (relation "measure (\<lambda>(roads, p, quality, possible). nat quality)") auto

declare street_loop.simps [simp del]

definition other_end :: "int \<Rightarrow> road \<Rightarrow> int" where
  "other_end p r = (if start_point r = p then end_point r else start_point r)"

definition big_streets_next :: "'w randint \<Rightarrow> road list \<Rightarrow> int \<Rightarrow> int option \<Rightarrow> ('w, int option) eff" where
  "big_streets_next rnd roads p last_point = (case street_loop roads p 5 (next_roads_for_cars roads p 5) of
      None \<Rightarrow> ereturn None
    | Some possible \<Rightarrow>
        (let n = length possible;
             possible = (case last_point of
                 Some q \<Rightarrow> if n \<ge> 2 then filter (\<lambda>r. start_point r \<noteq> q \<and> end_point r \<noteq> q) possible else possible
               | None \<Rightarrow> possible)
         in ebind (if n \<ge> 2 then rnd 0 (int (length possible) - 1) else ereturn 0) (\<lambda>i.
            ebind (elift (pyindex possible (nat i))) (\<lambda>r. ereturn (Some (other_end p r))))))"

text \<open>
  \<open>RandomWalk.get_next_map_node\<close>. The two queries select the neighbours of a point by a
  \<open>UNION\<close>, which removes duplicates by sorting.
\<close>

definition neighbours :: "(int \<times> int) list \<Rightarrow> int \<Rightarrow> int list" where
  "neighbours edges p = sort (oset_of (map snd (filter (\<lambda>e. fst e = p) edges) @ map fst (filter (\<lambda>e. snd e = p) edges)))"

definition random_walk_next :: "'w randint \<Rightarrow> (int \<times> int) list \<Rightarrow> int \<Rightarrow> int option \<Rightarrow> ('w, int option) eff" where
  "random_walk_next rnd edges p last_point =
     (let onward = (case last_point of None \<Rightarrow> neighbours edges p | Some q \<Rightarrow> filter (\<lambda>n. n \<noteq> q) (neighbours edges p));
          candidates = (if onward = [] then neighbours edges p else onward)
      in if candidates = [] then ereturn None
         else ebind (if length candidates = 1 then ereturn 0 else rnd 0 (int (length candidates) - 1)) (\<lambda>i.
              ebind (elift (pyindex candidates (nat i))) (\<lambda>n. ereturn (Some n))))"

section \<open>Walking\<close>

record 'loc pattern =
  current_map_node :: int
  next_map_node :: "int option"
  location :: 'loc
  distance_to_next :: rat
  heading :: rat
  speed_in_m_per_s :: rat

record 'loc geometry =
  loc_of :: "int \<Rightarrow> 'loc"
  metres :: "int \<Rightarrow> int \<Rightarrow> rat"
  heading_to :: "int \<Rightarrow> int \<Rightarrow> rat"
  offset_in_m :: "'loc \<Rightarrow> rat \<Rightarrow> rat \<Rightarrow> 'loc"

text \<open>Reaching the next point: \<open>arrive\<close> sets out for the one after it, if there is one.\<close>

definition arrive :: "'loc geometry \<Rightarrow> int \<Rightarrow> int option \<Rightarrow> 'loc pattern \<Rightarrow> 'loc pattern" where
  "arrive geo n next_point s =
     (let s = s\<lparr>current_map_node := n, location := loc_of geo n, next_map_node := next_point\<rparr>
      in case next_point of
           None \<Rightarrow> s
         | Some n' \<Rightarrow> s\<lparr>distance_to_next := metres geo n n', heading := heading_to geo n n'\<rparr>)"

text \<open>
  \<open>__walk_m\<close>. The first argument bounds the depth of the recursion, as Python does; \<open>pick\<close> is
  \<open>get_next_map_node\<close> of the pattern.
\<close>

fun walk_m ::
  "nat \<Rightarrow> 'loc geometry \<Rightarrow> (int \<Rightarrow> int option \<Rightarrow> ('w, int option) eff) \<Rightarrow> rat \<Rightarrow> 'loc pattern \<Rightarrow> ('w, 'loc pattern) eff" where
  "walk_m 0 geo pick d s = eraise RecursionError"
| "walk_m (Suc depth) geo pick d s = (case next_map_node s of
      None \<Rightarrow> ereturn s
    | Some n \<Rightarrow>
        if d < distance_to_next s then
          ereturn (s\<lparr>location := offset_in_m geo (location s) (heading s) d, distance_to_next := distance_to_next s - d\<rparr>)
        else
          ebind (pick n (Some (current_map_node s))) (\<lambda>next_point. (case next_point of
              None \<Rightarrow> ereturn (arrive geo n next_point s)
            | Some _ \<Rightarrow> walk_m depth geo pick (d - distance_to_next s) (arrive geo n next_point s))))"

definition pattern_walk ::
  "nat \<Rightarrow> 'loc geometry \<Rightarrow> (int \<Rightarrow> int option \<Rightarrow> ('w, int option) eff) \<Rightarrow> rat \<Rightarrow> 'loc pattern \<Rightarrow> ('w, 'loc pattern) eff" where
  "pattern_walk depth geo pick seconds s = walk_m depth geo pick (seconds * speed_in_m_per_s s) s"

text \<open>\<open>AbstractMovementPattern.__init__\<close> with the start point and the speed it got.\<close>

definition pattern_init ::
  "'loc geometry \<Rightarrow> (int \<Rightarrow> int option \<Rightarrow> ('w, int option) eff) \<Rightarrow> int \<Rightarrow> rat \<Rightarrow> ('w, 'loc pattern) eff" where
  "pattern_init geo pick start speed = ebind (pick start None) (\<lambda>next.
     ereturn \<lparr>current_map_node = start, next_map_node = next, location = loc_of geo start,
       distance_to_next = (case next of Some n \<Rightarrow> metres geo start n | None \<Rightarrow> 0),
       heading = (case next of Some n \<Rightarrow> heading_to geo start n | None \<Rightarrow> 0), speed_in_m_per_s = speed\<rparr>)"

section \<open>Staying on the roads\<close>

text \<open>
  A walker is on the way from its current point to an adjacent one, and what is left of the way is
  positive and at most the distance of the two.
\<close>

definition on_road :: "(int \<Rightarrow> int \<Rightarrow> bool) \<Rightarrow> 'loc geometry \<Rightarrow> 'loc pattern \<Rightarrow> bool" where
  "on_road adjacent geo s \<longleftrightarrow> (case next_map_node s of
      None \<Rightarrow> True
    | Some n \<Rightarrow> adjacent (current_map_node s) n \<and> 0 < distance_to_next s \<and> distance_to_next s \<le> metres geo (current_map_node s) n)"

text \<open>What the walk needs of \<open>get_next_map_node\<close>: it only returns adjacent points.\<close>

locale point_chooser =
  fixes adjacent :: "int \<Rightarrow> int \<Rightarrow> bool" and pick :: "int \<Rightarrow> int option \<Rightarrow> ('w, int option) eff"
  assumes pick_adjacent: "pick p q w = (Inr (Some n), w') \<Longrightarrow> adjacent p n"
begin

lemma arrive_on_road:
  assumes "\<forall>p n. adjacent p n \<longrightarrow> 0 < metres geo p n" "pick n q w = (Inr next_point, w')"
  shows "on_road adjacent geo (arrive geo n next_point s)"
proof (cases next_point)
  case (Some n')
  then have "adjacent n n'" using assms(2) pick_adjacent by simp
  then show ?thesis using assms(1) by (simp add: on_road_def arrive_def Some)
qed (simp add: on_road_def arrive_def)

lemma walk_m_on_road:
  assumes "\<forall>p n. adjacent p n \<longrightarrow> 0 < metres geo p n"
  shows "on_road adjacent geo s \<Longrightarrow> 0 \<le> d \<Longrightarrow> walk_m depth geo pick d s w = (Inr s', w') \<Longrightarrow> on_road adjacent geo s'"
proof (induction depth arbitrary: d s w)
  case (Suc depth)
  show ?case
  proof (cases "next_map_node s")
    case None
    then show ?thesis using Suc.prems by (simp add: ereturn_def)
  next
    case (Some n)
    show ?thesis
    proof (cases "d < distance_to_next s")
      case True
      then show ?thesis using Suc.prems Some by (auto simp: on_road_def ereturn_def)
    next
      case False
      then obtain next_point w1 where pick: "pick n (Some (current_map_node s)) w = (Inr next_point, w1)"
        and rest: "(case next_point of None \<Rightarrow> ereturn (arrive geo n next_point s)
          | Some _ \<Rightarrow> walk_m depth geo pick (d - distance_to_next s) (arrive geo n next_point s)) w1 = (Inr s', w')"
        using Suc.prems(3) Some by (auto simp: ebind_Inr)
      have "on_road adjacent geo (arrive geo n next_point s)" using arrive_on_road [OF assms pick] .
      then show ?thesis using rest False Suc.IH [of "arrive geo n next_point s" "d - distance_to_next s" w1]
        by (cases next_point) (auto simp: ereturn_def)
    qed
  qed
qed (simp add: eraise_def)

text \<open>Enough recursion depth for the distance to go, if no two adjacent points are too close.\<close>

lemma walk_m_returns_near:
  assumes "0 < eps" "\<forall>p n. adjacent p n \<longrightarrow> eps \<le> metres geo p n" "\<forall>p q w. \<exists>r w'. pick p q w = (Inr r, w')"
  shows "0 < depth \<Longrightarrow> d < of_nat depth * eps \<Longrightarrow> next_map_node s \<noteq> None \<longrightarrow> eps \<le> distance_to_next s
    \<Longrightarrow> \<exists>s' w'. walk_m depth geo pick d s w = (Inr s', w')"
proof (induction depth arbitrary: d s w)
  case (Suc depth)
  show ?case
  proof (cases "next_map_node s")
    case (Some n)
    show ?thesis
    proof (cases "d < distance_to_next s")
      case False
      obtain r w1 where pick: "pick n (Some (current_map_node s)) w = (Inr r, w1)" using assms(3) by blast
      have "d - distance_to_next s < of_nat depth * eps" using Suc.prems(2,3) Some by (simp add: algebra_simps)
      moreover have "0 < depth" using Suc.prems(2,3) Some False by (cases depth) auto
      moreover have "eps \<le> distance_to_next (arrive geo n r s)" if "r = Some n'" for n'
        using that pick pick_adjacent assms(2) by (simp add: arrive_def)
      ultimately show ?thesis using Suc.IH [of "d - distance_to_next s" "arrive geo n r s" w1] False Some pick
        by (cases r) (auto simp: ebind_def ereturn_def)
    qed (simp add: Some ereturn_def)
  qed (simp add: ereturn_def)
qed simp

lemma walk_m_returns:
  assumes "0 < eps" "\<forall>p n. adjacent p n \<longrightarrow> eps \<le> metres geo p n" "\<forall>p q w. \<exists>r w'. pick p q w = (Inr r, w')"
    and "on_road adjacent geo s" "0 \<le> d" "d < of_nat depth * eps"
  shows "\<exists>s' w'. walk_m (Suc depth) geo pick d s w = (Inr s', w') \<and> on_road adjacent geo s'"
proof -
  have pos: "\<forall>p n. adjacent p n \<longrightarrow> 0 < metres geo p n" using assms(1,2) by fastforce
  have "\<exists>s' w'. walk_m (Suc depth) geo pick d s w = (Inr s', w')"
  proof (cases "next_map_node s")
    case (Some n)
    show ?thesis
    proof (cases "d < distance_to_next s")
      case False
      obtain r w1 where pick: "pick n (Some (current_map_node s)) w = (Inr r, w1)" using assms(3) by blast
      have "d - distance_to_next s < of_nat depth * eps" using assms(4,6) Some by (auto simp: on_road_def)
      moreover have "0 < depth" using assms(5,6) by (cases depth) auto
      moreover have "eps \<le> distance_to_next (arrive geo n r s)" if "r = Some n'" for n'
        using that pick pick_adjacent assms(2) by (simp add: arrive_def)
      ultimately show ?thesis using walk_m_returns_near [OF assms(1-3), of depth "d - distance_to_next s" "arrive geo n r s" w1] False Some pick
        by (cases r) (auto simp: ebind_def ereturn_def)
    qed (simp add: Some ereturn_def)
  qed (simp add: ereturn_def)
  then show ?thesis using walk_m_on_road [OF pos assms(4,5)] by blast
qed

end


definition joined :: "(int \<times> int) list \<Rightarrow> int \<Rightarrow> int \<Rightarrow> bool" where
  "joined edges p n \<longleftrightarrow> (p, n) \<in> set edges \<or> (n, p) \<in> set edges"

lemma set_neighbours: "set (neighbours edges p) = {n. joined edges p n}"
  by (force simp: neighbours_def joined_def)

lemma pyindex_mem: "pyindex xs i = Inr x \<Longrightarrow> x \<in> set xs"
  by (auto simp: pyindex_def split: if_splits)

lemma random_walk_adjacent: "random_walk_next rnd edges p q w = (Inr (Some n), w') \<Longrightarrow> joined edges p n"
  using pyindex_mem [of _ _ n] set_neighbours [of edges p]
  by (force simp: random_walk_next_def Let_def ebind_Inr elift_def ereturn_def split: if_splits option.splits)

interpretation random_walk: point_chooser "joined edges" "random_walk_next rnd edges" for rnd edges
  by unfold_locales (rule random_walk_adjacent)

lemma randint_index:
  assumes "randint_ok rnd" "xs \<noteq> []"
  shows "\<exists>x w'. ebind (rnd 0 (int (length xs) - 1)) (\<lambda>i. ebind (elift (pyindex xs (nat i))) (\<lambda>x. ereturn (f x))) w = (Inr (f x), w') \<and> x \<in> set xs"
proof -
  have "0 \<le> int (length xs) - 1" using assms(2) by (cases xs) auto
  then obtain i w' where "rnd 0 (int (length xs) - 1) w = (Inr i, w')" "0 \<le> i" "i \<le> int (length xs) - 1"
    using assms(1) unfolding randint_ok_def by (metis (no_types))
  then show ?thesis by (auto simp: ebind_def elift_def ereturn_def pyindex_def)
qed

lemma random_walk_returns:
  assumes "randint_ok rnd"
  shows "\<exists>r w'. random_walk_next rnd edges p q w = (Inr r, w')"
proof -
  have "\<exists>r w'. (if xs = [] then ereturn None
      else ebind (if length xs = 1 then ereturn 0 else rnd 0 (int (length xs) - 1)) (\<lambda>i.
        ebind (elift (pyindex xs (nat i))) (\<lambda>n. ereturn (Some n)))) w = (Inr r, w')" for xs :: "int list"
    using randint_index [OF assms, of xs Some w]
    by (cases "length xs = 1") (auto simp: ereturn_def ebind_def elift_def pyindex_def)
  then show ?thesis unfolding random_walk_next_def Let_def by blast
qed

subsection \<open>Big streets\<close>

lemma next_roads_mono: "q' \<le> q \<Longrightarrow> set (next_roads_for_cars roads p q) \<subseteq> set (next_roads_for_cars roads p q')"
  by (auto simp: next_roads_for_cars_def road_for_car_def)

lemma street_loop_subset:
  "set possible \<subseteq> set (next_roads_for_cars roads p 0) \<Longrightarrow> 2 \<le> quality \<Longrightarrow> street_loop roads p quality possible = Some rs
   \<Longrightarrow> rs \<noteq> [] \<and> set rs \<subseteq> set (next_roads_for_cars roads p 0)"
proof (induction roads p quality possible rule: street_loop.induct)
  case (1 roads p quality possible)
  let ?q = "quality - 1"
  let ?next = "next_roads_for_cars roads p ?q @ next_roads_for_cars roads p (?q - 1)"
  have sub: "set ?next \<subseteq> set (next_roads_for_cars roads p 0)"
    using 1(3) next_roads_mono [of 0 ?q roads p] next_roads_mono [of 0 "?q - 1" roads p] by simp
  show ?case
  proof (cases "possible = []")
    case True
    then have loop: "\<not> (?q = 1 \<and> ?next = [])" "street_loop roads p ?q ?next = Some rs"
      using 1(3,4) by (auto simp: street_loop.simps [of roads p quality] Let_def split: if_splits)
    show ?thesis
    proof (cases "?q = 1")
      case True
      then have "?next = rs" using loop by (auto simp: street_loop.simps [of roads p 1])
      then show ?thesis using loop True sub by auto
    next
      case False
      then show ?thesis using 1(1) [of ?q ?next] True loop sub 1(3) by simp
    qed
  next
    case False
    then show ?thesis using 1 by (simp add: street_loop.simps [of roads p quality])
  qed
qed

lemma street_loop_start:
  "street_loop roads p 5 (next_roads_for_cars roads p 5) = Some rs \<Longrightarrow> rs \<noteq> [] \<and> set rs \<subseteq> set (next_roads_for_cars roads p 0)"
  by (rule street_loop_subset [of "next_roads_for_cars roads p 5" roads p 5]) (use next_roads_mono [of 0 5 roads p] in auto)

text \<open>Points joined by a road that cars may take in this direction.\<close>

definition drivable :: "road list \<Rightarrow> int \<Rightarrow> int \<Rightarrow> bool" where
  "drivable roads p n \<longleftrightarrow> (\<exists>r \<in> set roads. road_for_car p 0 r \<and> n = other_end p r)"

lemma big_streets_adjacent:
  assumes "big_streets_next rnd roads p q w = (Inr (Some n), w')"
  shows "drivable roads p n"
proof -
  obtain rs where rs: "street_loop roads p 5 (next_roads_for_cars roads p 5) = Some rs"
    using assms by (auto simp: big_streets_next_def ereturn_def split: option.splits)
  have "\<exists>r \<in> set rs. n = other_end p r"
    using assms rs pyindex_mem
    by (fastforce simp: big_streets_next_def Let_def ebind_Inr elift_def ereturn_def split: option.splits if_splits)
  then show ?thesis using street_loop_start [OF rs] by (auto simp: drivable_def next_roads_for_cars_def)
qed

interpretation big_streets: point_chooser "drivable roads" "big_streets_next rnd roads" for rnd roads
  by unfold_locales (rule big_streets_adjacent)


text \<open>
  A dead end whose only road has the quality 4 is listed twice, so the walker is not allowed to turn
  around, and choosing from nothing raises.
\<close>

lemma big_streets_dead_end:
  assumes "randint_ok rnd" "next_roads_for_cars roads p 3 = [r]" "car_quality r = 4" "q \<in> {start_point r, end_point r}"
  shows "fst (big_streets_next rnd roads p (Some q) w) = Inl ValueError"
proof -
  have at: "next_roads_for_cars roads p k = filter (\<lambda>r. k \<le> car_quality r) [r]" if "3 \<le> k" for k
  proof -
    have "next_roads_for_cars roads p k = filter (\<lambda>r. k \<le> car_quality r) (next_roads_for_cars roads p 3)"
      using that unfolding next_roads_for_cars_def filter_filter by (intro filter_cong) (auto simp: road_for_car_def)
    then show ?thesis by (simp add: assms(2))
  qed
  have "street_loop roads p 5 (next_roads_for_cars roads p 5) = Some [r, r]"
    using at [of 5] at [of 4] at [of 3] assms(3)
    by (simp add: street_loop.simps [of roads p 5] street_loop.simps [of roads p 4])
  then have "big_streets_next rnd roads p (Some q) = ebind (rnd 0 (-1)) (\<lambda>i. ebind (elift (pyindex [] (nat i))) (\<lambda>r. ereturn (Some (other_end p r))))"
    using assms(4) by (auto simp: big_streets_next_def Let_def)
  moreover have "fst (rnd 0 (-1) w) = Inl ValueError" using assms(1) unfolding randint_ok_def by (metis not_one_le_zero neg_0_le_iff_le)
  ultimately show ?thesis by (auto simp: ebind_def split: prod.splits)
qed

section \<open>Properties\<close>

text \<open>C35: a random walk goes on and stays on the roads. On a map whose adjacent points are at least
  \<open>eps\<close> apart, a walker between two adjacent points makes every walk whose length is below
  \<open>depth * eps\<close> without an error within the recursion depth \<open>depth + 1\<close>, and is then between two
  adjacent points again, with a positive rest of the way that is not longer than their distance, or at
  a point without roads. The first way of a new walker satisfies this, too.
\<close>

theorem random_walk_stays_on_roads:
  assumes "randint_ok rnd" "0 < eps" "\<forall>p n. joined edges p n \<longrightarrow> eps \<le> metres geo p n"
    and "0 \<le> seconds * speed_in_m_per_s s" "seconds * speed_in_m_per_s s < of_nat depth * eps"
  shows "(on_road (joined edges) geo s \<longrightarrow>
      (\<exists>s' w'. pattern_walk (Suc depth) geo (random_walk_next rnd edges) seconds s w = (Inr s', w') \<and> on_road (joined edges) geo s'))
    \<and> (\<exists>s0 w'. pattern_init geo (random_walk_next rnd edges) start speed w = (Inr s0, w') \<and> on_road (joined edges) geo s0)"
proof (intro conjI impI)
  assume "on_road (joined edges) geo s"
  then show "\<exists>s' w'. pattern_walk (Suc depth) geo (random_walk_next rnd edges) seconds s w = (Inr s', w') \<and> on_road (joined edges) geo s'"
    unfolding pattern_walk_def
    by (intro random_walk.walk_m_returns [OF assms(2,3)] allI random_walk_returns [OF assms(1)] assms(4,5))
next
  obtain r w1 where "random_walk_next rnd edges start None w = (Inr r, w1)" using random_walk_returns [OF assms(1)] by blast
  moreover from this have "joined edges start n" if "r = Some n" for n
    using that random_walk_adjacent by simp
  moreover have "\<forall>p n. joined edges p n \<longrightarrow> 0 < metres geo p n" using assms(2,3) by fastforce
  ultimately show "\<exists>s0 w'. pattern_init geo (random_walk_next rnd edges) start speed w = (Inr s0, w') \<and> on_road (joined edges) geo s0"
    by (auto simp: pattern_init_def ebind_def ereturn_def on_road_def split: option.splits)
qed

definition ex_randint :: "unit randint" where
  "ex_randint lo hi = (if lo \<le> hi then ereturn lo else eraise ValueError)"

definition ex_geometry :: "int geometry" where
  "ex_geometry = \<lparr>loc_of = (\<lambda>p. p), metres = (\<lambda>_ _. 10), heading_to = (\<lambda>_ _. 0), offset_in_m = (\<lambda>l _ _. l)\<rparr>"

definition ex_walker :: "int pattern" where
  "ex_walker = \<lparr>current_map_node = 1, next_map_node = Some 2, location = 1, distance_to_next = 10, heading = 0, speed_in_m_per_s = 3\<rparr>"

theorem random_walk_stays_on_roads_witness:
  "\<exists>s' w'. pattern_walk 3 ex_geometry (random_walk_next ex_randint [(1, 2), (2, 3)]) 5 ex_walker () = (Inr s', w')
     \<and> on_road (joined [(1, 2), (2, 3)]) ex_geometry s'"
proof -
  have "randint_ok ex_randint" by (simp add: randint_ok_def ex_randint_def ereturn_def eraise_def)
  moreover have "on_road (joined [(1, 2), (2, 3)]) ex_geometry ex_walker"
    by (simp add: on_road_def joined_def ex_geometry_def ex_walker_def)
  ultimately show ?thesis
    using random_walk_stays_on_roads [of ex_randint 10 "[(1, 2), (2, 3)]" ex_geometry 5 ex_walker 2 "()"]
    by (simp add: ex_geometry_def ex_walker_def numeral_3_eq_3)
qed

end
