(* ===== verification/Vde.thy ===== *)
theory Vde
  imports Repl Movement Device_Names
begin

text \<open>
  The VDE backend: switches and wire filters that are controlled over a console
  (\<open>model/network/backends/vde\<close>): repetition of commands that did not succeed, ports and virtual
  LANs of a switch, wire filters between two switches, the adjustment of their quality, and the pairs
  of the connection modes. Consoles and shell are operations on a world.
\<close>

section \<open>Hiccups\<close>

text \<open>\<open>fix_hiccup\<close> with the number of tries that are left; \<open>TRIES\<close> failures may be repeated.\<close>

definition TRIES :: nat where "TRIES = 100"

primrec hiccup_loop :: "(string \<Rightarrow> bool) \<Rightarrow> ('w, string) eff \<Rightarrow> nat \<Rightarrow> ('w, string) eff" where
  "hiccup_loop hiccup f 0 = ebind f (\<lambda>output. if hiccup output then eraise VDESWitchHiccup else ereturn output)"
| "hiccup_loop hiccup f (Suc k) = ebind f (\<lambda>output. if hiccup output then hiccup_loop hiccup f k else ereturn output)"

definition fix_hiccup :: "(string \<Rightarrow> bool) list \<Rightarrow> bool \<Rightarrow> ('w, string) eff \<Rightarrow> ('w, string) eff" where
  "fix_hiccup hiccup_funs negate f =
     hiccup_loop (\<lambda>output. list_ex (\<lambda>h. if negate then \<not> h output else h output) hiccup_funs) f TRIES"

definition not_implemented_output :: "string \<Rightarrow> bool" where
  "not_implemented_output = str_contains ''Function not implemented''"

definition fix_vdeswitch_hiccup :: "('w, string) eff \<Rightarrow> ('w, string) eff" where
  "fix_vdeswitch_hiccup = fix_hiccup [not_implemented_output] False"

definition ensure_successful :: "('w, string) eff \<Rightarrow> ('w, string) eff" where
  "ensure_successful = fix_hiccup [str_contains ''1000 Success''] True"

section \<open>Switches\<close>

definition PORT_MANAGEMENT :: nat where "PORT_MANAGEMENT = 1"
definition PORT_QEMU :: nat where "PORT_QEMU = 2"

record vde_switch =
  vs_id :: string
  vs_interface :: interface
  vs_colorful :: bool
  vs_mgmt_dev_created :: bool
  vs_bridge_dev_name :: "string option"

text \<open>
  \<open>ve_console\<close> runs a script on the console of the switch or wire filter with the given path,
  \<open>run_commands_eager\<close>; \<open>ve_async\<close> starts a process and waits until its console can be reached.
\<close>

record 'w vde_env =
  ve_console :: "string \<Rightarrow> string \<Rightarrow> ('w, string) eff"
  ve_shell :: "string \<Rightarrow> ('w, unit) eff"
  ve_async :: "string \<Rightarrow> ('w, unit) eff"
  ve_devices :: "'w \<Rightarrow> string list"
  ve_randint :: "'w randint"
  ve_temp :: "string \<Rightarrow> string"

definition nl :: string where "nl = [CHR 0x0A]"
definition quote :: string where "quote = [CHR 0x22]"

definition switch_id :: "string \<Rightarrow> interface \<Rightarrow> string" where
  "switch_id node_id interface =
     Device_Names.get_interface_class_dependent_id node_id (node_class (if_type interface)) (nr_host_interface interface)"

definition vde_switch_init :: "string \<Rightarrow> interface \<Rightarrow> vde_switch" where
  "vde_switch_init node_id interface = \<lparr>vs_id = switch_id node_id interface, vs_interface = interface, vs_colorful = True,
     vs_mgmt_dev_created = False, vs_bridge_dev_name = None\<rparr>"

definition get_vde_switch_mgmt_sock_path :: "'w vde_env \<Rightarrow> string \<Rightarrow> string" where
  "get_vde_switch_mgmt_sock_path env sid = ve_temp env (''vde_switch_mgmt_'' @ sid)"

definition get_vde_switch_sock_path :: "'w vde_env \<Rightarrow> string \<Rightarrow> string" where
  "get_vde_switch_sock_path env sid = ve_temp env (''vde_switch_'' @ sid)"

definition switch_console :: "'w vde_env \<Rightarrow> vde_switch \<Rightarrow> string \<Rightarrow> ('w, string) eff" where
  "switch_console env sw script = fix_vdeswitch_hiccup (ve_console env (get_vde_switch_mgmt_sock_path env (vs_id sw)) script)"

definition vde_switch_command :: "'w vde_env \<Rightarrow> vde_switch \<Rightarrow> string option \<Rightarrow> bool \<Rightarrow> string" where
  "vde_switch_command env sw bridge switch =
     nl @ ''vde_switch'' @ nl
     @ ''    -sock '' @ quote @ get_vde_switch_sock_path env (vs_id sw) @ quote @ nl
     @ ''    -M '' @ get_vde_switch_mgmt_sock_path env (vs_id sw) @ nl
     @ ''    '' @ (if switch then '''' else ''-hub'') @ nl
     @ ''    '' @ (case bridge of None \<Rightarrow> '''' | Some dev \<Rightarrow> ''-tap '' @ dev @ '' -m 666'') @ nl"

text \<open>\<open>_start\<close> of \<open>VDESwitch\<close> and of \<open>AbstractSwitch\<close>; an empty name is no bridge for the latter.\<close>

definition vde_switch_start :: "'w vde_env \<Rightarrow> vde_switch \<Rightarrow> string option \<Rightarrow> bool \<Rightarrow> ('w, vde_switch) eff" where
  "vde_switch_start env sw bridge switch =
     (let dev = (case bridge of Some d \<Rightarrow> d | None \<Rightarrow> '''') in
      eseq (ewhen (dev \<noteq> '''') (ve_shell env (''ip tuntap add dev '' @ dev @ '' mode tap'')))
      (ebind (eget (ve_devices env)) (\<lambda>devices.
       if dev \<noteq> '''' \<and> dev \<notin> set devices then eraise NetworkBridgeNotExisting
       else eseq (ve_async env (vde_switch_command env sw bridge switch))
            (ereturn (sw\<lparr>vs_bridge_dev_name := bridge, vs_mgmt_dev_created := dev \<noteq> '''' \<or> vs_mgmt_dev_created sw\<rparr>)))))"

definition vde_switch_reset :: "'w vde_env \<Rightarrow> vde_switch \<Rightarrow> ('w, unit) eff" where
  "vde_switch_reset env sw = ewhen (vs_mgmt_dev_created sw)
     (ve_shell env (''ip l del '' @ (case vs_bridge_dev_name sw of Some d \<Rightarrow> d | None \<Rightarrow> ''None'')))"

definition move_interface_to_vlan :: "'w vde_env \<Rightarrow> vde_switch \<Rightarrow> interface \<Rightarrow> nat \<Rightarrow> ('w, string) eff" where
  "move_interface_to_vlan env sw interface port = (let vlan = nat_dec (node_class (if_type interface)) in
     switch_console env sw (nl @ ''vlan/create '' @ vlan @ nl @ ''port/setvlan '' @ nat_dec port @ '' '' @ vlan @ nl))"

definition color_interface :: "'w vde_env \<Rightarrow> vde_switch \<Rightarrow> nat \<Rightarrow> nat \<Rightarrow> ('w, unit) eff" where
  "color_interface env sw port color = ewhen (vs_colorful sw)
     (eseq (switch_console env sw (nl @ ''port/setcolourful 1'' @ nl @ ''port/setcolour '' @ nat_dec port @ '' '' @ nat_dec color @ nl)) (ereturn ()))"

definition set_port_size :: "'w vde_env \<Rightarrow> vde_switch \<Rightarrow> string \<Rightarrow> ('w, string) eff" where
  "set_port_size env sw num = switch_console env sw (''port/setnumports '' @ num)"

text \<open>The regular expressions \<open>Port\s+(\d+)\<close> and \<open>Numports=(\d+)\<close>.\<close>

definition is_digit :: "char \<Rightarrow> bool" where
  "is_digit c \<longleftrightarrow> (let n = of_char c :: nat in 48 \<le> n \<and> n \<le> 57)"

definition is_blank :: "char \<Rightarrow> bool" where
  "is_blank c \<longleftrightarrow> (let n = of_char c :: nat in n = 32 \<or> (9 \<le> n \<and> n \<le> 13))"

definition digits_number :: "string \<Rightarrow> nat" where
  "digits_number ds = digits_value 10 (map (\<lambda>c. of_char c - 48) ds)"

definition match_port :: "string \<Rightarrow> string option" where
  "match_port s = (if take 4 s = ''Port'' \<and> takeWhile is_blank (drop 4 s) \<noteq> [] then
       (let ds = takeWhile is_digit (dropWhile is_blank (drop 4 s)) in if ds = [] then None else Some ds)
     else None)"

fun find_ports :: "string \<Rightarrow> nat list" where
  "find_ports [] = []"
| "find_ports (c # cs) = (case match_port (c # cs) of Some ds \<Rightarrow> digits_number ds # find_ports cs | None \<Rightarrow> find_ports cs)"

fun find_numports :: "string \<Rightarrow> nat option" where
  "find_numports [] = None"
| "find_numports (c # cs) = (if take 9 (c # cs) = ''Numports='' \<and> takeWhile is_digit (drop 8 cs) \<noteq> []
     then Some (digits_number (takeWhile is_digit (drop 8 cs))) else find_numports cs)"

definition get_used_ports :: "'w vde_env \<Rightarrow> vde_switch \<Rightarrow> ('w, nat list) eff" where
  "get_used_ports env sw = ebind (switch_console env sw ''port/print'') (\<lambda>output. ereturn (find_ports output))"

text \<open>The output of a hiccup begins with blanks and \<open>vde\<close>.\<close>

definition starts_blank_vde :: "string \<Rightarrow> bool" where
  "starts_blank_vde s \<longleftrightarrow> takeWhile is_blank s \<noteq> [] \<and> take 3 (dropWhile is_blank s) = ''vde''"

definition get_num_ports :: "'w vde_env \<Rightarrow> vde_switch \<Rightarrow> ('w, nat) eff" where
  "get_num_ports env sw =
     ebind (fix_hiccup [not_implemented_output, starts_blank_vde] False
         (ve_console env (get_vde_switch_mgmt_sock_path env (vs_id sw)) ''port/showinfo'')) (\<lambda>output.
     case find_numports output of None \<Rightarrow> eraise AttributeError | Some n \<Rightarrow> ereturn n)"

text \<open>The random index goes into the list of a set, whose order is not specified; here it is ascending.\<close>

definition get_free_port :: "'w vde_env \<Rightarrow> vde_switch \<Rightarrow> ('w, nat) eff" where
  "get_free_port env sw =
     ebind (get_num_ports env sw) (\<lambda>n.
     ebind (get_used_ports env sw) (\<lambda>used.
     (let possible = filter (\<lambda>p. p \<notin> set used) [PORT_QEMU..<n + 1] in
      ebind (ve_randint env 0 (int (length possible) - 1)) (\<lambda>i. elift (pyindex possible (nat i))))))"

section \<open>Node backend\<close>

type_synonym switches = "(interface, vde_switch) dict"

definition create_switches :: "string \<Rightarrow> interface list \<Rightarrow> switches" where
  "create_switches node_id interfaces = dict_of (map (\<lambda>i. (i, vde_switch_init node_id i)) interfaces)"

text \<open>\<open>_start\<close> of the node backend starts the switches without arguments, whatever it was given.\<close>

fun start_switches :: "'w vde_env \<Rightarrow> switches \<Rightarrow> ('w, switches) eff" where
  "start_switches env [] = ereturn []"
| "start_switches env ((i, sw) # rest) =
     ebind (vde_switch_start env sw None False) (\<lambda>sw.
     ebind (start_switches env rest) (\<lambda>rest. ereturn ((i, sw) # rest)))"

definition vde_after_pre_shell_commands :: "'w vde_env \<Rightarrow> string \<Rightarrow> switches \<Rightarrow> ('w, unit) eff" where
  "vde_after_pre_shell_commands env num_ports switches =
     eseq (efor (map snd switches) (\<lambda>sw. eseq (set_port_size env sw num_ports) (ereturn ())))
     (eseq (efor switches (\<lambda>(i, sw). color_interface env sw PORT_QEMU (node_class (if_type i))))
           (efor switches (\<lambda>(i, sw). eseq (move_interface_to_vlan env sw i PORT_QEMU) (ereturn ()))))"

definition central_vde_node_start :: "'w vde_env \<Rightarrow> switches \<Rightarrow> interface \<Rightarrow> ('w, vde_switch) eff" where
  "central_vde_node_start env switches interface =
     ebind (start_switches env switches) (\<lambda>switches. case switches of
       [] \<Rightarrow> eraise StopIteration
     | (i, sw) # _ \<Rightarrow> (let sw = sw\<lparr>vs_colorful := False\<rparr> in
         eseq (move_interface_to_vlan env sw interface PORT_MANAGEMENT) (ereturn sw)))"

section \<open>Wire filters\<close>

definition get_wirefilter_uds_socket_path :: "'w vde_env \<Rightarrow> string \<Rightarrow> string \<Rightarrow> interface \<Rightarrow> interface \<Rightarrow> string" where
  "get_wirefilter_uds_socket_path env x y ix iy = ve_temp env (''wirefilter_'' @ switch_id x ix @ ''_'' @ switch_id y iy @ ''.sock'')"

definition wirefilter_command :: "'w vde_env \<Rightarrow> string \<Rightarrow> string \<Rightarrow> interface \<Rightarrow> interface \<Rightarrow> nat \<Rightarrow> nat \<Rightarrow> bool \<Rightarrow> string" where
  "wirefilter_command env x y ix iy port_a port_b start_activated =
     nl @ ''dpipe'' @ nl
     @ ''    vde_plug -p '' @ nat_dec port_a @ '' '' @ get_vde_switch_sock_path env (switch_id x ix) @ '' ='' @ nl
     @ ''     wirefilter  -M '' @ get_wirefilter_uds_socket_path env x y ix iy @ '' '' @ (if start_activated then '''' else ''-l 100'') @ '' ='' @ nl
     @ ''    vde_plug -p '' @ nat_dec port_b @ '' '' @ get_vde_switch_sock_path env (switch_id y iy) @ nl"

definition wirefilter_start ::
  "'w vde_env \<Rightarrow> string \<Rightarrow> string \<Rightarrow> switches \<Rightarrow> switches \<Rightarrow> interface \<Rightarrow> interface \<Rightarrow> bool \<Rightarrow> ('w, nat \<times> nat) eff" where
  "wirefilter_start env x y switches_x switches_y ix iy start_activated =
     ebind (elift (getitem switches_x ix)) (\<lambda>sx.
     ebind (elift (getitem switches_y iy)) (\<lambda>sy.
     ebind (get_free_port env sx) (\<lambda>port_a.
     ebind (get_free_port env sy) (\<lambda>port_b.
     eseq (ve_async env (wirefilter_command env x y ix iy port_a port_b start_activated))
     (eseq (move_interface_to_vlan env sx ix port_a)
     (eseq (move_interface_to_vlan env sy iy port_b) (ereturn (port_a, port_b))))))))"

definition fmt_cmd_bandwidth :: "string \<Rightarrow> string" where "fmt_cmd_bandwidth b = ''bandwidth '' @ b"
definition fmt_cmd_loss :: "string \<Rightarrow> string" where "fmt_cmd_loss l = ''loss '' @ l"

text \<open>\<open>NetworkManager\<close> has no method \<open>set_bandwidth\<close>.\<close>

definition wirefilter_adjust_link_quality :: "'w vde_env \<Rightarrow> string \<Rightarrow> string option \<Rightarrow> string option \<Rightarrow> ('w, unit) eff" where
  "wirefilter_adjust_link_quality env sock bandwidth loss = (case bandwidth of
      Some b \<Rightarrow> eraise AttributeError
    | None \<Rightarrow> (let commands = (case loss of None \<Rightarrow> [] | Some l \<Rightarrow> [fmt_cmd_loss l]) in
        eseq (ensure_successful (ve_console env sock (pyjoin nl commands))) (ereturn ())))"

section \<open>Backend\<close>

definition vde_before_link_initial_start ::
  "'w vde_env \<Rightarrow> string \<Rightarrow> string \<Rightarrow> switches \<Rightarrow> switches \<Rightarrow> interface \<Rightarrow> interface \<Rightarrow> bool \<Rightarrow> ('w, bool \<times> (vde_switch \<times> vde_switch)) eff" where
  "vde_before_link_initial_start env x y switches_x switches_y ix iy start_activated =
     eseq (wirefilter_start env x y switches_x switches_y ix iy start_activated)
     (ebind (elift (getitem switches_x ix)) (\<lambda>sx.
      ebind (elift (getitem switches_y iy)) (\<lambda>sy. ereturn (True, (sx, sy)))))"

text \<open>\<open>create_central\<close> creates and starts one central node and gives its id and switch.\<close>

fun vde_central_nodes :: "('w, int \<times> vde_switch) eff \<Rightarrow> nat \<Rightarrow> interface list \<Rightarrow> ('w, (int, vde_switch) dict) eff" where
  "vde_central_nodes create_central cnt [] = ereturn []"
| "vde_central_nodes create_central cnt (i # is) =
     (if cnt = 1 then eraise ValueError
      else ebind create_central (\<lambda>c. ebind (vde_central_nodes create_central (cnt + 1) is) (\<lambda>cs. ereturn (dupdate [c] cs))))"

definition vde_create_n_connect_central_nodes :: "('w, int \<times> vde_switch) eff \<Rightarrow> interface list \<Rightarrow> ('w, (int, vde_switch) dict) eff" where
  "vde_create_n_connect_central_nodes create_central interfaces =
     vde_central_nodes create_central 0 (filter is_central_node_interface interfaces)"

section \<open>Connection modes\<close>

datatype connection_mode = Circle | Star | Pairwise | PairwiseRandom

text \<open>\<open>rand xs\<close> are the elements drawn for one side. A \<open>zip\<close> object cannot be added to a list.\<close>

definition create_node_indexes :: "(int list \<Rightarrow> ('w, int list) eff) \<Rightarrow> connection_mode \<Rightarrow> int list \<Rightarrow> ('w, (int \<times> int) list) eff" where
  "create_node_indexes rand mode node_ids = (case mode of
      PairwiseRandom \<Rightarrow> ebind (rand node_ids) (\<lambda>xs. ebind (rand node_ids) (\<lambda>ys. ereturn (zip xs ys)))
    | Pairwise \<Rightarrow> ereturn (zip node_ids (tl node_ids))
    | Star \<Rightarrow> ereturn [(x, y). x \<leftarrow> node_ids, y \<leftarrow> node_ids, y > x]
    | Circle \<Rightarrow> eraise TypeError)"

section \<open>Lemmas\<close>

text \<open>An operation that counts how often it is called.\<close>

definition counted :: "('w, 'a) eff \<Rightarrow> (nat \<times> 'w, 'a) eff" where
  "counted f s = (let (r, w) = f (snd s) in (r, (Suc (fst s), w)))"

lemma counted_app: "counted f (n, w) = (fst (f w), (Suc n, snd (f w)))"
  by (simp add: counted_def case_prod_beta)

lemma hiccup_loop_counted:
  assumes "hiccup_loop hiccup (counted f) k (n, w) = (r, (m, w'))"
  shows "n < m \<and> m \<le> n + Suc k \<and> (\<forall>output. r = Inr output \<longrightarrow> \<not> hiccup output)
    \<and> (\<forall>e. r = Inl e \<longrightarrow> m = n + Suc k \<or> (\<exists>v. fst (f v) = Inl e))"
  using assms
proof (induction k arbitrary: n w)
  case 0
  then show ?case
    by (cases "f w"; cases "fst (f w)") (auto simp: ebind_def counted_app eraise_def ereturn_def split: if_splits intro: exI [of _ w])
next
  case (Suc k)
  obtain r1 w1 where f: "f w = (r1, w1)" by fastforce
  show ?case
  proof (cases r1)
    case (Inl e)
    then show ?thesis using Suc.prems f by (auto simp: ebind_def counted_app intro: exI [of _ w])
  next
    case (Inr out)
    show ?thesis
    proof (cases "hiccup out")
      case True
      then have "hiccup_loop hiccup (counted f) k (Suc n, w1) = (r, (m, w'))"
        using Suc.prems f Inr by (simp add: ebind_def counted_app)
      from Suc.IH [OF this] show ?thesis by auto
    next
      case False
      then show ?thesis using Suc.prems f Inr by (auto simp: ebind_def counted_app ereturn_def)
    qed
  qed
qed

text \<open>The port that is chosen is one the switch has, is not that of the management, and is not in use.\<close>

lemma free_port_is_free:
  assumes rnd: "randint_ok (ve_randint env)" and run: "get_free_port env sw w = (Inr port, w')"
  shows "\<exists>n used w1 w2. get_num_ports env sw w = (Inr n, w1) \<and> get_used_ports env sw w1 = (Inr used, w2)
    \<and> PORT_MANAGEMENT < port \<and> port \<le> n \<and> port \<notin> set used"
proof -
  obtain n w1 used w2 i w3 where steps: "get_num_ports env sw w = (Inr n, w1)" "get_used_ports env sw w1 = (Inr used, w2)"
    "pyindex (filter (\<lambda>p. p \<notin> set used) [PORT_QEMU..<n + 1]) (nat i) = Inr port"
    using run unfolding get_free_port_def Let_def ebind_Inr elift_def by auto
  then have "port \<in> set (filter (\<lambda>p. p \<notin> set used) [PORT_QEMU..<n + 1])"
    by (intro pyindex_mem)
  then show ?thesis using steps by (auto simp: PORT_QEMU_def PORT_MANAGEMENT_def simp del: upt_Suc)
qed

lemma full_switch_raises:
  assumes "randint_ok (ve_randint env)" "get_num_ports env sw w = (Inr n, w1)" "get_used_ports env sw w1 = (Inr used, w2)"
    "set [PORT_QEMU..<n + 1] \<subseteq> set used"
  shows "fst (get_free_port env sw w) = Inl ValueError"
proof -
  have none: "filter (\<lambda>p. p \<notin> set used) [PORT_QEMU..<Suc n] = []" using assms(4) by (auto simp: filter_empty_conv simp del: upt_Suc)
  have "fst (ve_randint env 0 (-1) w2) = Inl ValueError"
    using assms(1) unfolding randint_ok_def by (auto dest!: spec [of _ 0] spec [of _ "-1"] spec [of _ w2])
  then show ?thesis unfolding get_free_port_def Let_def
    by (cases "ve_randint env 0 (-1) w2") (auto simp: ebind_def assms none simp del: upt_Suc)
qed

text \<open>With a bandwidth the adjustment always raises; without anything to adjust it raises in the end.\<close>

lemma wirefilter_adjust_raises:
  assumes "bandwidth \<noteq> None \<or> loss = None" "\<And>w. ve_console env sock '''' w = (Inr '''', w)"
  shows "\<exists>e. fst (wirefilter_adjust_link_quality env sock bandwidth loss w) = Inl e"
proof (cases bandwidth)
  case None
  have silent: "\<not> str_contains ''1000 Success'' ''''" by code_simp
  have "hiccup_loop (\<lambda>output. \<not> str_contains ''1000 Success'' output) (ve_console env sock '''') k w = (Inl VDESWitchHiccup, w)" for k
    by (induction k) (simp_all add: ebind_def assms(2) silent eraise_def)
  then show ?thesis using None assms(1)
    by (simp add: wirefilter_adjust_link_quality_def ensure_successful_def fix_hiccup_def ebind_def)
qed (simp add: wirefilter_adjust_link_quality_def eraise_def)

section \<open>Properties\<close>

text \<open>Commands to a switch are repeated until they succeed, but not for ever. Whatever the console
  does, \<open>fix_hiccup\<close> calls it at least once and at most 101 times; a result it returns is never a
  hiccup; and it raises only what the console itself raised, or after exactly 101 hiccups.
\<close>

theorem hiccups_repeated_boundedly:
  assumes "fix_hiccup hiccup_funs negate (counted f) (0, w) = (r, (calls, w'))"
  shows "1 \<le> calls \<and> calls \<le> 101 \<and> (\<forall>output. r = Inr output \<longrightarrow> (\<forall>h \<in> set hiccup_funs. h output = negate))
    \<and> (\<forall>e. r = Inl e \<longrightarrow> calls = 101 \<or> (\<exists>v. fst (f v) = Inl e))"
  using hiccup_loop_counted [OF assms [unfolded fix_hiccup_def]]
  by (cases negate) (auto simp: TRIES_def list_ex_iff)

lemma hiccup_loop_again: "f w = (Inr out, w1) \<Longrightarrow> hiccup out \<Longrightarrow> hiccup_loop hiccup f (Suc k) w = hiccup_loop hiccup f k w1"
  by (simp add: ebind_def)

lemma hiccup_loop_done: "f w = (Inr out, w1) \<Longrightarrow> \<not> hiccup out \<Longrightarrow> hiccup_loop hiccup f k w = (Inr out, w1)"
  by (cases k) (simp_all add: ebind_def ereturn_def)

definition ex_console :: "bool \<Rightarrow> string res \<times> bool" where
  "ex_console warm = (Inr (if warm then ''ok'' else ''Function not implemented''), True)"

theorem hiccups_repeated_boundedly_witness:
  "fix_hiccup [not_implemented_output] False (counted ex_console) (0, False) = (Inr ''ok'', (2, True)) \<and> (2 :: nat) \<le> 101"
proof -
  let ?h = "\<lambda>out. list_ex (\<lambda>h. if False then \<not> h out else h out) [not_implemented_output]"
  have out: "\<not> ?h ''ok''" "?h ''Function not implemented''" by code_simp+
  have "hiccup_loop ?h (counted ex_console) (Suc 99) (0, False) = hiccup_loop ?h (counted ex_console) 99 (1, True)"
    by (rule hiccup_loop_again [where out = "''Function not implemented''"]) (use out in \<open>simp_all add: counted_app ex_console_def\<close>)
  also have "\<dots> = (Inr ''ok'', (2, True))"
    by (rule hiccup_loop_done) (use out in \<open>simp_all add: counted_app ex_console_def\<close>)
  finally have run: "fix_hiccup [not_implemented_output] False (counted ex_console) (0, False) = (Inr ''ok'', (2, True))"
    by (simp add: fix_hiccup_def TRIES_def)
  show ?thesis using hiccups_repeated_boundedly [OF run] run by simp
qed

end
