(* ===== verification/Shell_Processes.thy ===== *)
theory Shell_Processes
  imports Vde
begin

text \<open>
  Processes on the host (\<open>management/ShellHelper.py\<close>): commands in the foreground, processes in the
  background with their owner, the end of all owned processes when a scenario ends, and the log of
  their output.
\<close>

section \<open>Commands\<close>

text \<open>\<open>re.sub("\s+", " ", cmd)\<close>.\<close>

function fmt_cmd_template :: "string \<Rightarrow> string" where
  "fmt_cmd_template [] = []"
| "fmt_cmd_template (c # cs) = (if is_blank c then CHR '' '' # fmt_cmd_template (dropWhile is_blank cs)
     else c # fmt_cmd_template cs)"
  by pat_completeness auto
termination by (relation "measure length") (auto simp: length_dropWhile_le less_Suc_eq_le)

text \<open>What a finished process gives: its return code, its output and its error output.\<close>

record finished =
  fi_returncode :: int
  fi_stdout :: string
  fi_stderr :: string

definition run_shell :: "(string \<Rightarrow> ('w, finished) eff) \<Rightarrow> string \<Rightarrow> ('w, string) eff" where
  "run_shell execute cmd = ebind (execute cmd) (\<lambda>f.
     if fi_returncode f \<noteq> 0 then eraise CalledProcessError else ereturn (fi_stdout f))"

definition run_shell_get_output :: "(string \<Rightarrow> ('w, finished) eff) \<Rightarrow> string \<Rightarrow> ('w, string) eff" where
  "run_shell_get_output execute cmd = ebind (execute (fmt_cmd_template cmd)) (\<lambda>f.
     if fi_returncode f \<noteq> 0 \<and> fi_stderr f \<noteq> '''' then eraise CalledProcessError else ereturn (fi_stdout f))"

definition run_shell_with_input :: "(string \<Rightarrow> string \<Rightarrow> ('w, finished) eff) \<Rightarrow> string \<Rightarrow> string \<Rightarrow> ('w, string) eff" where
  "run_shell_with_input execute cmd inp = ebind (execute cmd inp) (\<lambda>f.
     if fi_returncode f = 0 then ereturn (fi_stdout f) else eraise CalledProcessError)"

definition fmt_shell_cmd_log_file_prologue :: "string \<Rightarrow> string" where
  "fmt_shell_cmd_log_file_prologue cmd = ''$ '' @ cmd @ nl @ replicate 50 (CHR ''-'') @ nl"

section \<open>Log of the background processes\<close>

text \<open>
  The buffer of a descriptor gets one character at a time. When it contains a line break, the text
  before it is written, and is also what remains in the buffer.
\<close>

definition log_char :: "string \<Rightarrow> char \<Rightarrow> string list \<times> string \<Rightarrow> string list \<times> string" where
  "log_char pre c = (\<lambda>(written, buffer).
     (let buffer = buffer @ [c] in
      if CHR 0x0A \<in> set buffer
      then (let line = takeWhile (\<lambda>c. c \<noteq> CHR 0x0A) buffer in (written @ [pre @ '': '' @ line], line))
      else (written, buffer)))"

definition log_output :: "string \<Rightarrow> string \<Rightarrow> string list \<times> string \<Rightarrow> string list \<times> string" where
  "log_output pre text = fold (log_char pre) text"

section \<open>Processes in the background\<close>

datatype signal = Terminate nat | Kill nat

text \<open>
  \<open>sh_running\<close> are all processes of the host that were started here, \<open>sh_subprocesses\<close> those the
  helper owns; \<open>sh_log_writer\<close> is whether the thread that writes the log exists and runs.
\<close>

record shell_helper =
  sh_subprocesses :: "nat list"
  sh_running :: "nat list"
  sh_next :: nat
  sh_log_writer :: "bool option"
  sh_registered :: "nat list"
  sh_signals :: "signal list"

definition shell_helper_init :: shell_helper where
  "shell_helper_init = \<lparr>sh_subprocesses = [], sh_running = [], sh_next = 0, sh_log_writer = None, sh_registered = [], sh_signals = []\<rparr>"

text \<open>\<open>popen\<close> is the start of the process, which may raise.\<close>

definition run_shell_async :: "(string \<Rightarrow> unit res) \<Rightarrow> string \<Rightarrow> bool \<Rightarrow> bool \<Rightarrow> (shell_helper, nat) eff" where
  "run_shell_async popen cmd take_process_ownership supervise_process =
     eseq (emodify (\<lambda>s. if sh_log_writer s = None then s\<lparr>sh_log_writer := Some True\<rparr> else s))
     (eseq (elift (popen (fmt_cmd_template cmd)))
     (ebind (eget sh_next) (\<lambda>p.
      eseq (emodify (\<lambda>s. s\<lparr>sh_next := p + 1, sh_running := sh_running s @ [p]\<rparr>))
      (eseq (ewhen supervise_process (emodify (\<lambda>s. s\<lparr>sh_registered := sh_registered s @ [p]\<rparr>)))
      (eseq (ewhen take_process_ownership (emodify (\<lambda>s. s\<lparr>sh_subprocesses := sh_subprocesses s @ [p]\<rparr>)))
            (ereturn p))))))"

text \<open>\<open>obeys p\<close>: the process ends within the timeout after the first signal.\<close>

definition end_process :: "(nat \<Rightarrow> bool) \<Rightarrow> nat \<Rightarrow> shell_helper \<Rightarrow> shell_helper" where
  "end_process obeys p s = s\<lparr>sh_signals := sh_signals s @ (if obeys p then [Terminate p] else [Terminate p, Kill p]),
     sh_running := removeAll p (sh_running s)\<rparr>"

definition shell_helper_reset :: "(nat \<Rightarrow> bool) \<Rightarrow> shell_helper \<Rightarrow> shell_helper" where
  "shell_helper_reset obeys s =
     (let s = s\<lparr>sh_log_writer := map_option (\<lambda>_. False) (sh_log_writer s)\<rparr>;
          s = fold (end_process obeys) (sh_subprocesses s) s;
          s = s\<lparr>sh_subprocesses := []\<rparr>
      in s\<lparr>sh_log_writer := map_option (\<lambda>_. True) (sh_log_writer s)\<rparr>)"

section \<open>Lemmas\<close>

lemma fmt_cmd_template_blanks: "c \<in> set (fmt_cmd_template cmd) \<Longrightarrow> is_blank c \<Longrightarrow> c = CHR '' ''"
  by (induction cmd rule: fmt_cmd_template.induct) (auto split: if_splits)

lemma fmt_cmd_template_hd: "cmd \<noteq> [] \<Longrightarrow> is_blank (hd (fmt_cmd_template cmd)) = is_blank (hd cmd)"
  by (cases cmd) (auto simp: is_blank_def)

lemma dropWhile_fmt: "\<not> (cmd \<noteq> [] \<and> is_blank (hd cmd)) \<Longrightarrow> dropWhile is_blank (fmt_cmd_template cmd) = fmt_cmd_template cmd"
  by (cases cmd) auto

lemma hd_dropWhile_blank: "\<not> (dropWhile is_blank cs \<noteq> [] \<and> is_blank (hd (dropWhile is_blank cs)))"
  using hd_dropWhile by blast

lemma fmt_cmd_template_idem: "fmt_cmd_template (fmt_cmd_template cmd) = fmt_cmd_template cmd"
proof (induction cmd rule: fmt_cmd_template.induct)
  case (2 c cs)
  have blank: "is_blank (CHR '' '')" by code_simp
  show ?case
    using 2 dropWhile_fmt [OF hd_dropWhile_blank, of cs] blank by simp
qed simp

lemma log_output_append: "log_output pre (s @ t) st = log_output pre t (log_output pre s st)"
  by (simp add: log_output_def)

lemma log_line:
  assumes "CHR 0x0A \<notin> set line" "CHR 0x0A \<notin> set buffer"
  shows "log_output pre (line @ [CHR 0x0A]) (written, buffer) = (written @ [pre @ '': '' @ buffer @ line], buffer @ line)"
  using assms
proof (induction line arbitrary: buffer)
  case Nil
  then have "takeWhile (\<lambda>c. c \<noteq> CHR 0x0A) (buffer @ [CHR 0x0A]) = buffer"
    by (subst takeWhile_append2) auto
  then show ?case by (simp add: log_output_def log_char_def)
next
  case (Cons c line)
  from Cons.IH [of "buffer @ [c]"] Cons.prems show ?case
    by (simp add: log_output_def log_char_def)
qed

text \<open>Every line is logged with all lines before it in front.\<close>

lemma log_accumulates:
  assumes "\<forall>line \<in> set lines. CHR 0x0A \<notin> set line"
  shows "fst (log_output pre (concat (map (\<lambda>line. line @ [CHR 0x0A]) lines)) ([], ''''))
    = map (\<lambda>k. pre @ '': '' @ concat (take (Suc k) lines)) [0..<length lines]"
proof -
  have "log_output pre (concat (map (\<lambda>line. line @ [CHR 0x0A]) lines)) (written, buffer)
      = (written @ map (\<lambda>k. pre @ '': '' @ buffer @ concat (take (Suc k) lines)) [0..<length lines], buffer @ concat lines)"
    if "CHR 0x0A \<notin> set buffer" for written buffer
    using assms that
  proof (induction lines arbitrary: written buffer)
    case Nil
    then show ?case by (simp add: log_output_def)
  next
    case (Cons line lines)
    have "log_output pre (line @ [CHR 0x0A]) (written, buffer) = (written @ [pre @ '': '' @ buffer @ line], buffer @ line)"
      using Cons.prems by (intro log_line) auto
    then have "log_output pre (concat (map (\<lambda>line. line @ [CHR 0x0A]) (line # lines))) (written, buffer)
        = log_output pre (concat (map (\<lambda>line. line @ [CHR 0x0A]) lines)) (written @ [pre @ '': '' @ buffer @ line], buffer @ line)"
      by (simp only: list.map concat.simps log_output_append)
    then show ?case using Cons.IH [of "buffer @ line" "written @ [pre @ '': '' @ buffer @ line]"] Cons.prems
      by (simp add: upt_conv_Cons map_Suc_upt [symmetric] o_def del: upt_Suc)
  qed
  from this [of "''''" "[]"] show ?thesis by simp
qed

lemma end_processes:
  "sh_running (fold (end_process obeys) ps s) = filter (\<lambda>p. p \<notin> set ps) (sh_running s)
   \<and> sh_signals (fold (end_process obeys) ps s) = sh_signals s @ concat (map (\<lambda>p. if obeys p then [Terminate p] else [Terminate p, Kill p]) ps)
   \<and> sh_log_writer (fold (end_process obeys) ps s) = sh_log_writer s"
proof (induction ps arbitrary: s)
  case (Cons p ps)
  show ?case using Cons.IH [of "end_process obeys p s"]
    by (simp add: end_process_def removeAll_filter_not_eq) (simp add: filter_filter conj_commute eq_commute)
qed simp

text \<open>
  When a scenario ends, every process the helper owns is asked to end and killed if it does not obey;
  no other process is touched, and the log is written as before.
\<close>

lemma reset_ends_owned:
  "let s' = shell_helper_reset obeys s in
     sh_running s' = filter (\<lambda>p. p \<notin> set (sh_subprocesses s)) (sh_running s) \<and> sh_subprocesses s' = []
     \<and> (\<forall>p. (Kill p \<in> set (sh_signals s') \<and> Kill p \<notin> set (sh_signals s)) \<longrightarrow> p \<in> set (sh_subprocesses s) \<and> \<not> obeys p)
     \<and> sh_log_writer s' = map_option (\<lambda>_. True) (sh_log_writer s)"
proof -
  let ?s = "s\<lparr>sh_log_writer := map_option (\<lambda>_. False) (sh_log_writer s)\<rparr>"
  note ended = end_processes [of obeys "sh_subprocesses s" ?s]
  show ?thesis using ended
    by (auto simp: shell_helper_reset_def Let_def option.map_comp o_def split: if_splits)
qed

end
