(* ===== verification/Startup.thy ===== *)
theory Startup
  imports Queries Shell_Processes
begin

text \<open>
  A process of the emulator from its command line to its serving RPC server: \<open>main\<close> and the modes
  of \<open>rpc/RPCServer.py\<close>, \<open>init\<close>, the directories below \<open>/tmp\<close> and the signal handlers
  (\<open>__init__.py\<close>), the singletons (\<open>SingletonInit.py\<close>), the factories that choose the simulation
  manager, the node distribution, the protocol and the zeromq classes from the global config, the
  sockets these classes open, and the addresses of \<open>RPCUtil.py\<close>.

  A process keeps the state of its host beside its own: the files it reads, the directories below
  \<open>/tmp\<close> and the ports that are bound. What is not part of the program is an argument: the outcome
  of a shell command, \<open>json.loads\<close>, \<open>abspath\<close> and the interfaces of the host (\<open>netifaces\<close>).
\<close>

section \<open>Host and process\<close>

text \<open>
  A log file carries whether the process may delete it. \<open>ho_ramfs\<close> is the file system mounted at
  \<open>PATH_TMP\<close>, which hides the directory on the disk; \<open>None\<close> is no log directory.
\<close>

type_synonym log_dir = "(string \<times> bool) list option"

record process_host =
  ho_files :: "(string, string) dict"
  ho_tmp :: bool
  ho_disk_logs :: log_dir
  ho_ramfs :: "log_dir option"
  ho_ports :: "nat list"

datatype manager_kind = LocalManager | CoordinatorManager | ClientManager
datatype protocol_kind = JSONProtocol | MsgPackProtocol
datatype strategy_kind = NDSEqual | NDSScore
datatype zmq_server_kind = ZeroMQServerRouter | ZeroMQCServerPubSub
datatype zmq_client_kind = ZeroMQClientReq | ZeroMQClientSub
datatype socket_type = ROUTER | REQ | PUB | SUB
datatype socket = Bound socket_type nat | Connected socket_type string nat

text \<open>The targets of the background threads with their arguments.\<close>

datatype thread = ServerStart zmq_server_kind | ClientStart zmq_client_kind string

datatype rpc_instance = MiniWorldRPCServer "zmq_server_kind option" | MiniWorldRPCClient zmq_client_kind string string

datatype sig = SIGINT | SIGTERM | SIGHUP | SIGUSR1 | SIGUSR2
datatype handler = Error_handler | Error_handler_sys_exit | Signal_profiling_handler | SIG_DFL

record process =
  pr_host :: process_host
  pr_config :: json
  pr_level :: json
  pr_atexit :: "string list"
  pr_signals :: "(sig, handler) dict"
  pr_manager :: "manager_kind option"
  pr_protocol :: "protocol_kind option"
  pr_strategy :: "strategy_kind option"
  pr_gc :: "string gc_state"
  pr_zeromq_server :: "zmq_server_kind option"
  pr_sockets :: "socket list"
  pr_threads :: "thread list"
  pr_rpc :: "rpc_instance option"
  pr_listening :: "(string \<times> nat) option"

type_synonym 'a proc = "(process, 'a) eff"

text \<open>A process before \<open>main\<close>: nothing but the imports has run.\<close>

definition new_process :: "process_host \<Rightarrow> process" where
  "new_process h = \<lparr>pr_host = h, pr_config = JObj [], pr_level = JStr ''INFO'', pr_atexit = [], pr_signals = [],
     pr_manager = None, pr_protocol = None, pr_strategy = None, pr_gc = \<lparr>gc_singletons = [], gc_objects = []\<rparr>,
     pr_zeromq_server = None, pr_sockets = [], pr_threads = [], pr_rpc = None, pr_listening = None\<rparr>"

record start_env =
  be_loads :: "string \<Rightarrow> json res"
  be_execute :: "string \<Rightarrow> (process_host, finished) eff"
  be_abspath :: "string \<Rightarrow> string"
  be_ifaddresses :: "string \<Rightarrow> (nat, (string, string) dict list) dict res"
  be_af_inet :: nat

definition on_host :: "(process_host, 'a) eff \<Rightarrow> 'a proc" where
  "on_host m p = (let (r, h) = m (pr_host p) in (r, p\<lparr>pr_host := h\<rparr>))"

text \<open>A getter of the global config.\<close>

definition cfg :: "(json \<Rightarrow> 'a res) \<Rightarrow> 'a proc" where
  "cfg g p = (g (pr_config p), p)"

section \<open>Files below the temporary directory\<close>

definition PATH_TMP :: string where "PATH_TMP = ''/tmp/MiniWorld''"
definition PATH_GLOBAL_CONFIG :: string where "PATH_GLOBAL_CONFIG = ''config.json''"
definition PATH_SAMPLE_CONFIG :: string where "PATH_SAMPLE_CONFIG = ''sample_configs/config.json''"

definition logs :: "process_host \<Rightarrow> log_dir" where
  "logs h = (case ho_ramfs h of Some l \<Rightarrow> l | None \<Rightarrow> if ho_tmp h then ho_disk_logs h else None)"

definition set_logs :: "log_dir \<Rightarrow> process_host \<Rightarrow> process_host" where
  "set_logs l h = (if ho_ramfs h = None then h\<lparr>ho_disk_logs := l\<rparr> else h\<lparr>ho_ramfs := Some l\<rparr>)"

text \<open>\<open>shutil.rmtree\<close> ends at the first file it cannot delete.\<close>

definition rmtree_logs :: "(process_host, unit) eff" where
  "rmtree_logs h = (case logs h of
      None \<Rightarrow> (Inl IOError, h)
    | Some fs \<Rightarrow> (case dropWhile snd fs of
        [] \<Rightarrow> (Inr (), set_logs None h)
      | f # rest \<Rightarrow> (Inl IOError, set_logs (Some (f # rest)) h)))"

definition makedirs_tmp :: "(process_host, unit) eff" where
  "makedirs_tmp h = (if ho_tmp h then (Inl IOError, h) else (Inr (), h\<lparr>ho_tmp := True, ho_disk_logs := None\<rparr>))"

text \<open>\<open>os.makedirs\<close> also creates the directory above.\<close>

definition makedirs_logs :: "(process_host, unit) eff" where
  "makedirs_logs h = (if logs h \<noteq> None then (Inl IOError, h) else (Inr (), set_logs (Some []) (h\<lparr>ho_tmp := True\<rparr>)))"

text \<open>\<open>logging.FileHandler\<close> opens its file to append.\<close>

definition open_log :: "string \<Rightarrow> (process_host, unit) eff" where
  "open_log name h = (case logs h of
      None \<Rightarrow> (Inl IOError, h)
    | Some fs \<Rightarrow> (Inr (), if name \<in> fst ` set fs then h else set_logs (Some (fs @ [(name, True)])) h))"

text \<open>\<open>try: m except: pass\<close>\<close>

definition etry :: "('s, unit) eff \<Rightarrow> ('s, unit) eff" where
  "etry m s = (Inr (), snd (m s))"

text \<open>
  \<open>run_shell(cmd, *args)\<close> hands its further positional arguments to the process, the first of them
  as the size of the buffer, which it also gives by keyword.
\<close>

definition run_shell_args :: "(string \<Rightarrow> ('w, finished) eff) \<Rightarrow> string \<Rightarrow> string list \<Rightarrow> ('w, string) eff" where
  "run_shell_args execute cmd args = (if args = [] then run_shell execute cmd else eraise TypeError)"

definition umount_ramdisk :: "start_env \<Rightarrow> (process_host, unit) eff" where
  "umount_ramdisk env = eseq (run_shell_args (be_execute env) ''init'' [''umount '' @ PATH_TMP]) (ereturn ())"

definition try_umount_ramdisk :: "start_env \<Rightarrow> (process_host, unit) eff" where
  "try_umount_ramdisk env = etry (umount_ramdisk env)"

definition MOUNT_CMD :: string where
  "MOUNT_CMD = ''sudo mount -t ramfs ramfs '' @ PATH_TMP"

definition create_n_check_tmp_files :: "start_env \<Rightarrow> bool \<Rightarrow> bool \<Rightarrow> (process_host, unit) eff" where
  "create_n_check_tmp_files env delete_first create_ramdisk =
     ebind (eget ho_tmp) (\<lambda>tmp.
     eseq (ewhen tmp (if delete_first then eseq (etry rmtree_logs) (try_umount_ramdisk env) else eraise AlreadyRunning))
     (ebind (eget ho_tmp) (\<lambda>tmp.
     eseq (ewhen (\<not> tmp) makedirs_tmp)
     (ebind (eget ho_ramfs) (\<lambda>mounted.
     ewhen (create_ramdisk \<and> mounted = None) (eseq (run_shell (be_execute env) MOUNT_CMD) (ereturn ())))))))"

definition create_log_files_dir :: "(process_host, unit) eff" where
  "create_log_files_dir = makedirs_logs"

definition clean_miniworld_dir :: "start_env \<Rightarrow> unit proc" where
  "clean_miniworld_dir env = ebind (cfg (is_ramdisk_enabled None)) (\<lambda>ramdisk.
     on_host (eseq (create_n_check_tmp_files env True (truthy ramdisk)) create_log_files_dir))"

section \<open>Start of the package\<close>

definition set_signal :: "sig \<Rightarrow> handler \<Rightarrow> unit proc" where
  "set_signal s h = emodify (\<lambda>p. p\<lparr>pr_signals := dset (pr_signals p) s h\<rparr>)"

definition install_signal_handlers :: "unit proc" where
  "install_signal_handlers = eseq (emodify (\<lambda>p. p\<lparr>pr_atexit := pr_atexit p @ [''exit'']\<rparr>))
     (eseq (set_signal SIGINT Error_handler_sys_exit) (eseq (set_signal SIGTERM Error_handler_sys_exit)
     (eseq (set_signal SIGHUP Error_handler_sys_exit) (set_signal SIGUSR1 Error_handler))))"

definition uninstall_signal_handlers :: "unit proc" where
  "uninstall_signal_handlers = eseq (set_signal SIGINT SIG_DFL) (set_signal SIGTERM SIG_DFL)"

text \<open>The names of the levels of \<open>logging\<close>; a logger takes a number or a name.\<close>

definition level_names :: "string list" where
  "level_names = [''CRITICAL'', ''FATAL'', ''ERROR'', ''WARN'', ''WARNING'', ''INFO'', ''DEBUG'', ''NOTSET'']"

definition check_level :: "json \<Rightarrow> unit res" where
  "check_level v = (case v of
      JInt i \<Rightarrow> Inr () | JBool b \<Rightarrow> Inr ()
    | JStr s \<Rightarrow> if s \<in> set level_names then Inr () else Inl ValueError
    | _ \<Rightarrow> Inl TypeError)"

definition set_log_level :: "json \<Rightarrow> unit proc" where
  "set_log_level v = eseq (elift (check_level v)) (emodify (\<lambda>p. p\<lparr>pr_level := v\<rparr>))"

definition to_upper :: "char \<Rightarrow> char" where
  "to_upper c = (let n = of_char c :: nat in if 97 \<le> n \<and> n \<le> 122 then char_of (n - 32) else c)"

text \<open>
  \<open>log.get_log_level\<close>, for a new logger. Beside the levels \<open>logging\<close> has one attribute with a name
  in capitals, the format \<open>BASIC_FORMAT\<close>, which is no level.
\<close>

definition logger_level :: "json \<Rightarrow> string res" where
  "logger_level data = rbind (get_log_level None data) (\<lambda>v. case v of
      JStr s \<Rightarrow> let u = map to_upper s in
        if u \<in> set level_names then Inr u else if u = ''BASIC_FORMAT'' then Inl ValueError else Inl Unsupported
    | _ \<Rightarrow> Inl AttributeError)"

definition host_read :: "process_host \<Rightarrow> string \<Rightarrow> string res" where
  "host_read h path = (case dget (ho_files h) path of None \<Rightarrow> Inl IOError | Some t \<Rightarrow> Inr t)"

definition load_global_config :: "start_env \<Rightarrow> string \<Rightarrow> unit proc" where
  "load_global_config env path p = (case set_global_config (be_loads env) (host_read (pr_host p)) True None path (pr_config p) of
      (Inl e, d) \<Rightarrow> (Inl e, p\<lparr>pr_config := d\<rparr>) | (Inr _, d) \<Rightarrow> (Inr (), p\<lparr>pr_config := d\<rparr>))"

text \<open>\<open>shutil.copy2\<close> of the sample config, if there is no config yet.\<close>

definition copy_sample_config :: "(process_host, unit) eff" where
  "copy_sample_config h = (if dmem (ho_files h) PATH_GLOBAL_CONFIG then (Inr (), h)
     else case dget (ho_files h) PATH_SAMPLE_CONFIG of
        None \<Rightarrow> (Inl IOError, h)
      | Some t \<Rightarrow> (Inr (), h\<lparr>ho_files := dset (ho_files h) PATH_GLOBAL_CONFIG t\<rparr>))"

section \<open>Factories\<close>

definition simulation_manager_factory :: "json \<Rightarrow> manager_kind res" where
  "simulation_manager_factory data = rbind (is_mode_distributed None data) (\<lambda>distributed.
     if truthy distributed then rbind (is_coordinator data) (\<lambda>c. Inr (if truthy c then CoordinatorManager else ClientManager))
     else Inr LocalManager)"

definition protocol_factory :: "json \<Rightarrow> protocol_kind res" where
  "protocol_factory data = rbind (is_protocol_msgpack data) (\<lambda>m. if m then Inr MsgPackProtocol
     else rbind (is_protocol_json data) (\<lambda>j. if j then Inr JSONProtocol else Inl ValueError))"

definition node_distribution_strategy_factory :: "json \<Rightarrow> strategy_kind res" where
  "node_distribution_strategy_factory data = rbind (is_distributed_scheduler_equal data) (\<lambda>e. if e then Inr NDSEqual
     else rbind (is_distributed_scheduler_score data) (\<lambda>s. if s then Inr NDSScore else Inl ValueError))"

definition zmq_server_factory :: "json \<Rightarrow> zmq_server_kind res" where
  "zmq_server_factory data = rbind (is_protocol_zeromq_mode_mcast data) (\<lambda>m.
     Inr (if m then ZeroMQCServerPubSub else ZeroMQServerRouter))"

definition zmq_client_factory :: "json \<Rightarrow> zmq_client_kind res" where
  "zmq_client_factory data = rbind (is_protocol_zeromq_mode_mcast data) (\<lambda>m.
     Inr (if m then ZeroMQClientSub else ZeroMQClientReq))"

section \<open>Singletons\<close>

definition class_name :: "manager_kind \<Rightarrow> string" where
  "class_name k = (case k of LocalManager \<Rightarrow> ''SimulationManager''
     | CoordinatorManager \<Rightarrow> ''SimulationManagerDistributedCoordinator''
     | ClientManager \<Rightarrow> ''SimulationManagerDistributedClient'')"

text \<open>\<open>SimulationManager.__init__\<close> creates a logger with a file of its own.\<close>

definition create_manager :: "manager_kind \<Rightarrow> unit proc" where
  "create_manager k = eseq (cfg logger_level) (eseq (on_host (open_log (class_name k)))
     (emodify (\<lambda>p. p\<lparr>pr_manager := Some k\<rparr>)))"

definition scenario_state_singletons :: "string list" where
  "scenario_state_singletons = [''network_manager'', ''shell_helper'', ''spatial_singleton'', ''simulation_errors'']"

definition init_singletons :: "unit proc" where
  "init_singletons = eseq (emodify (\<lambda>p. p\<lparr>pr_gc := \<lparr>gc_singletons = [], gc_objects = []\<rparr>\<rparr>))
     (ebind (cfg protocol_factory) (\<lambda>proto. eseq (emodify (\<lambda>p. p\<lparr>pr_protocol := Some proto\<rparr>))
     (ebind (cfg node_distribution_strategy_factory) (\<lambda>nds. eseq (emodify (\<lambda>p. p\<lparr>pr_strategy := Some nds\<rparr>))
     (ebind (cfg simulation_manager_factory) (\<lambda>k. eseq (create_manager k)
     (efor scenario_state_singletons (\<lambda>c. emodify (\<lambda>p. p\<lparr>pr_gc := add_singleton c (pr_gc p)\<rparr>)))))))))"

definition init :: "start_env \<Rightarrow> string option \<Rightarrow> bool \<Rightarrow> unit proc" where
  "init env config_path do_init_singletons = eseq (on_host copy_sample_config) (eseq install_signal_handlers
     (eseq (load_global_config env (if config_path \<in> {None, Some ''''} then PATH_GLOBAL_CONFIG else the config_path))
     (eseq (ebind (cfg (get_log_level None)) set_log_level) (eseq (clean_miniworld_dir env)
     (eseq (on_host (open_log ''stdout.txt'')) (ewhen do_init_singletons init_singletons))))))"

section \<open>Sockets\<close>

definition PORT_DEFAULT_SERVICE :: nat where "PORT_DEFAULT_SERVICE = 5561"
definition PORT_PUB_RESET_SERVICE :: nat where "PORT_PUB_RESET_SERVICE = 5562"
definition PORT_PUB_SERVICE :: nat where "PORT_PUB_SERVICE = 5563"

definition bind_port :: "py_error \<Rightarrow> nat \<Rightarrow> (process_host, unit) eff" where
  "bind_port e port h = (if port \<in> set (ho_ports h) then (Inl e, h) else (Inr (), h\<lparr>ho_ports := ho_ports h @ [port]\<rparr>))"

definition bind_socket :: "socket_type \<Rightarrow> nat \<Rightarrow> unit proc" where
  "bind_socket t port = eseq (on_host (bind_port ZMQError port)) (emodify (\<lambda>p. p\<lparr>pr_sockets := pr_sockets p @ [Bound t port]\<rparr>))"

definition connect_socket :: "socket_type \<Rightarrow> string \<Rightarrow> nat \<Rightarrow> unit proc" where
  "connect_socket t addr port = emodify (\<lambda>p. p\<lparr>pr_sockets := pr_sockets p @ [Connected t addr port]\<rparr>)"

definition create_zmq_server :: "zmq_server_kind \<Rightarrow> unit proc" where
  "create_zmq_server k = eseq (bind_socket ROUTER PORT_DEFAULT_SERVICE) (eseq (bind_socket PUB PORT_PUB_RESET_SERVICE)
     (ewhen (k = ZeroMQCServerPubSub) (bind_socket PUB PORT_PUB_SERVICE)))"

definition create_zmq_client :: "zmq_client_kind \<Rightarrow> string \<Rightarrow> unit proc" where
  "create_zmq_client k addr = eseq (connect_socket REQ addr PORT_DEFAULT_SERVICE)
     (eseq (connect_socket SUB addr PORT_PUB_RESET_SERVICE) (ewhen (k = ZeroMQClientSub) (connect_socket SUB addr PORT_PUB_SERVICE)))"

section \<open>RPC server\<close>

definition PORT_CLIENT :: nat where "PORT_CLIENT = 5000"
definition PORT_COORDINATOR :: nat where "PORT_COORDINATOR = 5001"

definition get_rpc_port :: "json \<Rightarrow> nat res" where
  "get_rpc_port data = rbind (is_mode_distributed None data) (\<lambda>distributed.
     if truthy distributed then rbind (is_coordinator data) (\<lambda>c. Inr (if truthy c then PORT_COORDINATOR else PORT_CLIENT))
     else Inr PORT_COORDINATOR)"

text \<open>The default of the port is computed when the module is imported, from the empty config.\<close>

definition addr_from_ip :: "string \<Rightarrow> nat option \<Rightarrow> string res" where
  "addr_from_ip ip port = rbind (case port of None \<Rightarrow> get_rpc_port (JObj []) | Some n \<Rightarrow> Inr n)
     (\<lambda>n. Inr (''http://'' @ ip @ '':'' @ nat_dec n @ ''/RPC2''))"

definition local_addr :: "string res" where
  "local_addr = addr_from_ip LOCAL_IP_V4 None"

definition start_zmq_thread :: "zmq_server_kind \<Rightarrow> unit proc" where
  "start_zmq_thread k = emodify (\<lambda>p. p\<lparr>pr_threads := pr_threads p @ [ServerStart k]\<rparr>)"

definition create_rpc_server :: "rpc_instance proc" where
  "create_rpc_server = ebind (cfg (is_mode_distributed None)) (\<lambda>distributed.
     if truthy distributed then
       ebind (cfg zmq_server_factory) (\<lambda>k. eseq (create_zmq_server k)
       (eseq (emodify (\<lambda>p. p\<lparr>pr_zeromq_server := Some k\<rparr>)) (eseq (start_zmq_thread k) (ereturn (MiniWorldRPCServer (Some k))))))
     else ereturn (MiniWorldRPCServer None))"

definition create_rpc_client :: "string \<Rightarrow> string \<Rightarrow> rpc_instance proc" where
  "create_rpc_client server_addr tunnel_addr = ebind (cfg zmq_client_factory) (\<lambda>k. eseq (create_zmq_client k server_addr)
     (eseq (emodify (\<lambda>p. p\<lparr>pr_threads := pr_threads p @ [ClientStart k tunnel_addr]\<rparr>))
     (ereturn (MiniWorldRPCClient k server_addr tunnel_addr))))"

text \<open>The command line, after \<open>argparse\<close> filled in its defaults.\<close>

record arguments =
  ar_config :: "string option"
  ar_distributed :: bool
  ar_server :: bool
  ar_tunnel_address :: "string option"
  ar_tunnel_interface :: "string option"
  ar_coordinator_address :: "string option"

text \<open>The two tunnel options exclude each other.\<close>

definition parse_args :: "arguments \<Rightarrow> unit res" where
  "parse_args a = (if ar_tunnel_address a \<noteq> None \<and> ar_tunnel_interface a \<noteq> None then Inl SystemExit else Inr ())"

definition given :: "string option \<Rightarrow> bool" where
  "given x \<longleftrightarrow> x \<notin> {None, Some ''''}"

definition tunnel_address :: "start_env \<Rightarrow> arguments \<Rightarrow> string res" where
  "tunnel_address env a = (if given (ar_tunnel_address a) then Inr (the (ar_tunnel_address a))
     else if given (ar_tunnel_interface a) then
       rbind (be_ifaddresses env (the (ar_tunnel_interface a))) (\<lambda>addrs. case dget addrs (be_af_inet env) of
         None \<Rightarrow> Inl KeyError
       | Some [] \<Rightarrow> Inl IndexError
       | Some (d # _) \<Rightarrow> (case dget d ''addr'' of None \<Rightarrow> Inl KeyError | Some s \<Rightarrow> Inr s))
     else Inl ValueError)"

definition put_is_coordinator :: "bool \<Rightarrow> unit proc" where
  "put_is_coordinator b p = (let (r, d) = set_is_coordinator b (pr_config p) in (r, p\<lparr>pr_config := d\<rparr>))"

text \<open>
  A mode answers with what creates the RPC instance. A missing address of the coordinator becomes
  the text \<open>None\<close> in the address of the sockets.
\<close>

definition mode_server :: "start_env \<Rightarrow> arguments \<Rightarrow> (rpc_instance proc) proc" where
  "mode_server env a = eseq (put_is_coordinator False) (ebind (elift (tunnel_address env a)) (\<lambda>tunnel_addr.
     ereturn (create_rpc_client (case ar_coordinator_address a of None \<Rightarrow> ''None'' | Some s \<Rightarrow> s) tunnel_addr)))"

definition mode_coordinator :: "(rpc_instance proc) proc" where
  "mode_coordinator = eseq (put_is_coordinator True) (ereturn create_rpc_server)"

text \<open>The end of \<open>main\<close>, up to \<open>serve_forever\<close>, and \<open>main\<close>.\<close>

definition serve :: "rpc_instance \<Rightarrow> unit proc" where
  "serve instance = ebind (cfg get_rpc_port) (\<lambda>port. eseq (on_host (bind_port IOError port))
     (eseq (emodify (\<lambda>p. p\<lparr>pr_rpc := Some instance, pr_listening := Some (''0.0.0.0'', port)\<rparr>))
     (eseq (ebind (cfg (is_debug None)) (\<lambda>debug. ewhen (truthy debug) (set_signal SIGUSR2 Signal_profiling_handler)))
     (eseq (cfg logger_level) (on_host (open_log ''rpc_server.txt''))))))"

definition main :: "start_env \<Rightarrow> arguments \<Rightarrow> unit proc" where
  "main env a = eseq (elift (parse_args a)) (eseq (init env (map_option (be_abspath env) (ar_config a)) False)
     (ebind (if ar_server a then mode_server env a else mode_coordinator) (\<lambda>create.
     eseq init_singletons (ebind create serve))))"

section \<open>End of the process\<close>

text \<open>
  \<open>error_handler\<close>, over the simulation manager, if there is one yet, and the host.
\<close>

definition error_handler ::
  "start_env \<Rightarrow> ('c, 's, 'w) life_env \<Rightarrow> (('c, 'w) manager option \<times> process_host, unit) eff" where
  "error_handler env lenv s = (case s of
      (None, h) \<Rightarrow> (Inr (), (None, snd (try_umount_ramdisk env h)))
    | (Some m, h) \<Rightarrow> (case manager_abort lenv m of
          (Inl e, m') \<Rightarrow> (Inl e, (Some m', h))
        | (Inr _, m') \<Rightarrow> (Inr (), (Some m', snd (try_umount_ramdisk env h)))))"

definition error_handler_sys_exit ::
  "start_env \<Rightarrow> ('c, 's, 'w) life_env \<Rightarrow> (('c, 'w) manager option \<times> process_host, unit) eff" where
  "error_handler_sys_exit env lenv = eseq (error_handler env lenv) (eraise SystemExit)"

section \<open>Lemmas\<close>

lemma try_umount_keeps_ramdisk: "try_umount_ramdisk env h = (Inr (), h)"
  by (simp add: try_umount_ramdisk_def umount_ramdisk_def run_shell_args_def etry_def ebind_def eraise_def)

lemma error_handler_host: "snd (snd (error_handler env lenv (m, h))) = h"
  by (simp add: error_handler_def try_umount_keeps_ramdisk split: option.splits prod.splits sum.splits)

text \<open>Getters other than the role of the process do not depend on that role.\<close>

lemma nested_loop_other_key: "k \<noteq> c \<Longrightarrow> nested_loop (JObj (dset d c v)) (k # ks) = nested_loop (JObj d) (k # ks)"
  by (simp add: dict_simps)

definition same_but_role :: "json \<Rightarrow> json \<Rightarrow> bool" where
  "same_but_role d d' \<longleftrightarrow> (\<exists>x y. d = JObj x \<and> d' = JObj y \<and> (\<forall>k. k \<noteq> ''coordinator'' \<longrightarrow> dget x k = dget y k))"

lemma nested_loop_same_but_role:
  "same_but_role d d' \<Longrightarrow> k \<noteq> ''coordinator'' \<Longrightarrow> get_dict_nested_value d (k # ks) = get_dict_nested_value d' (k # ks)"
  by (auto simp: same_but_role_def)

lemma customizable_same_but_role:
  assumes "same_but_role d d'" and "g_keys g = k # ks" "k \<noteq> ''coordinator''"
  shows "customizable_attrs g nid d = customizable_attrs g nid d'"
proof -
  have "get_dict_nested_value d (g_keys g) = get_dict_nested_value d' (g_keys g)"
    using nested_loop_same_but_role [OF assms(1,3)] by (simp add: assms(2))
  moreover have "get_dict_nested_value d (CONFIG_KEY_NODE_DETAILS # ks) = get_dict_nested_value d' (CONFIG_KEY_NODE_DETAILS # ks)" for ks
    by (rule nested_loop_same_but_role [OF assms(1)]) (simp add: CONFIG_KEY_NODE_DETAILS_def)
  ultimately show ?thesis by (simp only: customizable_attrs_def)
qed

named_theorems role_free \<open>what does not depend on the role of the process\<close>

lemma getters_same_but_role [role_free]:
  assumes "same_but_role d d'"
  shows "is_mode_distributed nid d = is_mode_distributed nid d'"
    and "get_protocol nid d = get_protocol nid d'"
    and "get_protocol_zeromq_mode nid d = get_protocol_zeromq_mode nid d'"
  unfolding is_mode_distributed_def get_protocol_def get_protocol_zeromq_mode_def
  by - ((rule customizable_same_but_role [OF assms], simp, simp)+)

lemma factories_same_but_role [role_free]:
  assumes "same_but_role d d'"
  shows "is_protocol_zeromq_mode_mcast d = is_protocol_zeromq_mode_mcast d'"
    and "protocol_factory d = protocol_factory d'"
proof -
  have "is_protocol_msgpack d = is_protocol_msgpack d'" "is_protocol_json d = is_protocol_json d'"
    using getters_same_but_role(2) [OF assms] by (simp_all add: is_protocol_msgpack_def is_protocol_json_def)
  then show "protocol_factory d = protocol_factory d'" by (simp only: protocol_factory_def)
  show "is_protocol_zeromq_mode_mcast d = is_protocol_zeromq_mode_mcast d'"
    using getters_same_but_role(3) [OF assms] by (simp add: is_protocol_zeromq_mode_mcast_def)
qed

section \<open>What the steps of the start leave alone\<close>

lemma on_host_Inr: "on_host m p = (Inr x, p') \<longleftrightarrow> (\<exists>h. m (pr_host p) = (Inr x, h) \<and> p' = p\<lparr>pr_host := h\<rparr>)"
  by (auto simp: on_host_def split: prod.splits)

lemma cfg_Inr: "cfg g p = (Inr x, p') \<longleftrightarrow> g (pr_config p) = Inr x \<and> p' = p"
  by (auto simp: cfg_def)

lemma keeps_on_host: "(\<And>p h. P p \<Longrightarrow> P (p\<lparr>pr_host := h\<rparr>)) \<Longrightarrow> keeps P (on_host m)"
  by (simp add: keeps_def on_host_def case_prod_beta Let_def)

lemma keeps_cfg [keeps_intros]: "keeps P (cfg g)"
  by (simp add: keeps_def cfg_def)

lemmas boot_Inr = ebind_Inr on_host_Inr cfg_Inr ereturn_def elift_def emodify_def

text \<open>The parts of a process that the start of the package does not set.\<close>

definition roles_of where
  "roles_of p = (pr_manager p, pr_protocol p, pr_zeromq_server p, pr_sockets p, pr_threads p, pr_rpc p, pr_listening p, gc_objects (pr_gc p))"

lemma keeps_load_global_config: "(\<And>p d. P p \<Longrightarrow> P (p\<lparr>pr_config := d\<rparr>)) \<Longrightarrow> keeps P (load_global_config env path)"
  by (simp add: keeps_def load_global_config_def split: prod.splits sum.splits)

lemma ewhen_False: "ewhen False m = ereturn ()"
  by (simp add: ewhen_def)

lemma keeps_roles_init: "keeps (\<lambda>p. roles_of p = v) (init env path False)"
  unfolding init_def install_signal_handlers_def set_signal_def set_log_level_def clean_miniworld_dir_def ewhen_False
  by (intro keeps_ebind keeps_on_host keeps_emodify keeps_elift keeps_cfg keeps_load_global_config keeps_ereturn)
     (simp_all add: roles_of_def)

lemma init_roles: "init env path False p = (Inr (), p') \<Longrightarrow> roles_of p' = roles_of p"
  using keeps_roles_init [of "roles_of p" env path] unfolding keeps_def by (metis snd_conv)

lemma gc_after_init:
  "efor scenario_state_singletons (\<lambda>c. emodify (\<lambda>p. p\<lparr>pr_gc := add_singleton c (pr_gc p)\<rparr>)) p = (Inr (), p')
   \<Longrightarrow> gc_singletons (pr_gc p) = [] \<Longrightarrow> p' = p\<lparr>pr_gc := (pr_gc p)\<lparr>gc_singletons := scenario_state_singletons\<rparr>\<rparr>"
  by (auto simp: scenario_state_singletons_def boot_Inr add_singleton_def)

lemma init_singletons_Inr:
  assumes "init_singletons p = (Inr (), p')"
  obtains proto k nds h where "protocol_factory (pr_config p) = Inr proto" and "simulation_manager_factory (pr_config p) = Inr k"
    and "node_distribution_strategy_factory (pr_config p) = Inr nds"
    and "p' = p\<lparr>pr_host := h, pr_protocol := Some proto, pr_strategy := Some nds, pr_manager := Some k,
                pr_gc := \<lparr>gc_singletons = scenario_state_singletons, gc_objects = []\<rparr>\<rparr>"
proof -
  from assms obtain proto nds k h where r: "protocol_factory (pr_config p) = Inr proto"
    "node_distribution_strategy_factory (pr_config p) = Inr nds" "simulation_manager_factory (pr_config p) = Inr k"
    and loop: "efor scenario_state_singletons (\<lambda>c. emodify (\<lambda>p. p\<lparr>pr_gc := add_singleton c (pr_gc p)\<rparr>))
       (p\<lparr>pr_gc := \<lparr>gc_singletons = [], gc_objects = []\<rparr>, pr_protocol := Some proto, pr_strategy := Some nds,
          pr_host := h, pr_manager := Some k\<rparr>) = (Inr (), p')"
    by (auto simp: init_singletons_def create_manager_def boot_Inr)
  from gc_after_init [OF loop] have "p' = p\<lparr>pr_host := h, pr_protocol := Some proto, pr_strategy := Some nds, pr_manager := Some k,
       pr_gc := \<lparr>gc_singletons = scenario_state_singletons, gc_objects = []\<rparr>\<rparr>"
    by (cases p) simp
  with r show thesis by (intro that)
qed

lemma role_after_put:
  assumes "put_is_coordinator b p = (Inr (), p')"
  shows "p' = p\<lparr>pr_config := pr_config p'\<rparr>" and "is_coordinator (pr_config p') = Inr (JBool b)"
  using assms by (auto simp: put_is_coordinator_def set_is_coordinator_def is_coordinator_def dict_simps split: json.splits)

lemma create_zmq_client_result:
  "create_zmq_client k addr p = (Inr (), p\<lparr>pr_sockets := pr_sockets p @
     [Connected REQ addr PORT_DEFAULT_SERVICE, Connected SUB addr PORT_PUB_RESET_SERVICE]
     @ (if k = ZeroMQClientSub then [Connected SUB addr PORT_PUB_SERVICE] else [])\<rparr>)"
  by (simp add: create_zmq_client_def connect_socket_def ebind_def emodify_def ewhen_def ereturn_def)

lemma create_rpc_client_Inr:
  assumes "create_rpc_client addr t p = (Inr inst, p')"
  obtains k where "zmq_client_factory (pr_config p) = Inr k" and "inst = MiniWorldRPCClient k addr t"
    and "p' = p\<lparr>pr_sockets := pr_sockets p @
           [Connected REQ addr PORT_DEFAULT_SERVICE, Connected SUB addr PORT_PUB_RESET_SERVICE]
           @ (if k = ZeroMQClientSub then [Connected SUB addr PORT_PUB_SERVICE] else []),
         pr_threads := pr_threads p @ [ClientStart k t]\<rparr>"
proof -
  from assms obtain k where k: "zmq_client_factory (pr_config p) = Inr k"
    by (cases "zmq_client_factory (pr_config p)") (simp_all add: create_rpc_client_def ebind_def cfg_def)
  with assms that show thesis
    by (simp add: create_rpc_client_def ebind_def cfg_def create_zmq_client_result emodify_def ereturn_def)
qed

lemma bind_socket_Inr:
  "bind_socket t n p = (Inr u, p') \<Longrightarrow> \<exists>h. p' = p\<lparr>pr_host := h, pr_sockets := pr_sockets p @ [Bound t n]\<rparr>"
  by (auto simp: bind_socket_def boot_Inr)

lemma create_zmq_server_Inr:
  assumes "create_zmq_server k p = (Inr u, p')"
  obtains h where "p' = p\<lparr>pr_host := h, pr_sockets := pr_sockets p @
     [Bound ROUTER PORT_DEFAULT_SERVICE, Bound PUB PORT_PUB_RESET_SERVICE]
     @ (if k = ZeroMQCServerPubSub then [Bound PUB PORT_PUB_SERVICE] else [])\<rparr>"
proof -
  from assms obtain p1 p2 where "bind_socket ROUTER PORT_DEFAULT_SERVICE p = (Inr (), p1)"
    "bind_socket PUB PORT_PUB_RESET_SERVICE p1 = (Inr (), p2)"
    "ewhen (k = ZeroMQCServerPubSub) (bind_socket PUB PORT_PUB_SERVICE) p2 = (Inr u, p')"
    by (auto simp: create_zmq_server_def ebind_Inr)
  then show thesis
    using bind_socket_Inr [of ROUTER _ p] bind_socket_Inr [of PUB _ p1] bind_socket_Inr [of PUB _ p2] that
    by (fastforce simp: ewhen_def ereturn_def split: if_splits)
qed

lemma create_rpc_server_local:
  "is_mode_distributed None (pr_config p) = Inr distr \<Longrightarrow> \<not> truthy distr \<Longrightarrow>
   create_rpc_server p = (Inr (MiniWorldRPCServer None), p)"
  by (simp add: create_rpc_server_def ebind_def cfg_def ereturn_def)

lemma create_rpc_server_distributed:
  assumes "create_rpc_server p = (Inr inst, p')" and "is_mode_distributed None (pr_config p) = Inr distr" "truthy distr"
  obtains k h where "zmq_server_factory (pr_config p) = Inr k" and "inst = MiniWorldRPCServer (Some k)"
    and "p' = p\<lparr>pr_host := h, pr_sockets := pr_sockets p @
           [Bound ROUTER PORT_DEFAULT_SERVICE, Bound PUB PORT_PUB_RESET_SERVICE]
           @ (if k = ZeroMQCServerPubSub then [Bound PUB PORT_PUB_SERVICE] else []),
         pr_zeromq_server := Some k, pr_threads := pr_threads p @ [ServerStart k]\<rparr>"
proof -
  from assms obtain k where k: "zmq_server_factory (pr_config p) = Inr k"
    by (cases "zmq_server_factory (pr_config p)") (simp_all add: create_rpc_server_def ebind_def cfg_def)
  with assms obtain p1 where p1: "create_zmq_server k p = (Inr (), p1)"
    and inst: "inst = MiniWorldRPCServer (Some k)" "p' = p1\<lparr>pr_zeromq_server := Some k, pr_threads := pr_threads p1 @ [ServerStart k]\<rparr>"
    by (cases "create_zmq_server k p"; cases "fst (create_zmq_server k p)")
       (simp_all add: create_rpc_server_def ebind_def cfg_def start_zmq_thread_def emodify_def ereturn_def)
  from p1 obtain h where "p1 = p\<lparr>pr_host := h, pr_sockets := pr_sockets p @
     [Bound ROUTER PORT_DEFAULT_SERVICE, Bound PUB PORT_PUB_RESET_SERVICE]
     @ (if k = ZeroMQCServerPubSub then [Bound PUB PORT_PUB_SERVICE] else [])\<rparr>"
    by (rule create_zmq_server_Inr)
  with inst show thesis by (intro that [OF k inst(1)]) simp
qed

section \<open>The whole start\<close>

lemma serve_Inr:
  assumes "serve inst p = (Inr u, p')"
  obtains port h sigs where "get_rpc_port (pr_config p) = Inr port"
    and "p' = p\<lparr>pr_host := h, pr_rpc := Some inst, pr_listening := Some (''0.0.0.0'', port), pr_signals := sigs\<rparr>"
proof -
  from assms obtain port h1 debug p1 h2 where port: "get_rpc_port (pr_config p) = Inr port"
    and p1: "ewhen (truthy debug) (set_signal SIGUSR2 Signal_profiling_handler)
       (p\<lparr>pr_host := h1, pr_rpc := Some inst, pr_listening := Some (''0.0.0.0'', port)\<rparr>) = (Inr (), p1)"
    and p': "p' = p1\<lparr>pr_host := h2\<rparr>"
    by (auto simp: serve_def boot_Inr)
  from p1 obtain sigs where "p1 = p\<lparr>pr_host := h1, pr_rpc := Some inst, pr_listening := Some (''0.0.0.0'', port), pr_signals := sigs\<rparr>"
    by (cases p) (auto simp: ewhen_def set_signal_def emodify_def ereturn_def split: if_splits)
  with p' have "p' = p\<lparr>pr_host := h2, pr_rpc := Some inst, pr_listening := Some (''0.0.0.0'', port), pr_signals := sigs\<rparr>"
    by (cases p) simp
  with port show thesis by (intro that)
qed

lemma main_Inr:
  assumes "main env a p = (Inr u, p')"
  obtains path p1 create p2 p3 inst p4 where "init env path False p = (Inr (), p1)"
    and "(if ar_server a then mode_server env a else mode_coordinator) p1 = (Inr create, p2)"
    and "init_singletons p2 = (Inr (), p3)" and "create p3 = (Inr inst, p4)" and "serve inst p4 = (Inr u, p')"
  using assms by (auto simp: main_def ebind_Inr elift_def)

text \<open>What the mode decides: the role in the config and the RPC instance.\<close>

lemma mode_Inr:
  assumes "(if ar_server a then mode_server env a else mode_coordinator) p = (Inr create, p')"
  shows "p' = p\<lparr>pr_config := pr_config p'\<rparr>" and "is_coordinator (pr_config p') = Inr (JBool (\<not> ar_server a))"
    and "\<not> ar_server a \<Longrightarrow> create = create_rpc_server"
    and "ar_server a \<Longrightarrow> \<exists>t. tunnel_address env a = Inr t \<and>
           create = create_rpc_client (case ar_coordinator_address a of None \<Rightarrow> ''None'' | Some s \<Rightarrow> s) t"
proof -
  obtain p1 where p1: "put_is_coordinator (\<not> ar_server a) p = (Inr (), p1)" and p': "p' = p1"
    using assms by (auto simp: mode_server_def mode_coordinator_def boot_Inr split: if_splits)
  from role_after_put [OF p1] show "p' = p\<lparr>pr_config := pr_config p'\<rparr>"
    "is_coordinator (pr_config p') = Inr (JBool (\<not> ar_server a))" by (simp_all add: p')
  show "\<not> ar_server a \<Longrightarrow> create = create_rpc_server"
    using assms by (auto simp: mode_coordinator_def boot_Inr)
  show "ar_server a \<Longrightarrow> \<exists>t. tunnel_address env a = Inr t \<and>
      create = create_rpc_client (case ar_coordinator_address a of None \<Rightarrow> ''None'' | Some s \<Rightarrow> s) t"
    using assms by (auto simp: mode_server_def boot_Inr)
qed

text \<open>The RPC instance leaves the config and the singletons alone.\<close>

definition singletons_of where
  "singletons_of p = (pr_config p, pr_manager p, pr_protocol p, pr_gc p)"

lemma create_rpc_keeps:
  "keeps (\<lambda>p. singletons_of p = v) create_rpc_server" "keeps (\<lambda>p. singletons_of p = v) (create_rpc_client addr t)"
  unfolding create_rpc_server_def create_rpc_client_def create_zmq_server_def create_zmq_client_def bind_socket_def
    connect_socket_def start_zmq_thread_def
  by (intro keeps_intros keeps_emodify keeps_on_host; simp add: singletons_of_def)+

text \<open>
  A process that came up: what it is follows from its command line and from the mode in its config.
  Without the distributed mode there is a local simulation manager on port 5001, in the distributed
  mode the coordinator on port 5001 with the zeromq server in the background, or a server on port
  5000; a process started as a server has a zeromq client in the background in either mode. The
  option \<open>--distributed\<close> decides nothing, and four singletons are reset between scenarios.
\<close>

lemma main_roles:
  assumes main: "main env a (new_process h) = (Inr (), p)" and distr: "is_mode_distributed None (pr_config p) = Inr distr"
  shows "is_coordinator (pr_config p) = Inr (JBool (\<not> ar_server a))"
    and "pr_manager p = Some (if truthy distr then if ar_server a then ClientManager else CoordinatorManager else LocalManager)"
    and "pr_listening p = Some (''0.0.0.0'', if truthy distr \<and> ar_server a then PORT_CLIENT else PORT_COORDINATOR)"
    and "\<exists>proto. protocol_factory (pr_config p) = Inr proto \<and> pr_protocol p = Some proto"
    and "\<not> ar_server a \<Longrightarrow> \<not> truthy distr \<Longrightarrow> pr_rpc p = Some (MiniWorldRPCServer None) \<and> pr_sockets p = [] \<and> pr_threads p = []"
    and "\<not> ar_server a \<Longrightarrow> truthy distr \<Longrightarrow> \<exists>k. zmq_server_factory (pr_config p) = Inr k \<and>
           pr_rpc p = Some (MiniWorldRPCServer (Some k)) \<and> pr_threads p = [ServerStart k] \<and>
           pr_sockets p = [Bound ROUTER PORT_DEFAULT_SERVICE, Bound PUB PORT_PUB_RESET_SERVICE]
              @ (if k = ZeroMQCServerPubSub then [Bound PUB PORT_PUB_SERVICE] else [])"
    and "ar_server a \<Longrightarrow> \<exists>k t addr. zmq_client_factory (pr_config p) = Inr k \<and> tunnel_address env a = Inr t \<and>
           addr = (case ar_coordinator_address a of None \<Rightarrow> ''None'' | Some s \<Rightarrow> s) \<and>
           pr_rpc p = Some (MiniWorldRPCClient k addr t) \<and> pr_threads p = [ClientStart k t] \<and>
           pr_sockets p = [Connected REQ addr PORT_DEFAULT_SERVICE, Connected SUB addr PORT_PUB_RESET_SERVICE]
              @ (if k = ZeroMQClientSub then [Connected SUB addr PORT_PUB_SERVICE] else [])"
    and "pr_gc p = \<lparr>gc_singletons = scenario_state_singletons, gc_objects = []\<rparr>"
proof -
  from main obtain path p1 create p2 p3 inst p4 where p1: "init env path False (new_process h) = (Inr (), p1)"
    and mode: "(if ar_server a then mode_server env a else mode_coordinator) p1 = (Inr create, p2)"
    and p3: "init_singletons p2 = (Inr (), p3)" and create: "create p3 = (Inr inst, p4)" and serve: "serve inst p4 = (Inr (), p)"
    by (rule main_Inr)
  from serve obtain port h' sigs where port: "get_rpc_port (pr_config p4) = Inr port"
    and p: "p = p4\<lparr>pr_host := h', pr_rpc := Some inst, pr_listening := Some (''0.0.0.0'', port), pr_signals := sigs\<rparr>"
    by (rule serve_Inr)
  note modes = mode_Inr [OF mode]
  have p2: "pr_sockets p2 = []" "pr_threads p2 = []"
    using init_roles [OF p1] by (simp_all add: roles_of_def new_process_def, (subst modes(1), simp)+)
  from p3 obtain proto k where protocol: "protocol_factory (pr_config p2) = Inr proto" and k: "simulation_manager_factory (pr_config p2) = Inr k"
    and p3': "pr_manager p3 = Some k" "pr_protocol p3 = Some proto" "pr_config p3 = pr_config p2" "pr_sockets p3 = []" "pr_threads p3 = []"
      "pr_gc p3 = \<lparr>gc_singletons = scenario_state_singletons, gc_objects = []\<rparr>"
    by (rule init_singletons_Inr) (simp add: p2)
  have server: "\<not> ar_server a \<Longrightarrow> create_rpc_server p3 = (Inr inst, p4)" using modes(3) create by simp
  have client: "ar_server a \<Longrightarrow> \<exists>t. tunnel_address env a = Inr t \<and>
      create_rpc_client (case ar_coordinator_address a of None \<Rightarrow> ''None'' | Some s \<Rightarrow> s) t p3 = (Inr inst, p4)"
    using modes(4) create by auto
  have "singletons_of p4 = singletons_of p3"
    using server client keepsD [OF create_rpc_keeps(1) refl] keepsD [OF create_rpc_keeps(2) refl]
    by (cases "ar_server a") auto
  then have p': "pr_config p = pr_config p2" "pr_manager p = Some k" "pr_protocol p = Some proto"
      "pr_gc p = \<lparr>gc_singletons = scenario_state_singletons, gc_objects = []\<rparr>" "pr_config p4 = pr_config p2"
    by (simp_all add: singletons_of_def p p3')
  show c: "is_coordinator (pr_config p) = Inr (JBool (\<not> ar_server a))" by (simp add: p' modes(2))
  have truthy_bool: "truthy (JBool b) = b" for b by (simp add: truthy_def)
  show "pr_manager p = Some (if truthy distr then if ar_server a then ClientManager else CoordinatorManager else LocalManager)"
    using k distr c by (simp add: p' simulation_manager_factory_def truthy_bool split: if_splits)
  show "pr_listening p = Some (''0.0.0.0'', if truthy distr \<and> ar_server a then PORT_CLIENT else PORT_COORDINATOR)"
    using port distr c by (simp add: p p' get_rpc_port_def truthy_bool split: if_splits)
  show "\<exists>proto. protocol_factory (pr_config p) = Inr proto \<and> pr_protocol p = Some proto"
    using protocol by (simp add: p')
  show "pr_gc p = \<lparr>gc_singletons = scenario_state_singletons, gc_objects = []\<rparr>" by (fact p'(4))
  have distr3: "is_mode_distributed None (pr_config p3) = Inr distr" using distr by (simp add: p' p3')
  show "\<not> ar_server a \<Longrightarrow> \<not> truthy distr \<Longrightarrow> pr_rpc p = Some (MiniWorldRPCServer None) \<and> pr_sockets p = [] \<and> pr_threads p = []"
    using server create_rpc_server_local [OF distr3] p3' by (auto simp: p)
  show "\<exists>k. zmq_server_factory (pr_config p) = Inr k \<and>
           pr_rpc p = Some (MiniWorldRPCServer (Some k)) \<and> pr_threads p = [ServerStart k] \<and>
           pr_sockets p = [Bound ROUTER PORT_DEFAULT_SERVICE, Bound PUB PORT_PUB_RESET_SERVICE]
              @ (if k = ZeroMQCServerPubSub then [Bound PUB PORT_PUB_SERVICE] else [])"
    if a: "\<not> ar_server a" "truthy distr"
    by (rule create_rpc_server_distributed [OF server [OF a(1)] distr3 a(2)]) (simp add: p p' p3')
  show "\<exists>k t addr. zmq_client_factory (pr_config p) = Inr k \<and> tunnel_address env a = Inr t \<and>
           addr = (case ar_coordinator_address a of None \<Rightarrow> ''None'' | Some s \<Rightarrow> s) \<and>
           pr_rpc p = Some (MiniWorldRPCClient k addr t) \<and> pr_threads p = [ClientStart k t] \<and>
           pr_sockets p = [Connected REQ addr PORT_DEFAULT_SERVICE, Connected SUB addr PORT_PUB_RESET_SERVICE]
              @ (if k = ZeroMQClientSub then [Connected SUB addr PORT_PUB_SERVICE] else [])"
    if a: "ar_server a"
  proof -
    obtain t where t: "tunnel_address env a = Inr t"
      and "create_rpc_client (case ar_coordinator_address a of None \<Rightarrow> ''None'' | Some s \<Rightarrow> s) t p3 = (Inr inst, p4)"
      using client a by blast
    from this(2) show ?thesis by (rule create_rpc_client_Inr) (simp add: t p p' p3')
  qed
qed


text \<open>
  What the shell does with the \<open>mount\<close> command: it succeeds and a fresh file system hides the
  directory, or it fails and changes nothing.
\<close>

definition mounts_ramfs :: "start_env \<Rightarrow> bool" where
  "mounts_ramfs env \<longleftrightarrow> (\<forall>h. \<exists>f. if fi_returncode f = 0
     then be_execute env MOUNT_CMD h = (Inr f, h\<lparr>ho_ramfs := Some None\<rparr>)
     else be_execute env MOUNT_CMD h = (Inr f, h))"

lemma run_mount:
  assumes "mounts_ramfs env"
  shows "(\<exists>out. run_shell (be_execute env) MOUNT_CMD h = (Inr out, h\<lparr>ho_ramfs := Some None\<rparr>)) \<or>
    run_shell (be_execute env) MOUNT_CMD h = (Inl CalledProcessError, h)"
proof -
  from assms obtain f where "if fi_returncode f = 0
     then be_execute env MOUNT_CMD h = (Inr f, h\<lparr>ho_ramfs := Some None\<rparr>)
     else be_execute env MOUNT_CMD h = (Inr f, h)" unfolding mounts_ramfs_def by blast
  then show ?thesis by (auto simp: run_shell_def ebind_def eraise_def ereturn_def split: if_splits)
qed

lemma create_tmp_Inr:
  assumes "mounts_ramfs env" and "create_n_check_tmp_files env True ramdisk h = (r, h')"
  shows "ho_tmp h'" and "r = Inr () \<Longrightarrow> ramdisk \<Longrightarrow> ho_ramfs h' \<noteq> None"
    and "ho_ramfs h \<noteq> None \<Longrightarrow> ho_ramfs h' \<noteq> None" and "ho_ports h' = ho_ports h" and "ho_files h' = ho_files h"
proof -
  define h1 where "h1 = (if ho_tmp h then snd (rmtree_logs h) else h\<lparr>ho_tmp := True, ho_disk_logs := None\<rparr>)"
  have ramfs: "ho_ramfs h = None \<longleftrightarrow> ho_ramfs h1 = None"
    by (auto simp: h1_def rmtree_logs_def set_logs_def split: option.splits list.splits)
  have h1: "ho_tmp h1" "ho_ports h1 = ho_ports h" "ho_files h1 = ho_files h"
    by (auto simp: h1_def rmtree_logs_def set_logs_def split: option.splits list.splits)
  have "create_n_check_tmp_files env True ramdisk h =
      ewhen (ramdisk \<and> ho_ramfs h1 = None) (eseq (run_shell (be_execute env) MOUNT_CMD) (ereturn ())) h1"
    using h1(1) by (simp add: create_n_check_tmp_files_def try_umount_keeps_ramdisk etry_def ebind_def eget_def ewhen_def ereturn_def
        makedirs_tmp_def h1_def split: if_splits)
  with assms(2) have "h' = h1 \<and> (r = Inr () \<and> ramdisk \<longrightarrow> ho_ramfs h1 \<noteq> None) \<or> h' = h1\<lparr>ho_ramfs := Some None\<rparr>"
    using run_mount [OF assms(1), of h1] by (auto simp: ewhen_def ebind_def ereturn_def split: if_splits)
  then show "ho_tmp h'" and "r = Inr () \<Longrightarrow> ramdisk \<Longrightarrow> ho_ramfs h' \<noteq> None" and "ho_ramfs h \<noteq> None \<Longrightarrow> ho_ramfs h' \<noteq> None"
    and "ho_ports h' = ho_ports h" and "ho_files h' = ho_files h"
    using h1 ramfs by auto
qed

lemma clean_miniworld_dir_Inr:
  assumes "mounts_ramfs env" and "clean_miniworld_dir env p = (Inr (), p')"
  shows "logs (pr_host p') = Some []" and "ho_tmp (pr_host p')" and "pr_config p' = pr_config p"
    and "is_ramdisk_enabled None (pr_config p) = Inr r \<Longrightarrow> truthy r \<Longrightarrow> ho_ramfs (pr_host p') \<noteq> None"
proof -
  from assms(2) obtain r' h1 where r': "is_ramdisk_enabled None (pr_config p) = Inr r'"
    and h1: "create_n_check_tmp_files env True (truthy r') (pr_host p) = (Inr (), h1)"
    and logs: "logs h1 = None" and p': "p' = p\<lparr>pr_host := set_logs (Some []) (h1\<lparr>ho_tmp := True\<rparr>)\<rparr>"
    by (auto simp: clean_miniworld_dir_def create_log_files_dir_def makedirs_logs_def boot_Inr split: if_splits)
  note tmp = create_tmp_Inr [OF assms(1) h1]
  show "logs (pr_host p') = Some []" "ho_tmp (pr_host p')" "pr_config p' = pr_config p"
    by (auto simp: p' logs_def set_logs_def)
  show "is_ramdisk_enabled None (pr_config p) = Inr r \<Longrightarrow> truthy r \<Longrightarrow> ho_ramfs (pr_host p') \<noteq> None"
    using tmp(2) r' by (auto simp: p' set_logs_def)
qed


section \<open>A second process on the same host\<close>

lemma keeps_on_host_inv: "(\<And>p. keeps (\<lambda>h. P (p\<lparr>pr_host := h\<rparr>)) m) \<Longrightarrow> keeps P (on_host m)"
  unfolding keeps_def on_host_def
  by (auto simp: case_prod_beta Let_def)

lemma ports_clean: "mounts_ramfs env \<Longrightarrow> keeps (\<lambda>h. n \<in> set (ho_ports h)) (create_n_check_tmp_files env True ramdisk)"
  using create_tmp_Inr(4) [of env ramdisk] by (fastforce simp: keeps_def prod_eq_iff)

lemma ports_files [keeps_intros]:
  "keeps (\<lambda>h. n \<in> set (ho_ports h)) copy_sample_config" "keeps (\<lambda>h. n \<in> set (ho_ports h)) create_log_files_dir"
  "keeps (\<lambda>h. n \<in> set (ho_ports h)) (open_log name)" "keeps (\<lambda>h. n \<in> set (ho_ports h)) (bind_port e port)"
  by (auto simp: keeps_def copy_sample_config_def create_log_files_dir_def makedirs_logs_def open_log_def bind_port_def
      set_logs_def split: option.splits)

lemma ports_init:
  assumes "mounts_ramfs env"
  shows "keeps (\<lambda>p. n \<in> set (ho_ports (pr_host p))) (init env path False)"
  unfolding init_def install_signal_handlers_def set_signal_def set_log_level_def clean_miniworld_dir_def ewhen_False
  by (intro keeps_ebind keeps_emodify keeps_elift keeps_cfg keeps_load_global_config keeps_ereturn keeps_on_host_inv)
     (simp_all add: keeps_intros ports_clean [OF assms])

lemma init_logs:
  assumes "mounts_ramfs env" and "init env path False p = (Inr (), p')"
  shows "logs (pr_host p') = Some [(''stdout.txt'', True)]"
proof -
  from assms(2) obtain p1 p2 h where p2: "clean_miniworld_dir env p1 = (Inr (), p2)"
    and open_log: "open_log ''stdout.txt'' (pr_host p2) = (Inr (), h)" and "p' = p2\<lparr>pr_host := h\<rparr>"
    by (auto simp: init_def ebind_Inr on_host_Inr ewhen_False ereturn_def)
  then show ?thesis
    using clean_miniworld_dir_Inr(1) [OF assms(1) p2] by (auto simp: open_log_def logs_def set_logs_def split: if_splits)
qed

text \<open>
  Where a coordinator gets whose port is taken: the logs it found are gone, its own are below the
  names of its loggers.
\<close>

definition own_logs :: "string set" where
  "own_logs = insert ''stdout.txt'' (range class_name)"

definition port_taken :: "process \<Rightarrow> bool" where
  "port_taken p \<longleftrightarrow> PORT_COORDINATOR \<in> set (ho_ports (pr_host p)) \<and> is_coordinator (pr_config p) = Inr (JBool True) \<and>
     (\<exists>fs. logs (pr_host p) = Some fs \<and> fst ` set fs \<subseteq> own_logs)"

lemma set_logs_simps [simp]: "ho_ports (set_logs l h) = ho_ports h" "ho_tmp (set_logs l h) = ho_tmp h"
  by (simp_all add: set_logs_def)

lemma logs_set_logs: "logs h \<noteq> None \<Longrightarrow> logs (set_logs l h) = l"
  by (auto simp: logs_def set_logs_def split: if_splits)

lemma port_taken_open_log: "name \<in> own_logs \<Longrightarrow> keeps port_taken (on_host (open_log name))"
  by (rule keeps_on_host_inv) (auto simp: keeps_def port_taken_def open_log_def logs_set_logs)

lemma port_taken_bind: "keeps port_taken (on_host (bind_port e port))"
  by (rule keeps_on_host_inv) (auto simp: keeps_def port_taken_def bind_port_def logs_def split: if_splits option.splits)

lemma port_taken_keeps: "keeps port_taken init_singletons" "keeps port_taken create_rpc_server"
proof -
  show "keeps port_taken init_singletons"
    unfolding init_singletons_def create_manager_def
    by (intro keeps_intros keeps_emodify port_taken_open_log) (simp_all add: port_taken_def own_logs_def)
  show "keeps port_taken create_rpc_server"
    unfolding create_rpc_server_def create_zmq_server_def bind_socket_def start_zmq_thread_def
    by (intro keeps_intros keeps_emodify port_taken_bind) (simp_all add: port_taken_def)
qed

lemma serve_port_taken: "port_taken p \<Longrightarrow> \<exists>e. serve inst p = (Inl e, p)"
  by (auto simp: serve_def ebind_def cfg_def get_rpc_port_def port_taken_def on_host_def bind_port_def truthy_def
      rbind_def split: sum.splits if_splits)

lemma rest_port_taken:
  assumes "port_taken p"
  shows "\<exists>e p'. eseq init_singletons (ebind create_rpc_server serve) p = (Inl e, p') \<and> port_taken p'"
proof (cases "init_singletons p")
  case (Pair r p1)
  then have p1: "port_taken p1" using keepsD [OF port_taken_keeps(1) assms] by simp
  obtain r2 p2 where s2: "create_rpc_server p1 = (r2, p2)" by (cases "create_rpc_server p1")
  then have p2: "port_taken p2" using keepsD [OF port_taken_keeps(2) p1] by simp
  have "\<exists>e. serve inst p2 = (Inl e, p2)" for inst by (rule serve_port_taken [OF p2])
  then obtain e where "serve (case r2 of Inr inst \<Rightarrow> inst) p2 = (Inl e, p2)" by blast
  then show ?thesis
    using Pair s2 p1 p2 by (cases r; cases r2) (auto simp: ebind_def)
qed


section \<open>Example\<close>

definition ex_start_env :: start_env where
  "ex_start_env = \<lparr>be_loads = \<lambda>s. if s = ''d'' then Inr (JObj [(''distributed'', JObj [(''use'', JBool True)])]) else Inr (JObj []),
     be_execute = \<lambda>cmd h. (Inr \<lparr>fi_returncode = 0, fi_stdout = '''', fi_stderr = ''''\<rparr>, h\<lparr>ho_ramfs := Some None\<rparr>),
     be_abspath = \<lambda>s. s, be_ifaddresses = \<lambda>i. Inr [(2, [[(''addr'', ''10.0.0.2'')]])], be_af_inet = 2\<rparr>"

definition ex_host :: process_host where
  "ex_host = \<lparr>ho_files = [(PATH_GLOBAL_CONFIG, ''d''), (''local.json'', ''l'')], ho_tmp = True,
     ho_disk_logs = Some [(''old.txt'', True)], ho_ramfs = None, ho_ports = []\<rparr>"

definition ex_coordinator :: arguments where
  "ex_coordinator = \<lparr>ar_config = None, ar_distributed = False, ar_server = False, ar_tunnel_address = None,
     ar_tunnel_interface = None, ar_coordinator_address = None\<rparr>"

definition ex_server :: arguments where
  "ex_server = \<lparr>ar_config = None, ar_distributed = False, ar_server = True, ar_tunnel_address = None,
     ar_tunnel_interface = Some ''eth0'', ar_coordinator_address = Some ''10.0.0.1''\<rparr>"

lemma ex_mounts_ramfs: "mounts_ramfs ex_start_env"
  by (simp add: mounts_ramfs_def ex_start_env_def exI [of _ "\<lparr>fi_returncode = 0, fi_stdout = '''', fi_stderr = ''''\<rparr>"])

definition ex_config :: json where
  "ex_config = JObj [(''distributed'', JObj [(''use'', JBool True)])]"

definition ex_role :: "bool \<Rightarrow> json" where
  "ex_role b = JObj [(''distributed'', JObj [(''use'', JBool True)]), (''coordinator'', JBool b)]"

lemma ex_config_values:
  "is_ramdisk_enabled None ex_config = Inr (JBool False)" "get_log_level None ex_config = Inr (JStr ''INFO'')"
  "set_is_coordinator b ex_config = (Inr (), ex_role b)"
  by (simp_all add: ex_config_def ex_role_def is_ramdisk_enabled_def get_log_level_def set_is_coordinator_def
      customizable_attrs_def CONFIG_KEY_NODE_DETAILS_def is_none_def)

lemma ex_INFO: "map to_upper ''INFO'' = ''INFO''"
  by code_simp

lemma ex_role_values:
  "protocol_factory (ex_role b) = Inr JSONProtocol" "node_distribution_strategy_factory (ex_role b) = Inr NDSScore"
  "is_mode_distributed None (ex_role b) = Inr (JBool True)" "is_coordinator (ex_role b) = Inr (JBool b)"
  "is_protocol_zeromq_mode_mcast (ex_role b) = Inr True" "is_debug None (ex_role b) = Inr (JBool False)"
  "get_log_level None (ex_role b) = Inr (JStr ''INFO'')"
  by (simp_all add: ex_role_def protocol_factory_def is_protocol_msgpack_def is_protocol_json_def get_protocol_def
      node_distribution_strategy_factory_def is_distributed_scheduler_equal_def is_distributed_scheduler_score_def
      get_distributed_scheduler_def is_mode_distributed_def is_coordinator_def is_protocol_zeromq_mode_mcast_def
      get_protocol_zeromq_mode_def is_debug_def get_log_level_def customizable_attrs_def CONFIG_KEY_NODE_DETAILS_def is_none_def
      PROTOCOL_JSON_def PROTOCOL_MSG_PACK_def PROTOCOL_ZMQ_MODE_MCAST_def DISTRIBUTD_SCHEDULER_EQUAL_def DISTRIBUTD_SCHEDULER_SCORE_def)

lemma ex_role_choices:
  "simulation_manager_factory (ex_role b) = Inr (if b then CoordinatorManager else ClientManager)"
  "logger_level (ex_role b) = Inr ''INFO''" "zmq_server_factory (ex_role b) = Inr ZeroMQCServerPubSub"
  "zmq_client_factory (ex_role b) = Inr ZeroMQClientSub" "get_rpc_port (ex_role b) = Inr (if b then PORT_COORDINATOR else PORT_CLIENT)"
  using ex_INFO by (simp_all add: simulation_manager_factory_def logger_level_def zmq_server_factory_def zmq_client_factory_def
      get_rpc_port_def ex_role_values truthy_def level_names_def Let_def)

lemma ex_load: "load_global_config ex_start_env PATH_GLOBAL_CONFIG p = (Inr (), p\<lparr>pr_config := ex_config\<rparr>)"
  if "ho_files (pr_host p) = ho_files ex_host"
proof -
  have "strip_comments ''d'' = ''d''" by code_simp
  with that show ?thesis
    by (simp add: load_global_config_def set_global_config_def read_json_config_def host_read_def ex_host_def ex_start_env_def
        ex_config_def PATH_GLOBAL_CONFIG_def)
qed

lemmas boot_simps = ebind_def elift_def emodify_def ereturn_def eget_def etry_def on_host_def cfg_def
  ex_config_values ex_role_values ex_role_choices

definition ex_clean_host :: process_host where
  "ex_clean_host = ex_host\<lparr>ho_disk_logs := Some [(''stdout.txt'', True)]\<rparr>"

lemma ex_copy: "copy_sample_config ex_host = (Inr (), ex_host)"
  by (simp add: copy_sample_config_def ex_host_def)

lemma ex_clean: "eseq (create_n_check_tmp_files ex_start_env True False) create_log_files_dir ex_host =
    (Inr (), ex_host\<lparr>ho_disk_logs := Some []\<rparr>)"
  by (simp add: create_n_check_tmp_files_def ebind_def eget_def ewhen_def etry_def ereturn_def try_umount_keeps_ramdisk
      rmtree_logs_def makedirs_tmp_def create_log_files_dir_def makedirs_logs_def logs_def set_logs_def ex_host_def)

lemma ex_stdout: "open_log ''stdout.txt'' (ex_host\<lparr>ho_disk_logs := Some []\<rparr>) = (Inr (), ex_clean_host)"
  by (simp add: open_log_def logs_def set_logs_def ex_host_def ex_clean_host_def)

definition ex_initialized :: process where
  "ex_initialized = (new_process ex_clean_host)\<lparr>pr_config := ex_config, pr_atexit := [''exit''],
      pr_signals := [(SIGINT, Error_handler_sys_exit), (SIGTERM, Error_handler_sys_exit), (SIGHUP, Error_handler_sys_exit),
        (SIGUSR1, Error_handler)]\<rparr>"

lemma ex_init: "init ex_start_env None False (new_process ex_host) = (Inr (), ex_initialized)"
  by (simp add: init_def ebind_def on_host_def cfg_def elift_def emodify_def ewhen_False ereturn_def ex_copy
      install_signal_handlers_def set_signal_def ex_load set_log_level_def check_level_def level_names_def clean_miniworld_dir_def
      ex_config_values truthy_def ex_clean [unfolded ebind_def] ex_stdout new_process_def ex_initialized_def)


text \<open>The singletons of a process with a role, and what follows for the coordinator and a server.\<close>

lemma ex_gc: "efor scenario_state_singletons (\<lambda>c. emodify (\<lambda>p. p\<lparr>pr_gc := add_singleton c (pr_gc p)\<rparr>)) p =
    (Inr (), p\<lparr>pr_gc := \<lparr>gc_singletons = scenario_state_singletons, gc_objects = []\<rparr>\<rparr>)"
  if "pr_gc p = \<lparr>gc_singletons = [], gc_objects = []\<rparr>"
  by (cases p) (use that in \<open>simp add: scenario_state_singletons_def emodify_def ebind_def ereturn_def add_singleton_def\<close>)

lemma ex_manager_log:
  "open_log (class_name k) ex_clean_host = (Inr (), ex_host\<lparr>ho_disk_logs := Some [(''stdout.txt'', True), (class_name k, True)]\<rparr>)"
  by (cases k) (simp_all add: open_log_def logs_def set_logs_def ex_clean_host_def ex_host_def class_name_def)

definition ex_singletons :: "bool \<Rightarrow> process" where
  "ex_singletons b = (let k = if b then CoordinatorManager else ClientManager in
     ex_initialized\<lparr>pr_host := ex_host\<lparr>ho_disk_logs := Some [(''stdout.txt'', True), (class_name k, True)]\<rparr>,
       pr_config := ex_role b, pr_protocol := Some JSONProtocol, pr_strategy := Some NDSScore, pr_manager := Some k,
       pr_gc := \<lparr>gc_singletons = scenario_state_singletons, gc_objects = []\<rparr>\<rparr>)"

lemma ex_init_singletons: "init_singletons (ex_initialized\<lparr>pr_config := ex_role b\<rparr>) = (Inr (), ex_singletons b)"
  by (simp add: init_singletons_def create_manager_def ebind_def emodify_def cfg_def on_host_def ex_role_values ex_role_choices
      ex_gc ex_manager_log ex_initialized_def new_process_def ex_singletons_def Let_def)

lemma ex_serve: "\<exists>q. serve inst p = (Inr (), q) \<and> pr_config q = ex_role b"
  if "pr_config p = ex_role b" "ho_ports (pr_host p) = ports" "PORT_COORDINATOR \<notin> set ports" "PORT_CLIENT \<notin> set ports"
    "logs (pr_host p) \<noteq> None"
  using that by (auto simp: serve_def ebind_def cfg_def on_host_def emodify_def ewhen_def ereturn_def truthy_def bind_port_def
      ex_role_values ex_role_choices open_log_def logs_def split: if_splits option.splits)

lemma ex_put: "put_is_coordinator b ex_initialized = (Inr (), ex_initialized\<lparr>pr_config := ex_role b\<rparr>)"
proof -
  have "pr_config ex_initialized = ex_config" by (simp add: ex_initialized_def)
  then show ?thesis by (simp add: put_is_coordinator_def ex_config_values)
qed

lemma ex_modes:
  "mode_coordinator ex_initialized = (Inr create_rpc_server, ex_initialized\<lparr>pr_config := ex_role True\<rparr>)"
  "mode_server ex_start_env ex_server ex_initialized =
     (Inr (create_rpc_client ''10.0.0.1'' ''10.0.0.2''), ex_initialized\<lparr>pr_config := ex_role False\<rparr>)"
  by (simp_all add: mode_coordinator_def mode_server_def ebind_def ex_put ereturn_def elift_def tunnel_address_def given_def
      ex_server_def ex_start_env_def)

lemma ex_coordinator_up:
  "\<exists>p. main ex_start_env ex_coordinator (new_process ex_host) = (Inr (), p) \<and> pr_config p = ex_role True"
proof -
  obtain q where q: "create_rpc_server (ex_singletons True) = (Inr (MiniWorldRPCServer (Some ZeroMQCServerPubSub)), q)"
    and "pr_config q = ex_role True" "logs (pr_host q) \<noteq> None"
    "ho_ports (pr_host q) = [PORT_DEFAULT_SERVICE, PORT_PUB_RESET_SERVICE, PORT_PUB_SERVICE]"
    by (simp add: create_rpc_server_def create_zmq_server_def bind_socket_def start_zmq_thread_def ebind_def cfg_def on_host_def
        emodify_def ereturn_def ewhen_def bind_port_def ex_role_values ex_role_choices truthy_def ex_singletons_def Let_def
        ex_host_def logs_def PORT_DEFAULT_SERVICE_def PORT_PUB_RESET_SERVICE_def PORT_PUB_SERVICE_def)
  with ex_serve [of q True _ "MiniWorldRPCServer (Some ZeroMQCServerPubSub)"] obtain p
    where "serve (MiniWorldRPCServer (Some ZeroMQCServerPubSub)) q = (Inr (), p)" "pr_config p = ex_role True"
    by (auto simp: PORT_DEFAULT_SERVICE_def PORT_PUB_RESET_SERVICE_def PORT_PUB_SERVICE_def PORT_COORDINATOR_def PORT_CLIENT_def)
  with q ex_init_singletons [of True] show ?thesis
    by (simp add: main_def ex_coordinator_def parse_args_def elift_def ebind_def ex_init ex_modes)
qed

lemma ex_server_up:
  "\<exists>p. main ex_start_env ex_server (new_process ex_host) = (Inr (), p) \<and> pr_config p = ex_role False"
proof -
  obtain q where q: "create_rpc_client ''10.0.0.1'' ''10.0.0.2'' (ex_singletons False) =
      (Inr (MiniWorldRPCClient ZeroMQClientSub ''10.0.0.1'' ''10.0.0.2''), q)"
    and "pr_config q = ex_role False" "logs (pr_host q) \<noteq> None" "ho_ports (pr_host q) = []"
    by (simp add: create_rpc_client_def create_zmq_client_def connect_socket_def ebind_def cfg_def emodify_def ereturn_def ewhen_def
        ex_role_choices ex_singletons_def Let_def ex_host_def logs_def)
  with ex_serve [of q False _ "MiniWorldRPCClient ZeroMQClientSub ''10.0.0.1'' ''10.0.0.2''"] obtain p
    where "serve (MiniWorldRPCClient ZeroMQClientSub ''10.0.0.1'' ''10.0.0.2'') q = (Inr (), p)" "pr_config p = ex_role False"
    by auto
  with q ex_init_singletons [of False] ex_modes(2) show ?thesis
    by (simp add: main_def ex_server_def parse_args_def elift_def ebind_def ex_init)
qed

section \<open>Properties\<close>

text \<open>C34: a coordinator and a server meet. If both came up in the distributed mode with configs that
  agree but for their role, they speak the same protocol, and their sockets pair: each socket of the
  server connects to the address of the coordinator it was given, to a port the coordinator bound
  with the socket type that answers it, and each port the coordinator bound is one the server
  connects to. Their RPC ports differ, so both may run on one host.
\<close>

theorem coordinator_and_server_meet:
  assumes "main env a (new_process h) = (Inr (), c)" "\<not> ar_server a"
    and "main env' a' (new_process h') = (Inr (), s)" "ar_server a'" "ar_coordinator_address a' = Some addr"
    and "same_but_role (pr_config c) (pr_config s)" and "is_mode_distributed None (pr_config c) = Inr distr" "truthy distr"
  shows "pr_manager c = Some CoordinatorManager \<and> pr_manager s = Some ClientManager \<and>
    pr_protocol c = pr_protocol s \<and>
    (\<forall>x. x \<in> set (pr_sockets s) \<longleftrightarrow> (\<exists>t t' port. x = Connected t addr port \<and>
        (t', t) \<in> {(ROUTER, REQ), (PUB, SUB)} \<and> Bound t' port \<in> set (pr_sockets c))) \<and>
    pr_listening c = Some (''0.0.0.0'', PORT_COORDINATOR) \<and> pr_listening s = Some (''0.0.0.0'', PORT_CLIENT) \<and>
    PORT_COORDINATOR \<noteq> PORT_CLIENT"
proof -
  have distr': "is_mode_distributed None (pr_config s) = Inr distr"
    using assms(6,7) by (simp add: role_free)
  note roles = main_roles [OF assms(1,7)] main_roles [OF assms(3) distr']
  have "zmq_server_factory (pr_config c) = Inr ZeroMQCServerPubSub \<and> zmq_client_factory (pr_config s) = Inr ZeroMQClientSub \<or>
      zmq_server_factory (pr_config c) = Inr ZeroMQServerRouter \<and> zmq_client_factory (pr_config s) = Inr ZeroMQClientReq"
    using roles(6) [OF assms(2,8)] factories_same_but_role(1) [OF assms(6)]
    by (cases "is_protocol_zeromq_mode_mcast (pr_config s)") (auto simp: zmq_server_factory_def zmq_client_factory_def)
  then have sockets: "\<forall>x. x \<in> set (pr_sockets s) \<longleftrightarrow> (\<exists>t t' port. x = Connected t addr port \<and>
        (t', t) \<in> {(ROUTER, REQ), (PUB, SUB)} \<and> Bound t' port \<in> set (pr_sockets c))"
    using roles(6) [OF assms(2,8)] roles(15) [OF assms(4)] by (auto simp: assms(5))
  show ?thesis
    using roles(2-4,10-12) assms(2,4,8) factories_same_but_role(2) [OF assms(6)] sockets
    by (simp add: PORT_COORDINATOR_def PORT_CLIENT_def) auto
qed

theorem coordinator_and_server_meet_witness:
  "pr_protocol (snd (main ex_start_env ex_coordinator (new_process ex_host))) =
   pr_protocol (snd (main ex_start_env ex_server (new_process ex_host)))"
proof -
  obtain c s where c: "main ex_start_env ex_coordinator (new_process ex_host) = (Inr (), c)" "pr_config c = ex_role True"
    and s: "main ex_start_env ex_server (new_process ex_host) = (Inr (), s)" "pr_config s = ex_role False"
    using ex_coordinator_up ex_server_up by blast
  have "same_but_role (pr_config c) (pr_config s)" by (simp add: c s ex_role_def same_but_role_def)
  from coordinator_and_server_meet [OF c(1) _ s(1) _ _ this, of "''10.0.0.1''" "JBool True"] c s show ?thesis
    by (simp add: ex_coordinator_def ex_server_def ex_role_values truthy_def)
qed



end
