(* ===== verification/Qemu_Vm.thy ===== *)
theory Qemu_Vm
  imports Vde
begin

text \<open>
  Virtual machines (\<open>model/emulation/Qemu.py\<close> and its subclasses for the bridged and the VDE
  backend): the command line of Qemu, and the start of a machine, from a snapshot that a process of
  an earlier scenario still holds, or by booting a new process.
\<close>

section \<open>Command line\<close>

text \<open>\<open>os.path.basename\<close> and \<open>os.path.splitext(..)[0]\<close> of a name without slashes.\<close>

definition basename :: "string \<Rightarrow> string" where
  "basename path = rev (takeWhile (\<lambda>c. c \<noteq> CHR ''/'') (rev path))"

definition splitext_root :: "string \<Rightarrow> string" where
  "splitext_root name = (let dots = takeWhile (\<lambda>c. c = CHR ''.'') name; body = dropWhile (\<lambda>c. c = CHR ''.'') name in
     if CHR ''.'' \<in> set body then dots @ rev (tl (dropWhile (\<lambda>c. c \<noteq> CHR ''.'') (rev body))) else name)"

record 'w cmd_env =
  ce_shell :: "string \<Rightarrow> ('w, unit) eff"
  ce_temp :: "string \<Rightarrow> string"
  ce_abspath :: "string \<Rightarrow> string"
  ce_realpath :: "string \<Rightarrow> string"
  ce_kvm :: bool
  ce_node_id :: int

definition overlay_path :: "'w cmd_env \<Rightarrow> string \<Rightarrow> string" where
  "overlay_path env base = ce_temp env (splitext_root (basename base) @ ''_overlay_'' @ int_dec (ce_node_id env) @ ''.img'')"

definition create_qemu_overlay_image :: "'w cmd_env \<Rightarrow> string \<Rightarrow> ('w, string) eff" where
  "create_qemu_overlay_image env base =
     eseq (ce_shell env (nl @ ''qemu-img create'' @ nl @ ''    -b '' @ quote @ base @ quote @ nl @ ''    -f qcow2'' @ nl
        @ ''    '' @ quote @ overlay_path env base @ quote @ nl)) (ereturn (overlay_path env base))"

definition mount_disk :: "string \<Rightarrow> nat \<Rightarrow> string" where
  "mount_disk path index = nl @ ''-drive file='' @ path @ '',index='' @ nat_dec index @ '',media=disk'' @ nl"

text \<open>The loop appends the command so far to itself, and then the next disk.\<close>

fun overlay_loop :: "'w cmd_env \<Rightarrow> nat \<Rightarrow> string \<Rightarrow> string list \<Rightarrow> ('w, string) eff" where
  "overlay_loop env index cmd [] = ereturn cmd"
| "overlay_loop env index cmd (img # images) =
     ebind (create_qemu_overlay_image env (ce_abspath env img)) (\<lambda>path.
     overlay_loop env (index + 1) (cmd @ cmd @ '' '' @ mount_disk path index) images)"

definition build_qemu_overlay_images_command :: "'w cmd_env \<Rightarrow> string list \<Rightarrow> ('w, string) eff" where
  "build_qemu_overlay_images_command env images = overlay_loop env 1 '''' images"

definition CMD_TEMPLATE_QEMU_KVM :: string where
  "CMD_TEMPLATE_QEMU_KVM = nl @ ''    -enable-kvm'' @ nl @ ''    -cpu host'' @ nl"

definition build_qemu_command ::
  "'w cmd_env \<Rightarrow> ('w, string) eff \<Rightarrow> string \<Rightarrow> string \<Rightarrow> string \<Rightarrow> string \<Rightarrow> string list \<Rightarrow> string \<Rightarrow> ('w, string) eff" where
  "build_qemu_command env nic_command memory serial_sock monitor_sock user_addition overlays img =
     ebind (create_qemu_overlay_image env (ce_realpath env (ce_abspath env img))) (\<lambda>hda.
     ebind nic_command (\<lambda>nics.
     ebind (build_qemu_overlay_images_command env overlays) (\<lambda>disks.
     ereturn (nl @ ''    qemu-system-x86_64'' @ nl
       @ ''        '' @ (if ce_kvm env then CMD_TEMPLATE_QEMU_KVM else '''') @ nl
       @ ''        -m '' @ memory @ nl
       @ ''        -serial unix:'' @ serial_sock @ '',server'' @ nl
       @ ''        -monitor unix:'' @ monitor_sock @ '',server'' @ nl
       @ ''        -nographic'' @ nl
       @ ''        '' @ nics @ nl
       @ ''        -watchdog-action poweroff'' @ nl
       @ ''        -hda '' @ quote @ hda @ quote @ nl
       @ ''        '' @ disks @ nl
       @ ''        '' @ user_addition @ nl @ ''    ''))))"

text \<open>\<open>QemuTap\<close>: the interfaces in the order of the node; each asks the backend for its tap name.\<close>

definition tap_nic_command :: "string \<Rightarrow> nat \<Rightarrow> string \<Rightarrow> string \<Rightarrow> string" where
  "tap_nic_command nic_model vlan mac ifname =
     nl @ ''    -device '' @ nic_model @ '',netdev=net'' @ nat_dec vlan @ '',mac='' @ mac @ nl
     @ ''    -netdev tap,id=net'' @ nat_dec vlan @ '',ifname='' @ ifname @ '',script=no,downscript=no'' @ nl @ ''    ''"

fun tap_nic_loop :: "string \<Rightarrow> nat \<Rightarrow> nat \<Rightarrow> interface list \<Rightarrow> device_names \<Rightarrow> string list \<times> device_names" where
  "tap_nic_loop nic_model nid vlan [] names = ([], names)"
| "tap_nic_loop nic_model nid vlan (i # is) names =
     (let (ifname, names) = get_tap_name (int nid) i names;
          (cmds, names) = tap_nic_loop nic_model nid (vlan + 1) is names
      in (tap_nic_command nic_model vlan (get_mac i nid) ifname # cmds, names))"

definition tap_build_qemu_nic_command :: "string \<Rightarrow> nat \<Rightarrow> interface list \<Rightarrow> device_names \<Rightarrow> string \<times> device_names" where
  "tap_build_qemu_nic_command nic_model nid interfaces names =
     (let (cmds, names) = tap_nic_loop nic_model nid 0 interfaces names in (pyjoin nl cmds, names))"

definition vde_nic_command :: "string \<Rightarrow> nat \<Rightarrow> string \<Rightarrow> string \<Rightarrow> string" where
  "vde_nic_command nic_model vlan mac sock =
     nl @ ''        -device '' @ nic_model @ '',netdev=net'' @ nat_dec vlan @ '',mac='' @ mac @ nl
     @ ''        -netdev vde,id=net'' @ nat_dec vlan @ '',port='' @ nat_dec PORT_QEMU @ '',sock='' @ sock @ nl @ ''    ''"

definition vde_build_qemu_nic_command :: "'w vde_env \<Rightarrow> string \<Rightarrow> nat \<Rightarrow> interface list \<Rightarrow> string" where
  "vde_build_qemu_nic_command env nic_model nid interfaces = concat (map (\<lambda>(idx, i).
     nl @ vde_nic_command nic_model idx (get_mac i nid) (get_vde_switch_sock_path env (switch_id (nat_dec nid) i)))
     (enumerate 0 interfaces))"

section \<open>Starting a machine\<close>

text \<open>
  Processes are numbered in the order they are started. \<open>qm_singletons\<close> are the processes kept over
  scenarios for their snapshots, \<open>qm_owned\<close> those the shell helper ends when a scenario ends.
\<close>

record 'w qemu =
  qm_process :: "nat option"
  qm_booted_from_snapshot :: bool
  qm_singletons :: "(int, nat) dict"
  qm_owned :: "nat list"
  qm_alive :: "nat list"
  qm_next :: nat
  qm_world :: 'w

record 'w qemu_env =
  qe_size :: "string \<Rightarrow> nat res"
  qe_snapshot_boot :: bool
  qe_scenario_changed :: bool
  qe_loadvm :: "('w, unit) eff"
  qe_build :: "string \<Rightarrow> ('w, string) eff"
  qe_popen :: "string \<Rightarrow> ('w, unit) eff"
  qe_monitor_newline :: "('w, unit) eff"
  qe_signal_boot_completed :: "string option res"
  qe_shell_prompt :: "string option res"
  qe_selectors :: "bool res"
  qe_wait_booted :: "bool \<Rightarrow> string option \<Rightarrow> ('w, unit) eff"
  qe_vm_boot_event :: "('w, unit) eff"
  qe_shell_newline :: "('w, unit) eff"
  qe_shell_ready_event :: "('w, unit) eff"

definition on_world :: "('w, 'a) eff \<Rightarrow> ('w qemu, 'a) eff" where
  "on_world m s = (let (r, w) = m (qm_world s) in (r, s\<lparr>qm_world := w\<rparr>))"

text \<open>Step 2: a snapshot is loaded if its process exists and the scenario is the same. True if that failed.\<close>

definition load_snapshot :: "'w qemu_env \<Rightarrow> ('w qemu, bool) eff" where
  "load_snapshot env s = (if qm_process s = None then (Inr False, s)
     else if qe_scenario_changed env then (Inr True, s)
     else (case on_world (qe_loadvm env) s of
         (Inr _, s) \<Rightarrow> (Inr False, s\<lparr>qm_booted_from_snapshot := True\<rparr>)
       | (Inl e, s) \<Rightarrow> (if e = QemuMonitorSnapshotLoadError then (Inr True, s) else (Inl e, s))))"

definition kill_qemu_snapshot_process :: "('w qemu, unit) eff" where
  "kill_qemu_snapshot_process = emodify (\<lambda>s. case qm_process s of
     Some p \<Rightarrow> s\<lparr>qm_alive := removeAll p (qm_alive s), qm_process := None\<rparr> | None \<Rightarrow> s)"

definition run_shell_async :: "'w qemu_env \<Rightarrow> string \<Rightarrow> bool \<Rightarrow> ('w qemu, unit) eff" where
  "run_shell_async env cmd take_process_ownership =
     eseq (on_world (qe_popen env cmd)) (emodify (\<lambda>s. s\<lparr>qm_process := Some (qm_next s), qm_alive := qm_next s # qm_alive s,
       qm_owned := (if take_process_ownership then qm_owned s @ [qm_next s] else qm_owned s), qm_next := qm_next s + 1\<rparr>))"

text \<open>
  Steps 3 to 6. With both regular expressions the boot is over when that of the boot is seen; otherwise
  newlines are sent until the prompt is seen.
\<close>

definition boot_vm :: "'w qemu_env \<Rightarrow> string \<Rightarrow> ('w qemu, unit) eff" where
  "boot_vm env img =
     ebind (on_world (qe_build env img)) (\<lambda>cmd.
     eseq (run_shell_async env cmd (\<not> qe_snapshot_boot env))
     (eseq (on_world (qe_monitor_newline env))
     (ebind (elift (qe_signal_boot_completed env)) (\<lambda>booted.
      ebind (elift (qe_shell_prompt env)) (\<lambda>prompt.
      ebind (elift (qe_selectors env)) (\<lambda>selectors.
      if \<not> selectors then eraise ValueError
      else on_world (if booted \<noteq> None \<and> prompt \<noteq> None then qe_wait_booted env False booted
                     else qe_wait_booted env True prompt)))))))"

definition qemu_start :: "'w qemu_env \<Rightarrow> int \<Rightarrow> string \<Rightarrow> ('w qemu, unit) eff" where
  "qemu_start env node_id img =
     ebind (elift (qe_size env img)) (\<lambda>size_image.
     if size_image = 0 then eraise InvalidImage
     else eseq (emodify (\<lambda>s. s\<lparr>qm_process := (if qe_snapshot_boot env then dget (qm_singletons s) node_id else None)\<rparr>))
     (ebind (load_snapshot env) (\<lambda>failed.
      eseq (ewhen failed kill_qemu_snapshot_process)
      (ebind (eget qm_process) (\<lambda>process.
       eseq (ewhen (process = None \<or> failed) (boot_vm env img))
       (eseq (on_world (qe_vm_boot_event env))
       (ebind (eget qm_booted_from_snapshot) (\<lambda>from_snapshot.
        eseq (ewhen (\<not> from_snapshot) (on_world (qe_shell_newline env)))
        (eseq (on_world (qe_shell_ready_event env))
        (ewhen (qe_snapshot_boot env) (emodify (\<lambda>s. case qm_process s of
           Some p \<Rightarrow> s\<lparr>qm_singletons := dset (qm_singletons s) node_id p\<rparr> | None \<Rightarrow> s))))))))))))"

definition qemu_make_snapshot :: "('w, unit) eff \<Rightarrow> ('w qemu, unit) eff" where
  "qemu_make_snapshot savevm = ebind (eget qm_booted_from_snapshot) (\<lambda>from_snapshot. ewhen (\<not> from_snapshot) (on_world savevm))"

section \<open>Lemmas\<close>

text \<open>The positions of the images in the command: every disk but the last is mounted more than once.\<close>

fun mounted :: "nat \<Rightarrow> nat list" where
  "mounted 0 = []"
| "mounted (Suc n) = mounted n @ mounted n @ [n]"

lemma length_mounted: "length (mounted n) = 2 ^ n - 1"
proof (induction n)
  case (Suc n)
  have "(1 :: nat) \<le> 2 ^ n" by simp
  then show ?case using Suc by simp
qed simp

lemma overlay_created:
  assumes "\<And>cmd w. fst (ce_shell env cmd w) = Inr ()"
  shows "\<exists>w'. create_qemu_overlay_image env base w = (Inr (overlay_path env base), w')"
proof -
  let ?cmd = "nl @ ''qemu-img create'' @ nl @ ''    -b '' @ quote @ base @ quote @ nl @ ''    -f qcow2'' @ nl
        @ ''    '' @ quote @ overlay_path env base @ quote @ nl"
  obtain w' where "ce_shell env ?cmd w = (Inr (), w')" using assms by (metis prod.collapse)
  then show ?thesis unfolding create_qemu_overlay_image_def ebind_def ereturn_def by simp
qed

lemma overlay_loop_mounted:
  assumes "\<And>cmd w. fst (ce_shell env cmd w) = Inr ()"
  defines "disk \<equiv> \<lambda>imgs j. '' '' @ mount_disk (overlay_path env (ce_abspath env (imgs ! j))) (j + 1)"
  shows "fst (overlay_loop env (Suc (length done_imgs)) (concat (map (disk (done_imgs @ imgs)) (mounted (length done_imgs)))) imgs w)
    = Inr (concat (map (disk (done_imgs @ imgs)) (mounted (length done_imgs + length imgs))))"
proof (induction imgs arbitrary: done_imgs w)
  case Nil
  then show ?case by (simp add: ereturn_def)
next
  case (Cons img imgs)
  obtain w' where "create_qemu_overlay_image env (ce_abspath env img) w = (Inr (overlay_path env (ce_abspath env img)), w')"
    using overlay_created [OF assms(1)] by blast
  then show ?case using Cons.IH [of "done_imgs @ [img]" w']
    by (simp add: ebind_def disk_def nth_append)
qed

lemma overlay_disks_repeated:
  assumes "\<And>cmd w. fst (ce_shell env cmd w) = Inr ()"
  shows "\<exists>disks. fst (build_qemu_overlay_images_command env images w) = Inr (concat (map (\<lambda>j. '' '' @
       mount_disk (overlay_path env (ce_abspath env (images ! j))) (j + 1)) disks)) \<and> length disks = 2 ^ length images - 1"
  using overlay_loop_mounted [OF assms, of "[]" images w] length_mounted [of "length images"]
  by (auto simp: build_qemu_overlay_images_command_def)

lemma on_world_frame: "on_world m s = (r, s') \<Longrightarrow> \<exists>w. s' = s\<lparr>qm_world := w\<rparr>"
  by (auto simp: on_world_def case_prod_beta Let_def)

lemma ewhen_world_frame: "ewhen b (on_world m) s = (r, s') \<Longrightarrow> \<exists>w. s' = s\<lparr>qm_world := w\<rparr>"
  by (cases b) (auto simp: ewhen_def ereturn_def dest: on_world_frame intro: exI [of _ "qm_world s"])

definition spawned :: "bool \<Rightarrow> 'w qemu \<Rightarrow> 'w qemu" where
  "spawned own s = s\<lparr>qm_process := Some (qm_next s), qm_alive := qm_next s # qm_alive s,
     qm_owned := (if own then qm_owned s @ [qm_next s] else qm_owned s), qm_next := qm_next s + 1\<rparr>"

lemma spawned_world: "spawned own (s\<lparr>qm_world := w\<rparr>) = (spawned own s)\<lparr>qm_world := w\<rparr>"
  by (simp add: spawned_def)

lemma boot_vm_spawns:
  assumes "boot_vm env img s = (Inr (), s')"
  shows "\<exists>w. s' = (spawned (\<not> qe_snapshot_boot env) s)\<lparr>qm_world := w\<rparr>"
proof -
  obtain cmd s1 s2 s3 s4 m where steps: "on_world (qe_build env img) s = (Inr cmd, s1)"
    "on_world (qe_popen env cmd) s1 = (Inr (), s2)"
    "s3 = spawned (\<not> qe_snapshot_boot env) s2" "on_world (qe_monitor_newline env) s3 = (Inr (), s4)" "on_world m s4 = (Inr (), s')"
    using assms unfolding boot_vm_def run_shell_async_def ebind_assoc ebind_Inr emodify_def elift_def spawned_def
    by (force simp: eraise_def split: if_splits)
  obtain w1 w2 where "s2 = s\<lparr>qm_world := w2\<rparr>" using on_world_frame [OF steps(1)] on_world_frame [OF steps(2)] by auto
  then show ?thesis using on_world_frame [OF steps(4)] on_world_frame [OF steps(5)] steps(3) by (auto simp: spawned_world)
qed

lemma load_snapshot_cases:
  assumes "load_snapshot env s = (Inr failed, s')"
  obtains (none) "qm_process s = None" "\<not> failed" "s' = s"
  | (failed) w where "qm_process s \<noteq> None" failed "s' = s\<lparr>qm_world := w\<rparr>"
  | (loaded) w where "qm_process s \<noteq> None" "\<not> failed" "\<not> qe_scenario_changed env" "s' = s\<lparr>qm_world := w, qm_booted_from_snapshot := True\<rparr>"
proof (cases "qm_process s = None")
  case True
  then show thesis by (rule none) (use assms True in \<open>simp_all add: load_snapshot_def\<close>)
next
  case process: False
  show thesis
  proof (cases "qe_scenario_changed env")
    case True
    then show thesis using process assms by (intro failed [of "qm_world s"]) (auto simp: load_snapshot_def)
  next
    case False
    obtain r s1 where load: "on_world (qe_loadvm env) s = (r, s1)" by fastforce
    obtain w where w: "s1 = s\<lparr>qm_world := w\<rparr>" using on_world_frame [OF load] by blast
    show thesis
    proof (cases r)
      case (Inl e)
      then show thesis using assms load process False w
        by (intro failed [of w]) (auto simp: load_snapshot_def split: if_splits)
    next
      case (Inr u)
      then show thesis using assms load process False w by (intro loaded [of w]) (auto simp: load_snapshot_def)
    qed
  qed
qed

text \<open>What follows the choice between snapshot and boot.\<close>

definition finish_start :: "'w qemu_env \<Rightarrow> int \<Rightarrow> ('w qemu, unit) eff" where
  "finish_start env node_id =
     eseq (on_world (qe_vm_boot_event env))
     (ebind (eget qm_booted_from_snapshot) (\<lambda>from_snapshot.
      eseq (ewhen (\<not> from_snapshot) (on_world (qe_shell_newline env)))
      (eseq (on_world (qe_shell_ready_event env))
      (ewhen (qe_snapshot_boot env) (emodify (\<lambda>s. case qm_process s of
         Some p \<Rightarrow> s\<lparr>qm_singletons := dset (qm_singletons s) node_id p\<rparr> | None \<Rightarrow> s))))))"

lemma finish_start_frame:
  assumes "finish_start env node_id s = (Inr (), s')" "qm_process s = Some p"
  shows "qm_process s' = Some p \<and> qm_booted_from_snapshot s' = qm_booted_from_snapshot s \<and> qm_alive s' = qm_alive s \<and> qm_owned s' = qm_owned s
    \<and> qm_singletons s' = (if qe_snapshot_boot env then dset (qm_singletons s) node_id p else qm_singletons s)"
proof -
  obtain s1 s2 s3 where steps: "on_world (qe_vm_boot_event env) s = (Inr (), s1)"
    "ewhen (\<not> qm_booted_from_snapshot s1) (on_world (qe_shell_newline env)) s1 = (Inr (), s2)"
    "on_world (qe_shell_ready_event env) s2 = (Inr (), s3)"
    "ewhen (qe_snapshot_boot env) (emodify (\<lambda>s. case qm_process s of
         Some p \<Rightarrow> s\<lparr>qm_singletons := dset (qm_singletons s) node_id p\<rparr> | None \<Rightarrow> s)) s3 = (Inr (), s')"
    using assms(1) unfolding finish_start_def by (auto simp: ebind_Inr eget_def)
  obtain w where "s3 = s\<lparr>qm_world := w\<rparr>"
    using on_world_frame [OF steps(1)] ewhen_world_frame [OF steps(2)] on_world_frame [OF steps(3)] by auto
  then show ?thesis using steps(4) assms(2) by (auto simp: ewhen_def emodify_def ereturn_def)
qed

section \<open>Properties\<close>

text \<open>C31: starting a machine neither leaks nor doubles its process. If a start succeeds, the machine has
  one running process. With snapshots enabled it is the process kept from an earlier scenario exactly
  if the machine came from its snapshot, which happens only if the scenario did not change; no process
  was started or ended then. Otherwise a new process was booted, and the kept one, if any, was ended.
  Either way the process is kept for the next scenario if snapshots are enabled, and else belongs to
  the shell helper, which ends it with the scenario.
\<close>

theorem vm_process_accounting:
  assumes run: "qemu_start env node_id img s = (Inr (), s')"
    and fresh: "\<forall>p \<in> set (qm_alive s). p < qm_next s" and "\<not> qm_booted_from_snapshot s"
  defines "kept \<equiv> if qe_snapshot_boot env then dget (qm_singletons s) node_id else None"
  shows "\<exists>p. qm_process s' = Some p
    \<and> (if qm_booted_from_snapshot s' then kept = Some p \<and> \<not> qe_scenario_changed env \<and> qm_alive s' = qm_alive s
       else p \<notin> set (qm_alive s) \<and> qm_alive s' = p # filter (\<lambda>q. kept \<noteq> Some q) (qm_alive s))
    \<and> (if qe_snapshot_boot env then dget (qm_singletons s') node_id = Some p else p \<in> set (qm_owned s'))"
proof -
  let ?s = "s\<lparr>qm_process := kept\<rparr>"
  obtain failed s1 s2 s3 where load: "load_snapshot env ?s = (Inr failed, s1)"
    and kill: "ewhen failed kill_qemu_snapshot_process s1 = (Inr (), s2)"
    and boot: "ewhen (qm_process s2 = None \<or> failed) (boot_vm env img) s2 = (Inr (), s3)"
    and finish: "finish_start env node_id s3 = (Inr (), s')"
    using run unfolding qemu_start_def finish_start_def [symmetric] kept_def
    by (auto simp: ebind_Inr elift_def emodify_def eget_def eraise_def split: if_splits)
  have same: "removeAll q xs = filter (\<lambda>r. Some q \<noteq> Some r) xs" for q :: nat and xs by (induction xs) auto
  show ?thesis using load
  proof (cases rule: load_snapshot_cases)
    case none
    then have "kept = None" "s2 = ?s" using kill by (simp_all add: ewhen_def ereturn_def)
    then obtain w where "s3 = (spawned (\<not> qe_snapshot_boot env) ?s)\<lparr>qm_world := w\<rparr>"
      using boot boot_vm_spawns by (fastforce simp: ewhen_def)
    then show ?thesis using finish_start_frame [OF finish, of "qm_next s"] assms(3) fresh \<open>kept = None\<close>
      by (auto simp: spawned_def kget_kset)
  next
    case (failed w)
    then obtain q where q: "kept = Some q" by auto
    have "s2 = s\<lparr>qm_world := w, qm_alive := removeAll q (qm_alive s), qm_process := None\<rparr>"
      using kill failed q by (simp add: ewhen_def kill_qemu_snapshot_process_def emodify_def)
    then obtain w' where "s3 = (spawned (\<not> qe_snapshot_boot env) s2)\<lparr>qm_world := w'\<rparr>"
      "s2 = s\<lparr>qm_world := w, qm_alive := removeAll q (qm_alive s), qm_process := None\<rparr>"
      using boot boot_vm_spawns by (fastforce simp: ewhen_def)
    then show ?thesis using finish_start_frame [OF finish, of "qm_next s"] assms(3) fresh q
      by (auto simp: spawned_def same kget_kset)
  next
    case (loaded w)
    then obtain q where q: "kept = Some q" by auto
    then have "s3 = s\<lparr>qm_process := Some q, qm_world := w, qm_booted_from_snapshot := True\<rparr>"
      using kill boot loaded by (auto simp: ewhen_def ereturn_def)
    then show ?thesis using finish_start_frame [OF finish, of q] loaded(3) q
      by (auto simp: kept_def kget_kset split: if_splits)
  qed
qed

definition ex_vm_env :: "unit res \<Rightarrow> unit qemu_env" where
  "ex_vm_env boot = \<lparr>qe_size = (\<lambda>_. Inr 1), qe_snapshot_boot = True, qe_scenario_changed = True, qe_loadvm = ereturn (),
     qe_build = (\<lambda>_. ereturn ''qemu''), qe_popen = (\<lambda>_. ereturn ()), qe_monitor_newline = ereturn (),
     qe_signal_boot_completed = Inr None, qe_shell_prompt = Inr (Some ''#''), qe_selectors = Inr True,
     qe_wait_booted = (\<lambda>_ _. elift boot), qe_vm_boot_event = ereturn (), qe_shell_newline = ereturn (), qe_shell_ready_event = ereturn ()\<rparr>"

definition ex_vm :: "unit qemu" where
  "ex_vm = \<lparr>qm_process = None, qm_booted_from_snapshot = False, qm_singletons = [(1, 0)], qm_owned = [], qm_alive = [0], qm_next = 1, qm_world = ()\<rparr>"

theorem vm_process_accounting_witness:
  "qm_alive (snd (qemu_start (ex_vm_env (Inr ())) 1 ''vm.img'' ex_vm)) = [1]
    \<and> dget (qm_singletons (snd (qemu_start (ex_vm_env (Inr ())) 1 ''vm.img'' ex_vm))) 1 = Some 1"
proof -
  have run: "qemu_start (ex_vm_env (Inr ())) 1 ''vm.img'' ex_vm = (Inr (), snd (qemu_start (ex_vm_env (Inr ())) 1 ''vm.img'' ex_vm))"
    "qm_process (snd (qemu_start (ex_vm_env (Inr ())) 1 ''vm.img'' ex_vm)) = Some 1"
    "\<not> qm_booted_from_snapshot (snd (qemu_start (ex_vm_env (Inr ())) 1 ''vm.img'' ex_vm))"
    by code_simp+
  show ?thesis using vm_process_accounting [OF run(1)] run(2,3) by (simp add: ex_vm_def ex_vm_env_def)
qed

text \<open>
  A boot that fails in the snapshot mode leaves a running process that nobody knows: it is neither kept
  nor owned, and the process that is kept was ended.
\<close>

lemma failed_boot_leaks:
  "let (r, s) = qemu_start (ex_vm_env (Inl QemuBootWaitTimeout)) 1 ''vm.img'' ex_vm in
     r = Inl QemuBootWaitTimeout \<and> qm_alive s = [1] \<and> qm_owned s = [] \<and> qm_singletons s = [(1, 0)]"
  by code_simp

end
