(* ===== verification/Json_Encoder.thy ===== *)
theory Json_Encoder
  imports Nodes Json_Config
begin

text \<open>
  The JSON encoder and decoder of connections, distance matrices and link qualities
  (\<open>model/network/connections/JSONEncoder.py\<close>), which the RPC server answers its queries with.
\<close>

section \<open>Values\<close>

text \<open>
  The values the encoder distinguishes, in its order. \<open>VNum\<close> is a number that is no \<open>int\<close>, given by
  its text; \<open>VOther\<close> is any other object, given by its text.
\<close>

datatype pyv =
    VDict "(pyv \<times> pyv) list"
  | VNode emulation_node
  | VInterface interface
  | VDetails pyv
  | VStr string
  | VInt int
  | VNum string
  | VIter "pyv list"
  | VNone
  | VOther string

text \<open>What the encoder returns: a string, a dictionary with string keys, a tuple, or the object as it was.\<close>

datatype enc =
    EStr string
  | EDict "(string \<times> enc) list"
  | ETuple "enc list"
  | ERaw pyv

section \<open>Text of a key\<close>

text \<open>\<open>repr\<close> of a string of characters below 256, and \<open>str\<close> of an encoded key.\<close>

definition hex_escape :: "nat \<Rightarrow> string" where
  "hex_escape n = [CHR 0x5C, CHR ''x''] @ zpad 2 (nat_hex n)"

definition repr_char :: "char \<Rightarrow> char \<Rightarrow> string" where
  "repr_char q c = (let n = of_char c :: nat in
     if c = q \<or> c = CHR 0x5C then [CHR 0x5C, c]
     else if c = CHR 0x0A then [CHR 0x5C, CHR ''n'']
     else if c = CHR 0x0D then [CHR 0x5C, CHR ''r'']
     else if c = CHR 0x09 then [CHR 0x5C, CHR ''t'']
     else if n < 32 \<or> (127 \<le> n \<and> n \<le> 160) \<or> n = 173 then hex_escape n
     else [c])"

definition py_repr :: "string \<Rightarrow> string" where
  "py_repr s = (let q = (if CHR 0x27 \<in> set s \<and> CHR 0x22 \<notin> set s then CHR 0x22 else CHR 0x27) in
     [q] @ concat (map (repr_char q) s) @ [q])"

fun raw_text :: "pyv \<Rightarrow> string" where
  "raw_text VNone = ''None''"
| "raw_text (VStr s) = s"
| "raw_text (VInt i) = int_dec i"
| "raw_text (VNum s) = s"
| "raw_text (VOther s) = s"
| "raw_text _ = ''''"

fun enc_repr :: "enc \<Rightarrow> string" where
  "enc_repr (EStr s) = py_repr s"
| "enc_repr (ETuple [x]) = ''('' @ enc_repr x @ '',)''"
| "enc_repr (ETuple xs) = ''('' @ pyjoin '', '' (map enc_repr xs) @ '')''"
| "enc_repr (EDict _) = ''''"
| "enc_repr (ERaw v) = raw_text v"

definition enc_str :: "enc \<Rightarrow> string" where
  "enc_str e = (case e of EStr s \<Rightarrow> s | _ \<Rightarrow> enc_repr e)"

section \<open>Encoding\<close>

text \<open>
  \<open>my_encode\<close>. A dictionary cannot be a key, so the text of one is never needed. Two keys with the
  same text become one.
\<close>

lemma size_items: "kv \<in> set items \<Longrightarrow> size (fst kv) < Suc (size_list (size_prod size size) items)
    \<and> size (snd kv) < Suc (size_list (size_prod size size) items)"
  by (induction items) (auto simp: less_Suc_eq_le)

function my_encode :: "pyv \<Rightarrow> enc" where
  "my_encode (VDict items) = EDict (dict_of (map (\<lambda>kv. (enc_str (my_encode (fst kv)), my_encode (snd kv))) items))"
| "my_encode (VNode n) = EStr (node_name n)"
| "my_encode (VInterface i) = EStr (node_class_name (if_type i))"
| "my_encode (VDetails link_quality) = ERaw link_quality"
| "my_encode (VStr s) = EStr s"
| "my_encode (VInt i) = EStr (int_dec i)"
| "my_encode (VNum s) = EStr s"
| "my_encode (VIter xs) = ETuple (map my_encode xs)"
| "my_encode VNone = ERaw VNone"
| "my_encode (VOther s) = ERaw (VOther s)"
  by pat_completeness auto
termination
  by (relation "measure size") (auto simp: less_Suc_eq_le size_list_estimation' dest: size_items)

text \<open>\<open>JSONStrMixin.to_json\<close>: the items in their order.\<close>

definition to_json :: "(pyv \<times> pyv \<Rightarrow> pyv \<times> pyv \<Rightarrow> bool) \<Rightarrow> (pyv \<times> pyv) list \<Rightarrow> enc" where
  "to_json lt items = my_encode (VDict (pysorted lt items))"

text \<open>
  What \<open>json.dumps\<close> accepts. An object it does not know is given to \<open>default\<close>, which encodes it, and
  an object \<open>default\<close> returns unchanged is refused.
\<close>

fun json_key :: "pyv \<Rightarrow> bool" where
  "json_key (VStr _) = True" | "json_key (VInt _) = True" | "json_key (VNum _) = True" | "json_key VNone = True" | "json_key _ = False"

inductive json_raw :: "pyv \<Rightarrow> bool" and json_ok :: "enc \<Rightarrow> bool" where
  "json_raw (VStr s)" | "json_raw (VInt i)" | "json_raw (VNum s)" | "json_raw VNone" | "json_raw (VNode n)" | "json_raw (VInterface i)"
| "(\<And>k v. (k, v) \<in> set items \<Longrightarrow> json_key k \<and> json_raw v) \<Longrightarrow> json_raw (VDict items)"
| "(\<And>x. x \<in> set xs \<Longrightarrow> json_raw x) \<Longrightarrow> json_raw (VIter xs)"
| "json_raw v \<Longrightarrow> json_raw (VDetails v)"
| "json_ok (EStr s)"
| "(\<And>k e. (k, e) \<in> set items \<Longrightarrow> json_ok e) \<Longrightarrow> json_ok (EDict items)"
| "(\<And>e. e \<in> set es \<Longrightarrow> json_ok e) \<Longrightarrow> json_ok (ETuple es)"
| "json_raw v \<Longrightarrow> json_ok (ERaw v)"

text \<open>Values the program encodes: no foreign objects, and link qualities that are JSON data.\<close>

inductive encodable :: "pyv \<Rightarrow> bool" where
  "encodable (VNode n)" | "encodable (VInterface i)" | "encodable (VStr s)" | "encodable (VInt i)" | "encodable (VNum s)" | "encodable VNone"
| "json_raw link_quality \<Longrightarrow> encodable (VDetails link_quality)"
| "(\<And>k v. (k, v) \<in> set items \<Longrightarrow> encodable k \<and> encodable v) \<Longrightarrow> encodable (VDict items)"
| "(\<And>x. x \<in> set xs \<Longrightarrow> encodable x) \<Longrightarrow> encodable (VIter xs)"

section \<open>Decoding\<close>

text \<open>
  \<open>my_decode\<close>: an item becomes the list of its decoded parts, and the dictionary is built again from
  those. Lists are not looked into, and the regular expression for pairs is never used.
\<close>

lemma size_json_items: "kv \<in> set items \<Longrightarrow> size (snd kv) < Suc (size_list (size_prod (\<lambda>_. 0) size) items)"
  by (induction items) (auto simp: less_Suc_eq_le)

function my_decode :: "json \<Rightarrow> json" where
  "my_decode (JObj items) = JObj (dict_of (map (\<lambda>kv. (fst kv, my_decode (snd kv))) items))"
| "my_decode JNull = JNull"
| "my_decode (JBool b) = JBool b"
| "my_decode (JInt i) = JInt i"
| "my_decode (JFloat q) = JFloat q"
| "my_decode (JStr s) = JStr s"
| "my_decode (JList xs) = JList xs"
  by pat_completeness auto
termination by (relation "measure size") (auto dest: size_json_items)

section \<open>Properties\<close>

lemma set_fold_dset: "set (fold (\<lambda>(k, v) d. dset d k v) xs d) \<subseteq> set xs \<union> set d"
proof (induction xs arbitrary: d)
  case (Cons x xs)
  obtain k v where x: "x = (k, v)" by fastforce
  have "set (dset d k v) \<subseteq> insert (k, v) (set d)" using set_kset [of "\<lambda>k. k" d k v] by auto
  then show ?case using Cons.IH [of "dset d k v"] x by auto
qed simp

lemma set_dict_of: "set (dict_of xs) \<subseteq> set xs"
  using set_fold_dset [of xs "[]"] by (simp add: dict_of_def)

text \<open>Decoding gives back every parsed document: strings that look like pairs stay strings.\<close>

inductive parsed :: "json \<Rightarrow> bool" where
  "parsed JNull" | "parsed (JBool b)" | "parsed (JInt i)" | "parsed (JFloat q)" | "parsed (JStr s)" | "parsed (JList xs)"
| "distinct (map fst items) \<Longrightarrow> (\<And>kv. kv \<in> set items \<Longrightarrow> parsed (snd kv)) \<Longrightarrow> parsed (JObj items)"

lemma my_decode_id: "parsed v \<Longrightarrow> my_decode v = v"
proof (induction rule: parsed.induct)
  case (7 items)
  then have "map (\<lambda>kv. (fst kv, my_decode (snd kv))) items = items" by (intro map_idI) simp
  then show ?case using 7 by (simp add: dict_of_distinct kwf_def o_def)
qed simp_all


definition ex_distances :: pyv where
  "ex_distances = VDict [(VIter [VInt 1, VInt 2], VInt 30), (VStr ''x'', VNone)]"


end
