(* ===== verification/Store_Refinement.thy ===== *)
theory Store_Refinement
  imports Connection_Store
begin

text \<open>
  What the connection store promises its clients, as a data refinement: seen through its operations, as
  the network manager calls them, the two nested dictionaries and the shared details are one table of
  the links that are up.
\<close>

section \<open>Simulation\<close>

primrec answers :: "('call \<Rightarrow> 's \<Rightarrow> 'answer \<times> 's) \<Rightarrow> 'call list \<Rightarrow> 's \<Rightarrow> 'answer list" where
  "answers step [] s = []"
| "answers step (c # cs) s = fst (step c s) # answers step cs (snd (step c s))"

text \<open>
  An implementation simulates a specification if every step from a good state gives the same answer and
  leads to the image of the specification's next state.
\<close>

locale simulation =
  fixes step :: "'call \<Rightarrow> 's \<Rightarrow> 'answer \<times> 's"
    and spec_step :: "'call \<Rightarrow> 't \<Rightarrow> 'answer \<times> 't"
    and good :: "'s \<Rightarrow> bool"
    and abst :: "'s \<Rightarrow> 't"
  assumes good_step: "good s \<Longrightarrow> good (snd (step c s))"
    and same_answer: "good s \<Longrightarrow> fst (step c s) = fst (spec_step c (abst s))"
    and abst_step: "good s \<Longrightarrow> abst (snd (step c s)) = snd (spec_step c (abst s))"
begin

lemma same_answers: "good s \<Longrightarrow> answers step cs s = answers spec_step cs (abst s)"
  by (induction cs arbitrary: s) (simp_all add: same_answer abst_step good_step)

end

section \<open>Calls and specification\<close>

datatype 'c store_call =
    AddConnection emulation_node emulation_node interface interface 'c "link_quality option"
  | ChangeState emulation_node emulation_node interface interface bool
  | UpdateQuality emulation_node emulation_node interface interface "link_quality option"
  | GetQuality emulation_node emulation_node interface interface

datatype 'c store_answer =
    Added
  | Changed "bool res"
  | Updated "conn_key res"
  | Quality "'c connection_details res"

definition store_step :: "'c store_call \<Rightarrow> 'c connection_store \<Rightarrow> 'c store_answer \<times> 'c connection_store" where
  "store_step call st = (case call of
      AddConnection nx ny ix iy c lq \<Rightarrow> (Added, add_connection st nx ny ix iy c True lq)
    | ChangeState nx ny ix iy now \<Rightarrow> map_prod Changed id (change_connection_state st nx ny ix iy now)
    | UpdateQuality nx ny ix iy lq \<Rightarrow> map_prod Updated id (update_link_quality st nx ny ix iy lq)
    | GetQuality nx ny ix iy \<Rightarrow> (Quality (get_link_quality st nx ny ix iy), st))"

text \<open>The links that are up, by the pair of nodes and the pair of interfaces.\<close>

type_synonym 'c link_table = "emulation_node \<times> emulation_node \<Rightarrow> interface \<times> interface \<Rightarrow> 'c connection_details option"

definition put_link :: "emulation_node \<times> emulation_node \<Rightarrow> interface \<times> interface \<Rightarrow> 'c connection_details option \<Rightarrow> 'c link_table \<Rightarrow> 'c link_table" where
  "put_link nk ik d t = (\<lambda>nk' ik'. if same_nodes nk nk' \<and> ik' = ik then d else t nk' ik')"

definition table_step :: "'c store_call \<Rightarrow> 'c link_table \<Rightarrow> 'c store_answer \<times> 'c link_table" where
  "table_step call t = (case call of
      AddConnection nx ny ix iy c lq \<Rightarrow> (Added, put_link (nx, ny) (ix, iy) (Some \<lparr>cd_connection = c, cd_link_quality = lq\<rparr>) t)
    | ChangeState nx ny ix iy now \<Rightarrow>
        (if t (nx, ny) (ix, iy) = None then (Changed (Inl AttributeError), t)
         else if now then (Changed (Inr False), t)
         else (Changed (Inr True), put_link (nx, ny) (ix, iy) None t))
    | UpdateQuality nx ny ix iy lq \<Rightarrow> (case t (nx, ny) (ix, iy) of
          None \<Rightarrow> (Updated (Inl UnknownConnection), t)
        | Some d \<Rightarrow> (Updated (Inr KEY_CONN_ACTIVE), put_link (nx, ny) (ix, iy) (Some (d\<lparr>cd_link_quality := lq\<rparr>)) t))
    | GetQuality nx ny ix iy \<Rightarrow> (Quality (case t (nx, ny) (ix, iy) of None \<Rightarrow> Inl TypeError | Some d \<Rightarrow> Inr d), t))"

definition links_up :: "'c connection_store \<Rightarrow> 'c link_table" where
  "links_up st nk ik = map_option (\<lambda>r. cs_heap st ! r) (ref_at st True nk ik)"

section \<open>The store simulates the table\<close>

lemma heap_change: "cs_wf st \<Longrightarrow> cs_heap (snd (change_connection_state st nx ny ix iy now)) = cs_heap st"
  by (rule change_cases [of st nx ny ix iy now]) auto

lemma links_up_cong: "same_nodes nk nk' \<Longrightarrow> links_up st nk ik = links_up st nk' ik"
  by (simp add: links_up_def ref_at_cong)

lemma put_no_link: "links_up st nk ik = None \<Longrightarrow> put_link nk ik None (links_up st) = links_up st"
  using links_up_cong [of nk _ st ik] by (auto simp: fun_eq_iff put_link_def)

lemma links_up_add:
  assumes "cs_reachable st"
  shows "links_up (add_connection st nx ny ix iy c True lq) = put_link (nx, ny) (ix, iy) (Some \<lparr>cd_connection = c, cd_link_quality = lq\<rparr>) (links_up st)"
  using reachable_wf [OF assms]
  by (auto simp: fun_eq_iff links_up_def put_link_def ref_at_add heap_add nth_append dest: ref_at_bound split: option.splits
      intro!: option.map_cong0)

lemma links_up_change:
  assumes "cs_reachable st"
  shows "links_up (snd (change_connection_state st nx ny ix iy now)) = (if now then links_up st else put_link (nx, ny) (ix, iy) None (links_up st))"
  using reachable_wf [OF assms] by (auto simp: fun_eq_iff links_up_def put_link_def ref_at_change [OF assms] heap_change)

lemma change_answer:
  assumes "cs_reachable st"
  shows "fst (change_connection_state st nx ny ix iy now) = (if links_up st (nx, ny) (ix, iy) = None then Inl AttributeError else Inr (\<not> now))"
  using reachable_wf [OF assms]
proof (cases rule: change_cases [of st nx ny ix iy now])
  case unknown
  then show ?thesis by (simp add: links_up_def)
next
  case (known a r d nic)
  then have "a" using ref_at_False_reachable [OF assms, of "(nx, ny)" "(ix, iy)"] by (cases a) auto
  with known show ?thesis by (auto simp: links_up_def)
qed

lemma links_up_update:
  assumes "cs_reachable st"
  shows "links_up (snd (update_link_quality st nx ny ix iy lq)) = (case links_up st (nx, ny) (ix, iy) of
      None \<Rightarrow> links_up st | Some d \<Rightarrow> put_link (nx, ny) (ix, iy) (Some (d\<lparr>cd_link_quality := lq\<rparr>)) (links_up st))"
proof (cases "ref_at st True (nx, ny) (ix, iy)")
  case None
  then show ?thesis using ref_at_False_reachable [OF assms] by (simp add: update_link_quality_ref links_up_def)
next
  case (Some r)
  have bound: "r < length (cs_heap st)" using ref_at_bound [OF reachable_wf [OF assms] Some] .
  have at: "ref_at st True nk ik = Some r \<longleftrightarrow> same_nodes (nx, ny) nk \<and> ik = (ix, iy)" for nk ik
    using reachable_refs_inj [OF assms Some, of nk ik] ref_at_cong [of "(nx, ny)" nk st True] Some by auto
  have "map_option (\<lambda>q. (cs_heap st)[r := (cs_heap st ! r)\<lparr>cd_link_quality := lq\<rparr>] ! q) (ref_at st True nk ik)
      = put_link (nx, ny) (ix, iy) (Some ((cs_heap st ! r)\<lparr>cd_link_quality := lq\<rparr>)) (links_up st) nk ik" for nk ik
  proof (cases "same_nodes (nx, ny) nk \<and> ik = (ix, iy)")
    case True
    then have "ref_at st True nk ik = Some r" using at by simp
    then show ?thesis using True bound by (simp add: put_link_def)
  next
    case False
    then have "ref_at st True nk ik \<noteq> Some r" using at by simp
    then show ?thesis using False by (cases "ref_at st True nk ik") (auto simp: put_link_def links_up_def)
  qed
  then show ?thesis using Some by (simp add: fun_eq_iff update_link_quality_ref links_up_def [abs_def])
qed

interpretation store: simulation store_step table_step cs_reachable links_up
proof
  fix st :: "'a connection_store" and call
  assume st: "cs_reachable st"
  show "cs_reachable (snd (store_step call st))"
    using st by (cases call) (auto simp: store_step_def intro: cs_reachable.intros)
  show "fst (store_step call st) = fst (table_step call (links_up st))"
    using st change_answer [OF st] ref_at_False_reachable [OF st]
    by (cases call) (auto simp: store_step_def table_step_def links_up_def update_link_quality_ref get_link_quality_ref split: option.splits)
  show "links_up (snd (store_step call st)) = snd (table_step call (links_up st))"
    using st
    by (cases call) (auto simp: store_step_def table_step_def links_up_add links_up_change links_up_update put_no_link split: option.splits)
qed

section \<open>Properties\<close>

text \<open>C5: the connection store is a table of the links that are up. Whatever sequence of additions, state
  changes, updates and queries the network manager sends to a new store, every answer, exceptions
  included, is the one of a table that forgets a link when it goes down and in which a pair of nodes is
  found by the names of the two nodes in the order of their ids.
\<close>

theorem store_refines_table:
  "answers store_step calls (connection_store_init :: 'c connection_store) = answers table_step calls (\<lambda>_ _. None)"
proof -
  have "links_up (connection_store_init :: 'c connection_store) = (\<lambda>_ _. None)"
    by (simp add: fun_eq_iff links_up_def ref_at_def connection_store_init_def explicit_defs)
  then show ?thesis using store.same_answers [OF reach_init, of calls] by simp
qed

end
