(* ===== verification/Pyroute2.thy ===== *)
theory Pyroute2
  imports Bridged_Links Dict_Util
begin

text \<open>
  The bridged backend that sets up the network over netlink (\<open>bridged/pyroute2\<close>), in the variant
  the boot strapper chooses (\<open>NetworkBackendBridgedPyroute2IPRoute\<close> with its bridges and
  connections). Bridges and connections only note during a step what is to be done; when the topology
  changes, missing bridges are created one by one, the indices of all interfaces are read, and one
  batch of requests is sent.

  The library, and the kernel behind it, is a parameter. A Python set has no order of its own:
  \<open>nl_order\<close> is the order in which one is enumerated.
\<close>

section \<open>State and environment\<close>

text \<open>\<open>link('set', index=..., ...)\<close> with an ageing time of 0, a master, or a state.\<close>

datatype link_set = SetAgeingTime int | SetMaster int int | SetState int bool

record 'h netlink =
  nl_link_add :: "string \<Rightarrow> ('h, unit) eff"
  nl_get_links :: "'h \<Rightarrow> (string \<times> int) list"
  nl_sendto :: "link_set list \<Rightarrow> ('h, unit) eff"
  nl_order :: "string list \<Rightarrow> string list"

record 'h ipr_backend =
  ip_host :: 'h
  ip_backend :: backend
  ip_step_cnt :: nat
  ipb :: "link_set list"
  ip_cache :: "(string, int) dict"
  created_bridges :: "string list"
  p_bridges :: "string list"
  p_links_up :: "string list"
  p_links_down :: "string list"
  p_links_add_bridge :: "(string, string list) dict"

type_synonym ('h, 'a) ipr = "('h ipr_backend, 'a) eff"

text \<open>\<open>__init__\<close>. The cache, \<open>None\<close> in the code, is built before it is read.\<close>

definition ipr_init :: "'h \<Rightarrow> backend \<Rightarrow> 'h ipr_backend" where
  "ipr_init h b = \<lparr>ip_host = h, ip_backend = b, ip_step_cnt = 0, ipb = [], ip_cache = [], created_bridges = [],
     p_bridges = [], p_links_up = [], p_links_down = [], p_links_add_bridge = []\<rparr>"

definition in_backend :: "'a bb \<Rightarrow> ('h, 'a) ipr" where
  "in_backend m s = (let (r, b) = m (ip_backend s) in (r, s\<lparr>ip_backend := b\<rparr>))"

definition in_host :: "('h, 'a) eff \<Rightarrow> ('h, 'a) ipr" where
  "in_host m s = (let (r, h) = m (ip_host s) in (r, s\<lparr>ip_host := h\<rparr>))"

section \<open>Bridges and connections\<close>

definition note_link_up :: "string \<Rightarrow> ('h, unit) ipr" where
  "note_link_up dev = emodify (\<lambda>s. s\<lparr>p_links_up := oset_add (p_links_up s) dev\<rparr>)"

definition note_link_down :: "string \<Rightarrow> ('h, unit) ipr" where
  "note_link_down dev = emodify (\<lambda>s. s\<lparr>p_links_down := oset_add (p_links_down s) dev\<rparr>)"

definition ipr_bridge_start :: "string \<Rightarrow> ('h, unit) ipr" where
  "ipr_bridge_start br = emodify (\<lambda>s. s\<lparr>p_bridges := oset_add (p_bridges s) br\<rparr>)"

definition ipr_add_if :: "string \<Rightarrow> string \<Rightarrow> bool \<Rightarrow> ('h, unit) ipr" where
  "ipr_add_if br dev if_up =
     eseq (emodify (\<lambda>s. s\<lparr>p_links_add_bridge := dset (p_links_add_bridge s) br (ddget_set (p_links_add_bridge s) br @ [dev])\<rparr>))
     (ebind (in_backend (state_getitem dev)) (\<lambda>cur.
      eseq (if if_up then ewhen (\<not> cur) (note_link_up dev) else ewhen cur (note_link_down dev))
      (in_backend (toggle_state dev if_up))))"

text \<open>\<open>_tap_link_up\<close> and, for one bridge per connection, \<open>tap_link_up\<close>\<close>

definition ipr_change_link :: "string \<Rightarrow> bool \<Rightarrow> ('h, unit) ipr" where
  "ipr_change_link tap_x up =
     ebind (in_backend (state_getitem tap_x)) (\<lambda>cur.
     eseq (if \<not> cur then ewhen up (note_link_up tap_x) else ewhen (\<not> up) (note_link_down tap_x))
     (in_backend (toggle_state tap_x up)))"

definition ipr_tap_link_up :: "string \<Rightarrow> bool \<Rightarrow> ('h, unit) ipr" where
  "ipr_tap_link_up tap_x up =
     ebind (if up then in_backend (state_getitem tap_x) else ereturn False) (\<lambda>state_correct.
     ewhen (\<not> state_correct) (ipr_change_link tap_x up))"

section \<open>Notifications\<close>

definition reset_step_state :: "('h, unit) ipr" where
  "reset_step_state = emodify (\<lambda>s. s\<lparr>p_bridges := [], p_links_up := [], p_links_down := [], p_links_add_bridge := []\<rparr>)"

definition ipr_before_step :: "bb_env \<Rightarrow> nat \<Rightarrow> ('h, unit) ipr" where
  "ipr_before_step env step_cnt =
     eseq (emodify (\<lambda>s. s\<lparr>ip_step_cnt := step_cnt\<rparr>)) (eseq (in_backend (bb_before_step env step_cnt)) reset_step_state)"

definition create_bridge :: "'h netlink \<Rightarrow> string \<Rightarrow> ('h, unit) ipr" where
  "create_bridge nl br = ebind (eget created_bridges) (\<lambda>created. ewhen (br \<notin> set created)
     (eseq (in_host (nl_link_add nl br)) (emodify (\<lambda>s. s\<lparr>created_bridges := oset_add (created_bridges s) br\<rparr>))))"

definition build_cache :: "'h netlink \<Rightarrow> ('h, unit) ipr" where
  "build_cache nl = emodify (\<lambda>s. s\<lparr>ip_cache := dict_of (nl_get_links nl (ip_host s))\<rparr>)"

definition get_iface_idx :: "string \<Rightarrow> ('h, int) ipr" where
  "get_iface_idx iface = ebind (eget (\<lambda>s. dget (ip_cache s) iface)) (\<lambda>i. case i of
      Some i \<Rightarrow> ereturn i | None \<Rightarrow> eraise KeyError)"

definition ipb_link :: "link_set \<Rightarrow> ('h, unit) ipr" where
  "ipb_link cmd = emodify (\<lambda>s. s\<lparr>ipb := ipb s @ [cmd]\<rparr>)"

definition set_ageing :: "string \<Rightarrow> ('h, unit) ipr" where
  "set_ageing br = ebind (get_iface_idx br) (\<lambda>i. ipb_link (SetAgeingTime i))"

definition set_master :: "string \<Rightarrow> string \<Rightarrow> ('h, unit) ipr" where
  "set_master br dev = ebind (get_iface_idx dev) (\<lambda>i. ebind (get_iface_idx br) (\<lambda>m. ipb_link (SetMaster i m)))"

definition set_state :: "bool \<Rightarrow> string \<Rightarrow> ('h, unit) ipr" where
  "set_state up dev = ebind (get_iface_idx dev) (\<lambda>i. ipb_link (SetState i up))"

definition do_batch :: "'h netlink \<Rightarrow> ('h, unit) ipr" where
  "do_batch nl = ebind (eget ipb) (\<lambda>cmds. eseq (in_host (nl_sendto nl cmds)) (emodify (\<lambda>s. s\<lparr>ipb := []\<rparr>)))"

text \<open>\<open>do_network_topology_change\<close> of the connection mode, for this execution mode.\<close>

definition ipr_mode_topology_change :: "bb_env \<Rightarrow> unit bb" where
  "ipr_mode_topology_change env = ewhen (be_single env)
     (eseq (ewhen (be_batch env) (add_shell_ebtables_command EVENT_EBTABLES_FINISH (ebtable_atomic_cmd env ''commit'')))
       (executor_run env (OrderStr ''ebtables'')))"

definition collect_batch :: "'h netlink \<Rightarrow> ('h, unit) ipr" where
  "collect_batch nl = ebind (eget id) (\<lambda>s.
     eseq (efor (nl_order nl (p_bridges s)) set_ageing)
     (eseq (efor (p_links_add_bridge s) (\<lambda>(br, links). efor (nl_order nl (oset_of links)) (set_master br)))
     (eseq (efor (nl_order nl (p_links_up s)) (set_state True))
     (eseq (efor (map fst (p_links_add_bridge s)) (set_state True))
     (efor (nl_order nl (p_links_down s)) (set_state False))))))"

definition ipr_topology_change :: "'h netlink \<Rightarrow> bb_env \<Rightarrow> ('h, unit) ipr" where
  "ipr_topology_change nl env =
     ebind (eget p_links_add_bridge) (\<lambda>links.
     eseq (efor (nl_order nl (oset_of (map fst links))) (create_bridge nl))
     (eseq (build_cache nl) (eseq (collect_batch nl) (eseq (do_batch nl) (in_backend (ipr_mode_topology_change env))))))"

text \<open>\<open>after_distance_matrix_changed\<close>\<close>

definition ipr_after_matrix :: "'h netlink \<Rightarrow> bb_env \<Rightarrow> ('h, unit) ipr" where
  "ipr_after_matrix nl env =
     eseq (in_backend (emodify (\<lambda>b. b\<lparr>shell_command_executor := snd (get_verbose_info (shell_command_executor b))\<rparr>)))
     (eseq (ipr_topology_change nl env) (eseq (in_backend (do_queueing_discipline env))
     (in_backend (emodify (\<lambda>b. b\<lparr>shell_command_executor := serializer_init\<rparr>)))))"

section \<open>What a step notes\<close>

text \<open>
  The changes of links of one step, for one bridge per connection: a new link is opened with its bridge
  (\<open>create_connection\<close>, which forgets the states of the taps, and then \<open>link_up\<close>), and the
  taps of a known link are switched.
\<close>

datatype link_op = OpenLink string string string | SwitchTap string bool

definition ipr_open_link :: "string \<Rightarrow> string \<Rightarrow> string \<Rightarrow> ('h, unit) ipr" where
  "ipr_open_link br tap_x tap_y =
     eseq (ipr_bridge_start br)
     (eseq (ipr_add_if br tap_x True) (eseq (ipr_add_if br tap_y True)
     (eseq (in_backend (add_device tap_x False)) (eseq (in_backend (add_device tap_y False))
     (eseq (ipr_tap_link_up tap_x True) (ipr_tap_link_up tap_y True))))))"

definition perform_op :: "link_op \<Rightarrow> ('h, unit) ipr" where
  "perform_op op = (case op of OpenLink br x y \<Rightarrow> ipr_open_link br x y | SwitchTap tap up \<Rightarrow> ipr_tap_link_up tap up)"

definition ipr_step :: "'h netlink \<Rightarrow> bb_env \<Rightarrow> nat \<times> link_op list \<Rightarrow> ('h, unit) ipr" where
  "ipr_step nl env = (\<lambda>(k, ops). eseq (ipr_before_step env k) (eseq (efor ops perform_op) (ipr_topology_change nl env)))"

text \<open>No device is brought up in a step after it was taken down in it.\<close>

definition op_taps :: "link_op \<Rightarrow> string list" where
  "op_taps op = (case op of OpenLink br x y \<Rightarrow> [x, y] | SwitchTap tap up \<Rightarrow> [tap])"

definition op_bridges :: "link_op \<Rightarrow> string list" where
  "op_bridges op = (case op of OpenLink br x y \<Rightarrow> [br] | SwitchTap tap up \<Rightarrow> [])"

definition op_up :: "link_op \<Rightarrow> bool" where
  "op_up op = (case op of OpenLink br x y \<Rightarrow> True | SwitchTap tap up \<Rightarrow> up)"

primrec orderly :: "link_op list \<Rightarrow> bool" where
  "orderly [] = True"
| "orderly (op # ops) = ((op_up op \<or> (\<forall>op' \<in> set ops. op_up op' \<longrightarrow> set (op_taps op) \<inter> set (op_taps op') = {})) \<and> orderly ops)"

definition book :: "'h ipr_backend \<Rightarrow> string \<Rightarrow> bool" where
  "book s dev \<longleftrightarrow> dget (interface_states (ip_backend s)) dev = Some True"

text \<open>What the operations of a step do to the books.\<close>

record books =
  a_book :: "string \<Rightarrow> bool"
  a_up :: "string set"
  a_down :: "string set"

definition books_of :: "'h ipr_backend \<Rightarrow> books" where
  "books_of s = \<lparr>a_book = book s, a_up = set (p_links_up s), a_down = set (p_links_down s)\<rparr>"

definition switch_books :: "string \<Rightarrow> bool \<Rightarrow> books \<Rightarrow> books" where
  "switch_books dev up b = b\<lparr>a_book := (a_book b)(dev := up),
     a_up := (if up \<and> \<not> a_book b dev then insert dev (a_up b) else a_up b),
     a_down := (if \<not> up \<and> a_book b dev then insert dev (a_down b) else a_down b)\<rparr>"

definition open_books :: "string \<Rightarrow> books \<Rightarrow> books" where
  "open_books dev b = b\<lparr>a_book := (a_book b)(dev := True), a_up := insert dev (a_up b)\<rparr>"

text \<open>The parts of the state that only the topology change touches.\<close>

definition same_kernel :: "'h ipr_backend \<Rightarrow> 'h ipr_backend \<Rightarrow> bool" where
  "same_kernel s s' \<longleftrightarrow> ip_host s' = ip_host s \<and> ipb s' = ipb s \<and> created_bridges s' = created_bridges s"

definition same_ports :: "'h ipr_backend \<Rightarrow> 'h ipr_backend \<Rightarrow> bool" where
  "same_ports s s' \<longleftrightarrow> p_bridges s' = p_bridges s \<and> p_links_add_bridge s' = p_links_add_bridge s"

lemmas ipr_simps = ebind_def ewhen_def ereturn_def emodify_def eget_def in_backend_def in_host_def note_link_up_def note_link_down_def
  state_getitem_def toggle_state_def

lemma change_link_books:
  "\<exists>s'. ipr_change_link dev up s = (Inr (), s') \<and> same_kernel s s' \<and> same_ports s s' \<and> books_of s' = switch_books dev up (books_of s)"
  by (cases "dget (interface_states (ip_backend s)) dev")
    (auto simp: ipr_change_link_def ipr_simps same_kernel_def same_ports_def books_of_def switch_books_def book_def fun_eq_iff dict_simps)

lemma tap_link_up_books:
  "\<exists>s'. ipr_tap_link_up dev up s = (Inr (), s') \<and> same_kernel s s' \<and> same_ports s s' \<and> books_of s' = switch_books dev up (books_of s)"
proof -
  obtain t where get: "in_backend (state_getitem dev) s = (Inr (book s dev), t)" "same_kernel s t" "same_ports s t" "books_of t = books_of s"
    by (cases "dget (interface_states (ip_backend s)) dev")
      (auto simp: in_backend_def state_getitem_def book_def books_of_def same_kernel_def same_ports_def fun_eq_iff dict_simps)
  obtain s1 where s1: "ipr_change_link dev up t = (Inr (), s1)" "same_kernel t s1" "same_ports t s1" "books_of s1 = switch_books dev up (books_of s)"
    using change_link_books [of dev up t] get(4) by auto
  consider "up" "book s dev" | "up" "\<not> book s dev" | "\<not> up" by blast
  then show ?thesis
  proof cases
    case 1
    then have "switch_books dev up (books_of s) = books_of s" by (auto simp: switch_books_def books_of_def fun_eq_iff)
    then show ?thesis using 1 get by (simp add: ipr_tap_link_up_def ebind_def ewhen_def ereturn_def)
  next
    case 2
    then show ?thesis using get s1 by (simp add: ipr_tap_link_up_def ebind_def ewhen_def same_kernel_def same_ports_def)
  next
    case 3
    then show ?thesis using change_link_books [of dev up s] by (auto simp: ipr_tap_link_up_def ewhen_def)
  qed
qed

lemma add_if_books:
  "\<exists>s'. ipr_add_if br dev True s = (Inr (), s') \<and> same_kernel s s' \<and> p_bridges s' = p_bridges s
     \<and> p_links_add_bridge s' = dset (p_links_add_bridge s) br (ddget_set (p_links_add_bridge s) br @ [dev])
     \<and> books_of s' = switch_books dev True (books_of s)"
  by (cases "dget (interface_states (ip_backend s)) dev")
    (auto simp: ipr_add_if_def ipr_simps same_kernel_def books_of_def switch_books_def book_def fun_eq_iff dict_simps)

text \<open>Every port noted for a bridge is a tap, and no bridge is started without a port.\<close>

definition ports_ok :: "string set \<Rightarrow> 'h ipr_backend \<Rightarrow> bool" where
  "ports_ok taps s \<longleftrightarrow> set (p_bridges s) \<subseteq> fst ` set (p_links_add_bridge s)
     \<and> (\<forall>(br, links) \<in> set (p_links_add_bridge s). br \<notin> taps \<and> set links \<subseteq> taps)"

lemma ports_ok_step:
  assumes "ports_ok taps s" and "br \<notin> taps" and "dev \<in> taps"
  shows "ports_ok taps (s\<lparr>p_bridges := oset_add (p_bridges s) br,
     p_links_add_bridge := dset (p_links_add_bridge s) br (ddget_set (p_links_add_bridge s) br @ [dev])\<rparr>)"
proof -
  let ?d = "p_links_add_bridge s"
  let ?ls = "ddget_set ?d br @ [dev]"
  have ls: "set ?ls \<subseteq> taps"
    using assms by (cases "dget ?d br") (fastforce simp: ports_ok_def ddget_set_def dest: dget_SomeD)+
  let ?P = "\<lambda>p. fst p \<notin> taps \<and> set (snd p) \<subseteq> taps"
  have "Ball (set ?d) ?P" using assms(1) by (simp add: ports_ok_def case_prod_beta)
  moreover have "?P (br, ?ls)" using assms(2) ls by simp
  moreover have "set (dset ?d br ?ls) \<subseteq> insert (br, ?ls) (set ?d)"
    using set_kset [of "\<lambda>k. k" ?d br ?ls] by blast
  ultimately have "Ball (set (dset ?d br ?ls)) ?P" by blast
  moreover have "insert br (set (p_bridges s)) \<subseteq> fst ` set (dset ?d br ?ls)"
    using keys_dset [of ?d br ?ls] assms(1) unfolding ports_ok_def by (simp add: subset_insertI2)
  ultimately show ?thesis by (simp add: ports_ok_def case_prod_beta)
qed

lemma add_device_books:
  "\<exists>s'. in_backend (add_device dev False) s = (Inr (), s') \<and> same_kernel s s' \<and> same_ports s s'
     \<and> books_of s' = (books_of s)\<lparr>a_book := (a_book (books_of s))(dev := False)\<rparr>"
  by (auto simp: in_backend_def add_device_def emodify_def same_kernel_def same_ports_def books_of_def book_def fun_eq_iff dict_simps)

lemma open_link_books:
  assumes ok: "ports_ok taps s" and br: "br \<notin> taps" and taps: "x \<in> taps" "y \<in> taps"
  shows "\<exists>s'. ipr_open_link br x y s = (Inr (), s') \<and> same_kernel s s' \<and> ports_ok taps s'
     \<and> books_of s' = open_books y (open_books x (books_of s))"
proof -
  define s0 where "s0 = s\<lparr>p_bridges := oset_add (p_bridges s) br\<rparr>"
  have s0: "ipr_bridge_start br s = (Inr (), s0)" "books_of s0 = books_of s"
    by (auto simp: s0_def ipr_bridge_start_def emodify_def books_of_def book_def fun_eq_iff)
  obtain s1 where s1: "ipr_add_if br x True s0 = (Inr (), s1)" "same_kernel s0 s1" "p_bridges s1 = p_bridges s0"
    "p_links_add_bridge s1 = dset (p_links_add_bridge s0) br (ddget_set (p_links_add_bridge s0) br @ [x])"
    "books_of s1 = switch_books x True (books_of s0)" using add_if_books by blast
  obtain s2 where s2: "ipr_add_if br y True s1 = (Inr (), s2)" "same_kernel s1 s2" "p_bridges s2 = p_bridges s1"
    "p_links_add_bridge s2 = dset (p_links_add_bridge s1) br (ddget_set (p_links_add_bridge s1) br @ [y])"
    "books_of s2 = switch_books y True (books_of s1)" using add_if_books by blast
  obtain t where t: "in_backend (add_device x False) s2 = (Inr (), t)" "same_kernel s2 t" "same_ports s2 t"
    "books_of t = (books_of s2)\<lparr>a_book := (a_book (books_of s2))(x := False)\<rparr>" using add_device_books by blast
  obtain s3 where s3: "in_backend (add_device y False) t = (Inr (), s3)" "same_kernel t s3" "same_ports t s3"
    "books_of s3 = (books_of t)\<lparr>a_book := (a_book (books_of t))(y := False)\<rparr>" using add_device_books by blast
  obtain s4 where s4: "ipr_tap_link_up x True s3 = (Inr (), s4)" "same_kernel s3 s4" "same_ports s3 s4"
    "books_of s4 = switch_books x True (books_of s3)" using tap_link_up_books by blast
  obtain s5 where s5: "ipr_tap_link_up y True s4 = (Inr (), s5)" "same_kernel s4 s5" "same_ports s4 s5"
    "books_of s5 = switch_books y True (books_of s4)" using tap_link_up_books by blast
  have "ipr_open_link br x y s = (Inr (), s5)"
    using s0(1) s1(1) s2(1) t(1) s3(1) s4(1) s5(1) by (simp add: ipr_open_link_def ebind_def)
  moreover have "same_kernel s s5"
    using s1(2) s2(2) t(2) s3(2) s4(2) s5(2) by (simp add: same_kernel_def s0_def)
  moreover have "ports_ok taps s5"
  proof -
    have "p_bridges s5 = oset_add (p_bridges s) br" "p_links_add_bridge s5 = p_links_add_bridge s2"
      "p_links_add_bridge s1 = dset (p_links_add_bridge s) br (ddget_set (p_links_add_bridge s) br @ [x])"
      using s1(3,4) s2(3) t(3) s3(3) s4(3) s5(3) by (simp_all add: same_ports_def s0_def)
    then show ?thesis
      using ports_ok_step [OF ports_ok_step [OF ok br taps(1)] br taps(2)] s2(4) by (simp add: ports_ok_def)
  qed
  moreover have "books_of s5 = open_books y (open_books x (books_of s))"
    using s0(2) s1(5) s2(5) t(4) s3(4) s4(4) s5(4) by (auto simp: switch_books_def open_books_def fun_eq_iff insert_commute)
  ultimately show ?thesis by blast
qed

definition op_books :: "link_op \<Rightarrow> books \<Rightarrow> books" where
  "op_books op = (case op of OpenLink br x y \<Rightarrow> open_books y \<circ> open_books x | SwitchTap tap up \<Rightarrow> switch_books tap up)"

definition op_ok :: "string set \<Rightarrow> link_op \<Rightarrow> bool" where
  "op_ok taps op \<longleftrightarrow> set (op_taps op) \<subseteq> taps \<and> set (op_bridges op) \<inter> taps = {}"

lemma perform_op_books:
  assumes "ports_ok taps s" and "op_ok taps op"
  shows "\<exists>s'. perform_op op s = (Inr (), s') \<and> same_kernel s s' \<and> ports_ok taps s' \<and> books_of s' = op_books op (books_of s)"
proof (cases op)
  case (OpenLink br x y)
  then show ?thesis
    using open_link_books [OF assms(1), of br x y] assms(2)
    by (auto simp: perform_op_def op_books_def op_ok_def op_taps_def op_bridges_def)
next
  case (SwitchTap tap up)
  then show ?thesis
    using tap_link_up_books [of tap up s] assms(1)
    by (auto simp: perform_op_def op_books_def ports_ok_def same_ports_def)
qed

lemma perform_ops_books:
  assumes "ports_ok taps s" and "\<forall>op \<in> set ops. op_ok taps op"
  shows "\<exists>s'. efor ops perform_op s = (Inr (), s') \<and> same_kernel s s' \<and> ports_ok taps s' \<and> books_of s' = fold op_books ops (books_of s)"
  using assms
proof (induction ops arbitrary: s)
  case Nil
  then show ?case by (simp add: ereturn_def same_kernel_def)
next
  case (Cons op ops)
  then obtain s1 where s1: "perform_op op s = (Inr (), s1)" "same_kernel s s1" "ports_ok taps s1" "books_of s1 = op_books op (books_of s)"
    using perform_op_books [of taps s op] by auto
  then show ?case using Cons.IH [of s1] Cons.prems(2) by (auto simp: ebind_def same_kernel_def)
qed

text \<open>The books follow from the noted changes and the state before the step.\<close>

definition settled :: "(string \<Rightarrow> bool) \<Rightarrow> books \<Rightarrow> bool" where
  "settled before b \<longleftrightarrow> a_book b = (\<lambda>dev. dev \<notin> a_down b \<and> (dev \<in> a_up b \<or> before dev))"

lemma settled_op:
  "settled before b \<Longrightarrow> op_up op \<longrightarrow> set (op_taps op) \<inter> a_down b = {} \<Longrightarrow> settled before (op_books op b)"
  by (cases op) (auto simp: settled_def op_books_def open_books_def switch_books_def op_up_def op_taps_def fun_eq_iff)

lemma down_op: "a_down (op_books op b) \<subseteq> a_down b \<union> (if op_up op then {} else set (op_taps op))"
  by (cases op) (auto simp: op_books_def open_books_def switch_books_def op_up_def op_taps_def)

lemma settled_ops:
  assumes "settled before b" and "orderly ops" and "\<forall>op \<in> set ops. op_up op \<longrightarrow> set (op_taps op) \<inter> a_down b = {}"
  shows "settled before (fold op_books ops b)"
  using assms
proof (induction ops arbitrary: b)
  case (Cons op ops)
  have "settled before (op_books op b)" using Cons.prems by (simp add: settled_op)
  moreover have "\<forall>op' \<in> set ops. op_up op' \<longrightarrow> set (op_taps op') \<inter> a_down (op_books op b) = {}"
    using Cons.prems(2,3) down_op [of op b] by (fastforce split: if_splits)
  ultimately show ?case using Cons.IH Cons.prems(2) by simp
qed simp

section \<open>What a batch does\<close>

text \<open>The state of the device with an index after a batch.\<close>

definition state_after :: "link_set list \<Rightarrow> int \<Rightarrow> bool \<Rightarrow> bool" where
  "state_after cmds i = fold (\<lambda>cmd up. case cmd of SetState j up' \<Rightarrow> if i = j then up' else up | _ \<Rightarrow> up) cmds"

lemma state_after_append: "state_after (xs @ ys) i up = state_after ys i (state_after xs i up)"
  by (simp add: state_after_def)

lemma state_after_other: "\<forall>cmd \<in> set cmds. \<forall>j up. cmd \<noteq> SetState j up \<Longrightarrow> state_after cmds i up = up"
  unfolding state_after_def by (induction cmds arbitrary: up) (auto split: link_set.splits)

lemma state_after_states:
  "inj_on idx A \<Longrightarrow> set devs \<subseteq> A \<Longrightarrow> dev \<in> A \<Longrightarrow>
     state_after (map (\<lambda>d. SetState (idx d) up') devs) (idx dev) up = (if dev \<in> set devs then up' else up)"
  unfolding state_after_def by (induction devs arbitrary: up) (auto simp: inj_on_def)

text \<open>An operation that only puts commands into the batch.\<close>

definition emits :: "(string, int) dict \<Rightarrow> ('h, unit) ipr \<Rightarrow> link_set list \<Rightarrow> bool" where
  "emits c m cmds \<longleftrightarrow> (\<forall>s. ip_cache s = c \<longrightarrow> m s = (Inr (), s\<lparr>ipb := ipb s @ cmds\<rparr>))"

lemma emitsD: "emits c m cmds \<Longrightarrow> ip_cache s = c \<Longrightarrow> m s = (Inr (), s\<lparr>ipb := ipb s @ cmds\<rparr>)"
  by (simp add: emits_def)

lemma ebind_eget: "ebind (eget f) k s = k (f s) s"
  by (simp add: ebind_def eget_def)

lemma emits_efor: "(\<And>x. x \<in> set xs \<Longrightarrow> emits c (f x) (g x)) \<Longrightarrow> emits c (efor xs f) (concat (map g xs))"
proof (induction xs)
  case Nil
  then show ?case by (simp add: emits_def ereturn_def)
next
  case (Cons x xs)
  then have "emits c (f x) (g x)" "emits c (efor xs f) (concat (map g xs))" by auto
  then show ?case by (simp add: emits_def ebind_def)
qed

lemma emits_seq: "emits c m xs \<Longrightarrow> emits c m' ys \<Longrightarrow> emits c (eseq m m') (xs @ ys)"
  by (simp add: emits_def ebind_def)

lemma get_iface_idx_known: "dget (ip_cache s) dev = Some i \<Longrightarrow> get_iface_idx dev s = (Inr i, s)"
  by (simp add: get_iface_idx_def ebind_def eget_def ereturn_def)

lemma emits_set_ageing: "dget c br = Some i \<Longrightarrow> emits c (set_ageing br) [SetAgeingTime i]"
  and emits_set_master: "dget c br = Some i \<Longrightarrow> dget c dev = Some j \<Longrightarrow> emits c (set_master br dev) [SetMaster j i]"
  and emits_set_state: "dget c dev = Some j \<Longrightarrow> emits c (set_state up dev) [SetState j up]"
  by (simp_all add: emits_def set_ageing_def set_master_def set_state_def ebind_def get_iface_idx_known ipb_link_def emodify_def)

lemma op_books_within:
  "op_ok taps op \<Longrightarrow> a_up b \<subseteq> taps \<Longrightarrow> a_down b \<subseteq> taps \<Longrightarrow> a_up (op_books op b) \<subseteq> taps \<and> a_down (op_books op b) \<subseteq> taps"
  by (cases op) (auto simp: op_books_def open_books_def switch_books_def op_ok_def op_taps_def)

lemma fold_books_within:
  "\<forall>op \<in> set ops. op_ok taps op \<Longrightarrow> a_up b \<subseteq> taps \<Longrightarrow> a_down b \<subseteq> taps \<Longrightarrow>
     a_up (fold op_books ops b) \<subseteq> taps \<and> a_down (fold op_books ops b) \<subseteq> taps"
  by (induction ops arbitrary: b) (use op_books_within in auto)

lemma collect_batch_states:
  assumes order: "\<forall>xs. set (nl_order nl xs) = set xs"
    and cache: "ip_cache s = c" "\<forall>dev \<in> names. \<exists>i. dget c dev = Some i" "inj_on (\<lambda>dev. the (dget c dev)) names"
    and known: "taps \<subseteq> names" "fst ` set (p_links_add_bridge s) \<subseteq> names"
    and ok: "ports_ok taps s" "set (p_links_up s) \<subseteq> taps" "set (p_links_down s) \<subseteq> taps"
  shows "\<exists>cmds. collect_batch nl s = (Inr (), s\<lparr>ipb := ipb s @ cmds\<rparr>) \<and>
    (\<forall>dev \<in> taps. \<forall>up. state_after cmds (the (dget c dev)) up = (dev \<notin> set (p_links_down s) \<and> (dev \<in> set (p_links_up s) \<or> up)))"
proof -
  let ?idx = "\<lambda>dev. the (dget c dev)"
  let ?states = "\<lambda>up devs. map (\<lambda>d. SetState (?idx d) up) devs"
  let ?brs = "map fst (p_links_add_bridge s)"
  have idx: "dget c dev = Some (?idx dev)" if "dev \<in> names" for dev using cache(2) that by force
  have ports: "br \<in> names \<and> set links \<subseteq> names \<and> br \<notin> taps" if "(br, links) \<in> set (p_links_add_bridge s)" for br links
  proof -
    have "br \<notin> taps" "set links \<subseteq> taps" using that ok(1) unfolding ports_ok_def by blast+
    moreover have "br \<in> names" using that known(2) by force
    ultimately show ?thesis using known(1) by blast
  qed
  have brs: "set (p_bridges s) \<subseteq> names" using ok(1) known(2) unfolding ports_ok_def by blast
  have states: "emits c (efor devs (set_state up)) (?states up devs)" if "set devs \<subseteq> names" for devs up
    using emits_efor [of devs c "set_state up" "\<lambda>d. [SetState (?idx d) up]"] emits_set_state [OF idx] that by (auto simp: subset_iff)
  define ageing where "ageing = concat (map (\<lambda>br. [SetAgeingTime (?idx br)]) (nl_order nl (p_bridges s)))"
  define masters where "masters = concat (map (\<lambda>(br, links). concat (map (\<lambda>dev. [SetMaster (?idx dev) (?idx br)]) (nl_order nl (oset_of links)))) (p_links_add_bridge s))"
  have 1: "emits c (efor (nl_order nl (p_bridges s)) set_ageing) ageing"
    unfolding ageing_def using brs order by (intro emits_efor emits_set_ageing idx) auto
  have 2: "emits c (efor (p_links_add_bridge s) (\<lambda>(br, links). efor (nl_order nl (oset_of links)) (set_master br))) masters"
    unfolding masters_def
  proof (rule emits_efor, clarify)
    fix br links assume "(br, links) \<in> set (p_links_add_bridge s)"
    then show "emits c (efor (nl_order nl (oset_of links)) (set_master br)) (concat (map (\<lambda>dev. [SetMaster (?idx dev) (?idx br)]) (nl_order nl (oset_of links))))"
      using ports order by (intro emits_efor emits_set_master idx) (auto simp: subset_iff)
  qed
  let ?ups = "nl_order nl (p_links_up s)" and ?downs = "nl_order nl (p_links_down s)"
  let ?cmds = "ageing @ masters @ ?states True ?ups @ ?states True ?brs @ ?states False ?downs"
  have sets: "set ?ups \<subseteq> names" "set ?downs \<subseteq> names" "set ?brs \<subseteq> names" using order ok(2,3) known by auto
  have "emits c (eseq (efor (nl_order nl (p_bridges s)) set_ageing)
     (eseq (efor (p_links_add_bridge s) (\<lambda>(br, links). efor (nl_order nl (oset_of links)) (set_master br)))
     (eseq (efor ?ups (set_state True)) (eseq (efor ?brs (set_state True)) (efor ?downs (set_state False)))))) ?cmds"
    by (intro emits_seq 1 2 states sets)
  from emitsD [OF this cache(1)] have "collect_batch nl s = (Inr (), s\<lparr>ipb := ipb s @ ?cmds\<rparr>)"
    unfolding collect_batch_def by (simp only: ebind_eget id_apply)
  moreover have "state_after ?cmds (?idx dev) up = (dev \<notin> set (p_links_down s) \<and> (dev \<in> set (p_links_up s) \<or> up))" if "dev \<in> taps" for dev up
  proof -
    have "dev \<in> names" "dev \<notin> set ?brs" using that known ports by auto
    moreover have "state_after (ageing @ masters) i up = up" for i
      by (rule state_after_other) (auto simp: ageing_def masters_def)
    ultimately show ?thesis
      using sets order by (simp add: state_after_append state_after_states [OF cache(3)] del: map_map flip: append_assoc)
  qed
  ultimately show ?thesis by blast
qed

section \<open>The kernel follows the books\<close>

text \<open>
  What the backend relies on: a bridge that is created is listed from then on, a batch is executed in
  its order, and interfaces have distinct names and indices. \<open>up\<close> is the state of a device.
\<close>

definition link_names :: "'h netlink \<Rightarrow> 'h \<Rightarrow> string set" where
  "link_names nl h = fst ` set (nl_get_links nl h)"

definition netlink_ok :: "'h netlink \<Rightarrow> ('h \<Rightarrow> string \<Rightarrow> bool) \<Rightarrow> bool" where
  "netlink_ok nl up \<longleftrightarrow>
     (\<forall>br h. \<exists>h'. nl_link_add nl br h = (Inr (), h') \<and> insert br (link_names nl h) \<subseteq> link_names nl h'
        \<and> (\<forall>dev \<in> link_names nl h. up h' dev = up h dev))
   \<and> (\<forall>cmds h. \<exists>h'. nl_sendto nl cmds h = (Inr (), h') \<and> link_names nl h' = link_names nl h
        \<and> (\<forall>(dev, i) \<in> set (nl_get_links nl h). up h' dev = state_after cmds i (up h dev)))
   \<and> (\<forall>h. dwf (nl_get_links nl h) \<and> inj_on snd (set (nl_get_links nl h)))
   \<and> (\<forall>xs. set (nl_order nl xs) = set xs)"

definition kernel_follows :: "'h netlink \<Rightarrow> ('h \<Rightarrow> string \<Rightarrow> bool) \<Rightarrow> string set \<Rightarrow> 'h ipr_backend \<Rightarrow> bool" where
  "kernel_follows nl up taps s \<longleftrightarrow> taps \<union> set (created_bridges s) \<subseteq> link_names nl (ip_host s) \<and> ipb s = []
     \<and> (\<forall>dev \<in> taps. up (ip_host s) dev = book s dev)"

lemma create_bridges:
  assumes nl: "netlink_ok nl up" and taps: "taps \<union> set (created_bridges s) \<subseteq> link_names nl (ip_host s)"
  shows "\<exists>h created. efor brs (create_bridge nl) s = (Inr (), s\<lparr>ip_host := h, created_bridges := created\<rparr>)
    \<and> taps \<union> set created \<union> set brs \<subseteq> link_names nl h \<and> (\<forall>dev \<in> taps. up h dev = up (ip_host s) dev)"
  using taps
proof (induction brs arbitrary: s taps)
  case Nil
  then show ?case by (intro exI [of _ "ip_host s"] exI [of _ "created_bridges s"]) (simp add: ereturn_def)
next
  case (Cons br brs)
  have "\<exists>h created. create_bridge nl br s = (Inr (), s\<lparr>ip_host := h, created_bridges := created\<rparr>)
    \<and> taps \<union> insert br (set created) \<subseteq> link_names nl h \<and> (\<forall>dev \<in> taps. up h dev = up (ip_host s) dev)"
  proof (cases "br \<in> set (created_bridges s)")
    case True
    then show ?thesis using Cons.prems
      by (intro exI [of _ "ip_host s"] exI [of _ "created_bridges s"]) (auto simp: create_bridge_def ebind_eget ewhen_def ereturn_def)
  next
    case False
    obtain h where h: "nl_link_add nl br (ip_host s) = (Inr (), h)" "insert br (link_names nl (ip_host s)) \<subseteq> link_names nl h"
      "\<forall>dev \<in> link_names nl (ip_host s). up h dev = up (ip_host s) dev" using nl unfolding netlink_ok_def by blast
    have "create_bridge nl br s = (Inr (), s\<lparr>ip_host := h, created_bridges := oset_add (created_bridges s) br\<rparr>)"
      using False h(1) by (simp add: create_bridge_def ebind_def eget_def ewhen_def in_host_def emodify_def)
    moreover have "taps \<union> insert br (set (oset_add (created_bridges s) br)) \<subseteq> link_names nl h" using h(2) Cons.prems by auto
    moreover have "\<forall>dev \<in> taps. up h dev = up (ip_host s) dev" using h(3) Cons.prems by blast
    ultimately show ?thesis by blast
  qed
  then obtain h created where 1: "create_bridge nl br s = (Inr (), s\<lparr>ip_host := h, created_bridges := created\<rparr>)"
    "taps \<union> insert br (set created) \<subseteq> link_names nl h" "\<forall>dev \<in> taps. up h dev = up (ip_host s) dev" by blast
  obtain h' created' where 2: "efor brs (create_bridge nl) (s\<lparr>ip_host := h, created_bridges := created\<rparr>) = (Inr (), s\<lparr>ip_host := h', created_bridges := created'\<rparr>)"
    "insert br taps \<union> set created' \<union> set brs \<subseteq> link_names nl h'" "\<forall>dev \<in> insert br taps. up h' dev = up h dev"
    using Cons.IH [of "insert br taps" "s\<lparr>ip_host := h, created_bridges := created\<rparr>"] 1(2) by auto
  have "efor (br # brs) (create_bridge nl) s = (Inr (), s\<lparr>ip_host := h', created_bridges := created'\<rparr>)"
    using 1(1) 2(1) by (simp add: ebind_def)
  moreover have "taps \<union> set created' \<union> set (br # brs) \<subseteq> link_names nl h'" using 2(2) by auto
  moreover have "\<forall>dev \<in> taps. up h' dev = up (ip_host s) dev" using 1(3) 2(3) by simp
  ultimately show ?case by blast
qed

lemma dget_dict_of: "dwf kvs \<Longrightarrow> dget (dict_of kvs) k = dget kvs k"
  by (simp add: dict_of_def dget_fold_dset split: option.splits)

lemma inj_on_index:
  assumes "inj_on snd (set l)" shows "inj_on (\<lambda>dev. the (dget l dev)) (fst ` set l)"
proof (rule inj_onI)
  fix a b assume ab: "a \<in> fst ` set l" "b \<in> fst ` set l" and eq: "the (dget l a) = the (dget l b)"
  obtain i j where ij: "dget l a = Some i" "dget l b = Some j"
    using ab dget_None_iff [of l] by (metis not_None_eq)
  then have "(a, i) \<in> set l" "(b, j) \<in> set l" by (auto dest: dget_SomeD)
  then show "a = b" using inj_onD [OF assms, of "(a, i)" "(b, j)"] eq ij by simp
qed

lemma topology_change_follows:
  assumes nl: "netlink_ok nl up" and multi: "\<not> be_single env"
    and ok: "ports_ok taps s" "set (p_links_up s) \<subseteq> taps" "set (p_links_down s) \<subseteq> taps"
    and host: "taps \<union> set (created_bridges s) \<subseteq> link_names nl (ip_host s)" "ipb s = []"
  shows "\<exists>s'. ipr_topology_change nl env s = (Inr (), s') \<and> ip_backend s' = ip_backend s \<and> ipb s' = []
    \<and> taps \<union> set (created_bridges s') \<subseteq> link_names nl (ip_host s')
    \<and> (\<forall>dev \<in> taps. up (ip_host s') dev = (dev \<notin> set (p_links_down s) \<and> (dev \<in> set (p_links_up s) \<or> up (ip_host s) dev)))"
proof -
  let ?brs = "nl_order nl (oset_of (map fst (p_links_add_bridge s)))"
  have order: "\<forall>xs. set (nl_order nl xs) = set xs" using nl unfolding netlink_ok_def by blast
  obtain h created where 1: "efor ?brs (create_bridge nl) s = (Inr (), s\<lparr>ip_host := h, created_bridges := created\<rparr>)"
    "taps \<union> set created \<union> set ?brs \<subseteq> link_names nl h" "\<forall>dev \<in> taps. up h dev = up (ip_host s) dev"
    using create_bridges [OF nl host(1)] by blast
  define s1 where "s1 = s\<lparr>ip_host := h, created_bridges := created, ip_cache := dict_of (nl_get_links nl h)\<rparr>"
  have links: "dwf (nl_get_links nl h)" "inj_on snd (set (nl_get_links nl h))" using nl unfolding netlink_ok_def by blast+
  have cache: "\<And>dev. dget (ip_cache s1) dev = dget (nl_get_links nl h) dev" by (simp add: s1_def dget_dict_of links)
  obtain cmds where 2: "collect_batch nl s1 = (Inr (), s1\<lparr>ipb := ipb s1 @ cmds\<rparr>)"
    "\<forall>dev \<in> taps. \<forall>b. state_after cmds (the (dget (ip_cache s1) dev)) b = (dev \<notin> set (p_links_down s1) \<and> (dev \<in> set (p_links_up s1) \<or> b))"
  proof (atomize_elim, rule collect_batch_states [OF order refl, where names = "link_names nl h"])
    show "\<forall>dev \<in> link_names nl h. \<exists>i. dget (ip_cache s1) dev = Some i"
      unfolding cache link_names_def using dget_None_iff [of "nl_get_links nl h"] by (metis not_None_eq)
    show "inj_on (\<lambda>dev. the (dget (ip_cache s1) dev)) (link_names nl h)"
      unfolding cache link_names_def using inj_on_index [OF links(2)] .
    show "taps \<subseteq> link_names nl h" "fst ` set (p_links_add_bridge s1) \<subseteq> link_names nl h" using 1(2) order by (auto simp: s1_def)
    show "ports_ok taps s1" "set (p_links_up s1) \<subseteq> taps" "set (p_links_down s1) \<subseteq> taps" using ok by (simp_all add: s1_def ports_ok_def)
  qed
  obtain h' where 3: "nl_sendto nl cmds h = (Inr (), h')" "link_names nl h' = link_names nl h"
    "\<forall>(dev, i) \<in> set (nl_get_links nl h). up h' dev = state_after cmds i (up h dev)" using nl unfolding netlink_ok_def by blast
  have "do_batch nl (s1\<lparr>ipb := ipb s1 @ cmds\<rparr>) = (Inr (), s1\<lparr>ip_host := h', ipb := []\<rparr>)"
    using 3(1) host(2) by (simp add: do_batch_def ebind_def eget_def in_host_def emodify_def s1_def)
  then have "ipr_topology_change nl env s = (Inr (), s1\<lparr>ip_host := h', ipb := []\<rparr>)"
    using 1(1) 2(1) multi
    by (simp add: ipr_topology_change_def ebind_def eget_def build_cache_def emodify_def s1_def
        in_backend_def ipr_mode_topology_change_def ewhen_def ereturn_def)
  moreover have "up h' dev = (dev \<notin> set (p_links_down s) \<and> (dev \<in> set (p_links_up s) \<or> up (ip_host s) dev))" if dev: "dev \<in> taps" for dev
  proof -
    obtain i where i: "dget (nl_get_links nl h) dev = Some i" using dev 1(2) dget_None_iff [of "nl_get_links nl h" dev] by (auto simp: link_names_def)
    have "up h' dev = state_after cmds i (up h dev)" using 3(3) dget_SomeD [OF i] by blast
    moreover have "the (dget (ip_cache s1) dev) = i" by (simp add: cache i)
    ultimately show ?thesis using 1(3) bspec [OF 2(2) dev] dev by (simp add: s1_def)
  qed
  ultimately show ?thesis using 1(2) 3(2) by (intro exI [of _ "s1\<lparr>ip_host := h', ipb := []\<rparr>"]) (simp add: s1_def)
qed

lemma before_step_multi:
  "\<not> be_single env \<Longrightarrow> ipr_before_step env k s =
     (Inr (), s\<lparr>ip_step_cnt := k, p_bridges := [], p_links_up := [], p_links_down := [], p_links_add_bridge := []\<rparr>)"
  by (simp add: ipr_before_step_def ebind_def emodify_def in_backend_def bb_before_step_def ewhen_def ereturn_def reset_step_state_def)

lemma step_follows:
  assumes nl: "netlink_ok nl up" and multi: "\<not> be_single env" and ops: "orderly ops" "\<forall>op \<in> set ops. op_ok taps op"
    and s: "kernel_follows nl up taps s"
  shows "\<exists>s'. ipr_step nl env (k, ops) s = (Inr (), s') \<and> kernel_follows nl up taps s'"
proof -
  define s0 where "s0 = s\<lparr>ip_step_cnt := k, p_bridges := [], p_links_up := [], p_links_down := [], p_links_add_bridge := []\<rparr>"
  have before: "ipr_before_step env k s = (Inr (), s0)"
    unfolding s0_def by (rule before_step_multi [OF multi])
  have "book s0 = book s" by (simp add: fun_eq_iff book_def s0_def)
  then have b0: "books_of s0 = \<lparr>a_book = book s, a_up = {}, a_down = {}\<rparr>" by (simp add: books_of_def s0_def)
  have "ports_ok taps s0" by (simp add: ports_ok_def s0_def)
  from perform_ops_books [OF this ops(2)] obtain s1 where s1: "efor ops perform_op s0 = (Inr (), s1)" "same_kernel s0 s1"
    "ports_ok taps s1" "books_of s1 = fold op_books ops (books_of s0)" by blast
  have kernel: "ip_host s1 = ip_host s" "ipb s1 = ipb s" "created_bridges s1 = created_bridges s" using s1(2) by (simp_all add: same_kernel_def s0_def)
  have "settled (book s) (books_of s1)"
    unfolding s1(4) by (rule settled_ops [OF _ ops(1)]) (simp_all add: b0 settled_def fun_eq_iff)
  then have book: "book s1 dev = (dev \<notin> set (p_links_down s1) \<and> (dev \<in> set (p_links_up s1) \<or> book s dev))" for dev
    by (simp add: settled_def books_of_def fun_eq_iff)
  have "set (p_links_up s1) \<subseteq> taps \<and> set (p_links_down s1) \<subseteq> taps"
    using fold_books_within [OF ops(2), of "books_of s0", folded s1(4)] by (simp add: b0) (simp add: books_of_def)
  then obtain s2 where s2: "ipr_topology_change nl env s1 = (Inr (), s2)" "ip_backend s2 = ip_backend s1" "ipb s2 = []"
    "taps \<union> set (created_bridges s2) \<subseteq> link_names nl (ip_host s2)"
    "\<forall>dev \<in> taps. up (ip_host s2) dev = (dev \<notin> set (p_links_down s1) \<and> (dev \<in> set (p_links_up s1) \<or> up (ip_host s1) dev))"
    using topology_change_follows [OF nl multi s1(3)] s kernel unfolding kernel_follows_def by (metis (no_types, lifting))
  have "kernel_follows nl up taps s2"
    using s2 book s kernel(1) by (auto simp: kernel_follows_def book_def)
  moreover have "ipr_step nl env (k, ops) s = (Inr (), s2)" using before s1(1) s2(1) by (simp add: ipr_step_def ebind_def)
  ultimately show ?thesis by blast
qed


text \<open>A kernel that numbers the interfaces in the order of their creation.\<close>

type_synonym ex_kernel = "string list \<times> (string \<Rightarrow> bool)"

definition ex_links :: "ex_kernel \<Rightarrow> (string \<times> int) list" where
  "ex_links h = (let names = remdups (fst h) in zip names (map int [0..<length names]))"

definition ex_netlink :: "ex_kernel netlink" where
  "ex_netlink = \<lparr>nl_link_add = (\<lambda>br h. (Inr (), (fst h @ [br], snd h))), nl_get_links = ex_links,
     nl_sendto = (\<lambda>cmds h. (Inr (), (fst h, \<lambda>dev. case dget (ex_links h) dev of Some i \<Rightarrow> state_after cmds i (snd h dev) | None \<Rightarrow> snd h dev))),
     nl_order = rev\<rparr>"

lemma ex_links_distinct: "map fst (ex_links h) = remdups (fst h)" "dwf (ex_links h)" "distinct (map snd (ex_links h))"
  by (simp_all add: ex_links_def kwf_def Let_def distinct_map inj_on_def flip: map_map)

lemma ex_netlink_ok: "netlink_ok ex_netlink snd"
proof -
  have names: "link_names ex_netlink h = set (fst h)" for h
    using arg_cong [OF ex_links_distinct(1) [of h], of set] by (simp add: link_names_def ex_netlink_def)
  show ?thesis
    unfolding netlink_ok_def names using ex_links_distinct(2,3)
    by (auto simp: ex_netlink_def distinct_map dget_of_mem)
qed

text \<open>Two links of the first step; in the second step one goes down and a third is opened.\<close>

definition ex_steps :: "(nat \<times> link_op list) list" where
  "ex_steps = [(0, [OpenLink ''br1'' ''a'' ''b'', OpenLink ''br2'' ''c'' ''d'']),
     (1, [SwitchTap ''a'' False, SwitchTap ''b'' False, OpenLink ''br3'' ''e'' ''f''])]"


section \<open>Where the modes differ\<close>

text \<open>
  A device that goes down and up in one step is in both sets, and the batch takes it down last: the
  books say it is up, the kernel has it down.
\<close>

lemma down_then_up_stays_down:
  assumes "netlink_ok nl up" and "\<not> be_single env" and "kernel_follows nl up {dev} s" and "book s dev"
  shows "\<exists>s'. ipr_step nl env (k, [SwitchTap dev False, SwitchTap dev True]) s = (Inr (), s') \<and> book s' dev \<and> \<not> up (ip_host s') dev"
proof -
  define s0 where "s0 = s\<lparr>ip_step_cnt := k, p_bridges := [], p_links_up := [], p_links_down := [], p_links_add_bridge := []\<rparr>"
  have before: "ipr_before_step env k s = (Inr (), s0)"
    unfolding s0_def by (rule before_step_multi [OF assms(2)])
  have ok: "ports_ok {dev} s0" "\<forall>op \<in> set [SwitchTap dev False, SwitchTap dev True]. op_ok {dev} op"
    by (simp_all add: ports_ok_def s0_def op_ok_def op_taps_def op_bridges_def)
  obtain s1 where s1: "efor [SwitchTap dev False, SwitchTap dev True] perform_op s0 = (Inr (), s1)" "same_kernel s0 s1" "ports_ok {dev} s1"
    "books_of s1 = fold op_books [SwitchTap dev False, SwitchTap dev True] (books_of s0)" using perform_ops_books [OF ok] by blast
  have "book s0 = book s" by (simp add: fun_eq_iff book_def s0_def)
  then have b: "book s1 dev" "set (p_links_up s1) = {dev}" "set (p_links_down s1) = {dev}"
    using s1(4) assms(4) by (simp_all add: books_of_def op_books_def switch_books_def s0_def)
  have kernel: "{dev} \<union> set (created_bridges s1) \<subseteq> link_names nl (ip_host s1)" "ipb s1 = []"
    using s1(2) assms(3) by (simp_all add: same_kernel_def kernel_follows_def s0_def)
  obtain s2 where s2: "ipr_topology_change nl env s1 = (Inr (), s2)" "ip_backend s2 = ip_backend s1"
    "\<forall>d \<in> {dev}. up (ip_host s2) d = (d \<notin> set (p_links_down s1) \<and> (d \<in> set (p_links_up s1) \<or> up (ip_host s1) d))"
    using topology_change_follows [OF assms(1,2) s1(3) _ _ kernel] b(2,3) by auto
  have "ipr_step nl env (k, [SwitchTap dev False, SwitchTap dev True]) s = (Inr (), s2)"
    using before s1(1) s2(1) by (simp add: ipr_step_def ebind_def)
  then show ?thesis using b s2(2,3) by (auto simp: book_def)
qed

text \<open>
  Without batch mode the queued commands that shape the links of the backend with one bridge per
  connection are dropped: nothing is executed, and the queue is emptied.
\<close>

lemma unbatched_shaping_dropped:
  assumes "\<not> be_single env" and "\<not> be_batch env"
  shows "bb_calls (ip_backend (snd (ipr_after_matrix nl env s))) = bb_calls (ip_backend s)"
    and "ipr_after_matrix nl env s = (Inr (), s') \<Longrightarrow> shell_command_executor (ip_backend s') = serializer_init"
proof -
  let ?P = "\<lambda>t :: 'a ipr_backend. bb_calls (ip_backend t) = bb_calls (ip_backend s)"
  have host: "keeps ?P (in_host m)" for m :: "('a, unit) eff"
    by (simp add: keeps_def in_host_def case_prod_beta)
  have backend: "keeps ?P (in_backend (emodify f))" if "\<And>b. bb_calls (f b) = bb_calls b" for f
    by (simp add: keeps_def in_backend_def emodify_def that)
  have quiet: "keeps ?P (in_backend (ipr_mode_topology_change env))" "keeps ?P (in_backend (do_queueing_discipline env))"
    using assms by (simp_all add: keeps_def in_backend_def ipr_mode_topology_change_def do_queueing_discipline_def ewhen_def ereturn_def)
  have idx: "keeps ?P (get_iface_idx d)" for d unfolding get_iface_idx_def by (intro keeps_intros)
  have cmds: "keeps ?P (set_ageing d)" "keeps ?P (set_master d e)" "keeps ?P (set_state u d)" for d e u
    unfolding set_ageing_def set_master_def set_state_def ipb_link_def by (intro keeps_intros idx keeps_emodify, simp)+
  have "keeps ?P (ipr_topology_change nl env)"
    unfolding ipr_topology_change_def create_bridge_def build_cache_def collect_batch_def do_batch_def case_prod_beta
    by (intro keeps_intros host quiet cmds keeps_emodify) simp_all
  then have "keeps ?P (ipr_after_matrix nl env)"
    unfolding ipr_after_matrix_def by (intro keeps_intros backend quiet) simp_all
  then show "bb_calls (ip_backend (snd (ipr_after_matrix nl env s))) = bb_calls (ip_backend s)" by (simp add: keeps_def)
  show "shell_command_executor (ip_backend s') = serializer_init" if "ipr_after_matrix nl env s = (Inr (), s')"
    using that by (auto simp: ipr_after_matrix_def ebind_Inr in_backend_def emodify_def)
qed

end
