(* ===== verification/Spec2Isabelle.thy ===== *)
theory Spec2Isabelle
  imports Connection_Store Event_System Shell_Serializer Node_Distribution Network_Configurator Scenario_Config Zmq_Group Simulation
    Bridged_Order Distributed Zmq_Pubsub Node_Start Coordinator Startup Core_Topology Movement Lifecycle Qemu_Vm Shell_Processes Json_Encoder Store_Refinement Backends Pyroute2 Queries
begin

text \<open>
  Verification of MiniWorld, an emulator of wireless networks: virtual machines are connected by a
  network backend, a movement director gives the distances between the nodes in every time step, a
  model of the link quality decides from a distance whether two nodes are connected and how well, and
  the simulation manager changes the topology accordingly. In the distributed mode a coordinator runs
  the director and servers run the machines. All paths are below \<open>src/miniworld\<close>.

  \<^bold>\<open>Conventions.\<close> \<open>Prelude\<close>: exceptions are values of \<open>py_error\<close>, a call that may raise
  returns \<open>error + value\<close>; dictionaries are association lists in insertion order, with the locale
  \<open>dict_store\<close> for what a dictionary promises; floats are rationals. \<open>Effects\<close>: operations
  that change a state and may raise, with the rules for invariants on all paths (\<open>keeps\<close>) and for what
  holds after a normal end (\<open>yields\<close>). Code outside of the repository (pyroute2, LatLon, ZeroMQ, JSON
  parsing, regular expressions, the other end of a socket, the shell) is a parameter: a field of an
  environment record or an argument.

  \<^bold>\<open>The store of connections.\<close> \<open>Interfaces\<close> and \<open>Nodes\<close>
  (\<open>model/network/interface\<close>, \<open>model/emulation/nodes\<close>, \<open>model/StartableObject.py\<close>,
  \<open>management/SimulationStateGarbageCollector.py\<close>): classes, numbers and MAC addresses of interfaces,
  kinds of nodes, starting and resetting. \<open>Link_Quality\<close> (\<open>model/network/linkqualitymodels\<close>): the
  models of link quality as interpretations of one locale. \<open>Connection_Store\<close>
  (\<open>model/network/connections\<close>): the two nested dictionaries with the shared details as a heap, their
  invariant, what every operation changes and keeps. \<open>Store_Refinement\<close>: the store answers every
  sequence of calls like a plain table of the links that are up (the locale \<open>simulation\<close>).

  \<^bold>\<open>The simulation.\<close> \<open>Dict_Util\<close> (\<open>util/DictUtil.py\<close>, \<open>model/collections/DistanceMatrix.py\<close>):
  matrices, merging, the form of a matrix on the wire. \<open>Simulation\<close>
  (\<open>management/SimulationManager.py\<close> and \<open>management/network/manager/NetworkManager.py\<close>, the methods of
  stepping): after a step the links are those the matrix asks for, and the store stays consistent on every
  path, exceptions included. \<open>Lifecycle\<close> (the rest of \<open>SimulationManager\<close>, \<open>RunLoop.py\<close>,
  \<open>emulation/NodeStarter.py\<close>, the control methods of \<open>rpc/RPCServer.py\<close>): an inductive set of reachable
  managers under all calls and rounds of the run loop, its invariant, and that a start succeeds or leaves
  nothing behind. \<open>Core_Topology\<close> (\<open>util/CoreConfigFileParser.py\<close>, \<open>model/spatial/CoreConfigNodes.py\<close>,
  the directors' factory) and \<open>Movement\<close> (\<open>model/spatial/MovementPattern\<close>, \<open>Roads.py\<close>): where the distances
  come from; the choosers of the next point share a locale. \<open>Backends\<close> (\<open>NetworkBackends.py\<close>,
  \<open>NetworkBackendStatic.py\<close>, \<open>model/spatial/Nodes.py\<close>, \<open>util/CliUtil.py\<close>,
  \<open>errors/WrapperException.py\<close>).

  \<^bold>\<open>Configuration and progress.\<close> \<open>Json_Config\<close> and \<open>Scenario_Config\<close> (\<open>util/JSONConfig.py\<close>,
  \<open>Config.py\<close>, \<open>Scenario.py\<close>): every option with its resolution per node. \<open>Event_System\<close>
  (\<open>model/events\<close>): progress of events is bounded and completes. \<open>Json_Encoder\<close>
  (\<open>model/network/connections/JSONEncoder.py\<close>): what the RPC server answers is JSON. \<open>Queries\<close> (the set-up and
  the views of \<open>NetworkManager.py\<close>, decorators and queries of \<open>rpc/RPCServer.py\<close>, \<open>concurrency\<close>): announced
  events, exported tables and topology, threads that keep their exception.

  \<^bold>\<open>Backends.\<close> \<open>Device_Names\<close>, \<open>Bridged_Backend\<close>, \<open>Bridged_Links\<close>, \<open>Bridged_Order\<close>
  (\<open>model/network/backends/bridged\<close>): names, bridges, connections with their filters and queues, tunnels,
  link set-up in the single and multi device mode; the locale \<open>backend_frame\<close> carries an
  invariant through the whole backend. \<open>Pyroute2\<close> (\<open>bridged/pyroute2\<close>): the variant that sends batches
  over netlink; the kernel's state of the taps follows the book keeping. \<open>Shell_Serializer\<close> (\<open>management/serialization\<close>): commands run
  in the declared order. \<open>Ip_Networks\<close> and \<open>Network_Configurator\<close>
  (\<open>management/network/manager/provisioner\<close>): addresses of the nodes. \<open>Vde\<close>
  (\<open>model/network/backends/vde\<close>): switches and wire filters.

  \<^bold>\<open>Machines and processes.\<close> \<open>Repl\<close> (\<open>repl/CommandRunner.py\<close>, \<open>repl/REPLable.py\<close>,
  \<open>util/NetUtil.py\<close>): scripts on consoles, line by line, over a socket whose other end is a parameter.
  \<open>Qemu_Vm\<close> (\<open>model/emulation/Qemu.py\<close>): command lines, start from snapshots. \<open>Shell_Processes\<close>
  (\<open>management/ShellHelper.py\<close>). \<open>Node_Start\<close> (\<open>emulation/nodes/EmulationNode.py\<close>,
  \<open>backends/EmulationNodeNetworkBackend.py\<close>, \<open>NodeStarter.py\<close>, the management and central nodes): one node
  from its creation to its configured interfaces; after a successful start every node is configured and
  no event is left open. \<open>Startup\<close> (\<open>main\<close> and the modes of \<open>rpc/RPCServer.py\<close>, \<open>__init__.py\<close>,
  \<open>SingletonInit.py\<close>, \<open>RPCUtil.py\<close>, the factories): a process from its command line to its serving RPC
  server, with the directories, ports and sockets it takes; a coordinator and a server fit together, and
  what a second start on the same host destroys.

  \<^bold>\<open>Distributed mode.\<close> \<open>Node_Distribution\<close> (\<open>management/NodeDistributionStrategy.py\<close>,
  \<open>ServerScore.py\<close>): nodes to servers. \<open>Zmq_Protocol\<close> and \<open>Zmq_Group\<close> (\<open>rpc/zeromq\<close>): the coordinator's
  state machine and clients as a step relation with messages in flight; rounds are a barrier, every
  run makes progress. \<open>Zmq_Pubsub\<close> (\<open>ZeroMQClientSub\<close>, \<open>ZeroMQCServerPubSub\<close>): the run loop of the
  publish/subscribe mode, in which every server works on every published matrix once and in order, and its
  end after an abort; an executable \<open>ps_run\<close> replays schedules. \<open>Coordinator\<close>
  (\<open>SimulationManagerDistributedCoordinator\<close>): the manager's own thread beside the group, its start that
  waits for the nodes and its steps. \<open>Distributed\<close> (the distributed classes of \<open>SimulationManager.py\<close>): how the matrix
  is cut. This theory composes the distribution of the nodes with the cutting of the matrix.

  \<^bold>\<open>Loops.\<close> Loops over data are structural recursion. The round robin of the node
  distribution and the search for the range of a link quality model are \<open>partial_function (option)\<close>, and
  their results are proved to exist; without a server the round robin does not end, which is proved too.
  The wait for the run loop, and the waits for sockets, end because a step sets the event on every path and
  a socket without data runs into its timeout. Repeated commands to a switch need no fuel: the code stops
  after 101 calls. The group communication is a relation; progress is a measure on rounds. With \<open>n\<close> servers
  a round takes at most \<open>3 n + 1\<close> steps, the coordinator's start \<open>12 n + 8\<close>, and an aborted
  publish/subscribe group rests after \<open>3 n\<close>; the bounds count steps of all parts together.

  \<^bold>\<open>Not modelled.\<close> The interactive shell and the progress display (terminals), Arma and replay
  movement (recorded files; the Arma director raises), geodesic distances and GeoJSON, the format of log
  messages, \<open>json\<close> and \<open>msgpack\<close>, the older \<open>ShellCommandExecutor.py\<close> (cannot be imported). Of
  the modelled parts: the clock of the run loop, the non-blocking start, the profiler of the RPC server, the
  IPDB classes of the pyroute2 backend (never used), queries of the RPC server that only hand out a value.
  The manifest lists all of them.
\<close>

section \<open>From the distribution of the nodes to the matrices of the servers\<close>

lemma share_loop_dwf:
  "dwf res \<Longrightarrow> case share_loop node_ids shares servers last_pos cur_pos res of Inl r \<Rightarrow> dwf r | Inr (p, r) \<Rightarrow> dwf r"
  by (induction node_ids shares servers last_pos cur_pos res rule: share_loop.induct)
    (auto simp: Let_def kwf_kset split: option.splits)

lemma fair_pass_dwf:
  "dwf res \<Longrightarrow> case fair_pass node_ids servers last_pos res of Inl r \<Rightarrow> dwf r | Inr (p, r) \<Rightarrow> dwf r"
  by (induction node_ids servers last_pos res rule: fair_pass.induct) (auto simp: kwf_kset)

lemma fair_loop_dwf: "fair_loop node_ids servers last_pos res = Some r \<Longrightarrow> dwf res \<longrightarrow> dwf r"
proof (rule fair_loop.raw_induct [of "\<lambda>node_ids servers last_pos res r. dwf res \<longrightarrow> dwf r"])
  fix f and node_ids servers :: "int list" and last_pos and res r :: distribution
  assume "\<And>node_ids servers last_pos res r. f node_ids servers last_pos res = Some r \<Longrightarrow> dwf res \<longrightarrow> dwf r"
    and "(case fair_pass node_ids servers last_pos res of Inl res \<Rightarrow> Some res | Inr (last_pos, res) \<Rightarrow> f node_ids servers last_pos res) = Some r"
  then show "dwf res \<longrightarrow> dwf r"
    using fair_pass_dwf [of res node_ids servers last_pos] by (auto split: sum.splits prod.splits)
qed

lemma apply_distribution_dwf:
  assumes "apply_distribution_strategy node_ids cnt shares fair remaining = Some r"
  shows "dwf r"
proof -
  let ?res = "map (\<lambda>s. (s, [])) (server_ids cnt) :: distribution"
  have "dwf ?res" by (simp add: kwf_def o_def)
  from share_loop_dwf [OF this, of node_ids shares "server_ids cnt" 0 0] show ?thesis using assms
    by (auto simp: apply_distribution_strategy_def Let_def split: sum.splits if_splits dest: fair_loop_dwf)
qed

lemma concat_disjoint:
  "distinct (concat (map snd a)) \<Longrightarrow> (s, ns) \<in> set a \<Longrightarrow> (t, ms) \<in> set a \<Longrightarrow> s \<noteq> t \<Longrightarrow> set ns \<inter> set ms = {}"
  by (induction a) fastforce+

lemma partition_disjoint:
  assumes "dwf a" "mset (concat (map snd a)) = mset node_ids" "distinct node_ids"
  shows "disjoint_assignment a"
proof -
  have "distinct (concat (map snd a))" using assms(2,3) mset_eq_imp_distinct_iff by blast
  then show ?thesis using assms(1) concat_disjoint [of a] dget_SomeD [of a] unfolding disjoint_assignment_def by blast
qed

text \<open>C27: in a distributed simulation every link is simulated, on the servers of its nodes and nowhere else.
  With at least one server, the equal scheduler returns an assignment of the nodes. If it is written into
  the scenario, then, whichever way the matrices are distributed: every node belongs to exactly one
  server; every entry of the director's matrix reaches the server of each of its two nodes; and a server
  is given no entry that does not concern one of its nodes.
\<close>

theorem distributed_simulation_covers_matrix:
  assumes "0 < cnt_servers" "distinct node_ids"
    and mapping: "\<And>a. nds_equal node_ids cnt_servers = Some (Inr a) \<Longrightarrow> get_distributed_server_node_mapping None scenario = Inr (Some (assignment_json a))"
    and config: "is_protocol_zeromq_mode_mcast config = Inr mcast" "is_publish_individual_distance_matrices None config = Inr individual"
    and "dwf m"
  shows "\<exists>a. nds_equal node_ids cnt_servers = Some (Inr a)
    \<and> (\<forall>n \<in> set node_ids. \<exists>!server. \<exists>ids. dget a server = Some ids \<and> n \<in> set ids)
    \<and> (\<forall>server ids. dget a server = Some ids \<longrightarrow> (\<exists>part. matrix_at_server config scenario m server ids = Inr part
         \<and> (\<forall>x y. dget part (x, y) = (if x \<in> set ids \<or> y \<in> set ids then dget m (x, y) else None))))"
proof -
  obtain a where a: "nds_equal node_ids cnt_servers = Some (Inr a)" "assigned a = mset node_ids"
    using apply_spec [of True cnt_servers None node_ids] assms(1) by (fastforce simp: nds_equal_def)
  have "dwf a" using a(1) apply_distribution_dwf by (auto simp: nds_equal_def split: if_splits)
  moreover have part: "mset (concat (map snd a)) = mset node_ids" using a(2) by (simp add: assigned_def)
  ultimately have disj: "disjoint_assignment a" using assms(2) partition_disjoint by blast
  have "\<exists>!server. \<exists>ids. dget a server = Some ids \<and> n \<in> set ids" if "n \<in> set node_ids" for n
  proof -
    have "n \<in> set (concat (map snd a))" using that part by (metis set_mset_mset)
    then obtain server ids where "(server, ids) \<in> set a" "n \<in> set ids" by auto
    then have "dget a server = Some ids" using \<open>dwf a\<close> by (simp add: dget_of_mem)
    then show ?thesis using \<open>n \<in> set ids\<close> disj unfolding disjoint_assignment_def by blast
  qed
  moreover have "\<exists>part. matrix_at_server config scenario m server ids = Inr part
         \<and> (\<forall>x y. dget part (x, y) = (if x \<in> set ids \<or> y \<in> set ids then dget m (x, y) else None))"
    if "dget a server = Some ids" for server ids
    using server_part [OF mapping [OF a(1)] disj config assms(6) that] .
  ultimately show ?thesis using a(1) by blast
qed

definition ex_assigned_scenario :: json where
  "ex_assigned_scenario = JObj [(''distributed'', JObj [(''server_node_mapping'', int_keyed [(1, JList [JInt 1, JInt 3]), (2, JList [JInt 2])])])]"

theorem distributed_simulation_covers_matrix_witness:
  "\<exists>part. matrix_at_server ex_individual ex_assigned_scenario ex_near 2 [2] = Inr part \<and> dget part (2, 3) = dget ex_near (2, 3) \<and> dget part (1, 3) = None"
proof -
  have equal: "nds_equal [1, 2, 3] 2 = Some (Inr [(1, [1, 3]), (2, [2])])" by code_simp
  have mapping: "get_distributed_server_node_mapping None ex_assigned_scenario = Inr (Some (assignment_json [(1, [1, 3]), (2, [2])]))" by code_simp
  have config: "is_protocol_zeromq_mode_mcast ex_individual = Inr False" "is_publish_individual_distance_matrices None ex_individual = Inr (JBool True)"
    by code_simp+
  have near: "dwf ex_near" by (simp add: ex_near_def kwf_def)
  obtain a where a: "nds_equal [1, 2, 3] 2 = Some (Inr a)"
    "\<forall>server ids. dget a server = Some ids \<longrightarrow> (\<exists>part. matrix_at_server ex_individual ex_assigned_scenario ex_near server ids = Inr part
         \<and> (\<forall>x y. dget part (x, y) = (if x \<in> set ids \<or> y \<in> set ids then dget ex_near (x, y) else None)))"
    using distributed_simulation_covers_matrix [of 2 "[1, 2, 3]" ex_assigned_scenario, OF _ _ _ config near] equal mapping by auto
  have "dget a 2 = Some [2]" using a(1) equal by auto
  then obtain part where "matrix_at_server ex_individual ex_assigned_scenario ex_near 2 [2] = Inr part"
    "\<forall>x y. dget part (x, y) = (if x \<in> set [2] \<or> y \<in> set [2] then dget ex_near (x, y) else None)"
    using a(2) by blast
  then show ?thesis by auto
qed

end
